(* ===== verification/F64.thy ===== *)
theory F64
  imports Prelude
begin

text \<open>
  Go's \<^verbatim>\<open>float64\<close>: IEEE 754 binary64 with rounding to nearest, ties to even. A finite
  value is a sign, a mantissa and an exponent, \<open>(-1)^s * m * 2^e\<close>; \<open>wf64\<close> says when the
  three are those of a double. Every operation computes the exact result on integers and
  rounds it once, so the definitions evaluate in the kernel. The code is compiled without
  fused multiply-add (amd64), so each operation of the source is one rounding here.
  NaN payloads are not modelled: there is one NaN.
\<close>

section \<open>Values and rounding\<close>

datatype f64 = FNaN | FInf bool | FNum bool int int

definition emin :: int where "emin = - 1074"
definition emax :: int where "emax = 971"

function bitlen :: "int \<Rightarrow> int" where
  "bitlen n = (if n \<le> 0 then 0 else 1 + bitlen (n div 2))"
  by pat_completeness auto
termination
  by (relation "measure nat") auto

declare bitlen.simps [simp del, code del]

text \<open>On binary numerals the length is read off the constructors, which is how closed
  terms evaluate.\<close>

primrec bitlen_num :: "num \<Rightarrow> int" where
  "bitlen_num num.One = 1"
| "bitlen_num (num.Bit0 n) = 1 + bitlen_num n"
| "bitlen_num (num.Bit1 n) = 1 + bitlen_num n"

lemma bitlen_nonpos [simp]: "n \<le> 0 \<Longrightarrow> bitlen n = 0"
  by (simp add: bitlen.simps)

lemma bitlen_half: "0 < n \<Longrightarrow> bitlen n = 1 + bitlen (n div 2)"
  by (subst bitlen.simps) simp

lemma bitlen_numeral: "bitlen (numeral k) = bitlen_num k"
  by (induction k) (simp_all add: bitlen_half)

lemma bitlen_code [code]:
  "bitlen 0 = 0" "bitlen (Int.Pos k) = bitlen_num k" "bitlen (Int.Neg k) = 0"
  using bitlen_numeral by simp_all

text \<open>Quotient \<open>n / d\<close> rounded to the nearest integer, ties to even.\<close>

definition rne :: "int \<Rightarrow> int \<Rightarrow> int" where
  "rne n d =
     (let q = n div d; r = n mod d
      in if 2 * r < d \<or> (2 * r = d \<and> even q) then q else q + 1)"

definition pack :: "bool \<Rightarrow> int \<Rightarrow> int \<Rightarrow> f64" where
  "pack s m e = (if emax < e then FInf s else FNum s m e)"

text \<open>The double nearest to \<open>(-1)^s * (n / d) * 2^e\<close>, for \<open>0 \<le> n\<close> and \<open>0 < d\<close>.\<close>

definition round64 :: "bool \<Rightarrow> int \<Rightarrow> int \<Rightarrow> int \<Rightarrow> f64" where
  "round64 s n d e =
     (if n \<le> 0 then FNum s 0 emin
      else let e0 = bitlen n - bitlen d + e - 53;
               e1 = (if d * 2 ^ 53 * 2 ^ nat (e0 - e) \<le> n * 2 ^ nat (e - e0) then e0 + 1 else e0);
               e2 = max e1 emin;
               m = rne (n * 2 ^ nat (e - e2)) (d * 2 ^ nat (e2 - e))
           in if m = 2 ^ 53 then pack s (2 ^ 52) (e2 + 1) else pack s m e2)"

definition smant :: "bool \<Rightarrow> int \<Rightarrow> int" where
  "smant s m = (if s then - m else m)"

text \<open>Constants of the source (exact rationals, rounded once) and conversions of integers.\<close>

definition lit :: "int \<Rightarrow> int \<Rightarrow> f64" where
  "lit n d = round64 (n < 0) \<bar>n\<bar> d 0"

definition f_of_int :: "int \<Rightarrow> f64" where
  "f_of_int i = round64 (i < 0) \<bar>i\<bar> 1 0"

section \<open>Operations\<close>

instantiation f64 :: "{zero, one, uminus, plus, minus, times, inverse, ord}"
begin

definition zero_f64 :: f64 where "0 = FNum False 0 emin"
definition one_f64 :: f64 where "1 = FNum False (2 ^ 52) (- 52)"

fun uminus_f64 :: "f64 \<Rightarrow> f64" where
  "- FNaN = FNaN"
| "- FInf s = FInf (\<not> s)"
| "- FNum s m e = FNum (\<not> s) m e"

fun plus_f64 :: "f64 \<Rightarrow> f64 \<Rightarrow> f64" where
  "FNum s m e + FNum s' m' e' =
     (let k = min e e';
          x = smant s m * 2 ^ nat (e - k) + smant s' m' * 2 ^ nat (e' - k)
      in if x = 0 then FNum (s \<and> s') 0 emin else round64 (x < 0) \<bar>x\<bar> 1 k)"
| "FNaN + y = FNaN"
| "x + FNaN = FNaN"
| "FInf s + FInf s' = (if s = s' then FInf s else FNaN)"
| "FInf s + FNum _ _ _ = FInf s"
| "FNum _ _ _ + FInf s = FInf s"

definition minus_f64 :: "f64 \<Rightarrow> f64 \<Rightarrow> f64" where
  "(x::f64) - y = x + (- y)"

fun times_f64 :: "f64 \<Rightarrow> f64 \<Rightarrow> f64" where
  "FNum s m e * FNum s' m' e' = round64 (s \<noteq> s') (m * m') 1 (e + e')"
| "FNaN * y = FNaN"
| "x * FNaN = FNaN"
| "FInf s * FInf s' = FInf (s \<noteq> s')"
| "FInf s * FNum s' m' _ = (if m' = 0 then FNaN else FInf (s \<noteq> s'))"
| "FNum s m _ * FInf s' = (if m = 0 then FNaN else FInf (s \<noteq> s'))"

fun divide_f64 :: "f64 \<Rightarrow> f64 \<Rightarrow> f64" where
  "FNum s m e div FNum s' m' e' =
     (if m' = 0 then (if m = 0 then FNaN else FInf (s \<noteq> s'))
      else round64 (s \<noteq> s') m m' (e - e'))"
| "FNaN div y = FNaN"
| "x div FNaN = FNaN"
| "FInf s div FInf s' = FNaN"
| "FInf s div FNum s' _ _ = FInf (s \<noteq> s')"
| "FNum s _ _ div FInf s' = FNum (s \<noteq> s') 0 emin"

definition inverse_f64 :: "f64 \<Rightarrow> f64" where
  "inverse x = 1 div (x::f64)"

fun less_f64 :: "f64 \<Rightarrow> f64 \<Rightarrow> bool" where
  "FNum s m e < FNum s' m' e' \<longleftrightarrow>
     (let k = min e e' in smant s m * 2 ^ nat (e - k) < smant s' m' * 2 ^ nat (e' - k))"
| "FNaN < y \<longleftrightarrow> False"
| "x < FNaN \<longleftrightarrow> False"
| "FInf s < FInf s' \<longleftrightarrow> s \<and> \<not> s'"
| "FInf s < FNum _ _ _ \<longleftrightarrow> s"
| "FNum _ _ _ < FInf s \<longleftrightarrow> \<not> s"

fun less_eq_f64 :: "f64 \<Rightarrow> f64 \<Rightarrow> bool" where
  "FNum s m e \<le> FNum s' m' e' \<longleftrightarrow>
     (let k = min e e' in smant s m * 2 ^ nat (e - k) \<le> smant s' m' * 2 ^ nat (e' - k))"
| "FNaN \<le> y \<longleftrightarrow> False"
| "x \<le> FNaN \<longleftrightarrow> False"
| "FInf s \<le> FInf s' \<longleftrightarrow> s \<or> \<not> s'"
| "FInf s \<le> FNum _ _ _ \<longleftrightarrow> s"
| "FNum _ _ _ \<le> FInf s \<longleftrightarrow> \<not> s"

instance ..

end

text \<open>Go's \<open>==\<close> on floats (no NaN equals anything, the two zeros are equal).\<close>

definition feq :: "f64 \<Rightarrow> f64 \<Rightarrow> bool" where
  "feq x y \<longleftrightarrow> x \<le> y \<and> y \<le> x"

fun is_nan :: "f64 \<Rightarrow> bool" where
  "is_nan FNaN = True"
| "is_nan _ = False"

fun fabs :: "f64 \<Rightarrow> f64" where
  "fabs FNaN = FNaN"
| "fabs (FInf _) = FInf False"
| "fabs (FNum _ m e) = FNum False m e"

fun signbit :: "f64 \<Rightarrow> bool" where
  "signbit FNaN = False"
| "signbit (FInf s) = s"
| "signbit (FNum s _ _) = s"

text \<open>\<^verbatim>\<open>math.Max\<close>, in the order of the cases of the standard library.\<close>

definition fmax :: "f64 \<Rightarrow> f64 \<Rightarrow> f64" where
  "fmax x y =
     (if x = FInf False \<or> y = FInf False then FInf False
      else if is_nan x \<or> is_nan y then FNaN
      else if feq x 0 \<and> feq x y then (if signbit x then y else x)
      else if y < x then x else y)"

text \<open>\<^verbatim>\<open>math.Round\<close> (half away from zero) and \<^verbatim>\<open>math.Floor\<close>.\<close>

fun fround :: "f64 \<Rightarrow> f64" where
  "fround (FNum s m e) =
     (if 0 \<le> e then FNum s m e
      else round64 s ((2 * m + 2 ^ nat (- e)) div (2 * 2 ^ nat (- e))) 1 0)"
| "fround x = x"

fun ffloor :: "f64 \<Rightarrow> f64" where
  "ffloor (FNum s m e) =
     (if 0 \<le> e then FNum s m e
      else if s then round64 True ((m + 2 ^ nat (- e) - 1) div 2 ^ nat (- e)) 1 0
      else round64 False (m div 2 ^ nat (- e)) 1 0)"
| "ffloor x = x"

text \<open>Being a double: what every operation returns.\<close>

fun wf64 :: "f64 \<Rightarrow> bool" where
  "wf64 (FNum s m e) \<longleftrightarrow>
     0 \<le> m \<and> m < 2 ^ 53 \<and> emin \<le> e \<and> e \<le> emax \<and> (m < 2 ^ 52 \<longrightarrow> e = emin)"
| "wf64 _ \<longleftrightarrow> True"

end
