(* ===== verification/F64_Order.thy ===== *)
theory F64_Order
  imports F64
begin

text \<open>
  The order theory of the doubles: the value \<open>xval\<close> of a double as a real (the infinities
  are sent to \<open>\<plusminus>2^1024\<close>, one step beyond the largest double), the rounding function \<open>rd\<close>
  on reals, the fact that every operation on finite doubles is the exact result rounded by
  \<open>rd\<close>, and what follows from \<open>rd\<close> being monotone, odd and the identity on doubles. The
  component theories use only the lemmas of the last section.
\<close>

lemma emin_le_emax [simp]: "emin \<le> emax"
  by (simp add: emin_def emax_def)

section \<open>Rounding to integers\<close>

definition rnei :: "real \<Rightarrow> int" where
  "rnei x = (if x - \<lfloor>x\<rfloor> < 1 / 2 \<or> (x - \<lfloor>x\<rfloor> = 1 / 2 \<and> even \<lfloor>x\<rfloor>) then \<lfloor>x\<rfloor> else \<lfloor>x\<rfloor> + 1)"

lemma rnei_of_int [simp]: "rnei (of_int k) = k"
  by (simp add: rnei_def)

lemma rnei_mono: assumes "x \<le> y" shows "rnei x \<le> rnei y"
proof (cases "\<lfloor>x\<rfloor> = \<lfloor>y\<rfloor>")
  case True
  with assms show ?thesis by (auto simp: rnei_def)
next
  case False
  with floor_mono [OF assms] have "\<lfloor>x\<rfloor> + 1 \<le> \<lfloor>y\<rfloor>" by linarith
  then show ?thesis by (auto simp: rnei_def)
qed

lemma rne_rnei: assumes "0 < d" shows "rne n d = rnei (of_int n / of_int d)"
proof -
  have fl: "\<lfloor>real_of_int n / of_int d\<rfloor> = n div d"
    by (rule floor_divide_of_int_eq)
  have fr: "real_of_int n / of_int d - of_int (n div d) = of_int (n mod d) / of_int d"
    using assms by (simp add: field_simps flip: of_int_mult of_int_add)
  have lt: "real_of_int (n mod d) / of_int d < 1 / 2 \<longleftrightarrow> 2 * (n mod d) < d"
  proof -
    have "real_of_int (n mod d) / of_int d < 1 / 2 \<longleftrightarrow> real_of_int (2 * (n mod d)) < of_int d"
      using assms by (simp add: field_simps)
    then show ?thesis by (simp only: of_int_less_iff)
  qed
  have eq: "real_of_int (n mod d) / of_int d = 1 / 2 \<longleftrightarrow> 2 * (n mod d) = d"
  proof -
    have "real_of_int (n mod d) / of_int d = 1 / 2 \<longleftrightarrow> real_of_int (2 * (n mod d)) = of_int d"
      using assms by (auto simp: field_simps)
    then show ?thesis by (simp only: of_int_eq_iff)
  qed
  show ?thesis
    unfolding rne_def rnei_def Let_def fl fr lt eq ..
qed

section \<open>The exponent of a positive real and the rounding function\<close>

definition is_exp :: "real \<Rightarrow> int \<Rightarrow> bool" where
  "is_exp x E \<longleftrightarrow> emin \<le> E \<and> x < 2 powi (E + 53) \<and> (E = emin \<or> 2 powi (E + 52) \<le> x)"

definition rde :: "real \<Rightarrow> int \<Rightarrow> real" where
  "rde x E = of_int (rnei (x / 2 powi E)) * 2 powi E"

definition fexp :: "real \<Rightarrow> int" where
  "fexp x = max (\<lfloor>log 2 x\<rfloor> - 52) emin"

lemma powi_two_mono: "i \<le> j \<Longrightarrow> (2::real) powi i \<le> 2 powi j"
  by (rule power_int_increasing) simp_all

lemma powi_two_less: "(2::real) powi i < 2 powi j \<longleftrightarrow> i < j"
  using power_int_strict_increasing [of i j "2::real"] powi_two_mono [of j i] by force

lemma powi_two_add: "(2::real) powi (i + j) = 2 powi i * 2 powi j"
  by (simp add: power_int_add)

lemma powi_two_not_neg [simp]: "\<not> (2::real) powi e \<le> 0" "\<not> (2::real) powi e < 0"
  by (simp_all add: linorder_not_le linorder_not_less)

lemma fexp_is_exp: assumes "0 < x" shows "is_exp x (fexp x)"
proof -
  let ?l = "\<lfloor>log 2 x\<rfloor>"
  have fl: "real_of_int ?l \<le> log 2 x" "log 2 x < real_of_int (?l + 1)"
    by linarith+
  have two: "2 powr real_of_int k = 2 powi k" for k
    by (rule powr_real_of_int') simp_all
  have x: "2 powr log 2 x = x" using assms by simp
  have "2 powr real_of_int ?l \<le> 2 powr log 2 x"
    using fl(1) by (intro powr_mono) simp_all
  then have lo: "2 powi ?l \<le> x" unfolding two x .
  have "2 powr log 2 x < 2 powr real_of_int (?l + 1)"
    using fl(2) by (intro powr_less_mono) simp_all
  then have hi: "x < 2 powi (?l + 1)" unfolding two x .
  have "?l + 1 \<le> fexp x + 53" unfolding fexp_def by linarith
  from powi_two_mono [OF this] hi have "x < 2 powi (fexp x + 53)" by linarith
  then show ?thesis
    using lo by (auto simp: is_exp_def fexp_def max_def)
qed

lemma is_exp_unique: assumes "is_exp x E" "is_exp x F" shows "E = F"
proof (rule ccontr)
  have aux: False if "is_exp x E" "is_exp x F" "E < F" for E F
  proof -
    from that have "2 powi (F + 52) \<le> x" "x < 2 powi (E + 53)"
      by (auto simp: is_exp_def)
    moreover have "(2::real) powi (E + 53) \<le> 2 powi (F + 52)"
      using \<open>E < F\<close> by (intro powi_two_mono) simp
    ultimately show False by simp
  qed
  assume "E \<noteq> F"
  then show False using aux assms by (metis linorder_neqE)
qed

lemma rnei_bounds:
  assumes "is_exp x E" "0 \<le> x"
  shows "0 \<le> rnei (x / 2 powi E)" "rnei (x / 2 powi E) \<le> 2 ^ 53"
    and "E \<noteq> emin \<Longrightarrow> 2 ^ 52 \<le> rnei (x / 2 powi E)"
proof -
  have p: "(0::real) < 2 powi E" by simp
  have "x / 2 powi E \<le> of_int (2 ^ 53)"
    using assms p by (simp add: is_exp_def powi_two_add field_simps)
  from rnei_mono [OF this] show "rnei (x / 2 powi E) \<le> 2 ^ 53"
    by (simp only: rnei_of_int)
  have "of_int 0 \<le> x / 2 powi E" using assms by simp
  from rnei_mono [OF this] show "0 \<le> rnei (x / 2 powi E)"
    by (simp only: rnei_of_int)
  assume "E \<noteq> emin"
  with assms have "of_int (2 ^ 52) \<le> x / 2 powi E"
    using p by (simp add: is_exp_def powi_two_add field_simps)
  from rnei_mono [OF this] show "2 ^ 52 \<le> rnei (x / 2 powi E)"
    by (simp only: rnei_of_int)
qed

lemma rde_mono:
  assumes "is_exp x E" "is_exp y F" "0 \<le> x" "x \<le> y"
  shows "rde x E \<le> rde y F"
proof (cases "E = F")
  case True
  have "x / 2 powi F \<le> y / 2 powi F" using assms by (simp add: divide_right_mono)
  then show ?thesis
    using True rnei_mono by (simp add: rde_def mult_right_mono)
next
  case False
  have "E < F"
  proof (rule ccontr)
    assume "\<not> E < F"
    with False have "F < E" by simp
    then have "2 powi (E + 52) \<le> x" "y < 2 powi (F + 53)"
      using assms by (auto simp: is_exp_def)
    moreover have "(2::real) powi (F + 53) \<le> 2 powi (E + 52)"
      using \<open>F < E\<close> by (intro powi_two_mono) simp
    ultimately have "2 powi (E + 52) \<le> x" "y < 2 powi (E + 52)" by simp_all
    with assms show False by simp
  qed
  with assms have "F \<noteq> emin" by (auto simp: is_exp_def)
  have "rde x E \<le> of_int (2 ^ 53) * 2 powi E"
    using rnei_bounds(2) [OF assms(1,3)] unfolding rde_def
    by (intro mult_right_mono) (simp_all only: of_int_le_iff, simp)
  also have "\<dots> = 2 powi (E + 1 + 52)"
    by (simp add: powi_two_add)
  also have "\<dots> \<le> 2 powi (F + 52)"
    using \<open>E < F\<close> by (intro powi_two_mono) simp
  also have "\<dots> = of_int (2 ^ 52) * 2 powi F"
    by (simp add: powi_two_add)
  also have "\<dots> \<le> rde y F"
    using rnei_bounds(3) [OF assms(2) _ \<open>F \<noteq> emin\<close>] assms unfolding rde_def
    by (intro mult_right_mono) (simp_all only: of_int_le_iff, simp_all)
  finally show ?thesis .
qed

lemma rde_exact:
  assumes "is_exp x E" "x = of_int m * 2 powi e" "0 \<le> m" "m \<le> 2 ^ 53" "emin \<le> e"
  shows "rde x E = x"
proof -
  have "E \<le> e \<or> x = 2 powi (e + 53)"
  proof (rule ccontr)
    assume a: "\<not> ?thesis"
    with assms have "2 powi (E + 52) \<le> x" by (auto simp: is_exp_def)
    moreover have "(2::real) powi (e + 53) \<le> 2 powi (E + 52)"
      using a by (intro powi_two_mono) simp
    moreover have "x \<le> 2 powi (e + 53)"
      using assms of_int_le_iff [of m "2 ^ 53", where 'a = real]
      by (simp add: powi_two_add mult.commute)
    ultimately show False using a by simp
  qed
  then obtain k :: int where k: "x = of_int k * 2 powi E"
  proof
    assume "E \<le> e"
    then have "(2::real) powi e = 2 ^ nat (e - E) * 2 powi E"
      by (simp flip: power_int_of_nat powi_two_add)
    then have "x = of_int (m * 2 ^ nat (e - E)) * 2 powi E"
      using assms(2) by simp
    then show ?thesis by (rule that)
  next
    assume x: "x = 2 powi (e + 53)"
    with assms(1) have "e + 53 < E + 53" by (simp add: is_exp_def powi_two_less)
    with assms(1,5) have "E \<noteq> emin" by auto
    with assms(1) x have "(2::real) powi (E + 52) \<le> 2 powi (e + 53)" by (simp add: is_exp_def)
    then have "E + 52 \<le> e + 53" by (meson linorder_not_le powi_two_less)
    with \<open>e + 53 < E + 53\<close> have "E = e + 1" by simp
    then have "x = 2 powi (52 + E)"
      using x by (simp add: add.commute)
    then have "x = of_int (2 ^ 52) * 2 powi E"
      by (simp only: powi_two_add) simp
    then show ?thesis by (rule that)
  qed
  then show ?thesis by (simp add: rde_def)
qed


section \<open>Rounding reals to doubles\<close>

definition rd :: "real \<Rightarrow> real" where
  "rd x = (if x = 0 then 0 else sgn x * min (2 ^ 1024) (rde \<bar>x\<bar> (fexp \<bar>x\<bar>)))"

lemma rde_nonneg: "is_exp x E \<Longrightarrow> 0 \<le> x \<Longrightarrow> 0 \<le> rde x E"
  using rnei_bounds(1) by (simp add: rde_def)

lemma rd_pos: "0 < x \<Longrightarrow> rd x = min (2 ^ 1024) (rde x (fexp x))"
  by (simp add: rd_def)

lemma rd_zero [simp]: "rd 0 = 0"
  by (simp add: rd_def)

lemma rd_minus [simp]: "rd (- x) = - rd x"
  by (simp add: rd_def sgn_minus)

lemma rd_nonneg: assumes "0 \<le> x" shows "0 \<le> rd x"
proof (cases "x = 0")
  case False
  with assms have "0 < x" by simp
  then show ?thesis
    using rde_nonneg [OF fexp_is_exp] by (simp add: rd_pos)
qed simp

lemma rd_mono: assumes "x \<le> y" shows "rd x \<le> rd y"
proof -
  have pos: "rd x \<le> rd y" if "0 < x" "x \<le> y" for x y
  proof -
    have "rde x (fexp x) \<le> rde y (fexp y)"
      using that by (intro rde_mono fexp_is_exp) simp_all
    then show ?thesis using that by (simp add: rd_pos min.coboundedI2)
  qed
  consider "0 < x" | "x \<le> 0" "0 \<le> y" | "y < 0" by linarith
  then show ?thesis
  proof cases
    case 1
    then show ?thesis using assms by (rule pos)
  next
    case 2
    then show ?thesis using rd_nonneg [of y] rd_nonneg [of "- x"] by simp
  next
    case 3
    then have "rd (- y) \<le> rd (- x)" using assms by (intro pos) simp_all
    then show ?thesis by simp
  qed
qed

lemma rd_bounds: "- (2 ^ 1024) \<le> rd x" "rd x \<le> 2 ^ 1024"
proof -
  have le: "rd y \<le> 2 ^ 1024" for y
  proof (cases "0 < y")
    case True
    then show ?thesis by (simp add: rd_pos)
  next
    case False
    then have "0 \<le> rd (- y)" by (intro rd_nonneg) simp
    then have "rd y \<le> 0" by simp
    also have "(0::real) \<le> 2 ^ 1024" by (rule zero_le_power) simp
    finally show ?thesis .
  qed
  from le show "rd x \<le> 2 ^ 1024" .
  from le [of "- x"] show "- (2 ^ 1024) \<le> rd x" by simp
qed

text \<open>A mantissa of at most 53 bits at an exponent of the format is not rounded.\<close>

lemma rd_exact:
  assumes "\<bar>m\<bar> \<le> 2 ^ 53" "emin \<le> e" "e \<le> emax"
  shows "rd (of_int m * 2 powi e) = of_int m * 2 powi e"
proof -
  have pos: "rd (of_int m * 2 powi e) = of_int m * 2 powi e" if "0 < m" "m \<le> 2 ^ 53" for m :: int
  proof -
    let ?x = "of_int m * 2 powi e :: real"
    have x: "0 < ?x" using that by simp
    have "?x \<le> of_int (2 ^ 53) * 2 powi e"
      using that(2) by (intro mult_right_mono) (simp_all only: of_int_le_iff, simp)
    also have "\<dots> = 2 powi (53 + e)" by (simp add: powi_two_add)
    also have "\<dots> \<le> 2 powi 1024"
      using assms(3) by (intro powi_two_mono) (simp add: emax_def)
    finally have "?x \<le> 2 ^ 1024" by simp
    then show ?thesis
      using rde_exact [OF fexp_is_exp [OF x] refl] that assms(2) x by (simp add: rd_pos)
  qed
  consider "m = 0" | "0 < m" | "m < 0" by linarith
  then show ?thesis
  proof cases
    case 3
    then have "rd (of_int (- m) * 2 powi e) = of_int (- m) * 2 powi e"
      using assms(1) by (intro pos) simp_all
    then show ?thesis by simp
  qed (use pos assms(1) in simp_all)
qed

lemma rd_of_int: "\<bar>m\<bar> \<le> 2 ^ 53 \<Longrightarrow> rd (of_int m) = of_int m"
  using rd_exact [of m 0] by (simp add: emin_def emax_def)

section \<open>The integer rounding algorithm computes \<open>rd\<close>\<close>

fun xval :: "f64 \<Rightarrow> real" where
  "xval FNaN = 0"
| "xval (FInf s) = (if s then - (2 ^ 1024) else 2 ^ 1024)"
| "xval (FNum s m e) = of_int (smant s m) * 2 powi e"

lemma bitlen_bounds: "0 < n \<Longrightarrow> 2 powi (bitlen n - 1) \<le> real_of_int n \<and> real_of_int n < 2 powi bitlen n"
proof (induction n rule: bitlen.induct)
  case (1 n)
  show ?case
  proof (cases "n = 1")
    case True
    then show ?thesis by (simp add: bitlen_half)
  next
    case False
    with 1 have IH: "2 powi (bitlen (n div 2) - 1) \<le> real_of_int (n div 2)"
      "real_of_int (n div 2) < 2 powi bitlen (n div 2)" by simp_all
    let ?b = "bitlen (n div 2)"
    from IH(2) have "real_of_int (n div 2) + 1 \<le> 2 powi ?b"
    proof -
      have "0 \<le> ?b"
      proof (rule ccontr)
        assume "\<not> 0 \<le> ?b"
        then have "(2::real) powi ?b \<le> 2 powi 0" by (intro powi_two_mono) simp
        with IH(2) have "n div 2 < 1" by simp
        with False 1 show False by linarith
      qed
      then have "(2::real) powi ?b = of_int (2 ^ nat ?b)"
        by (simp flip: power_int_of_nat)
      with IH(2) have "n div 2 < 2 ^ nat ?b" by (simp only: of_int_less_iff)
      then have "n div 2 + 1 \<le> 2 ^ nat ?b" by simp
      then have "real_of_int (n div 2 + 1) \<le> of_int (2 ^ nat ?b)" by (simp only: of_int_le_iff)
      then show ?thesis using \<open>(2::real) powi ?b = of_int (2 ^ nat ?b)\<close> by simp
    qed
    moreover have "real_of_int n < real_of_int (2 * (n div 2 + 1))" "real_of_int (2 * (n div 2)) \<le> real_of_int n"
      unfolding of_int_less_iff of_int_le_iff by presburger+
    moreover have "bitlen n = ?b + 1" using "1.prems" by (simp add: bitlen_half)
    moreover have "(2::real) powi (?b + 1) = 2 * 2 powi ?b" "(2::real) powi ?b = 2 * 2 powi (?b - 1)"
      using powi_two_add [of ?b 1] powi_two_add [of "?b - 1" 1] by simp_all
    ultimately show ?thesis using IH(1) by simp
  qed
qed


lemma scale_two:
  assumes "0 < d"
  shows "real_of_int (n * 2 ^ nat (e - k)) / of_int (d * 2 ^ nat (k - e)) = of_int n / of_int d * 2 powi e / 2 powi k"
proof -
  have "(2::real) powi e / 2 powi k = 2 powi (e - k)"
    by (simp add: power_int_diff)
  also have "\<dots> = 2 ^ nat (e - k) / 2 ^ nat (k - e)"
    by (cases "k \<le> e") (simp_all add: power_int_def field_simps)
  finally have "of_int n / of_int d * (2 powi e / 2 powi k) =
      real_of_int n / of_int d * (2 ^ nat (e - k) / 2 ^ nat (k - e))" by simp
  then show ?thesis by simp
qed

lemma round64_exponent:
  assumes "0 < n" "0 < d"
    and "e0 = bitlen n - bitlen d + e - 53"
    and "e1 = (if d * 2 ^ 53 * 2 ^ nat (e0 - e) \<le> n * 2 ^ nat (e - e0) then e0 + 1 else e0)"
    and "v = of_int n / of_int d * 2 powi e"
  shows "is_exp v (max e1 emin)"
proof -
  have d: "0 < real_of_int d" using assms by simp
  have n': "2 powi (bitlen n - 1) \<le> real_of_int n" "real_of_int n < 2 powi bitlen n"
    and d': "2 powi (bitlen d - 1) \<le> real_of_int d" "real_of_int d < 2 powi bitlen d"
    using bitlen_bounds assms by auto
  have "(2::real) powi (e0 + 52) = 2 powi (bitlen n - 1) / 2 powi bitlen d * 2 powi e"
    by (simp add: assms(3) power_int_diff power_int_add field_simps)
  also have "\<dots> \<le> v"
    unfolding assms(5) using n' d' d assms(1) by (intro mult_right_mono frac_le) simp_all
  finally have lo: "2 powi (e0 + 52) \<le> v" .
  have "v < 2 powi bitlen n / 2 powi (bitlen d - 1) * 2 powi e"
    unfolding assms(5) using n' d' d assms(1) by (intro mult_strict_right_mono frac_less) (use assms(1) in simp_all)
  also have "\<dots> = 2 powi (e0 + 54)"
    by (simp add: assms(3) power_int_diff power_int_add field_simps)
  finally have hi: "v < 2 powi (e0 + 54)" .
  have "d * 2 ^ 53 * 2 ^ nat (e0 - e) \<le> n * 2 ^ nat (e - e0) \<longleftrightarrow>
      real_of_int (2 ^ 53 * (d * 2 ^ nat (e0 - e))) \<le> of_int (n * 2 ^ nat (e - e0))"
    by (simp only: of_int_le_iff) (simp add: mult_ac)
  also have "\<dots> \<longleftrightarrow> 2 ^ 53 \<le> real_of_int (n * 2 ^ nat (e - e0)) / of_int (d * 2 ^ nat (e0 - e))"
    using d by (simp add: field_simps)
  also have "\<dots> \<longleftrightarrow> 2 ^ 53 \<le> v / 2 powi e0"
    unfolding scale_two [OF assms(2)] assms(5) ..
  also have "\<dots> \<longleftrightarrow> 2 powi (e0 + 53) \<le> v"
    by (simp add: powi_two_add field_simps)
  finally have tst: "d * 2 ^ 53 * 2 ^ nat (e0 - e) \<le> n * 2 ^ nat (e - e0) \<longleftrightarrow> 2 powi (e0 + 53) \<le> v" .
  have e1: "2 powi (e1 + 52) \<le> v" "v < 2 powi (e1 + 53)"
    unfolding assms(4) tst using lo hi by (simp_all add: add.commute)
  moreover have "(2::real) powi (e1 + 53) \<le> 2 powi (max e1 emin + 53)"
    by (intro powi_two_mono) simp
  ultimately show ?thesis
    by (auto simp: is_exp_def max_def)
qed

lemma pack_correct:
  fixes s :: bool
  assumes "is_exp v E" "0 \<le> v" and m: "m = rnei (v / 2 powi E)"
  defines "r \<equiv> (if m = 2 ^ 53 then pack s (2 ^ 52) (E + 1) else pack s m E)"
  shows "xval r = (if s then - 1 else 1) * min (2 ^ 1024) (rde v E)"
    and "wf64 r" and "\<not> is_nan r" and "signbit r = s"
proof -
  have b: "0 \<le> m" "m \<le> 2 ^ 53" "E \<noteq> emin \<Longrightarrow> 2 ^ 52 \<le> m"
    using rnei_bounds [OF assms(1,2)] m by simp_all
  have E: "emin \<le> E" using assms(1) by (simp add: is_exp_def)
  have rde: "rde v E = of_int m * 2 powi E" by (simp add: rde_def m)
  have big: "2 ^ 1024 \<le> rde v E" if "2 ^ k \<le> m" "971 < E + int k - 52" for k
  proof -
    have "2 ^ 1024 = (2::real) powi 1024" by simp
    also have "\<dots> \<le> 2 powi (int k + E)" using that(2) by (intro powi_two_mono) simp
    also have "\<dots> = of_int (2 ^ k) * 2 powi E" by (simp add: powi_two_add)
    also have "\<dots> \<le> rde v E" unfolding rde
      using that(1) by (intro mult_right_mono) (simp_all only: of_int_le_iff, simp)
    finally show ?thesis .
  qed
  have small: "rde v E \<le> 2 ^ 1024" if "m \<le> 2 ^ k" "E + int k - 52 \<le> 972" for k
  proof -
    have "rde v E \<le> of_int (2 ^ k) * 2 powi E" unfolding rde
      using that(1) by (intro mult_right_mono) (simp_all only: of_int_le_iff, simp)
    also have "\<dots> = 2 powi (int k + E)" by (simp add: powi_two_add)
    also have "\<dots> \<le> 2 powi 1024" using that(2) by (intro powi_two_mono) simp
    finally show ?thesis by simp
  qed
  show "xval r = (if s then - 1 else 1) * min (2 ^ 1024) (rde v E)"
  proof (cases "m = 2 ^ 53")
    case True
    have "2 ^ 52 * (2::real) powi (E + 1) = rde v E"
      using True by (simp add: rde powi_two_add)
    then show ?thesis
      using True big [of 53] small [of 53] by (auto simp: r_def pack_def emax_def smant_def)
  next
    case False
    with b have "m < 2 ^ 53" by simp
    moreover have "971 < E \<Longrightarrow> 2 ^ 52 \<le> m" using b(3) by (simp add: emin_def)
    ultimately show ?thesis
      using False big [of 52] small [of 53] by (auto simp: r_def pack_def emax_def smant_def rde)
  qed
  have "m < 2 ^ 52 \<Longrightarrow> E = emin" using b(3) by linarith
  then show "wf64 r" using b(1,2) E by (auto simp: r_def pack_def)
  show "\<not> is_nan r" "signbit r = s" by (simp_all add: r_def pack_def)
qed

lemma round64_correct:
  assumes "0 \<le> n" "0 < d"
  shows "xval (round64 s n d e) = (if s then - 1 else 1) * rd (of_int n / of_int d * 2 powi e)"
    and "wf64 (round64 s n d e)" and "\<not> is_nan (round64 s n d e)"
    and "signbit (round64 s n d e) = s"
proof -
  have "xval (round64 s n d e) = (if s then - 1 else 1) * rd (of_int n / of_int d * 2 powi e) \<and> wf64 (round64 s n d e) \<and> \<not> is_nan (round64 s n d e) \<and> signbit (round64 s n d e) = s"
  proof (cases "n = 0")
    case True
    then show ?thesis by (simp add: round64_def smant_def emin_def emax_def)
  next
    case False
    with assms have n: "0 < n" by simp
    define v where "v = real_of_int n / of_int d * 2 powi e"
    define e0 where "e0 = bitlen n - bitlen d + e - 53"
    define e1 where "e1 = (if d * 2 ^ 53 * 2 ^ nat (e0 - e) \<le> n * 2 ^ nat (e - e0) then e0 + 1 else e0)"
    define E where "E = max e1 emin"
    define m where "m = rne (n * 2 ^ nat (e - E)) (d * 2 ^ nat (E - e))"
    have v: "0 < v" using n assms by (simp add: v_def)
    have ex: "is_exp v E"
      unfolding E_def by (rule round64_exponent [OF n assms(2) e0_def e1_def v_def])
    have m: "m = rnei (v / 2 powi E)"
      unfolding m_def v_def using assms(2) by (subst rne_rnei) (simp_all only: scale_two, simp)
    have r: "round64 s n d e = (if m = 2 ^ 53 then pack s (2 ^ 52) (E + 1) else pack s m E)"
      using n by (simp add: round64_def Let_def flip: e0_def e1_def) (simp add: m_def E_def e1_def)
    have "fexp v = E" using is_exp_unique [OF fexp_is_exp [OF v] ex] .
    then show ?thesis
      using pack_correct [OF ex _ m, of s] v unfolding r v_def [symmetric] by (simp add: rd_pos)
  qed
  then show "xval (round64 s n d e) = (if s then - 1 else 1) * rd (of_int n / of_int d * 2 powi e)"
    "wf64 (round64 s n d e)" "\<not> is_nan (round64 s n d e)" "signbit (round64 s n d e) = s"
    by simp_all
qed


section \<open>Operations on finite doubles\<close>

fun is_fin :: "f64 \<Rightarrow> bool" where
  "is_fin (FNum _ _ _) = True"
| "is_fin _ = False"

lemma is_fin_not_nan: "is_fin x \<Longrightarrow> \<not> is_nan x"
  by (cases x) simp_all

lemma align_two:
  assumes "k \<le> e" shows "real_of_int (a * 2 ^ nat (e - k)) * 2 powi k = of_int a * 2 powi e"
  using assms by (simp add: power_int_add [symmetric] flip: power_int_of_nat)

lemma xval_zero [simp]: "xval 0 = 0" and xval_one [simp]: "xval 1 = 1"
  by (simp_all add: zero_f64_def one_f64_def smant_def power_int_minus)

lemma xval_uminus [simp]: "xval (- x) = - xval x"
  by (cases x) (auto simp: smant_def)

lemma is_nan_uminus [simp]: "is_nan (- x) = is_nan x"
  by (cases x) simp_all

lemma is_fin_uminus [simp]: "is_fin (- x) = is_fin x"
  by (cases x) simp_all

lemma plus_fin:
  assumes "is_fin x" "is_fin y"
  shows "xval (x + y) = rd (xval x + xval y)" "\<not> is_nan (x + y)"
proof -
  obtain s m e s' m' e' where xy: "x = FNum s m e" "y = FNum s' m' e'"
    using assms by (metis is_fin.elims(2))
  define k where "k = min e e'"
  define z where "z = smant s m * 2 ^ nat (e - k) + smant s' m' * 2 ^ nat (e' - k)"
  have z: "xval x + xval y = of_int z * 2 powi k"
    unfolding z_def xy xval.simps of_int_add distrib_right
    by (subst (1 2) align_two) (simp_all add: k_def)
  have sum: "x + y = (if z = 0 then FNum (s \<and> s') 0 emin else round64 (z < 0) \<bar>z\<bar> 1 k)"
    by (simp add: xy z_def k_def Let_def)
  show "xval (x + y) = rd (xval x + xval y)" "\<not> is_nan (x + y)"
    using round64_correct(1,3) [of "\<bar>z\<bar>" 1 "z < 0" k] rd_minus [of "of_int z * 2 powi k"]
    unfolding sum z by (auto simp: smant_def simp del: rd_minus)
qed

lemma times_fin:
  assumes "is_fin x" "is_fin y" "wf64 x" "wf64 y"
  shows "xval (x * y) = rd (xval x * xval y)" "\<not> is_nan (x * y)"
proof -
  obtain s m e s' m' e' where xy: "x = FNum s m e" "y = FNum s' m' e'"
    using assms by (metis is_fin.elims(2))
  have m: "0 \<le> m * m'" using assms by (simp add: xy)
  have "xval x * xval y = (if s \<noteq> s' then - 1 else 1) * (of_int (m * m') / of_int 1 * 2 powi (e + e'))"
    by (auto simp: xy smant_def power_int_add)
  then show "xval (x * y) = rd (xval x * xval y)" "\<not> is_nan (x * y)"
    using round64_correct(1,3) [OF m, of 1 "s \<noteq> s'" "e + e'"] by (auto simp: xy)
qed

lemma divide_fin:
  assumes "is_fin x" "is_fin y" "wf64 x" "wf64 y" "xval y \<noteq> 0"
  shows "xval (x / y) = rd (xval x / xval y)" "\<not> is_nan (x / y)"
proof -
  obtain s m e s' m' e' where xy: "x = FNum s m e" "y = FNum s' m' e'"
    using assms by (metis is_fin.elims(2))
  have "m' \<noteq> 0" using assms(5) by (cases s') (simp_all add: xy smant_def)
  then have m: "0 \<le> m" "0 < m'" "m' \<noteq> 0" using assms(3,4) by (simp_all add: xy)
  have "xval x / xval y = (if s \<noteq> s' then - 1 else 1) * (of_int m / of_int m' * 2 powi (e - e'))"
    by (auto simp: xy smant_def power_int_diff)
  then show "xval (x / y) = rd (xval x / xval y)" "\<not> is_nan (x / y)"
    using round64_correct(1,3) [OF m(1,2), of "s \<noteq> s'" "e - e'"] m by (auto simp: xy)
qed

lemma wf64_round64: "0 \<le> n \<Longrightarrow> 0 < d \<Longrightarrow> wf64 (round64 s n d e)"
  by (rule round64_correct)

lemma wf64_zero_num: "wf64 (FNum s 0 emin)"
  by (simp add: emin_def emax_def)

lemma wf64_consts [simp, float_intro]: "wf64 0" "wf64 1"
  by (simp_all add: zero_f64_def one_f64_def emin_def emax_def)

lemma wf64_uminus [simp]: "wf64 (- x) = wf64 x"
  by (cases x) simp_all

lemma wf64_plus [simp, float_intro]: "wf64 (x + y)"
  by (cases x; cases y) (auto simp: Let_def wf64_zero_num wf64_round64)

lemma wf64_minus [simp, float_intro]: "wf64 (x - y)"
  by (simp add: minus_f64_def)

lemma wf64_times [float_intro]: "wf64 x \<Longrightarrow> wf64 y \<Longrightarrow> wf64 (x * y)"
  by (cases x; cases y) (auto intro: wf64_round64)

lemma wf64_divide [float_intro]: "wf64 x \<Longrightarrow> wf64 y \<Longrightarrow> wf64 (x / y)"
  by (cases x; cases y) (auto simp: wf64_zero_num intro!: wf64_round64)

lemma wf64_lit [simp, float_intro]: "0 < d \<Longrightarrow> wf64 (lit n d)"
  by (simp add: lit_def wf64_round64)

lemma wf64_f_of_int [simp, float_intro]: "wf64 (f_of_int i)"
  by (simp add: f_of_int_def wf64_round64)

lemma wf64_fabs [float_intro]: "wf64 x \<Longrightarrow> wf64 (fabs x)"
  by (cases x) simp_all

lemma xval_lit: "0 < d \<Longrightarrow> xval (lit n d) = rd (of_int n / of_int d)"
  using round64_correct(1) [of "\<bar>n\<bar>" d "n < 0" 0] rd_minus [of "of_int n / of_int d"]
  by (auto simp: lit_def simp del: rd_minus)

lemma xval_f_of_int: "xval (f_of_int i) = rd (of_int i)"
  using xval_lit [of 1 i] by (simp add: lit_def f_of_int_def)

lemma not_nan_lit [simp]: "0 < d \<Longrightarrow> \<not> is_nan (lit n d)" and not_nan_f_of_int [simp]: "\<not> is_nan (f_of_int i)"
  by (simp_all add: lit_def f_of_int_def round64_correct(3))

section \<open>Comparisons\<close>

lemma xval_fin_bound:
  assumes "wf64 x" "is_fin x" shows "\<bar>xval x\<bar> < 2 ^ 1024"
proof -
  obtain s m e where x: "x = FNum s m e" using assms by (metis is_fin.elims(2))
  have "\<bar>xval x\<bar> = of_int m * 2 powi e" using assms by (auto simp: x smant_def abs_mult)
  also have "\<dots> < of_int (2 ^ 53) * 2 powi e"
    using assms by (intro mult_strict_right_mono) (simp_all only: of_int_less_iff x wf64.simps, simp)
  also have "\<dots> = 2 powi (53 + e)" by (simp add: powi_two_add)
  also have "\<dots> \<le> 2 powi 1024" using assms by (intro powi_two_mono) (simp add: x emax_def)
  finally show ?thesis by simp
qed

lemma fin_compare:
  "FNum s m e \<le> FNum s' m' e' \<longleftrightarrow> xval (FNum s m e) \<le> xval (FNum s' m' e')"
  "FNum s m e < FNum s' m' e' \<longleftrightarrow> xval (FNum s m e) < xval (FNum s' m' e')"
proof -
  define k where "k = min e e'"
  define a where "a = smant s m * 2 ^ nat (e - k)"
  define b where "b = smant s' m' * 2 ^ nat (e' - k)"
  have x: "xval (FNum s m e) = of_int a * 2 powi k"
    unfolding a_def by (subst align_two) (simp_all add: k_def)
  have y: "xval (FNum s' m' e') = of_int b * 2 powi k"
    unfolding b_def by (subst align_two) (simp_all add: k_def)
  show "FNum s m e \<le> FNum s' m' e' \<longleftrightarrow> xval (FNum s m e) \<le> xval (FNum s' m' e')"
    unfolding x y by (simp add: Let_def flip: k_def a_def b_def)
  show "FNum s m e < FNum s' m' e' \<longleftrightarrow> xval (FNum s m e) < xval (FNum s' m' e')"
    unfolding x y by (simp add: Let_def flip: k_def a_def b_def)
qed

lemma f64_le_iff:
  assumes "wf64 x" "wf64 y"
  shows "x \<le> y \<longleftrightarrow> \<not> is_nan x \<and> \<not> is_nan y \<and> xval x \<le> xval y"
  using assms xval_fin_bound [of x] xval_fin_bound [of y]
  by (cases x; cases y) (auto simp: fin_compare simp del: xval.simps(3) less_eq_f64.simps(1))

lemma f64_less_iff:
  assumes "wf64 x" "wf64 y"
  shows "x < y \<longleftrightarrow> \<not> is_nan x \<and> \<not> is_nan y \<and> xval x < xval y"
  using assms xval_fin_bound [of x] xval_fin_bound [of y]
  by (cases x; cases y) (auto simp: fin_compare simp del: xval.simps(3) less_f64.simps(1))

lemma f64_feq_iff:
  assumes "wf64 x" "wf64 y"
  shows "feq x y \<longleftrightarrow> \<not> is_nan x \<and> \<not> is_nan y \<and> xval x = xval y"
  using assms by (auto simp: feq_def f64_le_iff)


section \<open>What the components use\<close>

lemma plus_f64_comm: "(x::f64) + y = y + x"
  by (cases x; cases y) (auto simp: Let_def min.commute add.commute conj_commute)

lemma times_f64_comm: "(x::f64) * y = y * x"
  by (cases x; cases y; cases "signbit x"; cases "signbit y") (auto simp: mult.commute add.commute)

lemma rd_xval: assumes "wf64 x" "is_fin x" shows "rd (xval x) = xval x"
proof -
  obtain s m e where x: "x = FNum s m e" using assms by (metis is_fin.elims(2))
  show ?thesis
    unfolding x xval.simps using assms by (intro rd_exact) (auto simp: x smant_def)
qed

lemma f64_le_refl: "\<not> is_nan x \<Longrightarrow> x \<le> (x::f64)"
  by (cases x) simp_all

lemma f64_le_trans: "wf64 x \<Longrightarrow> wf64 y \<Longrightarrow> wf64 z \<Longrightarrow> x \<le> y \<Longrightarrow> y \<le> z \<Longrightarrow> x \<le> (z::f64)"
  by (simp add: f64_le_iff)

lemma f64_not_less: "wf64 x \<Longrightarrow> wf64 y \<Longrightarrow> \<not> is_nan x \<Longrightarrow> \<not> is_nan y \<Longrightarrow> \<not> x < y \<longleftrightarrow> y \<le> (x::f64)"
  by (auto simp: f64_le_iff f64_less_iff)

lemma f64_less_imp_le: "x < y \<Longrightarrow> x \<le> (y::f64)"
  by (cases x; cases y) (auto simp: Let_def)

lemma f64_le_not_less: "x \<le> y \<Longrightarrow> \<not> y < (x::f64)"
  by (cases x; cases y) (auto simp: Let_def min.commute)

lemma f64_le_not_nan: "x \<le> (y::f64) \<Longrightarrow> \<not> is_nan x \<and> \<not> is_nan y"
  by (cases x; cases y) simp_all

lemma f64_nan_compare [simp]: "\<not> FNaN < y" "\<not> x < FNaN" "\<not> FNaN \<le> y" "\<not> x \<le> FNaN"
  by (cases x; cases y; simp)+

lemma f64_less_not_nan: "x < (y::f64) \<Longrightarrow> \<not> is_nan x \<and> \<not> is_nan y"
  by (cases x; cases y) simp_all

lemma zero_le_iff: "0 \<le> x \<longleftrightarrow> \<not> is_nan x \<and> 0 \<le> xval x"
  by (cases x) (auto simp: zero_f64_def fin_compare smant_def simp del: less_eq_f64.simps(1))

lemma plus_nonneg [float_intro]:
  assumes "0 \<le> x" "0 \<le> y" shows "0 \<le> x + (y::f64)"
proof (cases "is_fin x \<and> is_fin y")
  case True
  with assms show ?thesis by (simp add: zero_le_iff plus_fin rd_nonneg)
next
  case False
  with assms show ?thesis by (cases x; cases y) (auto simp: zero_le_iff)
qed

lemma times_nonneg:
  assumes "0 \<le> x" "0 \<le> y" "wf64 x" "wf64 y" "\<not> is_nan (x * y)" shows "0 \<le> x * (y::f64)"
proof (cases "is_fin x \<and> is_fin y")
  case True
  with assms show ?thesis by (simp add: zero_le_iff times_fin rd_nonneg)
next
  case False
  with assms show ?thesis
    by (cases x; cases y) (auto simp: zero_le_iff smant_def zero_le_mult_iff split: if_splits)
qed

lemma divide_nonneg:
  assumes "0 \<le> x" "0 \<le> y" "wf64 x" "wf64 y" "0 < xval y" "\<not> is_nan (x / y)" shows "0 \<le> x / (y::f64)"
proof (cases "is_fin x \<and> is_fin y")
  case True
  with assms show ?thesis by (simp add: zero_le_iff divide_fin rd_nonneg)
next
  case False
  with assms show ?thesis
    by (cases x; cases y)
      (auto simp: zero_le_iff smant_def zero_le_mult_iff zero_less_mult_iff split: if_splits)
qed

lemma plus_mono:
  assumes "a \<le> b" "wf64 a" "wf64 b" "wf64 c" "\<not> is_nan (a + c)" "\<not> is_nan (b + c)"
  shows "a + c \<le> b + (c::f64)"
proof (cases "is_fin a \<and> is_fin b \<and> is_fin c")
  case True
  with assms show ?thesis by (simp add: f64_le_iff plus_fin rd_mono)
next
  case False
  have up: "u \<le> FInf False" if "\<not> is_nan u" for u using that by (cases u) simp_all
  have lo: "FInf True \<le> u" if "\<not> is_nan u" for u using that by (cases u) simp_all
  from False assms show ?thesis
    by (cases a; cases b; cases c)
      (auto intro: up lo simp: f64_le_refl split: if_splits simp del: plus_f64.simps(1))
qed

lemma plus_ge_left:
  assumes "0 \<le> y" "wf64 x" "wf64 y" "\<not> is_nan x" "\<not> is_nan (x + y)" shows "x \<le> x + (y::f64)"
proof (cases "is_fin x \<and> is_fin y")
  case True
  then have "rd (xval x) \<le> rd (xval x + xval y)"
    using assms(1) by (intro rd_mono) (simp add: zero_le_iff)
  with True assms show ?thesis by (simp add: f64_le_iff plus_fin rd_xval)
next
  case False
  with assms show ?thesis
    by (cases x; cases y) (auto simp: zero_le_iff f64_le_refl split: if_splits)
qed

lemma minus_self: "x - x = (0::f64) \<or> is_nan (x - x)"
  by (cases x) (auto simp: minus_f64_def zero_f64_def smant_def Let_def)

lemma abs_minus_self_not_greater: "\<not> c < fabs (x - x)" if "0 \<le> c"
proof -
  from minus_self [of x] show ?thesis
  proof
    assume "x - x = 0"
    moreover have "fabs 0 = 0" by (simp add: zero_f64_def)
    ultimately show ?thesis using f64_le_not_less [OF that] by simp
  next
    assume "is_nan (x - x)"
    then have "x - x = FNaN" by (cases "x - x") simp_all
    then show ?thesis by simp
  qed
qed

lemma wf64_fround [float_intro]: "wf64 x \<Longrightarrow> wf64 (fround x)"
  by (cases x) (auto simp: pos_imp_zdiv_nonneg_iff intro!: wf64_round64)

lemma fround_nonneg [float_intro]:
  assumes "0 \<le> x" "wf64 x" shows "0 \<le> fround x"
proof (cases x)
  case (FNum s m e)
  let ?q = "(2 * m + 2 ^ nat (- e)) div (2 * 2 ^ nat (- e))"
  have m: "0 \<le> m" using assms(2) FNum by simp
  then have q: "0 \<le> ?q" by (simp add: pos_imp_zdiv_nonneg_iff)
  have s: "\<not> s \<or> m = 0"
    using assms m by (auto simp: FNum zero_le_iff smant_def zero_le_mult_iff)
  have q0: "?q = 0" if "m = 0" "e < 0"
    using that by (simp add: div_pos_pos_trivial)
  show ?thesis
    using assms s q q0 round64_correct(1,3) [OF q, of 1 s 0]
    by (auto simp: FNum zero_le_iff rd_nonneg)
qed (use assms in simp_all)

lemma fround_not_nan: "is_nan (fround x) = is_nan x" if "wf64 x"
  using that by (cases x) (auto simp: round64_correct(3) pos_imp_zdiv_nonneg_iff)

text \<open>Integers of at most 53 bits are added without rounding.\<close>

definition is_int_val :: "f64 \<Rightarrow> int \<Rightarrow> bool" where
  "is_int_val x k \<longleftrightarrow> is_fin x \<and> wf64 x \<and> xval x = of_int k"

lemma is_int_val_plus:
  assumes "is_int_val x k" "is_int_val y l" "\<bar>k + l\<bar> \<le> 2 ^ 53"
  shows "is_int_val (x + y) (k + l)"
proof -
  have v: "xval (x + y) = of_int (k + l)"
    using assms rd_of_int [OF assms(3)] by (simp add: is_int_val_def plus_fin)
  have n: "\<not> is_nan (x + y)" using assms by (simp add: is_int_val_def plus_fin)
  have "\<bar>real_of_int (k + l)\<bar> \<le> of_int (2 ^ 53)"
    using assms(3) by (simp only: of_int_abs [symmetric] of_int_le_iff)
  then have "\<bar>xval (x + y)\<bar> < 2 ^ 1024" using v by simp
  with n have "is_fin (x + y)" by (cases "x + y") (auto split: if_splits)
  with v show ?thesis by (simp add: is_int_val_def)
qed

lemma is_int_val_minus:
  assumes "is_int_val x k" "is_int_val y l" "\<bar>k - l\<bar> \<le> 2 ^ 53"
  shows "is_int_val (x - y) (k - l)"
proof -
  have "is_int_val (- y) (- l)"
    using assms(2) by (simp add: is_int_val_def)
  from is_int_val_plus [OF assms(1) this] assms(3) show ?thesis
    by (simp add: minus_f64_def)
qed

lemma is_int_val_zero: "is_int_val 0 0"
  by (simp add: is_int_val_def) (simp add: zero_f64_def)

section \<open>Zero, and sums of bounds\<close>

lemma zero_f64_props [simp]: "\<not> is_nan 0" "is_fin 0" "0 \<le> (0::f64)" "\<not> 0 < (0::f64)"
  by (simp_all add: zero_f64_def)

lemma nonneg_not_nan: "0 \<le> x \<Longrightarrow> \<not> is_nan (x::f64)"
  by (simp add: zero_le_iff)

lemma plus_mono_both:
  assumes "0 \<le> a" "0 \<le> c" "a \<le> b" "c \<le> d" "wf64 a" "wf64 b" "wf64 c" "wf64 d"
  shows "a + c \<le> b + (d::f64)"
proof -
  have b: "0 \<le> b" and d: "0 \<le> d" using assms by (auto intro: f64_le_trans)
  then have "a + c \<le> b + c"
    using assms by (intro plus_mono nonneg_not_nan plus_nonneg)
  moreover have "c + b \<le> d + b"
    using assms b d by (intro plus_mono nonneg_not_nan plus_nonneg)
  ultimately show ?thesis using assms b d
    by (simp add: plus_f64_comm [of c b] plus_f64_comm [of d b]) (rule f64_le_trans; simp)
qed

section \<open>A double is determined by its value and its sign\<close>

lemma canonical_num:
  assumes "wf64 (FNum s m e)" "wf64 (FNum s m' e')"
    and "of_int m * 2 powi e = (of_int m' * 2 powi e' :: real)" "e \<le> e'"
  shows "m = m' \<and> e = e'"
proof -
  define d where "d = nat (e' - e)"
  have "(2::real) powi e' = 2 ^ d * 2 powi e"
    using assms(4) by (simp add: d_def power_int_add [symmetric] flip: power_int_of_nat)
  then have "of_int m = (of_int (m' * 2 ^ d) :: real)" using assms(3) by simp
  then have m: "m = m' * 2 ^ d" by (simp only: of_int_eq_iff)
  show ?thesis
  proof (cases "d = 0")
    case True
    with m assms(4) show ?thesis by (simp add: d_def)
  next
    case False
    then have "2 ^ 52 \<le> m'" using assms(1,2,4) by (auto simp: d_def)
    moreover from this have "2 * m' \<le> 2 ^ d * m'"
      using False self_le_power [of "2::int" d] by (intro mult_right_mono) auto
    moreover have "m = 2 ^ d * m'" "(2::int) ^ 53 = 2 * 2 ^ 52" by (simp_all add: m)
    ultimately have "2 ^ 53 \<le> m" by linarith
    with assms(1) show ?thesis by simp
  qed
qed

lemma f64_eqI:
  assumes "wf64 x" "wf64 y" "\<not> is_nan x" "\<not> is_nan y" "xval x = xval y" "signbit x = signbit y"
  shows "x = y"
proof (cases x)
  case (FNum s m e)
  then have "\<bar>xval y\<bar> < 2 ^ 1024" using xval_fin_bound [of x] assms by auto
  then obtain m' e' where y: "y = FNum s m' e'"
    using assms FNum by (cases y) (auto split: if_splits)
  then have v: "of_int m * 2 powi e = (of_int m' * 2 powi e' :: real)"
    using assms(5) FNum by (cases s) (simp_all add: smant_def)
  have w: "wf64 (FNum s m e)" "wf64 (FNum s m' e')" using assms(1,2) FNum y by simp_all
  have "m = m' \<and> e = e'"
  proof (cases "e \<le> e'")
    case True
    with canonical_num [OF w v] show ?thesis .
  next
    case False
    then have "e' \<le> e" by simp
    from canonical_num [OF w(2,1) v [symmetric] this] show ?thesis by simp
  qed
  then show ?thesis using FNum y by simp
next
  case (FInf s)
  then have "\<not> is_fin y" using xval_fin_bound [of y] assms by (auto split: if_splits)
  with assms FInf show ?thesis by (cases y) auto
qed (use assms in simp)

text \<open>Adding a zero shifts nothing: an equation for the evaluation of closed terms.\<close>

lemma plus_num_code [code]:
  "FNum s m e + FNum s' m' e' =
     (if m = 0 \<and> m' = 0 then FNum (s \<and> s') 0 emin
      else if m' = 0 then round64 (smant s m < 0) \<bar>m\<bar> 1 e
      else if m = 0 then round64 (smant s' m' < 0) \<bar>m'\<bar> 1 e'
      else let k = min e e';
          x = smant s m * 2 ^ nat (e - k) + smant s' m' * 2 ^ nat (e' - k)
      in if x = 0 then FNum (s \<and> s') 0 emin else round64 (x < 0) \<bar>x\<bar> 1 k)"
proof -
  have shift: "round64 (y < 0) \<bar>a * 2 ^ nat (i - k)\<bar> 1 k = round64 (a < 0) \<bar>a\<bar> 1 i"
    if "k \<le> i" "y = a * 2 ^ nat (i - k)" for y a i k :: int
  proof (rule f64_eqI)
    have "real_of_int \<bar>a * 2 ^ nat (i - k)\<bar> * 2 powi k = of_int \<bar>a\<bar> * 2 powi i"
      using align_two [OF that(1), of "\<bar>a\<bar>"] by (simp add: abs_mult)
    moreover have "y < 0 \<longleftrightarrow> a < 0" using that(2) by (simp add: mult_less_0_iff)
    ultimately show "xval (round64 (y < 0) \<bar>a * 2 ^ nat (i - k)\<bar> 1 k) = xval (round64 (a < 0) \<bar>a\<bar> 1 i)"
      "signbit (round64 (y < 0) \<bar>a * 2 ^ nat (i - k)\<bar> 1 k) = signbit (round64 (a < 0) \<bar>a\<bar> 1 i)"
      by (simp_all add: round64_correct(1,4))
  qed (simp_all add: round64_correct)
  have nz: "smant t a = 0 \<longleftrightarrow> a = 0" "\<bar>smant t a\<bar> = \<bar>a\<bar>" for t a by (simp_all add: smant_def)
  show ?thesis
  proof (cases "m = 0 \<or> m' = 0")
    case True
    define k where "k = min e e'"
    define x where "x = smant s m * 2 ^ nat (e - k) + smant s' m' * 2 ^ nat (e' - k)"
    have sum: "FNum s m e + FNum s' m' e' =
        (if x = 0 then FNum (s \<and> s') 0 emin else round64 (x < 0) \<bar>x\<bar> 1 k)"
      by (simp only: plus_f64.simps(1) Let_def flip: k_def x_def)
    have k: "k \<le> e" "k \<le> e'" by (simp_all add: k_def)
    consider "m = 0" "m' = 0" | "m = 0" "m' \<noteq> 0" | "m \<noteq> 0" "m' = 0" using True by blast
    then show ?thesis
    proof cases
      case 1
      then have "smant s m = 0" "smant s' m' = 0" by (simp_all add: nz)
      then have "x = 0" by (simp add: x_def)
      with 1 show ?thesis unfolding sum by simp
    next
      case 2
      then have x: "x = smant s' m' * 2 ^ nat (e' - k)" by (simp add: x_def nz)
      then have "x \<noteq> 0" using 2 by (simp add: nz)
      with shift [OF k(2) x] 2 show ?thesis unfolding sum x [symmetric] by (simp add: nz)
    next
      case 3
      then have x: "x = smant s m * 2 ^ nat (e - k)" by (simp add: x_def nz)
      then have "x \<noteq> 0" using 3 by (simp add: nz)
      with shift [OF k(1) x] 3 show ?thesis unfolding sum x [symmetric] by (simp add: nz)
    qed
  next
    case False
    then show ?thesis by (simp only: plus_f64.simps(1) de_Morgan_disj simp_thms if_False)
  qed
qed

lemma compare_num_code [code]:
  "FNum s m e < FNum s' m' e' \<longleftrightarrow>
     (if m = 0 then 0 < smant s' m' else if m' = 0 then smant s m < 0
      else let k = min e e' in smant s m * 2 ^ nat (e - k) < smant s' m' * 2 ^ nat (e' - k))"
  "FNum s m e \<le> FNum s' m' e' \<longleftrightarrow>
     (if m = 0 then 0 \<le> smant s' m' else if m' = 0 then smant s m \<le> 0
      else let k = min e e' in smant s m * 2 ^ nat (e - k) \<le> smant s' m' * 2 ^ nat (e' - k))"
proof -
  have lt: "(if m = 0 then 0 < b else if m' = 0 then a < 0 else P) \<longleftrightarrow> P"
    if "m = 0 \<longleftrightarrow> a = 0" "m' = 0 \<longleftrightarrow> b = 0" "P \<longleftrightarrow> a * 2 ^ i < b * 2 ^ j" for a b :: int and P and i j :: nat
    using that by (auto simp: zero_less_mult_iff mult_less_0_iff)
  have le: "(if m = 0 then 0 \<le> b else if m' = 0 then a \<le> 0 else P) \<longleftrightarrow> P"
    if "m = 0 \<longleftrightarrow> a = 0" "m' = 0 \<longleftrightarrow> b = 0" "P \<longleftrightarrow> a * 2 ^ i \<le> b * 2 ^ j" for a b :: int and P and i j :: nat
    using that by (auto simp: zero_le_mult_iff mult_le_0_iff)
  have z: "m = 0 \<longleftrightarrow> smant s m = 0" "m' = 0 \<longleftrightarrow> smant s' m' = 0" by (simp_all add: smant_def)
  show "FNum s m e < FNum s' m' e' \<longleftrightarrow>
     (if m = 0 then 0 < smant s' m' else if m' = 0 then smant s m < 0
      else let k = min e e' in smant s m * 2 ^ nat (e - k) < smant s' m' * 2 ^ nat (e' - k))"
    unfolding less_f64.simps Let_def by (rule lt [OF z refl, symmetric])
  show "FNum s m e \<le> FNum s' m' e' \<longleftrightarrow>
     (if m = 0 then 0 \<le> smant s' m' else if m' = 0 then smant s m \<le> 0
      else let k = min e e' in smant s m * 2 ^ nat (e - k) \<le> smant s' m' * 2 ^ nat (e' - k))"
    unfolding less_eq_f64.simps Let_def by (rule le [OF z refl, symmetric])
qed

declare plus_f64.simps(1) [code del] less_f64.simps(1) [code del] less_eq_f64.simps(1) [code del]

section \<open>Sums of whole numbers\<close>

lemma signbit_xval:
  "wf64 x \<Longrightarrow> xval x \<noteq> 0 \<Longrightarrow> signbit x \<longleftrightarrow> xval x < 0"
  by (cases x) (auto simp: smant_def mult_less_0_iff not_less)

lemma signbit_plus_zero:
  assumes "is_fin x" "is_fin y" "xval x + xval y = 0"
  shows "signbit (x + y) \<longleftrightarrow> signbit x \<and> signbit y"
proof -
  obtain s m e s' m' e' where xy: "x = FNum s m e" "y = FNum s' m' e'"
    using assms by (metis is_fin.elims(2))
  define k where "k = min e e'"
  define a where "a = smant s m * 2 ^ nat (e - k) + smant s' m' * 2 ^ nat (e' - k)"
  have "real_of_int a * 2 powi k = xval x + xval y"
    unfolding a_def xy xval.simps of_int_add distrib_right
    by (subst (1 2) align_two) (simp_all add: k_def)
  with assms(3) have "real_of_int a * 2 powi k = 0" by simp
  then have "a = 0" by simp
  moreover have "x + y = (if a = 0 then FNum (s \<and> s') 0 emin else round64 (a < 0) \<bar>a\<bar> 1 k)"
    unfolding xy by (simp only: plus_f64.simps(1) Let_def flip: k_def a_def)
  ultimately show ?thesis by (simp add: xy)
qed

lemma is_int_val_f_of_int:
  assumes "\<bar>a\<bar> \<le> 2 ^ 53" shows "is_int_val (f_of_int a) a"
proof -
  have "\<bar>real_of_int a\<bar> \<le> of_int (2 ^ 53)"
    using assms by (simp only: of_int_abs [symmetric] of_int_le_iff)
  then have "\<bar>xval (f_of_int a)\<bar> < 2 ^ 1024"
    using rd_of_int [OF assms] by (simp add: xval_f_of_int)
  moreover have "\<not> is_nan (f_of_int a)" by simp
  ultimately have "is_fin (f_of_int a)" by (cases "f_of_int a") (auto split: if_splits)
  with rd_of_int [OF assms] show ?thesis by (simp add: is_int_val_def xval_f_of_int)
qed

lemma signbit_f_of_int: "signbit (f_of_int a) \<longleftrightarrow> a < 0"
  by (simp add: f_of_int_def round64_correct(4))

lemma is_int_val_eq:
  assumes "is_int_val x a" "\<bar>a\<bar> \<le> 2 ^ 53" "a = 0 \<Longrightarrow> \<not> signbit x"
  shows "x = f_of_int a"
proof (rule f64_eqI)
  show "signbit x = signbit (f_of_int a)"
    using assms signbit_xval [of x] by (cases "a = 0") (auto simp: is_int_val_def signbit_f_of_int)
qed (use assms is_int_val_f_of_int [OF assms(2)] in \<open>auto simp: is_int_val_def is_fin_not_nan\<close>)

lemma f_of_int_plus:
  assumes "\<bar>a\<bar> \<le> 2 ^ 53" "\<bar>b\<bar> \<le> 2 ^ 53" "\<bar>a + b\<bar> \<le> 2 ^ 53"
  shows "f_of_int a + f_of_int b = f_of_int (a + b)"
proof (rule is_int_val_eq)
  note v = is_int_val_f_of_int [OF assms(1)] is_int_val_f_of_int [OF assms(2)]
  show "is_int_val (f_of_int a + f_of_int b) (a + b)" using v assms(3) by (rule is_int_val_plus)
  show "\<not> signbit (f_of_int a + f_of_int b)" if "a + b = 0"
  proof (subst signbit_plus_zero)
    show "xval (f_of_int a) + xval (f_of_int b) = 0"
      using v that by (simp add: is_int_val_def flip: of_int_add)
    show "\<not> (signbit (f_of_int a) \<and> signbit (f_of_int b))"
      using that by (simp add: signbit_f_of_int)
  qed (use v in \<open>simp_all add: is_int_val_def\<close>)
qed (rule assms)

lemma f_of_int_minus:
  assumes "\<bar>a\<bar> \<le> 2 ^ 53" "\<bar>b\<bar> \<le> 2 ^ 53" "\<bar>a - b\<bar> \<le> 2 ^ 53"
  shows "f_of_int a - f_of_int b = f_of_int (a - b)"
proof (rule is_int_val_eq)
  note v = is_int_val_f_of_int [OF assms(1)] is_int_val_f_of_int [OF assms(2)]
  show "is_int_val (f_of_int a - f_of_int b) (a - b)" using v assms(3) by (rule is_int_val_minus)
  have neg: "signbit (- f_of_int b) \<longleftrightarrow> \<not> b < 0"
    using signbit_f_of_int [of b] not_nan_f_of_int [of b] by (cases "f_of_int b") auto
  show "\<not> signbit (f_of_int a - f_of_int b)" if "a - b = 0"
    unfolding minus_f64_def
  proof (subst signbit_plus_zero)
    show "xval (f_of_int a) + xval (- f_of_int b) = 0"
      using v that by (simp add: is_int_val_def flip: of_int_diff)
    show "\<not> (signbit (f_of_int a) \<and> signbit (- f_of_int b))"
      using that by (simp add: signbit_f_of_int neg)
  qed (use v in \<open>simp_all add: is_int_val_def\<close>)
qed (rule assms)

lemma f_of_int_zero [simp]: "f_of_int 0 = 0"
  by (simp add: f_of_int_def round64_def zero_f64_def)

lemma f_of_int_times:
  assumes "0 \<le> a" "0 \<le> b" "a \<le> 2 ^ 53" "b \<le> 2 ^ 53" "a * b \<le> 2 ^ 53"
  shows "f_of_int a * f_of_int b = f_of_int (a * b)"
proof -
  have abs: "\<bar>a\<bar> \<le> 2 ^ 53" "\<bar>b\<bar> \<le> 2 ^ 53" "\<bar>a * b\<bar> \<le> 2 ^ 53" using assms by simp_all
  note v = is_int_val_f_of_int [OF abs(1)] is_int_val_f_of_int [OF abs(2)]
    is_int_val_f_of_int [OF abs(3)]
  obtain s m e s' m' e' where xy: "f_of_int a = FNum s m e" "f_of_int b = FNum s' m' e'"
    using v(1,2) by (metis is_int_val_def is_fin.elims(2))
  have "\<not> s" "\<not> s'" using signbit_f_of_int [of a] signbit_f_of_int [of b] assms(1,2) by (simp_all add: xy)
  moreover have "0 \<le> m * m'" using v(1,2) by (simp add: is_int_val_def xy)
  ultimately have sign: "\<not> signbit (f_of_int a * f_of_int b)"
    by (simp add: xy round64_correct(4))
  show ?thesis
  proof (rule f64_eqI)
    show "xval (f_of_int a * f_of_int b) = xval (f_of_int (a * b))"
      using v rd_of_int [OF abs(3)] by (simp add: is_int_val_def times_fin)
    show "signbit (f_of_int a * f_of_int b) = signbit (f_of_int (a * b))"
      using sign assms(1,2) by (simp add: signbit_f_of_int not_less)
  qed (use v in \<open>simp_all add: is_int_val_def times_fin wf64_times\<close>)
qed

section \<open>Floors\<close>

text \<open>The floor of a finite double that is not negative.\<close>

lemma ffloor_correct:
  assumes "wf64 x" "is_fin x" "0 \<le> xval x" "xval x \<le> 2 ^ 53"
  shows "is_fin (ffloor x)" "wf64 (ffloor x)" "xval (ffloor x) = of_int \<lfloor>xval x\<rfloor>"
proof -
  obtain s m e where x: "x = FNum s m e" using assms(2) by (metis is_fin.elims(2))
  have m: "0 \<le> m" using assms(1) by (simp add: x)
  have fin: "is_fin (ffloor x) \<and> wf64 (ffloor x) \<and> xval (ffloor x) = of_int \<lfloor>xval x\<rfloor>"
  proof (cases "0 \<le> e")
    case True
    have "xval x = of_int (smant s m * 2 ^ nat e)"
      using True by (simp add: x power_int_def)
    then show ?thesis using True assms by (simp only: floor_of_int) (simp add: x)
  next
    case False
    define d :: int where "d = 2 ^ nat (- e)"
    have d: "0 < d" by (simp add: d_def)
    have pw: "2 powi e = 1 / real_of_int d" using False by (simp add: d_def power_int_def field_simps)
    have v: "xval x = (if s then - 1 else 1) * (of_int m / of_int d)"
      by (simp add: x pw smant_def)
    have s: "\<not> s \<or> m = 0" using assms(3) m d by (auto simp: v field_simps)
    have vv: "xval x = of_int m / of_int d" using s v by auto
    have fl: "\<lfloor>xval x\<rfloor> = m div d" by (simp add: vv floor_divide_of_int_eq)
    have q: "0 \<le> m div d" using m d by (simp add: pos_imp_zdiv_nonneg_iff)
    have "real_of_int (m div d) \<le> xval x" unfolding fl [symmetric] by simp
    with assms(4) have "real_of_int (m div d) \<le> of_int (2 ^ 53)" by simp
    then have q53: "m div d \<le> 2 ^ 53" by (simp only: of_int_le_iff)
    have neg: "(m + 2 ^ nat (- e) - 1) div 2 ^ nat (- e) = m div d" if s
      using that s d by (simp add: d_def [symmetric] div_pos_pos_trivial)
    have r: "ffloor x = round64 s (m div d) 1 0"
      using False neg by (auto simp: x d_def)
    have val: "xval (ffloor x) = of_int (m div d)"
      using round64_correct(1) [OF q, of 1 s 0] q53 q s rd_of_int [of "m div d"]
      by (auto simp: r)
    have "is_fin (round64 s (m div d) 1 0)"
    proof (cases "round64 s (m div d) 1 0")
      case (FInf t)
      then have "\<bar>xval (ffloor x)\<bar> = 2 ^ 1024" by (simp add: r)
      moreover have "\<bar>real_of_int (m div d)\<bar> \<le> 2 ^ 53" using q q53 by simp
      ultimately show ?thesis unfolding val by simp
    qed (use round64_correct(3) [OF q, of 1 s 0] in simp_all)
    then show ?thesis using val fl wf64_round64 [OF q, of 1 s 0] by (simp add: r)
  qed
  then show "is_fin (ffloor x)" "wf64 (ffloor x)" "xval (ffloor x) = of_int \<lfloor>xval x\<rfloor>" by simp_all
qed

lemma fin_if_bounded:
  assumes "\<not> is_nan x" "\<bar>xval x\<bar> < 2 ^ 1024" shows "is_fin x"
  using assms by (cases x) (auto split: if_splits)

lemma rd_near:
  assumes "0 \<le> x" "x * 2 ^ n \<le> 2 ^ 53" "n \<le> 1074"
  shows "\<bar>rd x - x\<bar> \<le> 1 / 2 ^ n"
proof -
  have grid: "rd (of_int m / 2 ^ n) = of_int m / 2 ^ n" if "0 \<le> m" "m \<le> 2 ^ 53" for m :: int
    using rd_exact [of m "- int n"] that assms(3)
    by (simp add: emin_def emax_def power_int_minus divide_inverse)
  have "real_of_int \<lfloor>x * 2 ^ n\<rfloor> \<le> x * 2 ^ n" by simp
  then have f: "0 \<le> \<lfloor>x * 2 ^ n\<rfloor>" "\<lfloor>x * 2 ^ n\<rfloor> \<le> 2 ^ 53"
    using assms(1,2) by (simp_all add: floor_le_iff)
  have c: "0 \<le> \<lceil>x * 2 ^ n\<rceil>" "\<lceil>x * 2 ^ n\<rceil> \<le> 2 ^ 53"
    using assms(1,2) ceiling_mono [of 0 "x * 2 ^ n"] by (simp_all add: ceiling_le_iff)
  have "rd (of_int \<lfloor>x * 2 ^ n\<rfloor> / 2 ^ n) \<le> rd x" by (intro rd_mono) (simp add: field_simps)
  moreover have "x * 2 ^ n < of_int \<lfloor>x * 2 ^ n\<rfloor> + 1" by linarith
  ultimately have "x - 1 / 2 ^ n \<le> rd x" unfolding grid [OF f] by (simp add: field_simps)
  have "rd x \<le> rd (of_int \<lceil>x * 2 ^ n\<rceil> / 2 ^ n)" by (intro rd_mono) (simp add: field_simps)
  moreover have "of_int \<lceil>x * 2 ^ n\<rceil> < x * 2 ^ n + 1" by linarith
  ultimately have "rd x \<le> x + 1 / 2 ^ n" unfolding grid [OF c] by (simp add: field_simps)
  with \<open>x - 1 / 2 ^ n \<le> rd x\<close> show ?thesis by linarith
qed

lemma signbit_divide:
  assumes "is_fin x" "is_fin y" "wf64 x" "wf64 y" "xval y \<noteq> 0"
  shows "signbit (x / y) \<longleftrightarrow> signbit x \<noteq> signbit y"
proof -
  obtain s m e s' m' e' where xy: "x = FNum s m e" "y = FNum s' m' e'"
    using assms by (metis is_fin.elims(2))
  have "m' \<noteq> 0" using assms(5) by (cases s') (simp_all add: xy smant_def)
  then have m: "0 \<le> m" "0 < m'" "m' \<noteq> 0" using assms(3,4) by (simp_all add: xy)
  then show ?thesis using round64_correct(4) [OF m(1,2), of "s \<noteq> s'" "e - e'"] by (simp add: xy)
qed

end
