(* ===== verification/Models.thy ===== *)
theory Models
  imports F64_Order
begin

text \<open>
  The domain types of \<^verbatim>\<open>internal/models\<close> that the engine and the services share. A Go
  struct is a record whose field names carry a prefix for the struct (\<open>c\<close> candle, \<open>t\<close>
  trade, \<open>s\<close> strategy, \<open>b\<close> run, \<open>r\<close> result), a string-typed enumeration is the
  string itself with the source's constants, a pointer that may be \<open>nil\<close> is an option. A
  \<^verbatim>\<open>uuid.UUID\<close> is only ever compared, so it is a number, with \<open>0\<close> for \<^verbatim>\<open>uuid.Nil\<close>.
\<close>

type_synonym uuid = nat

definition uuid_nil :: uuid where "uuid_nil = 0"

section \<open>Constants\<close>

definition OrderSideBuy :: string where [go_const]: "OrderSideBuy = ''BUY''"
definition OrderSideSell :: string where [go_const]: "OrderSideSell = ''SELL''"

definition CandleInterval1D :: string where [go_const]: "CandleInterval1D = ''1d''"
definition CandleInterval5M :: string where [go_const]: "CandleInterval5M = ''5m''"

definition EntryConditionMACrossover :: string where
  [go_const]: "EntryConditionMACrossover = ''MA_CROSSOVER''"
definition EntryConditionSupertrend :: string where
  [go_const]: "EntryConditionSupertrend = ''SUPERTREND''"
definition EntryConditionRSIOversold :: string where
  [go_const]: "EntryConditionRSIOversold = ''RSI_OVERSOLD''"
definition EntryConditionMomentum :: string where
  [go_const]: "EntryConditionMomentum = ''MOMENTUM''"
definition EntryConditionVWAPCrossover :: string where
  [go_const]: "EntryConditionVWAPCrossover = ''VWAP_CROSSOVER''"

definition InstrumentTypeIndex :: string where [go_const]: "InstrumentTypeIndex = ''INDEX''"
definition InstrumentTypeEquity :: string where [go_const]: "InstrumentTypeEquity = ''EQ''"
definition InstrumentTypeFuturesIndex :: string where
  [go_const]: "InstrumentTypeFuturesIndex = ''FUTIDX''"
definition InstrumentTypeFuturesStock :: string where
  [go_const]: "InstrumentTypeFuturesStock = ''FUTSTK''"
definition InstrumentTypeFuturesIndexCont :: string where
  [go_const]: "InstrumentTypeFuturesIndexCont = ''FUTIDX_CONT''"
definition InstrumentTypeFuturesStockCont :: string where
  [go_const]: "InstrumentTypeFuturesStockCont = ''FUTSTK_CONT''"
definition InstrumentTypeOptionsIndex :: string where
  [go_const]: "InstrumentTypeOptionsIndex = ''OPTIDX''"
definition InstrumentTypeOptionsStock :: string where
  [go_const]: "InstrumentTypeOptionsStock = ''OPTSTK''"
definition UnderlyingNifty :: string where [go_const]: "UnderlyingNifty = ''NIFTY''"
definition UnderlyingBankNifty :: string where [go_const]: "UnderlyingBankNifty = ''BANKNIFTY''"
definition UnderlyingFinNifty :: string where [go_const]: "UnderlyingFinNifty = ''FINNIFTY''"

definition BacktestPending :: string where [go_const]: "BacktestPending = ''PENDING''"
definition BacktestRunning :: string where [go_const]: "BacktestRunning = ''RUNNING''"
definition BacktestCompleted :: string where [go_const]: "BacktestCompleted = ''COMPLETED''"
definition BacktestFailed :: string where [go_const]: "BacktestFailed = ''FAILED''"

section \<open>Candles, strategies, trades\<close>

record candle =
  cInstrumentID :: uuid
  cTimestamp :: time
  cInterval :: string
  cOpen :: f64
  cHigh :: f64
  cLow :: f64
  cClose :: f64
  cVolume :: goint
  cProvider :: string

text \<open>\<^verbatim>\<open>OptionLeg\<close> is a raw JSON message, a byte string.\<close>

record strategy =
  sID :: uuid
  sName :: string
  sDescription :: string
  sUnderlying :: string
  sInstrumentType :: string
  sExpiryRule :: string
  sOptionLeg :: string
  sEntryConditionType :: string
  sTargetPct :: "f64 option"
  sStopLossPct :: "f64 option"
  sTimeExitMinutes :: "goint option"
  sLotSize :: goint
  sMode :: string
  sIsReadyForRun :: bool
  sCreatedAt :: time
  sUpdatedAt :: time

record trade =
  tEntryTimestamp :: time
  tExitTimestamp :: time
  tSide :: string
  tQuantity :: goint
  tEntryPrice :: f64
  tExitPrice :: f64
  tGrossPnL :: f64
  tSlippage :: f64
  tBrokerage :: f64
  tSTT :: f64
  tExchangeFees :: f64
  tSEBIFees :: f64
  tGST :: f64
  tStampDuty :: f64
  tTotalCharges :: f64
  tNetPnL :: f64
  tReason :: string
  tExitReason :: string

record charge_breakdown =
  Brokerage :: f64
  STT :: f64
  ExchangeFees :: f64
  SEBIFees :: f64
  GST :: f64
  StampDuty :: f64
  Total :: f64

section \<open>Inputs and results of the engine\<close>

record engine_inputs =
  Interval :: string
  SignalCandles :: "candle list"
  TradeCandles :: "candle list"

record backtest_run_config =
  Lots :: goint
  InitialCapital :: f64
  SlippagePct :: f64

record backtest_result =
  rTrades :: "trade list"
  rGrossPnL :: f64
  rTotalCharges :: f64
  rSlippage :: f64
  rSlippagePct :: f64
  rNetPnL :: f64
  rTotalTrades :: goint
  rWinCount :: goint
  rLossCount :: goint
  rMaxDrawdown :: f64

record trade_stats =
  AvgWin :: "f64 option"
  AvgLoss :: "f64 option"
  BestTrade :: "f64 option"
  WorstTrade :: "f64 option"
  AvgPnlPerTrade :: "f64 option"
  AvgHoldingMinutes :: "f64 option"
  ProfitFactor :: "f64 option"
  RewardRisk :: "f64 option"
  LongestWinStreak :: goint
  LongestLossStreak :: goint
  TradesPerWeek :: f64

record chart_point =
  Ts :: time
  Value :: f64

record chart_data =
  Equity :: "chart_point list"
  Drawdown :: "chart_point list"

text \<open>Doubles in, doubles out: the candles whose prices are doubles.\<close>

definition wf_candle :: "candle \<Rightarrow> bool" where
  "wf_candle c \<longleftrightarrow> wf64 (cOpen c) \<and> wf64 (cHigh c) \<and> wf64 (cLow c) \<and> wf64 (cClose c)"

lemma wf_candleD [simp]:
  assumes "wf_candle c"
  shows "wf64 (cOpen c)" "wf64 (cHigh c)" "wf64 (cLow c)" "wf64 (cClose c)"
  using assms by (simp_all add: wf_candle_def)

end
