(* ===== verification/Charges.thy ===== *)
theory Charges
  imports Models
begin

text \<open>
  \<^verbatim>\<open>internal/engine/charges.go\<close>: the statutory cost stack of a round-trip trade. The locale
  \<open>charge_calculator\<close> is the contract of the interface \<^verbatim>\<open>models.ChargeCalculator\<close>; the
  engine is written against it and \<open>IndianRetailCharges\<close> is the implementation it is
  interpreted on.
\<close>

section \<open>Rates\<close>

definition sttPctEQ :: f64 where [go_const]: "sttPctEQ = lit 25 100000"
definition sttPctFUT :: f64 where [go_const]: "sttPctFUT = lit 5 10000"
definition sttPctOPT :: f64 where [go_const]: "sttPctOPT = lit 15 10000"

definition exchPctEQ :: f64 where [go_const]: "exchPctEQ = lit 307 10000000"
definition exchPctFUT :: f64 where [go_const]: "exchPctFUT = lit 183 10000000"
definition exchPctOPT :: f64 where [go_const]: "exchPctOPT = lit 3553 10000000"

definition sebiPct :: f64 where [go_const]: "sebiPct = lit 1 1000000"
definition gstPct :: f64 where [go_const]: "gstPct = lit 18 100"

definition stampPctEQ :: f64 where [go_const]: "stampPctEQ = lit 3 100000"
definition stampPctFUT :: f64 where [go_const]: "stampPctFUT = lit 2 100000"
definition stampPctOPT :: f64 where [go_const]: "stampPctOPT = lit 3 100000"

definition brokerageFlatPerLeg :: f64 where [go_const]: "brokerageFlatPerLeg = lit 20 1"
definition brokeragePct :: f64 where [go_const]: "brokeragePct = lit 3 10000"

section \<open>Operations\<close>

definition zero_breakdown :: charge_breakdown where
  "zero_breakdown = \<lparr>Brokerage = 0, STT = 0, ExchangeFees = 0, SEBIFees = 0, GST = 0,
     StampDuty = 0, Total = 0\<rparr>"

definition perLegBrokerage :: "f64 \<Rightarrow> f64" where
  "perLegBrokerage turnover =
     (let pct = brokeragePct * turnover
      in if pct < brokerageFlatPerLeg then pct else brokerageFlatPerLeg)"

text \<open>The rates (exchange, STT, stamp) of a segment; \<open>None\<close> is the source's \<^verbatim>\<open>ok == false\<close>.\<close>

definition rateTable :: "string \<Rightarrow> (f64 \<times> f64 \<times> f64) option" where
  "rateTable segment =
     (if segment = InstrumentTypeEquity then Some (exchPctEQ, sttPctEQ, stampPctEQ)
      else if segment = InstrumentTypeFuturesIndex \<or> segment = InstrumentTypeFuturesIndexCont
        then Some (exchPctFUT, sttPctFUT, stampPctFUT)
      else if segment = InstrumentTypeFuturesStock \<or> segment = InstrumentTypeFuturesStockCont
        then Some (exchPctFUT, sttPctFUT, stampPctFUT)
      else if segment = InstrumentTypeOptionsIndex then Some (exchPctOPT, sttPctOPT, stampPctOPT)
      else if segment = InstrumentTypeOptionsStock then Some (exchPctOPT, sttPctOPT, stampPctOPT)
      else None)"

definition Compute :: "string \<Rightarrow> string \<Rightarrow> f64 \<Rightarrow> f64 \<Rightarrow> goint \<Rightarrow> charge_breakdown" where
  "Compute segment side entryPrice exitPrice quantity =
     (case rateTable segment of
        None \<Rightarrow> zero_breakdown
      | Some (exchPct, sttPct, stampPct) \<Rightarrow>
         let qty = f_of_int quantity;
             entryTurnover = entryPrice * qty;
             exitTurnover = exitPrice * qty;
             totalTurnover = entryTurnover + exitTurnover;
             brokerage = perLegBrokerage entryTurnover + perLegBrokerage exitTurnover;
             exchange = exchPct * totalTurnover;
             sebi = sebiPct * totalTurnover;
             (sttTurnover, stampTurnover) =
               (if side = OrderSideBuy then (exitTurnover, entryTurnover)
                else (entryTurnover, exitTurnover));
             stt = sttPct * sttTurnover;
             stamp = stampPct * stampTurnover;
             gst = gstPct * (brokerage + exchange + sebi);
             total = brokerage + stt + exchange + sebi + gst + stamp
         in \<lparr>Brokerage = brokerage, STT = stt, ExchangeFees = exchange, SEBIFees = sebi,
             GST = gst, StampDuty = stamp, Total = total\<rparr>)"


section \<open>Signs and bounds of the parts\<close>

lemma lit_pos:
  assumes "0 < n" "0 < d" "n \<le> 2 ^ 53" "d \<le> 2 ^ 53"
  shows "0 < xval (lit n d)" "is_fin (lit n d)" "0 \<le> lit n d"
proof -
  have q: "2 powi (- 53) \<le> real_of_int n / of_int d" "real_of_int n / of_int d \<le> 2 ^ 53"
  proof -
    have d: "real_of_int d \<le> of_int (2 ^ 53)" and n: "real_of_int n \<le> of_int (2 ^ 53)"
      using assms by (simp_all only: of_int_le_iff)
    have "1 / 2 ^ 53 \<le> real_of_int n / of_int d"
      using assms d by (intro frac_le) simp_all
    then show "2 powi (- 53) \<le> real_of_int n / of_int d" by (simp add: power_int_minus)
    have "real_of_int n / of_int d \<le> 2 ^ 53 / 1"
      using assms n by (intro frac_le) simp_all
    then show "real_of_int n / of_int d \<le> 2 ^ 53" by simp
  qed
  have "rd (of_int 1 * 2 powi (- 53)) = of_int 1 * 2 powi (- 53)"
    by (rule rd_exact) (simp_all add: emin_def emax_def)
  then have "2 powi (- 53) \<le> rd (real_of_int n / of_int d)"
    using rd_mono [OF q(1)] by simp
  moreover have "rd (real_of_int n / of_int d) \<le> 2 ^ 53"
    using rd_mono [OF q(2)] rd_of_int [of "2 ^ 53"] by simp
  moreover have "(0::real) < 2 powi (- 53)" by simp
  moreover have "(2::real) ^ 53 < 2 ^ 1024" by (rule power_strict_increasing) simp_all
  ultimately have x: "0 < xval (lit n d)" "xval (lit n d) < 2 ^ 1024"
    using assms(2) by (simp_all only: xval_lit)
  moreover have "\<not> is_nan (lit n d)" using assms(2) by simp
  ultimately show "0 < xval (lit n d)" "is_fin (lit n d)" "0 \<le> lit n d"
    by (cases "lit n d"; auto simp: zero_le_iff split: if_splits)+
qed

lemma f_of_int_pos:
  assumes "0 < n" "in64 n"
  shows "0 < xval (f_of_int n)" "is_fin (f_of_int n)"
proof -
  have "rd (of_int 1) \<le> rd (of_int n)" using assms by (intro rd_mono) simp
  then have "1 \<le> rd (of_int n)" using rd_of_int [of 1] by simp
  then show pos: "0 < xval (f_of_int n)" by (simp add: xval_f_of_int)
  have "rd (of_int n) \<le> rd (of_int 1 * 2 powi 63)"
  proof (rule rd_mono)
    have "n \<le> 2 ^ 63" using assms(2) by (simp add: in64_def)
    then have "real_of_int n \<le> of_int (2 ^ 63)" by (simp only: of_int_le_iff)
    then show "real_of_int n \<le> of_int 1 * 2 powi 63" by simp
  qed
  also have "rd (of_int 1 * 2 powi 63) = of_int 1 * 2 powi 63"
    by (rule rd_exact) (simp_all add: emin_def emax_def)
  also have "\<dots> < (2::real) ^ 1024"
  proof -
    have "(2::real) ^ 63 < 2 ^ 1024" by (rule power_strict_increasing) simp_all
    then show ?thesis by simp
  qed
  finally have "xval (f_of_int n) < 2 ^ 1024" by (simp add: xval_f_of_int)
  with pos not_nan_f_of_int [of n] show "is_fin (f_of_int n)"
    by (cases "f_of_int n") (auto split: if_splits)
qed

lemma times_pos_nonneg:
  assumes "is_fin x" "0 < xval x" "wf64 x" "wf64 y" "0 \<le> y"
  shows "0 \<le> x * y" "0 \<le> y * x"
proof -
  have "\<not> is_nan (x * y)"
  proof (cases "is_fin y")
    case True
    with assms show ?thesis by (simp add: times_fin)
  next
    case False
    with assms show ?thesis by (cases x; cases y) (auto simp: smant_def zero_le_iff split: if_splits)
  qed
  moreover have "0 \<le> x" using assms by (simp add: zero_le_iff is_fin_not_nan)
  ultimately show "0 \<le> x * y" using assms by (intro times_nonneg)
  then show "0 \<le> y * x" by (simp add: times_f64_comm)
qed

lemma divide_pos_nonneg:
  assumes "is_fin y" "0 < xval y" "wf64 x" "wf64 y" "0 \<le> x"
  shows "0 \<le> x / y"
proof -
  have "\<not> is_nan (x / y)"
  proof (cases "is_fin x")
    case True
    with assms show ?thesis by (intro divide_fin) auto
  next
    case False
    with assms show ?thesis by (cases x; cases y) (auto simp: zero_le_iff)
  qed
  with assms show ?thesis by (intro divide_nonneg) (auto simp: zero_le_iff is_fin_not_nan)
qed

lemmas rate_consts = sttPctEQ_def sttPctFUT_def sttPctOPT_def exchPctEQ_def exchPctFUT_def
  exchPctOPT_def sebiPct_def gstPct_def stampPctEQ_def stampPctFUT_def stampPctOPT_def
  brokerageFlatPerLeg_def brokeragePct_def

definition pos_rate :: "f64 \<Rightarrow> bool" where
  "pos_rate x \<longleftrightarrow> is_fin x \<and> 0 < xval x \<and> wf64 x"

lemma pos_rate_lit: "0 < n \<Longrightarrow> 0 < d \<Longrightarrow> n \<le> 2 ^ 53 \<Longrightarrow> d \<le> 2 ^ 53 \<Longrightarrow> pos_rate (lit n d)"
  by (simp add: pos_rate_def lit_pos)

lemma pos_rate_consts [simp]:
  "pos_rate sebiPct" "pos_rate gstPct" "pos_rate brokeragePct" "pos_rate brokerageFlatPerLeg"
  by (simp_all add: rate_consts pos_rate_lit)

lemma pos_rate_table:
  "rateTable seg = Some (e, t, st) \<Longrightarrow> pos_rate e \<and> pos_rate t \<and> pos_rate st"
  by (auto simp: rateTable_def rate_consts intro!: pos_rate_lit split: if_splits)

lemma pos_rate_times [float_intro]:
  "pos_rate x \<Longrightarrow> wf64 y \<Longrightarrow> 0 \<le> y \<Longrightarrow> 0 \<le> x * y"
  "pos_rate x \<Longrightarrow> wf64 y \<Longrightarrow> wf64 (x * y)"
  by (simp_all add: pos_rate_def times_pos_nonneg wf64_times)

lemma perLegBrokerage_bounds:
  assumes "wf64 t" "0 \<le> t"
  shows "0 \<le> perLegBrokerage t" "perLegBrokerage t \<le> lit 20 1" "wf64 (perLegBrokerage t)"
proof -
  have p: "0 \<le> brokeragePct * t" "wf64 (brokeragePct * t)"
    using assms by (auto intro: float_intro)
  then show "0 \<le> perLegBrokerage t" "wf64 (perLegBrokerage t)"
    by (auto simp: perLegBrokerage_def Let_def brokerageFlatPerLeg_def intro: lit_pos)
  show "perLegBrokerage t \<le> lit 20 1"
    by (auto simp: perLegBrokerage_def Let_def brokerageFlatPerLeg_def
      intro: f64_less_imp_le f64_le_refl)
qed


lemma le_plus_last: "0 \<le> s \<Longrightarrow> 0 \<le> y \<Longrightarrow> wf64 s \<Longrightarrow> wf64 y \<Longrightarrow> y \<le> s + (y::f64)"
  using plus_ge_left [of s y] plus_nonneg [of s y]
  by (simp add: nonneg_not_nan plus_f64_comm [of y s])

lemma le_plus_right:
  "x \<le> s \<Longrightarrow> wf64 x \<Longrightarrow> 0 \<le> s \<Longrightarrow> 0 \<le> y \<Longrightarrow> wf64 s \<Longrightarrow> wf64 y \<Longrightarrow> x \<le> s + (y::f64)"
  using plus_ge_left [of y s] plus_nonneg [of s y]
  by (auto intro: f64_le_trans simp: nonneg_not_nan)

lemma Compute_unknown [simp]: "rateTable seg = None \<Longrightarrow> Compute seg side p q n = zero_breakdown"
  by (simp add: Compute_def)

lemma Compute_known:
  fixes seg side :: string and p q :: f64 and n :: goint
  assumes "rateTable seg = Some (e, t, st)"
  defines "ent \<equiv> p * f_of_int n" and "exi \<equiv> q * f_of_int n"
  shows "Brokerage (Compute seg side p q n) = perLegBrokerage ent + perLegBrokerage exi"
    and "STT (Compute seg side p q n) = t * (if side = OrderSideBuy then exi else ent)"
    and "ExchangeFees (Compute seg side p q n) = e * (ent + exi)"
    and "SEBIFees (Compute seg side p q n) = sebiPct * (ent + exi)"
    and "GST (Compute seg side p q n) =
      gstPct * (perLegBrokerage ent + perLegBrokerage exi + e * (ent + exi) + sebiPct * (ent + exi))"
    and "StampDuty (Compute seg side p q n) = st * (if side = OrderSideBuy then ent else exi)"
  using assms by (simp_all add: Compute_def Let_def)

section \<open>The contract of a charge calculator\<close>

text \<open>
  What \<^verbatim>\<open>models.ChargeCalculator\<close> promises: an unrecognised segment is charged nothing, the
  total is the sum of the parts, and for non-negative prices and a positive quantity every
  part is a non-negative double. The engine's lemmas are proved from these laws.
\<close>

definition parts_ok :: "(f64 \<Rightarrow> bool) \<Rightarrow> charge_breakdown \<Rightarrow> bool" where
  "parts_ok P cb \<longleftrightarrow> P (Brokerage cb) \<and> P (STT cb) \<and> P (ExchangeFees cb) \<and> P (SEBIFees cb)
     \<and> P (GST cb) \<and> P (StampDuty cb)"

locale charge_calculator =
  fixes compute :: "string \<Rightarrow> string \<Rightarrow> f64 \<Rightarrow> f64 \<Rightarrow> goint \<Rightarrow> charge_breakdown"
    and known :: "string \<Rightarrow> bool"
  assumes unknown_zero: "\<not> known seg \<Longrightarrow> compute seg side p q n = zero_breakdown"
    and total_sum: "Total (compute seg side p q n) =
      Brokerage (compute seg side p q n) + STT (compute seg side p q n)
      + ExchangeFees (compute seg side p q n) + SEBIFees (compute seg side p q n)
      + GST (compute seg side p q n) + StampDuty (compute seg side p q n)"
    and parts_wf: "wf64 p \<Longrightarrow> wf64 q \<Longrightarrow> parts_ok wf64 (compute seg side p q n)"
    and parts_nonneg: "wf64 p \<Longrightarrow> wf64 q \<Longrightarrow> 0 \<le> p \<Longrightarrow> 0 \<le> q \<Longrightarrow> 0 < n \<Longrightarrow> in64 n \<Longrightarrow>
      parts_ok (\<lambda>x. 0 \<le> x) (compute seg side p q n)"
begin

lemma wf_total: "wf64 (Total (compute seg side p q n))"
  by (simp add: total_sum)

lemma total_ge_parts:
  assumes "wf64 p" "wf64 q" "0 \<le> p" "0 \<le> q" "0 < n" "in64 n"
  shows "parts_ok (\<lambda>x. x \<le> Total (compute seg side p q n)) (compute seg side p q n)"
    and "0 \<le> Total (compute seg side p q n)"
  using parts_nonneg [OF assms, of seg side] parts_wf [OF assms(1,2), of seg side n]
  by (simp_all add: parts_ok_def total_sum le_plus_last le_plus_right plus_nonneg f64_le_refl
    nonneg_not_nan)

end

definition known_segment :: "string \<Rightarrow> bool" where
  "known_segment seg \<longleftrightarrow> rateTable seg \<noteq> None"

interpretation irc: charge_calculator Compute known_segment
proof
  fix seg side :: string and p q :: f64 and n :: goint
  show "\<not> known_segment seg \<Longrightarrow> Compute seg side p q n = zero_breakdown"
    by (simp add: known_segment_def Compute_unknown del: not_None_eq)
  show "Total (Compute seg side p q n) =
      Brokerage (Compute seg side p q n) + STT (Compute seg side p q n)
      + ExchangeFees (Compute seg side p q n) + SEBIFees (Compute seg side p q n)
      + GST (Compute seg side p q n) + StampDuty (Compute seg side p q n)"
    by (simp add: Compute_def zero_breakdown_def zero_f64_def smant_def Let_def split: option.split)
  show "parts_ok wf64 (Compute seg side p q n)" if "wf64 p" "wf64 q"
  proof (cases "rateTable seg")
    case (Some r)
    then obtain e t st where r: "rateTable seg = Some (e, t, st)" by (cases r) auto
    with pos_rate_table that show ?thesis
      by (simp add: parts_ok_def Compute_known [OF r] pos_rate_def wf64_times rate_consts)
  qed (simp add: parts_ok_def zero_breakdown_def)
  assume a: "wf64 p" "wf64 q" "0 \<le> p" "0 \<le> q" "0 < n" "in64 n"
  define t u where "t = p * f_of_int n" and "u = q * f_of_int n"
  have tu: "wf64 t" "wf64 u" "0 \<le> t" "0 \<le> u"
    using a f_of_int_pos [of n] by (simp_all add: t_def u_def times_pos_nonneg wf64_times)
  show "parts_ok (\<lambda>x. 0 \<le> x) (Compute seg side p q n)"
  proof (cases "rateTable seg")
    case (Some r)
    then obtain e k st where r: "rateTable seg = Some (e, k, st)" by (cases r) auto
    with pos_rate_table tu show ?thesis
      by (simp add: parts_ok_def Compute_known [OF r] pos_rate_times plus_nonneg
        perLegBrokerage_bounds flip: t_def u_def)
  qed (simp add: parts_ok_def zero_breakdown_def zero_le_iff)
qed

section \<open>Properties\<close>

text \<open>C38. For a known segment, finite or infinite non-negative prices and a positive quantity,
  every part of the breakdown is a non-negative number, no part exceeds the total, and the
  brokerage of the round trip is at most twice the flat fee of twenty rupees.\<close>

theorem Compute_bounds:
  fixes seg side :: string and p q :: f64 and n :: goint
  assumes "wf64 p" "wf64 q" "0 \<le> p" "0 \<le> q" "0 < n" "in64 n"
  defines "cb \<equiv> Compute seg side p q n"
  shows "parts_ok (\<lambda>x. 0 \<le> x \<and> x \<le> Total cb) cb \<and> Brokerage cb \<le> lit 40 1"
proof -
  have "Brokerage cb \<le> lit 40 1"
  proof (cases "rateTable seg")
    case (Some r)
    then obtain e t st where r: "rateTable seg = Some (e, t, st)" by (cases r) auto
    have tu: "wf64 (p * f_of_int n)" "wf64 (q * f_of_int n)" "0 \<le> p * f_of_int n" "0 \<le> q * f_of_int n"
      using assms f_of_int_pos [of n] by (simp_all add: times_pos_nonneg wf64_times)
    have "Brokerage cb \<le> lit 20 1 + lit 20 1"
      unfolding cb_def Compute_known [OF r]
      by (intro plus_mono_both perLegBrokerage_bounds tu wf64_lit) simp_all
    also have "lit 20 1 + lit 20 1 = lit 40 1" by code_simp
    finally show ?thesis .
  qed (auto simp: cb_def zero_breakdown_def intro: lit_pos)
  with irc.parts_nonneg [OF assms(1-6), of seg side] irc.total_ge_parts(1) [OF assms(1-6), of seg side]
  show ?thesis by (simp add: parts_ok_def cb_def)
qed

theorem Compute_bounds_witness:
  "Brokerage (Compute InstrumentTypeEquity OrderSideBuy (lit 2500 1) (lit 2600 1) 100) \<le> lit 40 1"
proof -
  have "wf64 (lit 2500 1)" "wf64 (lit 2600 1)" by (simp_all add: wf64_lit)
  moreover have "0 \<le> lit 2500 1" "0 \<le> lit 2600 1" by (rule lit_pos; simp)+
  moreover have "in64 100" by (simp add: in64_def)
  ultimately show ?thesis
    using Compute_bounds [of "lit 2500 1" "lit 2600 1" 100 InstrumentTypeEquity OrderSideBuy] by simp
qed

text \<open>A short is charged as the long that sells at its entry price and buys at its exit
  price: swapping the side and the two prices leaves every field of the breakdown unchanged,
  rounding included, so STT is always levied on the sell leg and stamp duty on the buy leg.\<close>

theorem Compute_mirror:
  "Compute seg OrderSideSell p q n = Compute seg OrderSideBuy q p n"
  by (simp add: Compute_def Let_def OrderSideBuy_def OrderSideSell_def plus_f64_comm
    split: option.split)

end
