(* ===== verification/Indicators.thy ===== *)
theory Indicators
  imports Charges
begin

text \<open>
  \<^verbatim>\<open>internal/engine/indicators.go\<close>. A loop \<^verbatim>\<open>for i := a; i < n; i++ { ...; out[i] = v }\<close> is
  \<open>emit step a n state\<close>: \<open>step i state\<close> is the body, it returns the value written at \<open>i\<close>
  and the loop's variables for the next round. A slice prefix that the code fills with NaN is
  a \<open>replicate\<close> in front of the loop's output. Periods are Go integers, guarded as the code
  guards them. All arithmetic is IEEE binary64.
\<close>

section \<open>Loops that fill a slice\<close>

function emit :: "(nat \<Rightarrow> 's \<Rightarrow> 'a \<times> 's) \<Rightarrow> nat \<Rightarrow> nat \<Rightarrow> 's \<Rightarrow> 'a list" where
  "emit step i n s = (if i < n then fst (step i s) # emit step (Suc i) n (snd (step i s)) else [])"
  by pat_completeness auto
termination by (relation "measure (\<lambda>(_, i, n, _). n - i)") simp_all

declare emit.simps [simp del]

lemma length_emit [simp]: "length (emit step i n s) = n - i"
proof (induction step i n s rule: emit.induct)
  case (1 step i n s)
  then show ?case by (subst emit.simps) auto
qed

text \<open>The body is evaluated once a round.\<close>

lemma emit_code [code]:
  "emit step i n s = (if i < n then (case step i s of (v, t) \<Rightarrow> v # emit step (Suc i) n t) else [])"
  by (subst emit.simps) (simp add: split_beta)

text \<open>The loop rule: what is left of the output from round \<open>k\<close> on is the loop started there in
  a state that satisfies the invariant \<open>I\<close>.\<close>

lemma emit_drop:
  assumes step: "\<And>i s. I i s \<Longrightarrow> a \<le> i \<Longrightarrow> i < n \<Longrightarrow> I (Suc i) (snd (step i s))"
    and "I a s" "a + d \<le> n"
  shows "\<exists>t. I (a + d) t \<and> drop d (emit step a n s) = emit step (a + d) n t"
  using assms(3)
proof (induction d)
  case 0
  with assms(2) show ?case by auto
next
  case (Suc d)
  then obtain t where t: "I (a + d) t" "drop d (emit step a n s) = emit step (a + d) n t"
    by auto
  have "drop (Suc d) (emit step a n s) = tl (drop d (emit step a n s))"
    by (simp add: drop_Suc tl_drop)
  also have "\<dots> = emit step (Suc (a + d)) n (snd (step (a + d) t))"
    using Suc.prems by (subst t(2), subst emit.simps) simp
  finally show ?case using step [OF t(1)] Suc.prems by auto
qed

lemma emit_nth:
  assumes step: "\<And>i s. I i s \<Longrightarrow> a \<le> i \<Longrightarrow> i < n \<Longrightarrow> I (Suc i) (snd (step i s))"
    and "I a s" "a \<le> k" "k < n"
  obtains t where "I k t" "emit step a n s ! (k - a) = fst (step k t)"
    "Suc k < n \<Longrightarrow> emit step a n s ! (Suc k - a) = fst (step (Suc k) (snd (step k t)))"
proof -
  from emit_drop [of I a n step s "k - a"] assms obtain t
    where t: "I k t" "drop (k - a) (emit step a n s) = emit step k n t"
    by auto
  have "emit step a n s ! (k - a + j) = emit step k n t ! j" if "k + j < n" for j
    using that assms(3) by (subst t(2) [symmetric]) (simp add: add.commute)
  from this [of 0] this [of 1] assms(3,4)
  have "emit step a n s ! (k - a) = fst (step k t)"
    "Suc k < n \<Longrightarrow> emit step a n s ! (Suc k - a) = fst (step (Suc k) (snd (step k t)))"
    by (simp_all add: emit.simps Suc_diff_le)
  with t(1) show thesis by (rule that)
qed

lemma emit_at:
  assumes step: "\<And>i s. I i s \<Longrightarrow> a \<le> i \<Longrightarrow> i < n \<Longrightarrow> I (Suc i) (snd (step i s))"
    and "I a s" "a \<le> k" "k < n"
  shows "\<exists>t. I k t \<and> emit step a n s ! (k - a) = fst (step k t)"
  using emit_nth [of I a n step s k] assms by metis

lemma emit_all:
  assumes step: "\<And>i s. I i s \<Longrightarrow> a \<le> i \<Longrightarrow> i < n \<Longrightarrow> I (Suc i) (snd (step i s))"
    and val: "\<And>i s. I i s \<Longrightarrow> a \<le> i \<Longrightarrow> i < n \<Longrightarrow> P (fst (step i s))"
    and "I a s" "v \<in> set (emit step a n s)"
  shows "P v"
proof -
  from assms(4) obtain j where j: "j < n - a" "v = emit step a n s ! j"
    by (auto simp: in_set_conv_nth)
  then have k: "a \<le> a + j" "a + j < n" by auto
  obtain t where "I (a + j) t" "emit step a n s ! (a + j - a) = fst (step (a + j) t)"
    by (rule emit_nth [of I a n step s "a + j"]) (use step assms(3) k in auto)
  with val [of "a + j" t] j show ?thesis by simp
qed

section \<open>The indicators\<close>

definition nanSlice :: "nat \<Rightarrow> f64 list" where
  "nanSlice n = replicate n FNaN"

text \<open>\<^verbatim>\<open>for i := range p { sum += xs[i] }\<close>, from zero.\<close>

definition sum_first :: "f64 list \<Rightarrow> nat \<Rightarrow> f64" where
  "sum_first xs p = foldl (+) 0 (take p xs)"

definition SMA_step :: "f64 list \<Rightarrow> nat \<Rightarrow> nat \<Rightarrow> f64 \<Rightarrow> f64 \<times> f64" where
  "SMA_step closes p i acc =
     (let acc = acc + (closes ! i - closes ! (i - p))
      in (acc / f_of_int (int p), acc))"

definition SMA :: "f64 list \<Rightarrow> goint \<Rightarrow> f64 list" where
  "SMA closes period =
     (let n = length closes; p = nat period in
      if period \<le> 0 \<or> n = 0 then nanSlice n
      else if n < p then replicate (min (p - 1) n) FNaN
      else let acc = sum_first closes p
           in replicate (p - 1) FNaN @ [acc / f_of_int period]
              @ emit (SMA_step closes p) p n acc)"

definition EMA_step :: "f64 list \<Rightarrow> f64 \<Rightarrow> nat \<Rightarrow> f64 \<Rightarrow> f64 \<times> f64" where
  "EMA_step closes k i prev = (let v = closes ! i * k + prev * (1 - k) in (v, v))"

definition EMA :: "f64 list \<Rightarrow> goint \<Rightarrow> f64 list" where
  "EMA closes period =
     (let n = length closes; p = nat period in
      if period \<le> 0 \<or> n = 0 then nanSlice n
      else if n < p then replicate (min (p - 1) n) FNaN
      else let seed = sum_first closes p / f_of_int period;
               k = lit 2 1 / f_of_int (wrap64 (period + 1))
           in replicate (p - 1) FNaN @ [seed] @ emit (EMA_step closes k) p n seed)"

definition rsiValue :: "f64 \<Rightarrow> f64 \<Rightarrow> f64" where
  "rsiValue avgGain avgLoss =
     (if feq avgLoss 0 then lit 100 1
      else let rs = avgGain / avgLoss in lit 100 1 - lit 100 1 / (1 + rs))"

text \<open>The pair (gain, loss) of bar \<open>i\<close>; bar 0 has none.\<close>

definition gain_loss :: "f64 list \<Rightarrow> nat \<Rightarrow> f64 \<times> f64" where
  "gain_loss closes i =
     (if i = 0 then (0, 0)
      else let delta = closes ! i - closes ! (i - 1)
           in if 0 < delta then (delta, 0) else (0, - delta))"

definition RSI_step :: "f64 list \<Rightarrow> f64 list \<Rightarrow> goint \<Rightarrow> nat \<Rightarrow> f64 \<times> f64 \<Rightarrow> f64 \<times> f64 \<times> f64" where
  "RSI_step gains losses period i s =
     (let avgGain = (fst s * f_of_int (period - 1) + gains ! i) / f_of_int period;
          avgLoss = (snd s * f_of_int (period - 1) + losses ! i) / f_of_int period
      in (rsiValue avgGain avgLoss, avgGain, avgLoss))"

definition RSI :: "f64 list \<Rightarrow> goint \<Rightarrow> f64 list" where
  "RSI closes period =
     (let n = length closes; p = nat period in
      if period \<le> 0 \<or> n = 0 then nanSlice n
      else if n < p + 1 then replicate (min (p + 1) n) FNaN
      else let gains = map (\<lambda>i. fst (gain_loss closes i)) [0..<n];
               losses = map (\<lambda>i. snd (gain_loss closes i)) [0..<n];
               avgGain = sum_first (drop 1 gains) p / f_of_int period;
               avgLoss = sum_first (drop 1 losses) p / f_of_int period
           in replicate p FNaN @ [rsiValue avgGain avgLoss]
              @ emit (RSI_step gains losses period) (p + 1) n (avgGain, avgLoss))"

definition true_range :: "candle list \<Rightarrow> nat \<Rightarrow> f64" where
  "true_range cs i =
     (if i = 0 then cHigh (cs ! 0) - cLow (cs ! 0)
      else let hl = cHigh (cs ! i) - cLow (cs ! i);
               hpc = fabs (cHigh (cs ! i) - cClose (cs ! (i - 1)));
               lpc = fabs (cLow (cs ! i) - cClose (cs ! (i - 1)))
           in fmax hl (fmax hpc lpc))"

definition ATR_step :: "f64 list \<Rightarrow> goint \<Rightarrow> nat \<Rightarrow> f64 \<Rightarrow> f64 \<times> f64" where
  "ATR_step tr period i prev =
     (let v = (prev * f_of_int (period - 1) + tr ! i) / f_of_int period in (v, v))"

definition ATR :: "candle list \<Rightarrow> goint \<Rightarrow> f64 list" where
  "ATR cs period =
     (let n = length cs; p = nat period in
      if period \<le> 0 \<or> n = 0 then nanSlice n
      else let tr = map (true_range cs) [0..<n] in
        if n < p then replicate (min p n) FNaN
        else let v = sum_first tr p / f_of_int period
             in replicate (p - 1) FNaN @ [v] @ emit (ATR_step tr period) p n v)"

text \<open>What a round of the Supertrend loop reads of the previous one: \<^verbatim>\<open>upperBand[i-1]\<close>,
  \<^verbatim>\<open>lowerBand[i-1]\<close>, \<^verbatim>\<open>st[i-1]\<close> and \<^verbatim>\<open>dir[i-1]\<close>.\<close>

record st_state =
  upperBand :: f64
  lowerBand :: f64
  st :: f64
  dir :: goint

definition st_bands :: "candle list \<Rightarrow> f64 list \<Rightarrow> f64 \<Rightarrow> nat \<Rightarrow> st_state \<Rightarrow> f64 \<times> f64" where
  "st_bands cs atr multiplier i prev =
     (let hl2 = (cHigh (cs ! i) + cLow (cs ! i)) / lit 2 1;
          basicUpper = hl2 + multiplier * atr ! i;
          basicLower = hl2 - multiplier * atr ! i;
          prevClose = cClose (cs ! (i - 1))
      in if 0 < i \<and> \<not> is_nan (upperBand prev)
         then (if basicUpper < upperBand prev \<or> upperBand prev < prevClose then basicUpper
                 else upperBand prev,
               if lowerBand prev < basicLower \<or> prevClose < lowerBand prev then basicLower
                 else lowerBand prev)
         else (basicUpper, basicLower))"

definition Supertrend_step ::
  "candle list \<Rightarrow> f64 list \<Rightarrow> f64 \<Rightarrow> nat \<Rightarrow> st_state \<Rightarrow> (f64 \<times> goint) \<times> st_state" where
  "Supertrend_step cs atr multiplier i prev =
     (if is_nan (atr ! i) then ((FNaN, 1), \<lparr>upperBand = FNaN, lowerBand = FNaN, st = FNaN, dir = 1\<rparr>)
      else
        let (upper, lower) = st_bands cs atr multiplier i prev;
            close = cClose (cs ! i);
            d = (if i = 0 \<or> is_nan (st prev) then (if close \<le> upper then 1 else - 1)
                 else if dir prev = 1 then (if close < lower then - 1 else 1)
                 else (if upper < close then 1 else - 1));
            line = (if d = 1 then lower else upper)
        in ((line, d), \<lparr>upperBand = upper, lowerBand = lower, st = line, dir = d\<rparr>))"

definition Supertrend :: "candle list \<Rightarrow> goint \<Rightarrow> f64 \<Rightarrow> f64 list \<times> goint list" where
  "Supertrend cs period multiplier =
     (let n = length cs in
      if period \<le> 0 \<or> n = 0 then (nanSlice n, replicate n 0)
      else let out = emit (Supertrend_step cs (ATR cs period) multiplier) 0 n
                       \<lparr>upperBand = 0, lowerBand = 0, st = 0, dir = 0\<rparr>
           in (map fst out, map snd out))"

definition typicalPrice :: "candle \<Rightarrow> f64" where
  "typicalPrice c = (cHigh c + cLow c + cClose c) / lit 3 1"

definition vwap_quot :: "f64 \<Rightarrow> f64 \<Rightarrow> f64" where
  "vwap_quot sumTPV sumVol = (if 0 < sumVol then sumTPV / sumVol else FNaN)"

definition RollingVWAP_add :: "candle \<Rightarrow> f64 \<times> f64 \<Rightarrow> f64 \<times> f64" where
  "RollingVWAP_add c s =
     (fst s + typicalPrice c * f_of_int (cVolume c), snd s + f_of_int (cVolume c))"

definition RollingVWAP_step :: "candle list \<Rightarrow> nat \<Rightarrow> nat \<Rightarrow> f64 \<times> f64 \<Rightarrow> f64 \<times> f64 \<times> f64" where
  "RollingVWAP_step cs p i s =
     (let c = cs ! (i - p);
          s = (fst s - typicalPrice c * f_of_int (cVolume c), snd s - f_of_int (cVolume c));
          s = RollingVWAP_add (cs ! i) s
      in (vwap_quot (fst s) (snd s), s))"

definition RollingVWAP :: "candle list \<Rightarrow> goint \<Rightarrow> f64 list" where
  "RollingVWAP cs period =
     (let n = length cs; p = nat period in
      if period \<le> 0 \<or> n = 0 then nanSlice n
      else if n < p then replicate (min (p - 1) n) FNaN
      else let s = foldl (\<lambda>s c. RollingVWAP_add c s) (0, 0) (take p cs)
           in replicate (p - 1) FNaN @ [vwap_quot (fst s) (snd s)]
              @ emit (RollingVWAP_step cs p) p n s)"

section \<open>Lengths and warm-up\<close>

lemma length_SMA [simp]: "length (SMA xs p) = length xs"
  by (auto simp: SMA_def Let_def nanSlice_def)

lemma length_EMA [simp]: "length (EMA xs p) = length xs"
  by (auto simp: EMA_def Let_def nanSlice_def)

lemma length_RSI [simp]: "length (RSI xs p) = length xs"
  by (auto simp: RSI_def Let_def nanSlice_def)

lemma length_ATR [simp]: "length (ATR cs p) = length cs"
  by (auto simp: ATR_def Let_def nanSlice_def)

lemma length_Supertrend [simp]:
  "length (fst (Supertrend cs p m)) = length cs" "length (snd (Supertrend cs p m)) = length cs"
  by (auto simp: Supertrend_def Let_def nanSlice_def)

lemma length_RollingVWAP [simp]: "length (RollingVWAP cs p) = length cs"
  by (auto simp: RollingVWAP_def Let_def nanSlice_def)

lemma warmup_SMA: "i < length xs \<Longrightarrow> int i < p - 1 \<or> p \<le> 0 \<Longrightarrow> SMA xs p ! i = FNaN"
  by (auto simp: SMA_def Let_def nanSlice_def nth_append)

lemma warmup_EMA: "i < length xs \<Longrightarrow> int i < p - 1 \<or> p \<le> 0 \<Longrightarrow> EMA xs p ! i = FNaN"
  by (auto simp: EMA_def Let_def nanSlice_def nth_append)

lemma warmup_RSI: "i < length xs \<Longrightarrow> int i < p \<or> p \<le> 0 \<Longrightarrow> RSI xs p ! i = FNaN"
  by (auto simp: RSI_def Let_def nanSlice_def nth_append)

lemma warmup_ATR: "i < length cs \<Longrightarrow> int i < p - 1 \<or> p \<le> 0 \<Longrightarrow> ATR cs p ! i = FNaN"
  by (auto simp: ATR_def Let_def nanSlice_def nth_append)

lemma warmup_RollingVWAP:
  "i < length cs \<Longrightarrow> int i < p - 1 \<or> p \<le> 0 \<Longrightarrow> RollingVWAP cs p ! i = FNaN"
  by (auto simp: RollingVWAP_def Let_def nanSlice_def nth_append)

section \<open>Not-a-number or non-negative\<close>

definition nn :: "f64 \<Rightarrow> bool" where
  "nn x \<longleftrightarrow> wf64 x \<and> (is_nan x \<or> 0 \<le> x)"

lemma is_nanD: "is_nan x \<Longrightarrow> x = FNaN"
  by (cases x) simp_all

lemma FNaN_ops [simp]:
  "x + FNaN = FNaN" "x * FNaN = FNaN" "x div FNaN = FNaN" "FNaN - x = FNaN" "x - FNaN = FNaN"
  by (cases x; simp add: minus_f64_def)+

lemma nn_FNaN [simp]: "nn FNaN" and nn_zero [simp]: "nn 0"
  by (simp_all add: nn_def)

lemma nn_plus [simp, intro]: "nn x \<Longrightarrow> nn y \<Longrightarrow> nn (x + y)"
  by (auto simp: nn_def intro: plus_nonneg dest!: is_nanD)

lemma nn_times [simp, intro]: "nn x \<Longrightarrow> nn y \<Longrightarrow> nn (x * y)"
  by (auto simp: nn_def wf64_times intro: times_nonneg dest!: is_nanD)

lemma nn_divide [simp, intro]: "nn x \<Longrightarrow> wf64 y \<Longrightarrow> 0 < xval y \<Longrightarrow> nn (x / y)"
  using divide_nonneg [of x y]
  by (cases "is_nan y") (auto simp: nn_def wf64_divide zero_le_iff dest!: is_nanD)

lemma nn_minus:
  assumes "x \<le> y" "wf64 x" "wf64 y" shows "nn (y - x)"
proof (cases "is_fin x \<and> is_fin y")
  case True
  with assms show ?thesis
    by (simp add: nn_def minus_f64_def plus_fin zero_le_iff rd_nonneg f64_le_iff)
next
  case False
  with assms show ?thesis
    by (cases x; cases y) (auto simp: nn_def minus_f64_def zero_f64_def)
qed

lemma nn_f_of_int [simp]: "0 \<le> i \<Longrightarrow> nn (f_of_int i)"
  by (simp add: nn_def wf64_f_of_int zero_le_iff xval_f_of_int rd_nonneg)

lemma nn_foldl_plus: "nn a \<Longrightarrow> (\<And>x. x \<in> set xs \<Longrightarrow> nn x) \<Longrightarrow> nn (foldl (+) a xs)"
  by (induction xs arbitrary: a) simp_all

lemma nn_sum_first: "(\<And>x. x \<in> set xs \<Longrightarrow> nn x) \<Longrightarrow> nn (sum_first xs p)"
  unfolding sum_first_def by (rule nn_foldl_plus) (auto dest: in_set_takeD)

lemma nn_fabs [simp]: "wf64 x \<Longrightarrow> nn (fabs x)"
  by (cases x) (auto simp: nn_def zero_le_iff smant_def)

lemma nn_fmax: "wf64 x \<Longrightarrow> nn y \<Longrightarrow> nn (fmax x y)"
proof (cases "is_nan x \<or> is_nan y \<or> x = FInf False \<or> y = FInf False")
  case True
  moreover have "nn (FInf False)" by (simp add: nn_def zero_f64_def)
  ultimately show ?thesis by (auto simp: fmax_def)
next
  case False
  assume "wf64 x" "nn y"
  with False show ?thesis
    by (auto simp: nn_def fmax_def zero_le_iff f64_less_iff f64_feq_iff)
qed

section \<open>RSI stays between 0 and 100\<close>

lemma xval_f_of_int_ge_1: "1 \<le> i \<Longrightarrow> 1 \<le> xval (f_of_int i)"
  using rd_mono [of "of_int 1" "of_int i"] rd_of_int [of 1] by (simp add: xval_f_of_int)

lemma xval_f_of_int_pos [simp]: "1 \<le> i \<Longrightarrow> 0 < xval (f_of_int i)"
  using xval_f_of_int_ge_1 [of i] by linarith

lemma lit_100: "is_fin (lit 100 1)" "xval (lit 100 1) = 100"
  using rd_of_int [of 100] by (auto simp: xval_lit intro: lit_pos)

lemma hundred_minus_share:
  assumes "0 \<le> z" "z \<le> lit 100 1" "wf64 z"
  shows "0 \<le> lit 100 1 - z" "lit 100 1 - z \<le> lit 100 1"
proof -
  have z: "0 \<le> xval z" "xval z \<le> 100" "\<not> is_nan z"
    using assms by (simp_all add: zero_le_iff f64_le_iff lit_100)
  moreover have "(100::real) < 2 ^ 1024"
    using power_increasing [of 7 1024 "2::real"] by simp
  ultimately have f: "is_fin z" by (cases z) (auto split: if_splits)
  then have v: "xval (lit 100 1 - z) = rd (100 - xval z)" "\<not> is_nan (lit 100 1 - z)"
    using lit_100 by (simp_all add: minus_f64_def plus_fin)
  have "0 \<le> rd (100 - xval z)" using z by (intro rd_nonneg) simp
  moreover have "rd (100 - xval z) \<le> 100"
    using rd_mono [of "100 - xval z" 100] z rd_of_int [of 100] by simp
  ultimately show "0 \<le> lit 100 1 - z" "lit 100 1 - z \<le> lit 100 1"
    using v by (simp_all add: zero_le_iff f64_le_iff lit_100)
qed

lemma share_of_hundred:
  assumes "nn r" shows "is_nan r \<or> 0 \<le> lit 100 1 / (1 + r) \<and> lit 100 1 / (1 + r) \<le> lit 100 1"
proof (cases "is_fin (1 + r) \<and> is_fin r")
  case True
  have "rd 1 \<le> rd (1 + xval r)"
    using assms True by (intro rd_mono) (auto simp: nn_def zero_le_iff is_fin_not_nan)
  then have ge: "1 \<le> xval (1 + r)"
    using True rd_of_int [of 1] by (simp add: plus_fin one_f64_def smant_def power_int_minus)
  have v: "xval (lit 100 1 / (1 + r)) = rd (100 / xval (1 + r))" "\<not> is_nan (lit 100 1 / (1 + r))"
    using True ge lit_100 by (simp_all add: divide_fin)
  have "0 \<le> rd (100 / xval (1 + r))" using ge by (intro rd_nonneg) simp
  moreover have "rd (100 / xval (1 + r)) \<le> 100"
    using rd_mono [of "100 / xval (1 + r)" 100] ge rd_of_int [of 100] by (simp add: field_simps)
  ultimately show ?thesis
    using v by (simp add: zero_le_iff f64_le_iff lit_100 wf64_divide)
next
  case False
  have "0 \<le> 1 + r" if "\<not> is_nan r"
    using assms that by (intro plus_nonneg) (auto simp: nn_def zero_le_iff one_f64_def smant_def)
  then have "is_nan r \<or> 1 + r = FInf False"
    using False by (cases r; cases "1 + r") (auto simp: zero_f64_def one_f64_def)
  moreover have "0 \<le> lit 100 1 / FInf False \<and> lit 100 1 / FInf False \<le> lit 100 1" by code_simp
  ultimately show ?thesis by auto
qed

lemma rsiValue_range:
  assumes "nn g" "nn l"
  shows "is_nan (rsiValue g l) \<or> 0 \<le> rsiValue g l \<and> rsiValue g l \<le> lit 100 1"
proof (cases "feq l 0 \<or> is_nan l")
  case True
  then show ?thesis
    by (auto simp: rsiValue_def Let_def zero_le_iff lit_100 f64_le_iff dest!: is_nanD)
next
  case False
  with assms(2) have "0 < xval l" by (auto simp: nn_def zero_le_iff f64_feq_iff)
  then have "nn (g / l)" using assms by (intro nn_divide) (simp_all add: nn_def)
  with share_of_hundred [OF this] hundred_minus_share [of "lit 100 1 / (1 + g / l)"] False
  show ?thesis by (auto simp: rsiValue_def Let_def nn_def wf64_divide dest!: is_nanD)
qed


lemma nn_gain_loss:
  assumes "\<And>x. x \<in> set xs \<Longrightarrow> wf64 x" "i < length xs"
  shows "nn (fst (gain_loss xs i))" "nn (snd (gain_loss xs i))"
proof -
  define d where "d = xs ! i - xs ! (i - 1)"
  have "nn (fst (if 0 < d then (d, 0) else (0, - d)))" "nn (snd (if 0 < d then (d, 0) else (0, - d)))"
    by (cases "is_nan d"; force simp: nn_def d_def zero_le_iff f64_less_iff dest!: is_nanD)+
  then show "nn (fst (gain_loss xs i))" "nn (snd (gain_loss xs i))"
    by (auto simp: gain_loss_def Let_def d_def split: if_splits)
qed

lemma RSI_range:
  assumes "\<And>x. x \<in> set xs \<Longrightarrow> wf64 x" "v \<in> set (RSI xs p)"
  shows "is_nan v \<or> 0 \<le> v \<and> v \<le> lit 100 1"
proof (cases "p \<le> 0 \<or> length xs < nat p + 1")
  case True
  with assms(2) show ?thesis by (auto simp: RSI_def Let_def nanSlice_def split: if_splits)
next
  case False
  define gs ls where "gs = map (\<lambda>i. fst (gain_loss xs i)) [0..<length xs]"
    and "ls = map (\<lambda>i. snd (gain_loss xs i)) [0..<length xs]"
  have nn: "nn x" if "x \<in> set gs \<union> set ls" for x
    using that nn_gain_loss [of xs] assms(1) by (auto simp: gs_def ls_def)
  define s0 where "s0 = (sum_first (drop 1 gs) (nat p) / f_of_int p, sum_first (drop 1 ls) (nat p) / f_of_int p)"
  have s0: "nn (fst s0) \<and> nn (snd s0)"
    using False nn by (auto simp: s0_def intro!: nn_divide nn_sum_first dest: in_set_dropD)
  have len: "length gs = length xs" "length ls = length xs" by (simp_all add: gs_def ls_def)
  have step: "nn (fst (snd (RSI_step gs ls p i s))) \<and> nn (snd (snd (RSI_step gs ls p i s)))"
    if "nn (fst s) \<and> nn (snd s)" "i < length xs" for i s
    using that False nn len by (auto simp: RSI_step_def Let_def intro!: nn_divide nn_plus nn_times)
  have val: "is_nan (fst (RSI_step gs ls p i s)) \<or>
      0 \<le> fst (RSI_step gs ls p i s) \<and> fst (RSI_step gs ls p i s) \<le> lit 100 1"
    if "nn (fst s) \<and> nn (snd s)" "i < length xs" for i s
    using rsiValue_range step [OF that] by (simp add: RSI_step_def Let_def)
  have "v = FNaN \<or> v = rsiValue (fst s0) (snd s0) \<or>
      v \<in> set (emit (RSI_step gs ls p) (nat p + 1) (length xs) s0)"
    using assms(2) False
    by (auto simp: RSI_def Let_def nanSlice_def s0_def gs_def ls_def split: if_splits)
  then show ?thesis
    using rsiValue_range s0 emit_all [where I = "\<lambda>_ s. nn (fst s) \<and> nn (snd s)"
      and P = "\<lambda>v. is_nan v \<or> 0 \<le> v \<and> v \<le> lit 100 1" and step = "RSI_step gs ls p"
      and a = "nat p + 1" and s = s0 and n = "length xs"] step val
    by auto
qed

section \<open>ATR is not negative\<close>

lemma nn_true_range:
  assumes "\<forall>c \<in> set cs. wf_candle c" "i < length cs" "cLow (cs ! 0) \<le> cHigh (cs ! 0)"
  shows "nn (true_range cs i)"
proof (cases i)
  case 0
  have "wf64 (cHigh (cs ! 0))" "wf64 (cLow (cs ! 0))" using assms(1,2) 0 by auto
  then have "nn (cHigh (cs ! 0) - cLow (cs ! 0))"
    using assms(3) by (intro nn_minus)
  then show ?thesis by (simp add: true_range_def 0)
next
  case (Suc j)
  then show ?thesis
    using assms(1,2) by (auto simp: true_range_def Let_def wf64_fabs intro!: nn_fmax)
qed

lemma ATR_nn:
  assumes "\<forall>c \<in> set cs. wf_candle c" "cs \<noteq> [] \<Longrightarrow> cLow (cs ! 0) \<le> cHigh (cs ! 0)" "v \<in> set (ATR cs p)"
  shows "nn v"
proof (cases "p \<le> 0 \<or> length cs < nat p")
  case True
  with assms(3) show ?thesis by (auto simp: ATR_def Let_def nanSlice_def split: if_splits)
next
  case False
  define tr where "tr = map (true_range cs) [0..<length cs]"
  have tr: "nn x" if "x \<in> set tr" for x
  proof -
    from that obtain i where i: "i < length cs" "x = true_range cs i" by (auto simp: tr_def)
    then have "cs \<noteq> []" by auto
    with nn_true_range [OF assms(1) i(1)] assms(2) i(2) show ?thesis by simp
  qed
  have len: "length tr = length cs" by (simp add: tr_def)
  have step: "nn (fst (ATR_step tr p i s))" "nn (snd (ATR_step tr p i s))"
    if "nn s" "i < length cs" for i s
    using that False tr len unfolding ATR_step_def Let_def fst_conv snd_conv
    by (intro nn_divide nn_plus nn_times; simp)+
  have v0: "nn (sum_first tr (nat p) / f_of_int p)"
    using False tr by (intro nn_divide nn_sum_first) auto
  have "v = FNaN \<or> v = sum_first tr (nat p) / f_of_int p \<or>
      v \<in> set (emit (ATR_step tr p) (nat p) (length cs) (sum_first tr (nat p) / f_of_int p))"
    using assms(3) False by (auto simp: ATR_def Let_def nanSlice_def tr_def split: if_splits)
  moreover have "nn v" if "v \<in> set (emit (ATR_step tr p) (nat p) (length cs) (sum_first tr (nat p) / f_of_int p))"
    using that by (rule emit_all [where I = "\<lambda>_. nn", rotated 3]) (simp_all add: step v0)
  ultimately show ?thesis using v0 by auto
qed

section \<open>Supertrend\<close>

lemma Supertrend_pos:
  assumes "0 < p" "cs \<noteq> []"
  shows "Supertrend cs p m =
    (let out = emit (Supertrend_step cs (ATR cs p) m) 0 (length cs)
                 \<lparr>upperBand = 0, lowerBand = 0, st = 0, dir = 0\<rparr> in (map fst out, map snd out))"
  using assms by (simp add: Supertrend_def Let_def)

lemma Supertrend_step_out:
  "fst (Supertrend_step cs atr m i s) = (st (snd (Supertrend_step cs atr m i s)), dir (snd (Supertrend_step cs atr m i s)))"
  by (simp add: Supertrend_step_def Let_def split: prod.split)

lemma Supertrend_dir:
  assumes "0 < p" "d \<in> set (snd (Supertrend cs p m))"
  shows "d = 1 \<or> d = - 1"
proof -
  have "cs \<noteq> []" using assms(2) by (cases cs) (auto simp: Supertrend_def)
  with assms obtain q where "q \<in> set (emit (Supertrend_step cs (ATR cs p) m) 0 (length cs)
      \<lparr>upperBand = 0, lowerBand = 0, st = 0, dir = 0\<rparr>)" "d = snd q"
    by (auto simp: Supertrend_pos Let_def)
  moreover have "snd (fst (Supertrend_step cs (ATR cs p) m i s)) = 1 \<or>
      snd (fst (Supertrend_step cs (ATR cs p) m i s)) = - 1" for i s
    by (simp add: Supertrend_step_def Let_def split: prod.split)
  ultimately show ?thesis
    using emit_all [where I = "\<lambda>_ _. True" and P = "\<lambda>q. snd q = 1 \<or> snd q = - 1"
      and step = "Supertrend_step cs (ATR cs p) m"] by metis
qed

text \<open>The bands are numbers as soon as ATR is, for non-negative prices.\<close>

definition priced :: "candle \<Rightarrow> bool" where
  "priced c \<longleftrightarrow> wf_candle c \<and> 0 \<le> cLow c \<and> cLow c \<le> cHigh c"

lemma pos_rate_nn_times: "pos_rate m \<Longrightarrow> 0 \<le> a \<Longrightarrow> wf64 a \<Longrightarrow> 0 \<le> m * a"
  by (rule pos_rate_times)

lemma basicUpper_nonneg:
  assumes "priced c" "pos_rate m" "nn a" "\<not> is_nan a"
  shows "0 \<le> (cHigh c + cLow c) / lit 2 1 + m * a"
proof -
  have l: "0 \<le> cLow c" "cLow c \<le> cHigh c" and w: "wf64 (cHigh c)" "wf64 (cLow c)"
    using assms(1) by (simp_all add: priced_def)
  have c: "0 \<le> cHigh c" "0 \<le> cLow c"
    using l w by (auto intro: f64_le_trans)
  have two: "is_fin (lit 2 1)" "0 < xval (lit 2 1)" by (rule lit_pos; simp)+
  have "0 \<le> cHigh c + cLow c" using c by (intro plus_nonneg)
  then have "0 \<le> (cHigh c + cLow c) / lit 2 1" using two by (intro divide_pos_nonneg) auto
  moreover have "0 \<le> m * a" using assms(2-4) by (intro pos_rate_nn_times) (auto simp: nn_def)
  ultimately show ?thesis by (rule plus_nonneg)
qed

lemma Supertrend_step_num:
  assumes "priced (cs ! i)" "pos_rate m" "nn (atr ! i)"
    and "\<not> is_nan (st (snd (Supertrend_step cs atr m i t)))"
  shows "\<not> is_nan (upperBand (snd (Supertrend_step cs atr m i t)))"
    and "st (snd (Supertrend_step cs atr m i t)) =
      (if dir (snd (Supertrend_step cs atr m i t)) = 1
       then lowerBand (snd (Supertrend_step cs atr m i t))
       else upperBand (snd (Supertrend_step cs atr m i t)))"
proof -
  have a: "\<not> is_nan (atr ! i)" using assms(4) by (auto simp: Supertrend_step_def)
  with basicUpper_nonneg [OF assms(1,2,3)]
  have "\<not> is_nan (fst (st_bands cs atr m i t))"
    by (simp add: st_bands_def Let_def nonneg_not_nan)
  with a show "\<not> is_nan (upperBand (snd (Supertrend_step cs atr m i t)))"
    by (cases "st_bands cs atr m i t") (simp add: Supertrend_step_def Let_def)
  from a show "st (snd (Supertrend_step cs atr m i t)) =
      (if dir (snd (Supertrend_step cs atr m i t)) = 1
       then lowerBand (snd (Supertrend_step cs atr m i t))
       else upperBand (snd (Supertrend_step cs atr m i t)))"
    by (simp add: Supertrend_step_def Let_def split: prod.split)
qed

lemma Supertrend_step_ratchet:
  fixes cs i m atr
  defines "step \<equiv> Supertrend_step cs atr m"
  assumes s: "\<not> is_nan (upperBand s)" "st s = (if dir s = 1 then lowerBand s else upperBand s)"
      "\<not> is_nan (st s)" "wf64 (st s)"
    and n: "\<not> is_nan (st (snd (step (Suc i) s)))" "dir (snd (step (Suc i) s)) = dir s"
  shows "dir s = 1 \<Longrightarrow> \<not> cClose (cs ! i) < st s \<Longrightarrow> st s \<le> st (snd (step (Suc i) s))"
    and "dir s \<noteq> 1 \<Longrightarrow> \<not> st s < cClose (cs ! i) \<Longrightarrow> st (snd (step (Suc i) s)) \<le> st s"
proof -
  have a: "\<not> is_nan (atr ! Suc i)" using n(1) by (auto simp: step_def Supertrend_step_def)
  have line: "st (snd (step (Suc i) s)) =
      (if dir s = 1 then snd (st_bands cs atr m (Suc i) s) else fst (st_bands cs atr m (Suc i) s))"
    using a n(2) by (auto simp: step_def Supertrend_step_def Let_def split: prod.splits if_splits)
  show "dir s = 1 \<Longrightarrow> \<not> cClose (cs ! i) < st s \<Longrightarrow> st s \<le> st (snd (step (Suc i) s))"
    using s by (auto simp: line st_bands_def Let_def intro: f64_less_imp_le f64_le_refl)
  show "dir s \<noteq> 1 \<Longrightarrow> \<not> st s < cClose (cs ! i) \<Longrightarrow> st (snd (step (Suc i) s)) \<le> st s"
    using s by (auto simp: line st_bands_def Let_def intro: f64_less_imp_le f64_le_refl)
qed

lemma wf_Supertrend_step:
  assumes "\<And>c. c \<in> set cs \<Longrightarrow> wf_candle c" "i < length cs" "wf64 (atr ! i)" "wf64 m"
    and "wf64 (upperBand t)" "wf64 (lowerBand t)"
  shows "wf64 (upperBand (snd (Supertrend_step cs atr m i t)))"
    "wf64 (lowerBand (snd (Supertrend_step cs atr m i t)))"
    "wf64 (st (snd (Supertrend_step cs atr m i t)))"
  using assms(5,6)
  by (auto simp: Supertrend_step_def st_bands_def Let_def split: prod.split)

text \<open>Supertrend is a trailing stop: while the direction stays bullish and the close has not
  fallen through the line, the line never falls; while it stays bearish and the close has not
  risen through the line, the line never rises. The direction is always one of the two.\<close>

lemma Supertrend_trailing:
  assumes cs: "\<forall>c \<in> set cs. priced c" and m: "pos_rate m" and p: "0 < p" and i: "Suc i < length cs"
  defines "line \<equiv> fst (Supertrend cs p m)" and "d \<equiv> snd (Supertrend cs p m)"
  assumes num: "\<not> is_nan (line ! i)" "\<not> is_nan (line ! Suc i)"
  shows "d ! i \<in> {1, - 1} \<and>
    (d ! i = 1 \<and> d ! Suc i = 1 \<and> \<not> cClose (cs ! i) < line ! i \<longrightarrow> line ! i \<le> line ! Suc i) \<and>
    (d ! i = - 1 \<and> d ! Suc i = - 1 \<and> \<not> line ! i < cClose (cs ! i) \<longrightarrow> line ! Suc i \<le> line ! i)"
proof -
  let ?step = "Supertrend_step cs (ATR cs p) m"
  let ?out = "emit ?step 0 (length cs) \<lparr>upperBand = 0, lowerBand = 0, st = 0, dir = 0\<rparr>"
  have "cs \<noteq> []" using i by auto
  then have out: "line = map fst ?out" "d = map snd ?out"
    using p by (simp_all add: line_def d_def Supertrend_pos Let_def)
  have wfc: "wf_candle c" if "c \<in> set cs" for c using cs that by (simp add: priced_def)
  have atr: "nn (ATR cs p ! j)" if "j < length cs" for j
    using cs that by (intro ATR_nn [of cs _ p]) (auto simp: priced_def)
  define I where "I = (\<lambda>(_::nat) (t::st_state). wf64 (upperBand t) \<and> wf64 (lowerBand t))"
  have inv: "I (Suc j) (snd (?step j t))" if "I j t" "0 \<le> j" "j < length cs" for j t
    using that wf_Supertrend_step [OF wfc] atr m by (auto simp: I_def nn_def pos_rate_def)
  have "I 0 \<lparr>upperBand = 0, lowerBand = 0, st = 0, dir = 0\<rparr>" by (simp add: I_def)
  from emit_nth [of I 0 "length cs" ?step _ i, OF inv this] i obtain t
    where t: "I i t" "?out ! i = fst (?step i t)" "?out ! Suc i = fst (?step (Suc i) (snd (?step i t)))"
    by auto
  define s where "s = snd (?step i t)"
  have l: "line ! i = st s" "d ! i = dir s" "line ! Suc i = st (snd (?step (Suc i) s))"
      "d ! Suc i = dir (snd (?step (Suc i) s))"
    using i t(2,3) by (simp_all add: out Supertrend_step_out s_def)
  have wf: "wf64 (st s)"
    using wf_Supertrend_step [OF wfc, of cs i] atr [of i] m t(1) i
    by (auto simp: s_def I_def nn_def pos_rate_def)
  have s: "\<not> is_nan (upperBand s)" "st s = (if dir s = 1 then lowerBand s else upperBand s)"
    using Supertrend_step_num [of cs i m "ATR cs p" t] cs m atr [of i] num(1) i
    by (auto simp: l s_def)
  have "d ! i \<in> set d" using i by (simp add: d_def)
  then have "d ! i = 1 \<or> d ! i = - 1" using Supertrend_dir [OF p] by (auto simp: d_def)
  then show ?thesis
    using Supertrend_step_ratchet [OF s, of cs "ATR cs p" m i] num wf by (auto simp: l)
qed

text \<open>The witness runs the indicator with period 1 on two bars.\<close>

definition demo_bar :: "int \<Rightarrow> int \<Rightarrow> int \<Rightarrow> int \<Rightarrow> candle" where
  "demo_bar t h l c = \<lparr>cInstrumentID = 1, cTimestamp = t, cInterval = CandleInterval1D,
     cOpen = f_of_int c, cHigh = f_of_int h, cLow = f_of_int l, cClose = f_of_int c, cVolume = 10,
     cProvider = []\<rparr>"

theorem Supertrend_trailing_witness:
  "fst (Supertrend [demo_bar 0 12 8 10, demo_bar 1 16 12 15] 1 (lit 1 1)) ! 0
     \<le> fst (Supertrend [demo_bar 0 12 8 10, demo_bar 1 16 12 15] 1 (lit 1 1)) ! 1"
proof -
  have "\<forall>c \<in> set [demo_bar 0 12 8 10, demo_bar 1 16 12 15]. priced c" by code_simp
  moreover have "pos_rate (lit 1 1)" by (rule pos_rate_lit; simp)
  moreover have "\<not> is_nan (fst (Supertrend [demo_bar 0 12 8 10, demo_bar 1 16 12 15] 1 (lit 1 1)) ! 0)"
    "\<not> is_nan (fst (Supertrend [demo_bar 0 12 8 10, demo_bar 1 16 12 15] 1 (lit 1 1)) ! 1)"
    "snd (Supertrend [demo_bar 0 12 8 10, demo_bar 1 16 12 15] 1 (lit 1 1)) ! 0 = 1"
    "snd (Supertrend [demo_bar 0 12 8 10, demo_bar 1 16 12 15] 1 (lit 1 1)) ! 1 = 1"
    "\<not> cClose ([demo_bar 0 12 8 10, demo_bar 1 16 12 15] ! 0)
       < fst (Supertrend [demo_bar 0 12 8 10, demo_bar 1 16 12 15] 1 (lit 1 1)) ! 0"
    by code_simp+
  ultimately show ?thesis
    using Supertrend_trailing [of "[demo_bar 0 12 8 10, demo_bar 1 16 12 15]" "lit 1 1" 1 0] by simp
qed

section \<open>Rolling sums of whole numbers do not drift\<close>

text \<open>The sum of the window of \<open>p\<close> numbers that ends before \<open>i\<close>.\<close>

definition window :: "'a list \<Rightarrow> nat \<Rightarrow> nat \<Rightarrow> 'a list" where
  "window xs p i = take p (drop (i - p) xs)"

lemma window_Suc:
  assumes "p \<le> i" "i < length xs" "0 < p"
  shows "window xs p (Suc i) = tl (window xs p i) @ [xs ! i]" "window xs p i = xs ! (i - p) # tl (window xs p i)"
proof -
  from assms have "drop (i - p) xs = xs ! (i - p) # drop (Suc i - p) xs"
    by (simp add: Cons_nth_drop_Suc Suc_diff_le)
  moreover obtain q where p: "p = Suc q" using assms(3) by (cases p) auto
  ultimately show w: "window xs p i = xs ! (i - p) # tl (window xs p i)"
    by (simp add: window_def)
  from \<open>drop (i - p) xs = _\<close> have "tl (window xs p i) = take q (drop (Suc i - p) xs)"
    by (simp add: window_def p)
  then show "window xs p (Suc i) = tl (window xs p i) @ [xs ! i]"
    using assms by (simp add: window_def p take_Suc_conv_app_nth)
qed

lemma set_window: "set (window xs p i) \<subseteq> set xs"
  by (auto simp: window_def dest: in_set_takeD in_set_dropD)

lemma abs_sum_list_le:
  "(\<And>x. x \<in> set ks \<Longrightarrow> \<bar>x\<bar> \<le> (b::int)) \<Longrightarrow> \<bar>sum_list ks\<bar> \<le> int (length ks) * b"
  by (induction ks) (force simp: algebra_simps)+

lemma abs_sum_window_le:
  fixes ks :: "int list"
  assumes "\<And>x. x \<in> set ks \<Longrightarrow> \<bar>x\<bar> \<le> 2 ^ 31" "p \<le> 2 ^ 20"
  shows "\<bar>sum_list (window ks p i)\<bar> \<le> 2 ^ 51"
proof -
  have "\<bar>sum_list (window ks p i)\<bar> \<le> int (length (window ks p i)) * 2 ^ 31"
  proof (rule abs_sum_list_le)
    fix x assume "x \<in> set (window ks p i)"
    then have "x \<in> set ks" using set_window [of ks p i] by (rule subsetD [rotated])
    then show "\<bar>x\<bar> \<le> 2 ^ 31" by (rule assms(1))
  qed
  also have "\<dots> \<le> 2 ^ 20 * 2 ^ 31"
    using assms(2) by (intro mult_right_mono) (simp_all add: window_def)
  finally show ?thesis by simp
qed

lemma foldl_f_of_int:
  assumes "\<And>x. x \<in> set ks \<Longrightarrow> \<bar>x\<bar> \<le> 2 ^ 31" "\<bar>a\<bar> + int (length ks) * 2 ^ 31 \<le> 2 ^ 52"
  shows "foldl (+) (f_of_int a) (map f_of_int ks) = f_of_int (a + sum_list ks)"
  using assms
proof (induction ks arbitrary: a)
  case (Cons k ks)
  then have k: "\<bar>k\<bar> \<le> 2 ^ 31" by simp
  with Cons.prems(2) have "\<bar>a + k\<bar> + int (length ks) * 2 ^ 31 \<le> 2 ^ 52" "0 \<le> int (length ks) * 2 ^ 31"
    by (simp_all add: algebra_simps)
  with k Cons show ?case by (simp add: f_of_int_plus add.assoc)
qed simp

lemma sum_first_f_of_int:
  assumes "\<And>x. x \<in> set ks \<Longrightarrow> \<bar>x\<bar> \<le> 2 ^ 31" "p \<le> 2 ^ 20" "p \<le> length ks"
  shows "sum_first (map f_of_int ks) p = f_of_int (sum_list (window ks p p))"
proof -
  have "0 + int (length (take p ks)) * 2 ^ 31 \<le> 2 ^ 20 * 2 ^ 31"
    using assms(2) by simp
  then have "foldl (+) (f_of_int 0) (map f_of_int (take p ks)) = f_of_int (0 + sum_list (take p ks))"
    using assms(1) by (intro foldl_f_of_int) (auto dest: in_set_takeD)
  then show ?thesis by (simp add: sum_first_def window_def take_map)
qed

lemma roll_f_of_int:
  assumes "\<And>x. x \<in> set ks \<Longrightarrow> \<bar>x\<bar> \<le> 2 ^ 31" "0 < p" "p \<le> 2 ^ 20" "p \<le> i" "i < length ks"
  shows "f_of_int (sum_list (window ks p i)) + (f_of_int (ks ! i) - f_of_int (ks ! (i - p)))
     = f_of_int (sum_list (window ks p (Suc i)))"
    and "f_of_int (sum_list (window ks p i)) - f_of_int (ks ! (i - p)) + f_of_int (ks ! i)
     = f_of_int (sum_list (window ks p (Suc i)))"
proof -
  have k: "\<bar>ks ! i\<bar> \<le> 2 ^ 31" "\<bar>ks ! (i - p)\<bar> \<le> 2 ^ 31"
    using assms(1) [of "ks ! i"] assms(1) [of "ks ! (i - p)"] assms(4,5) by simp_all
  have w: "\<bar>sum_list (window ks p j)\<bar> \<le> 2 ^ 51" for j
    using assms(1,3) by (rule abs_sum_window_le)
  have s: "sum_list (window ks p (Suc i)) = sum_list (window ks p i) - ks ! (i - p) + ks ! i"
    using arg_cong [OF window_Suc(1) [OF assms(4,5,2)], of sum_list]
      arg_cong [OF window_Suc(2) [OF assms(4,5,2)], of sum_list] by simp
  show "f_of_int (sum_list (window ks p i)) + (f_of_int (ks ! i) - f_of_int (ks ! (i - p)))
     = f_of_int (sum_list (window ks p (Suc i)))"
    using k w [of i] w [of "Suc i"] unfolding s
    by (subst f_of_int_minus; (subst f_of_int_plus)?; simp add: algebra_simps)
  show "f_of_int (sum_list (window ks p i)) - f_of_int (ks ! (i - p)) + f_of_int (ks ! i)
     = f_of_int (sum_list (window ks p (Suc i)))"
    using k w [of i] w [of "Suc i"] unfolding s
    by (subst f_of_int_minus; (subst f_of_int_plus)?; simp)
qed


text \<open>The moving average of whole-number prices is exact up to its one division: after the
  warm-up the value at \<open>i\<close> is the exact sum of the last \<open>p\<close> closes divided by \<open>p\<close>, rounded
  once, however long the series the running sum has been carried along.\<close>

theorem SMA_exact:
  assumes "\<forall>k \<in> set ks. \<bar>k\<bar> \<le> 2 ^ 31" "0 < p" "p \<le> 2 ^ 20" "p \<le> int (Suc i)" "i < length ks"
  shows "SMA (map f_of_int ks) p ! i = f_of_int (sum_list (window ks (nat p) (Suc i))) / f_of_int p"
proof -
  let ?q = "nat p"
  let ?out = "emit (SMA_step (map f_of_int ks) ?q) ?q (length ks) (sum_first (map f_of_int ks) ?q)"
  have q: "0 < ?q" "?q \<le> 2 ^ 20" "?q \<le> Suc i" and b: "\<And>x. x \<in> set ks \<Longrightarrow> \<bar>x\<bar> \<le> 2 ^ 31"
    using assms by auto
  have sma: "SMA (map f_of_int ks) p =
      replicate (?q - 1) FNaN @ [sum_first (map f_of_int ks) ?q / f_of_int p] @ ?out"
    using assms by (auto simp: SMA_def Let_def)
  have s0: "sum_first (map f_of_int ks) ?q = f_of_int (sum_list (window ks ?q ?q))"
    using b q assms(5) by (intro sum_first_f_of_int) auto
  define I where "I = (\<lambda>j s. s = f_of_int (sum_list (window ks ?q j)))"
  have step: "SMA_step (map f_of_int ks) ?q j s =
      (f_of_int (sum_list (window ks ?q (Suc j))) / f_of_int p, f_of_int (sum_list (window ks ?q (Suc j))))"
    if "I j s" "?q \<le> j" "j < length ks" for j s
    using roll_f_of_int(1) [OF b q(1,2) that(2,3)] that assms(2)
    by (simp add: SMA_step_def I_def Let_def)
  show ?thesis
  proof (cases "i < ?q")
    case True
    with q have "i = ?q - 1" by simp
    with q s0 show ?thesis by (simp add: sma nth_append)
  next
    case False
    then have i: "?q \<le> i" by simp
    have "I ?q (sum_first (map f_of_int ks) ?q)" by (simp add: I_def s0)
    from emit_at [of I ?q "length ks" "SMA_step (map f_of_int ks) ?q", OF _ this i assms(5)] step
    obtain t where "I i t" "?out ! (i - ?q) = fst (SMA_step (map f_of_int ks) ?q i t)"
      by (auto simp: I_def)
    moreover have "\<not> i < ?q - 1" "i - (?q - 1) = Suc (i - ?q)" using i q(1) by linarith+
    then have "SMA (map f_of_int ks) p ! i = ?out ! (i - ?q)"
      by (simp add: sma nth_append)
    ultimately show ?thesis using step i assms(5) by simp
  qed
qed

theorem SMA_exact_witness:
  "SMA (map f_of_int [100, 103, 107, 102]) 3 ! 3 = f_of_int 312 / f_of_int 3"
  using SMA_exact [of "[100, 103, 107, 102]" 3 3] by (simp add: window_def)

text \<open>Likewise for VWAP: with whole-number typical prices \<open>tp\<close> and volumes, the value after
  the warm-up is the exact volume-weighted price of the window, one division away, and NaN when
  nothing traded in the window, even after busier windows have been rolled out.\<close>

theorem RollingVWAP_exact:
  fixes tp :: "candle \<Rightarrow> int"
  assumes cs: "\<forall>c \<in> set cs. typicalPrice c = f_of_int (tp c) \<and> 0 \<le> tp c \<and> 0 \<le> cVolume c \<and>
      tp c \<le> 2 ^ 31 \<and> cVolume c \<le> 2 ^ 31 \<and> tp c * cVolume c \<le> 2 ^ 31"
    and p: "0 < p" "p \<le> 2 ^ 20" and i: "p \<le> int (Suc i)" "i < length cs"
  shows "RollingVWAP cs p ! i =
    (let w = window cs (nat p) (Suc i); v = (\<Sum>c \<leftarrow> w. cVolume c)
     in if v = 0 then FNaN else f_of_int (\<Sum>c \<leftarrow> w. tp c * cVolume c) / f_of_int v)"
proof -
  let ?q = "nat p" and ?vs = "map cVolume cs" and ?ts = "map (\<lambda>c. tp c * cVolume c) cs"
  let ?s0 = "foldl (\<lambda>s c. RollingVWAP_add c s) (0, 0) (take ?q cs)"
  let ?out = "emit (RollingVWAP_step cs ?q) ?q (length cs) ?s0"
  have q: "0 < ?q" "?q \<le> 2 ^ 20" "?q \<le> Suc i" using p i by auto
  have b: "\<And>x. x \<in> set ?vs \<Longrightarrow> \<bar>x\<bar> \<le> 2 ^ 31" "\<And>x. x \<in> set ?ts \<Longrightarrow> \<bar>x\<bar> \<le> 2 ^ 31"
    using cs by auto
  have vwap: "RollingVWAP cs p = replicate (?q - 1) FNaN @ [vwap_quot (fst ?s0) (snd ?s0)] @ ?out"
    using p i by (auto simp: RollingVWAP_def Let_def)
  have tv: "typicalPrice c * f_of_int (cVolume c) = f_of_int (tp c * cVolume c)" if "c \<in> set cs" for c
    using bspec [OF cs that] f_of_int_times [of "tp c" "cVolume c"] by simp
  have "foldl (\<lambda>s c. RollingVWAP_add c s) (x, y) xs =
      (foldl (+) x (map (\<lambda>c. f_of_int (tp c * cVolume c)) xs), foldl (+) y (map (\<lambda>c. f_of_int (cVolume c)) xs))"
    if "set xs \<subseteq> set cs" for x y xs
    using that by (induction xs arbitrary: x y) (simp_all add: RollingVWAP_add_def tv)
  from this [of "take ?q cs" 0 0]
  have s0: "?s0 = (f_of_int (sum_list (window ?ts ?q ?q)), f_of_int (sum_list (window ?vs ?q ?q)))"
    using sum_first_f_of_int [of ?vs ?q, OF b(1) q(2)] sum_first_f_of_int [of ?ts ?q, OF b(2) q(2)] q i
    by (simp add: sum_first_def take_map comp_def set_take_subset)
  define I where "I = (\<lambda>j (s::f64 \<times> f64).
    s = (f_of_int (sum_list (window ?ts ?q j)), f_of_int (sum_list (window ?vs ?q j))))"
  have step: "I (Suc j) (snd (RollingVWAP_step cs ?q j s)) \<and> fst (RollingVWAP_step cs ?q j s) =
      vwap_quot (f_of_int (sum_list (window ?ts ?q (Suc j)))) (f_of_int (sum_list (window ?vs ?q (Suc j))))"
    if "I j s" "?q \<le> j" "j < length cs" for j s
    using roll_f_of_int(2) [of ?vs ?q j, OF b(1) q(1,2) that(2)]
      roll_f_of_int(2) [of ?ts ?q j, OF b(2) q(1,2) that(2)] that
      tv [of "cs ! j"] tv [of "cs ! (j - ?q)"]
    by (simp add: RollingVWAP_step_def RollingVWAP_add_def I_def Let_def)
  define v where "v = sum_list (window ?vs ?q (Suc i))"
  have "0 \<le> v" unfolding v_def
    using cs set_window [of ?vs ?q "Suc i"] by (intro sum_list_nonneg) auto
  moreover have "0 < f_of_int v" if "0 < v"
    using that xval_f_of_int_pos [of v] by (simp add: f64_less_iff)
  ultimately have quot: "vwap_quot x (f_of_int v) = (if v = 0 then FNaN else x / f_of_int v)" for x
    by (auto simp: vwap_quot_def)
  have "RollingVWAP cs p ! i =
      vwap_quot (f_of_int (sum_list (window ?ts ?q (Suc i)))) (f_of_int v)"
  proof (cases "i < ?q")
    case True
    with q have "i = ?q - 1" by simp
    with q show ?thesis by (simp add: vwap s0 nth_append v_def)
  next
    case False
    then have le: "?q \<le> i" by simp
    have "I ?q ?s0" by (simp add: I_def s0)
    from emit_at [of I ?q "length cs" "RollingVWAP_step cs ?q", OF _ this le i(2)] step
    obtain t where "I i t" "?out ! (i - ?q) = fst (RollingVWAP_step cs ?q i t)" by blast
    moreover have "\<not> i < ?q - 1" "i - (?q - 1) = Suc (i - ?q)" using le q(1) by linarith+
    then have "RollingVWAP cs p ! i = ?out ! (i - ?q)"
      by (simp add: vwap nth_append)
    ultimately show ?thesis using step [of i t] le i by (simp add: v_def)
  qed
  then show ?thesis
    unfolding quot by (simp add: Let_def v_def window_def take_map drop_map)
qed

theorem RollingVWAP_exact_witness:
  "RollingVWAP [demo_bar 0 12 8 10, demo_bar 1 16 12 17] 2 ! 1 = f_of_int 250 / f_of_int 20"
proof -
  have "typicalPrice (demo_bar 0 12 8 10) = f_of_int 10" "typicalPrice (demo_bar 1 16 12 17) = f_of_int 15"
    by code_simp+
  then show ?thesis
    using RollingVWAP_exact [of "[demo_bar 0 12 8 10, demo_bar 1 16 12 17]" "\<lambda>c. if cTimestamp c = 0 then 10 else 15" 2 1]
    by (simp add: demo_bar_def window_def)
qed

text \<open>Every indicator returns one value per input and no value before its warm-up is over:
  SMA, EMA, ATR and VWAP are NaN for the first \<open>p - 1\<close> entries, RSI for the first \<open>p\<close>.\<close>

theorem indicators_warmup:
  "length (SMA xs p) = length xs \<and> length (EMA xs p) = length xs \<and> length (RSI xs p) = length xs
   \<and> length (ATR cs p) = length cs \<and> length (RollingVWAP cs p) = length cs
   \<and> length (fst (Supertrend cs p m)) = length cs \<and> length (snd (Supertrend cs p m)) = length cs
   \<and> (\<forall>i. i < length xs \<and> int i < p - 1 \<longrightarrow> SMA xs p ! i = FNaN \<and> EMA xs p ! i = FNaN)
   \<and> (\<forall>i. i < length xs \<and> int i < p \<longrightarrow> RSI xs p ! i = FNaN)
   \<and> (\<forall>i. i < length cs \<and> int i < p - 1 \<longrightarrow> ATR cs p ! i = FNaN \<and> RollingVWAP cs p ! i = FNaN)"
  by (simp add: warmup_SMA warmup_EMA warmup_RSI warmup_ATR warmup_RollingVWAP)

theorem indicators_warmup_witness:
  "RSI [1, 1, 1] 2 ! 1 = FNaN"
  using indicators_warmup [of "[1, 1, 1]" 2 "[]" 1] by simp

text \<open>RSI is a percentage: every value that is a number lies between 0 and 100.\<close>

theorem RSI_percentage:
  "\<forall>x \<in> set xs. wf64 x \<Longrightarrow> v \<in> set (RSI xs p) \<Longrightarrow> \<not> is_nan v \<Longrightarrow> 0 \<le> v \<and> v \<le> lit 100 1"
  using RSI_range [of xs v p] by auto

theorem RSI_percentage_witness:
  "0 \<le> RSI [f_of_int 10, f_of_int 12, f_of_int 11] 2 ! 2 \<and> RSI [f_of_int 10, f_of_int 12, f_of_int 11] 2 ! 2 \<le> lit 100 1"
proof (rule RSI_percentage [where xs = "[f_of_int 10, f_of_int 12, f_of_int 11]" and p = 2])
  show "\<not> is_nan (RSI [f_of_int 10, f_of_int 12, f_of_int 11] 2 ! 2)" by code_simp
qed simp_all

end
