(* ===== verification/Evaluator.thy ===== *)
theory Evaluator
  imports Indicators
begin

text \<open>
  \<^verbatim>\<open>internal/engine/evaluator.go\<close> and \<^verbatim>\<open>signal.go\<close>: the five entry evaluators and their
  dispatcher. A loop that appends at most one signal a bar is \<open>List.map_filter\<close> over the bar
  indices; the momentum evaluator, whose loop carries \<^verbatim>\<open>inBreakout\<close>, runs through \<open>emit\<close>.
  A Go pair \<^verbatim>\<open>(value, error)\<close> is a sum, \<open>Inl\<close> the message.
\<close>

record signal =
  gTimestamp :: time
  gSide :: string
  gPrice :: f64
  gReason :: string

definition mk_signal :: "candle \<Rightarrow> string \<Rightarrow> string \<Rightarrow> signal" where
  "mk_signal c side reason =
     \<lparr>gTimestamp = cTimestamp c, gSide = side, gPrice = cClose c, gReason = reason\<rparr>"

definition defaultShortMA :: goint where [go_const]: "defaultShortMA = 9"
definition defaultLongMA :: goint where [go_const]: "defaultLongMA = 21"
definition defaultSupertrendPer :: goint where [go_const]: "defaultSupertrendPer = 10"
definition defaultSupertrendMult :: f64 where [go_const]: "defaultSupertrendMult = lit 3 1"
definition defaultRSIPeriod :: goint where [go_const]: "defaultRSIPeriod = 14"
definition defaultRSIOversold :: f64 where [go_const]: "defaultRSIOversold = lit 30 1"
definition defaultRSIOverbought :: f64 where [go_const]: "defaultRSIOverbought = lit 70 1"
definition defaultMomentumLookback :: goint where [go_const]: "defaultMomentumLookback = 20"
definition defaultVWAPPeriod :: goint where [go_const]: "defaultVWAPPeriod = 20"

definition extractCloses :: "candle list \<Rightarrow> f64 list" where
  "extractCloses = map cClose"

section \<open>The evaluators\<close>

text \<open>The signal of bar \<open>i\<close>, given what the indicators say of \<open>i - 1\<close> and \<open>i\<close>.\<close>

definition MACrossover_at :: "candle list \<Rightarrow> f64 list \<Rightarrow> f64 list \<Rightarrow> nat \<Rightarrow> signal option" where
  "MACrossover_at cs shortMA longMA i =
     (let prevShortAbove = longMA ! (i - 1) < shortMA ! (i - 1);
          currShortAbove = longMA ! i < shortMA ! i
      in if currShortAbove \<and> \<not> prevShortAbove
           then Some (mk_signal (cs ! i) OrderSideBuy ''MA crossover bullish'')
         else if \<not> currShortAbove \<and> prevShortAbove
           then Some (mk_signal (cs ! i) OrderSideSell ''MA crossover bearish'')
         else None)"

definition evaluateMACrossover :: "candle list \<Rightarrow> signal list" where
  "evaluateMACrossover cs =
     (let closes = extractCloses cs;
          shortMA = SMA closes defaultShortMA;
          longMA = SMA closes defaultLongMA
      in List.map_filter (MACrossover_at cs shortMA longMA) [nat defaultLongMA..<length cs])"

definition Supertrend_at :: "candle list \<Rightarrow> goint list \<Rightarrow> nat \<Rightarrow> signal option" where
  "Supertrend_at cs d i =
     (if d ! i = 1 \<and> d ! (i - 1) = - 1
        then Some (mk_signal (cs ! i) OrderSideBuy ''Supertrend bullish flip'')
      else if d ! i = - 1 \<and> d ! (i - 1) = 1
        then Some (mk_signal (cs ! i) OrderSideSell ''Supertrend bearish flip'')
      else None)"

definition evaluateSupertrend :: "candle list \<Rightarrow> signal list" where
  "evaluateSupertrend cs =
     (let d = snd (Supertrend cs defaultSupertrendPer defaultSupertrendMult)
      in List.map_filter (Supertrend_at cs d) [nat defaultSupertrendPer..<length cs])"

definition RSI_at :: "candle list \<Rightarrow> f64 list \<Rightarrow> nat \<Rightarrow> signal option" where
  "RSI_at cs rsi i =
     (if rsi ! i < defaultRSIOversold \<and> defaultRSIOversold \<le> rsi ! (i - 1)
        then Some (mk_signal (cs ! i) OrderSideBuy ''RSI crossed below oversold'')
      else if defaultRSIOverbought < rsi ! i \<and> rsi ! (i - 1) \<le> defaultRSIOverbought
        then Some (mk_signal (cs ! i) OrderSideSell ''RSI crossed above overbought'')
      else None)"

definition evaluateRSI :: "candle list \<Rightarrow> signal list" where
  "evaluateRSI cs =
     (let rsi = RSI (extractCloses cs) defaultRSIPeriod
      in List.map_filter (RSI_at cs rsi) [nat defaultRSIPeriod + 1..<length cs])"

text \<open>The highest High of the \<^verbatim>\<open>defaultMomentumLookback\<close> bars before \<open>i\<close>, from zero.\<close>

definition periodHigh :: "candle list \<Rightarrow> nat \<Rightarrow> f64" where
  "periodHigh cs i =
     foldl (\<lambda>h j. if h < cHigh (cs ! j) then cHigh (cs ! j) else h) 0
       [i - nat defaultMomentumLookback..<i]"

definition Momentum_step :: "candle list \<Rightarrow> nat \<Rightarrow> bool \<Rightarrow> signal option \<times> bool" where
  "Momentum_step cs i inBreakout =
     (let h = periodHigh cs i; close = cClose (cs ! i) in
      if h < close \<and> \<not> inBreakout
        then (Some (mk_signal (cs ! i) OrderSideBuy ''Breakout above 20-period high''), True)
      else if close \<le> h
        then (if inBreakout
                then Some (mk_signal (cs ! i) OrderSideSell ''Fell below 20-period high'')
              else None, False)
      else (None, inBreakout))"

definition evaluateMomentum :: "candle list \<Rightarrow> signal list" where
  "evaluateMomentum cs =
     (let n = length cs in
      if n \<le> nat defaultMomentumLookback then []
      else List.map_filter id (emit (Momentum_step cs) (nat defaultMomentumLookback) n False))"

definition VWAPCrossover_at :: "candle list \<Rightarrow> f64 list \<Rightarrow> nat \<Rightarrow> signal option" where
  "VWAPCrossover_at cs vwap i =
     (if is_nan (vwap ! i) \<or> is_nan (vwap ! (i - 1)) then None
      else
        let prevAbove = vwap ! (i - 1) < cClose (cs ! (i - 1));
            currAbove = vwap ! i < cClose (cs ! i)
        in if currAbove \<and> \<not> prevAbove
             then Some (mk_signal (cs ! i) OrderSideBuy ''Close crossed above VWAP'')
           else if \<not> currAbove \<and> prevAbove
             then Some (mk_signal (cs ! i) OrderSideSell ''Close crossed below VWAP'')
           else None)"

definition evaluateVWAPCrossover :: "candle list \<Rightarrow> signal list" where
  "evaluateVWAPCrossover cs =
     (let vwap = RollingVWAP cs defaultVWAPPeriod
      in List.map_filter (VWAPCrossover_at cs vwap) [nat defaultVWAPPeriod..<length cs])"

definition Evaluate :: "strategy \<Rightarrow> candle list \<Rightarrow> string + signal list" where
  "Evaluate strat cs =
     (if cs = [] then Inr []
      else if sEntryConditionType strat = EntryConditionMACrossover then Inr (evaluateMACrossover cs)
      else if sEntryConditionType strat = EntryConditionSupertrend then Inr (evaluateSupertrend cs)
      else if sEntryConditionType strat = EntryConditionRSIOversold then Inr (evaluateRSI cs)
      else if sEntryConditionType strat = EntryConditionMomentum then Inr (evaluateMomentum cs)
      else if sEntryConditionType strat = EntryConditionVWAPCrossover
        then Inr (evaluateVWAPCrossover cs)
      else Inl (''unknown entry condition type: '' @ sEntryConditionType strat))"

section \<open>Indicators look back only\<close>

lemma emit_prefix:
  assumes "\<And>i s. a \<le> i \<Longrightarrow> i < n \<Longrightarrow> f i s = g i s" "n \<le> m" "a \<le> k" "k < n"
  shows "emit f a m s ! (k - a) = emit g a n s ! (k - a)"
  using assms
proof (induction "n - a" arbitrary: a s)
  case (Suc d)
  have "a < n" "a < m" using Suc.prems(2-4) by auto
  then show ?case
  proof (cases "k = a")
    case False
    have "emit f (Suc a) m t ! (k - Suc a) = emit g (Suc a) n t ! (k - Suc a)" for t
      using Suc False by (intro Suc.hyps(1)) auto
    moreover have "k - a = Suc (k - Suc a)" using False Suc.prems(3) by simp
    ultimately show ?thesis
      using \<open>a < n\<close> \<open>a < m\<close> Suc.prems(1) by (simp add: emit.simps [of _ a])
  qed (use Suc.prems(1) in \<open>simp add: emit.simps\<close>)
qed simp

lemma nth_append_before: "j < length xs \<Longrightarrow> (xs @ ys) ! (j - k) = xs ! (j - k)"
  using less_imp_diff_less [of j "length xs" k] by (simp only: nth_append if_True)

lemma nth_append_first: "j < length xs \<Longrightarrow> (xs @ ys) ! j = xs ! j"
  by (simp add: nth_append)

lemma nth_append_0: "j < length xs \<Longrightarrow> (xs @ ys) ! 0 = xs ! 0"
  by (cases xs) simp_all

lemma sum_first_append: "p \<le> length xs \<Longrightarrow> sum_first (xs @ ys) p = sum_first xs p"
  by (simp add: sum_first_def)

text \<open>The common shape of SMA, EMA, ATR and VWAP: warm-up, first value, loop.\<close>

lemma shape_prefix:
  assumes "\<And>i s. p \<le> i \<Longrightarrow> i < n \<Longrightarrow> f i s = g i s" "n \<le> m" "i < n" "p = Suc r"
  shows "(replicate r FNaN @ [v] @ emit f p m s) ! i = (replicate r FNaN @ [v] @ emit g p n s) ! i"
  using emit_prefix [of p n f g m i s] assms
  by (auto simp: nth_append nth_Cons' not_less less_Suc_eq_le Suc_diff_le)

lemma SMA_prefix:
  assumes "i < length xs" shows "SMA (xs @ ys) p ! i = SMA xs p ! i"
proof (cases "p \<le> 0 \<or> length xs < nat p")
  case True
  then have "int i < p - 1 \<or> p \<le> 0" using assms by linarith
  with assms show ?thesis by (simp add: warmup_SMA)
next
  case False
  have nonempty: "xs \<noteq> []" using assms by auto
  have "SMA_step (xs @ ys) (nat p) j s = SMA_step xs (nat p) j s" if "nat p \<le> j" "j < length xs" for j s
    using that False by (simp add: SMA_step_def nth_append_before nth_append_first)
  with shape_prefix [of "nat p" "length xs" "SMA_step (xs @ ys) (nat p)" "SMA_step xs (nat p)"
      "length (xs @ ys)" i "nat p - 1"] assms False nonempty
  show ?thesis by (simp add: SMA_def Let_def sum_first_append)
qed

lemma true_range_prefix: "i < length xs \<Longrightarrow> true_range (xs @ ys) i = true_range xs i"
  by (simp add: true_range_def nth_append_before nth_append_first nth_append_0)

lemma ATR_prefix:
  assumes "i < length xs" shows "ATR (xs @ ys) p ! i = ATR xs p ! i"
proof (cases "p \<le> 0 \<or> length xs < nat p")
  case True
  then have "int i < p - 1 \<or> p \<le> 0" using assms by linarith
  with assms show ?thesis by (simp add: warmup_ATR)
next
  case False
  have nonempty: "xs \<noteq> []" using assms by auto
  let ?t = "map (true_range (xs @ ys)) [0..<length (xs @ ys)]" and ?u = "map (true_range xs) [0..<length xs]"
  have tr: "take (length xs) ?t = ?u"
    by (rule nth_equalityI) (simp_all add: true_range_prefix)
  have "ATR_step ?t p j s = ATR_step ?u p j s" if "j < length xs" for j s
    using that by (simp add: ATR_step_def true_range_prefix)
  moreover have "sum_first ?t (nat p) = sum_first ?u (nat p)"
    using sum_first_append [of "nat p" ?u "drop (length xs) ?t"] False
    by (metis append_take_drop_id tr length_map length_upt minus_nat.diff_0 not_less)
  ultimately show ?thesis
    using shape_prefix [of "nat p" "length xs" "ATR_step ?t p" "ATR_step ?u p" "length (xs @ ys)" i "nat p - 1"]
      assms False nonempty
    by (simp add: ATR_def Let_def del: map_map)
qed

lemma RollingVWAP_prefix:
  assumes "i < length xs" shows "RollingVWAP (xs @ ys) p ! i = RollingVWAP xs p ! i"
proof (cases "p \<le> 0 \<or> length xs < nat p")
  case True
  then have "int i < p - 1 \<or> p \<le> 0" using assms by linarith
  with assms show ?thesis by (simp add: warmup_RollingVWAP)
next
  case False
  have nonempty: "xs \<noteq> []" using assms by auto
  have "RollingVWAP_step (xs @ ys) (nat p) j s = RollingVWAP_step xs (nat p) j s"
    if "nat p \<le> j" "j < length xs" for j s
    using that False by (simp add: RollingVWAP_step_def nth_append_before nth_append_first)
  with shape_prefix [of "nat p" "length xs" "RollingVWAP_step (xs @ ys) (nat p)"
      "RollingVWAP_step xs (nat p)" "length (xs @ ys)" i "nat p - 1"] assms False nonempty
  show ?thesis by (simp add: RollingVWAP_def Let_def)
qed

lemma RSI_prefix:
  assumes "i < length xs" shows "RSI (xs @ ys) p ! i = RSI xs p ! i"
proof (cases "p \<le> 0 \<or> length xs < nat p + 1")
  case True
  then have "int i < p \<or> p \<le> 0" using assms by linarith
  with assms show ?thesis by (simp add: warmup_RSI)
next
  case False
  have nonempty: "xs \<noteq> []" using assms by auto
  let ?g = "\<lambda>f zs. map (\<lambda>i. f (gain_loss zs i)) [0..<length (zs::f64 list)]"
  have gl: "gain_loss (xs @ ys) j = gain_loss xs j" if "j < length xs" for j
    using that by (simp add: gain_loss_def nth_append_before nth_append_first)
  have tk: "take (length xs) (?g f (xs @ ys)) = ?g f xs" for f :: "f64 \<times> f64 \<Rightarrow> f64"
    by (rule nth_equalityI) (simp_all add: gl)
  have sm: "sum_first (drop 1 (?g f (xs @ ys))) (nat p) = sum_first (drop 1 (?g f xs)) (nat p)"
    for f :: "f64 \<times> f64 \<Rightarrow> f64"
  proof -
    have "take (nat p) (drop 1 (?g f (xs @ ys))) = take (nat p) (drop 1 (take (length xs) (?g f (xs @ ys))))"
      using False by (simp add: take_drop min_def)
    then show ?thesis unfolding tk sum_first_def by simp
  qed
  have "RSI_step (?g fst (xs @ ys)) (?g snd (xs @ ys)) p j s = RSI_step (?g fst xs) (?g snd xs) p j s"
    if "j < length xs" for j s
    using that by (simp add: RSI_step_def gl)
  with shape_prefix [of "nat p + 1" "length xs" "RSI_step (?g fst (xs @ ys)) (?g snd (xs @ ys)) p"
      "RSI_step (?g fst xs) (?g snd xs) p" "length (xs @ ys)" i "nat p"] assms False sm [of fst] sm [of snd] nonempty
  show ?thesis by (simp add: RSI_def Let_def del: drop_map)
qed

lemma Supertrend_prefix:
  assumes "i < length xs" shows "snd (Supertrend (xs @ ys) p m) ! i = snd (Supertrend xs p m) ! i"
proof (cases "p \<le> 0")
  case False
  have xs: "xs \<noteq> []" "xs @ ys \<noteq> []" using assms by auto
  have "Supertrend_step (xs @ ys) (ATR (xs @ ys) p) m j s = Supertrend_step xs (ATR xs p) m j s"
    if "j < length xs" for j s
    using that by (simp add: Supertrend_step_def st_bands_def ATR_prefix nth_append_before nth_append_first)
  with emit_prefix [of 0 "length xs" "Supertrend_step (xs @ ys) (ATR (xs @ ys) p) m"
      "Supertrend_step xs (ATR xs p) m" "length (xs @ ys)" i] assms xs False
  show ?thesis by (simp add: Supertrend_pos Let_def)
qed (use assms in \<open>simp add: Supertrend_def Let_def\<close>)

section \<open>The contract of an evaluator\<close>

text \<open>\<open>sigs\<close> are signals of the bars \<open>is\<close> of \<open>cs\<close>, in order, at the bars' closes.\<close>

definition signals_at :: "candle list \<Rightarrow> nat list \<Rightarrow> signal list \<Rightarrow> bool" where
  "signals_at cs is sigs \<longleftrightarrow> sorted_wrt (<) is \<and> (\<forall>i \<in> set is. i < length cs) \<and>
     map gTimestamp sigs = map (\<lambda>i. cTimestamp (cs ! i)) is \<and>
     map gPrice sigs = map (\<lambda>i. cClose (cs ! i)) is \<and>
     (\<forall>s \<in> set sigs. gSide s = OrderSideBuy \<or> gSide s = OrderSideSell)"

lemma signals_at_map_filter:
  assumes "\<And>i s. i \<in> set js \<Longrightarrow> f i = Some s \<Longrightarrow>
      \<exists>side r. s = mk_signal (cs ! i) side r \<and> (side = OrderSideBuy \<or> side = OrderSideSell)"
    and "sorted_wrt (<) js" "\<forall>i \<in> set js. i < length cs"
  shows "signals_at cs (filter (\<lambda>i. f i \<noteq> None) js) (List.map_filter f js)"
  using assms
proof (induction js)
  case (Cons j js)
  have IH: "signals_at cs (filter (\<lambda>i. f i \<noteq> None) js) (List.map_filter f js)"
    using Cons.prems(1) [OF list.set_intros(2)] Cons.prems(2,3) by (intro Cons.IH) simp_all
  show ?case
  proof (cases "f j")
    case (Some s)
    with Cons.prems(1) [OF list.set_intros(1) Some] Cons.prems(2,3) IH show ?thesis
      by (auto simp: signals_at_def map_filter_simps mk_signal_def)
  qed (use IH in \<open>simp add: map_filter_simps\<close>)
qed (simp add: signals_at_def map_filter_simps)

lemma upt_split: "n \<le> m \<Longrightarrow> [lo..<m] = [lo..<n] @ [max lo n..<m]"
  using upt_add_eq_append [of lo n "m - n"] by (cases "lo \<le> n") (auto simp: max_def)

lemma map_filter_append: "List.map_filter f (xs @ ys) = List.map_filter f xs @ List.map_filter f ys"
  by (simp add: List.map_filter_def)

lemma map_filter_cong: "(\<And>x. x \<in> set xs \<Longrightarrow> f x = g x) \<Longrightarrow> List.map_filter f xs = List.map_filter g xs"
  by (induction xs) (auto simp: map_filter_simps split: option.split)

text \<open>
  An evaluator scans the bars from \<open>lo\<close> on; \<open>sig cs i\<close> is the signal of bar \<open>i\<close>. Its laws: what
  it says of a bar depends on that bar and the bars before it only, and a signal carries the
  time and the close of its bar and one of the two sides.
\<close>

locale bar_evaluator =
  fixes sig :: "candle list \<Rightarrow> nat \<Rightarrow> signal option" and lo :: nat
  assumes looks_back: "lo \<le> i \<Longrightarrow> i < length cs \<Longrightarrow> sig (cs @ ds) i = sig cs i"
    and of_bar: "lo \<le> i \<Longrightarrow> i < length cs \<Longrightarrow> sig cs i = Some s \<Longrightarrow>
      \<exists>side r. s = mk_signal (cs ! i) side r \<and> (side = OrderSideBuy \<or> side = OrderSideSell)"
begin

lemma signals_bars:
  "n \<le> length cs \<Longrightarrow> lo \<le> k \<Longrightarrow>
    signals_at cs (filter (\<lambda>i. sig cs i \<noteq> None) [k..<n]) (List.map_filter (sig cs) [k..<n])"
  by (rule signals_at_map_filter) (use of_bar in auto)

lemma signals_causal:
  "\<exists>is later. List.map_filter (sig (cs @ ds)) [lo..<length (cs @ ds)] =
       List.map_filter (sig cs) [lo..<length cs] @ later \<and>
     signals_at (cs @ ds) is later \<and> (\<forall>i \<in> set is. length cs \<le> i)"
proof (intro exI conjI)
  let ?js = "[max lo (length cs)..<length (cs @ ds)]"
  have "List.map_filter (sig (cs @ ds)) [lo..<length cs] = List.map_filter (sig cs) [lo..<length cs]"
    by (rule map_filter_cong) (simp add: looks_back)
  then show "List.map_filter (sig (cs @ ds)) [lo..<length (cs @ ds)] =
       List.map_filter (sig cs) [lo..<length cs] @ List.map_filter (sig (cs @ ds)) ?js"
    using upt_split [of "length cs" "length (cs @ ds)" lo] by (simp add: map_filter_append)
  show "signals_at (cs @ ds) (filter (\<lambda>i. sig (cs @ ds) i \<noteq> None) ?js) (List.map_filter (sig (cs @ ds)) ?js)"
    by (rule signals_bars) simp_all
  show "\<forall>i \<in> set (filter (\<lambda>i. sig (cs @ ds) i \<noteq> None) ?js). length cs \<le> i" by simp
qed

end

lemmas sides = OrderSideBuy_def OrderSideSell_def

lemma length_extractCloses [simp]: "length (extractCloses cs) = length cs"
  and extractCloses_append [simp]: "extractCloses (cs @ ds) = extractCloses cs @ extractCloses ds"
  by (simp_all add: extractCloses_def)

interpretation ma: bar_evaluator
  "\<lambda>cs. MACrossover_at cs (SMA (extractCloses cs) defaultShortMA) (SMA (extractCloses cs) defaultLongMA)"
  "nat defaultLongMA"
proof
  fix i cs ds s assume "i < length (cs :: candle list)"
  then show "MACrossover_at (cs @ ds) (SMA (extractCloses (cs @ ds)) defaultShortMA)
        (SMA (extractCloses (cs @ ds)) defaultLongMA) i =
      MACrossover_at cs (SMA (extractCloses cs) defaultShortMA) (SMA (extractCloses cs) defaultLongMA) i"
    by (simp add: MACrossover_at_def Let_def SMA_prefix nth_append_first less_imp_diff_less)
qed (auto simp: MACrossover_at_def Let_def split: if_splits)

interpretation supertrend: bar_evaluator
  "\<lambda>cs. Supertrend_at cs (snd (Supertrend cs defaultSupertrendPer defaultSupertrendMult))"
  "nat defaultSupertrendPer"
proof
  fix i cs ds s assume "i < length (cs :: candle list)"
  then show "Supertrend_at (cs @ ds) (snd (Supertrend (cs @ ds) defaultSupertrendPer defaultSupertrendMult)) i =
      Supertrend_at cs (snd (Supertrend cs defaultSupertrendPer defaultSupertrendMult)) i"
    by (simp add: Supertrend_at_def Supertrend_prefix nth_append_first less_imp_diff_less)
qed (auto simp: Supertrend_at_def split: if_splits)

interpretation rsi: bar_evaluator
  "\<lambda>cs. RSI_at cs (RSI (extractCloses cs) defaultRSIPeriod)" "nat defaultRSIPeriod + 1"
proof
  fix i cs ds s assume "i < length (cs :: candle list)"
  then show "RSI_at (cs @ ds) (RSI (extractCloses (cs @ ds)) defaultRSIPeriod) i =
      RSI_at cs (RSI (extractCloses cs) defaultRSIPeriod) i"
    by (simp add: RSI_at_def RSI_prefix nth_append_first less_imp_diff_less)
qed (auto simp: RSI_at_def split: if_splits)

interpretation vwap: bar_evaluator
  "\<lambda>cs. VWAPCrossover_at cs (RollingVWAP cs defaultVWAPPeriod)" "nat defaultVWAPPeriod"
proof
  fix i cs ds s assume "i < length (cs :: candle list)"
  then show "VWAPCrossover_at (cs @ ds) (RollingVWAP (cs @ ds) defaultVWAPPeriod) i =
      VWAPCrossover_at cs (RollingVWAP cs defaultVWAPPeriod) i"
    by (simp add: VWAPCrossover_at_def Let_def RollingVWAP_prefix nth_append_first nth_append_before less_imp_diff_less)
qed (auto simp: VWAPCrossover_at_def Let_def split: if_splits)

text \<open>The momentum evaluator carries a flag; what it says of a bar is that entry of its loop.\<close>

definition Momentum_at :: "candle list \<Rightarrow> nat \<Rightarrow> signal option" where
  "Momentum_at cs i =
     emit (Momentum_step cs) (nat defaultMomentumLookback) (length cs) False ! (i - nat defaultMomentumLookback)"

lemma emit_as_map: "emit step a n s = map (\<lambda>i. emit step a n s ! (i - a)) [a..<n]"
  by (rule nth_equalityI) simp_all

lemma evaluateMomentum_at:
  "evaluateMomentum cs = List.map_filter (Momentum_at cs) [nat defaultMomentumLookback..<length cs]"
proof -
  have "List.map_filter id (map f xs) = List.map_filter f xs" for f :: "nat \<Rightarrow> signal option" and xs
    by (simp add: List.map_filter_def filter_map comp_def)
  then show ?thesis
    by (subst evaluateMomentum_def, subst emit_as_map)
      (simp add: Let_def Momentum_at_def [abs_def] map_filter_simps)
qed

lemma Momentum_step_prefix:
  assumes "i < length cs" shows "Momentum_step (cs @ ds) i b = Momentum_step cs i b"
proof -
  have "periodHigh (cs @ ds) i = periodHigh cs i"
    unfolding periodHigh_def using assms by (intro foldl_cong) (auto simp: nth_append_first)
  with assms show ?thesis by (simp add: Momentum_step_def Let_def nth_append_first)
qed

interpretation momentum: bar_evaluator Momentum_at "nat defaultMomentumLookback"
proof
  fix i cs ds s assume i: "nat defaultMomentumLookback \<le> i" "i < length (cs :: candle list)"
  then show "Momentum_at (cs @ ds) i = Momentum_at cs i"
    unfolding Momentum_at_def by (intro emit_prefix) (simp_all add: Momentum_step_prefix)
  assume "Momentum_at cs i = Some s"
  with emit_at [of "\<lambda>_ _. True" "nat defaultMomentumLookback" "length cs" "Momentum_step cs" False i] i
  show "\<exists>side r. s = mk_signal (cs ! i) side r \<and> (side = OrderSideBuy \<or> side = OrderSideSell)"
    by (auto simp: Momentum_at_def Momentum_step_def Let_def split: if_splits)
qed

section \<open>What Evaluate returns\<close>

lemmas entry_types = EntryConditionMACrossover_def EntryConditionSupertrend_def
  EntryConditionRSIOversold_def EntryConditionMomentum_def EntryConditionVWAPCrossover_def

definition known_entry :: "string \<Rightarrow> bool" where
  "known_entry t \<longleftrightarrow> t \<in> {EntryConditionMACrossover, EntryConditionSupertrend,
     EntryConditionRSIOversold, EntryConditionMomentum, EntryConditionVWAPCrossover}"

text \<open>Every strategy type runs one of the five interpretations.\<close>

lemma Evaluate_is_evaluator:
  assumes "known_entry (sEntryConditionType strat)"
  obtains sg lo where "bar_evaluator sg lo"
    "\<And>cs. cs \<noteq> [] \<Longrightarrow> Evaluate strat cs = Inr (List.map_filter (sg cs) [lo..<length cs])"
proof -
  consider "sEntryConditionType strat = EntryConditionMACrossover"
    | "sEntryConditionType strat = EntryConditionSupertrend"
    | "sEntryConditionType strat = EntryConditionRSIOversold"
    | "sEntryConditionType strat = EntryConditionMomentum"
    | "sEntryConditionType strat = EntryConditionVWAPCrossover"
    using assms by (auto simp: known_entry_def)
  then show thesis
  proof cases
    case 1
    with that [OF ma.bar_evaluator_axioms] show thesis
      by (simp add: Evaluate_def evaluateMACrossover_def Let_def)
  next
    case 2
    with that [OF supertrend.bar_evaluator_axioms] show thesis
      by (simp add: Evaluate_def evaluateSupertrend_def Let_def entry_types)
  next
    case 3
    with that [OF rsi.bar_evaluator_axioms] show thesis
      by (simp add: Evaluate_def evaluateRSI_def Let_def entry_types)
  next
    case 4
    with that [OF momentum.bar_evaluator_axioms] show thesis
      by (simp add: Evaluate_def evaluateMomentum_at entry_types)
  next
    case 5
    with that [OF vwap.bar_evaluator_axioms] show thesis
      by (simp add: Evaluate_def evaluateVWAPCrossover_def Let_def entry_types)
  qed
qed

text \<open>Evaluate fails exactly on bars with an entry type none of the evaluators handles, and
  then names the type; on no bars it returns no signals for any strategy.\<close>

theorem Evaluate_error:
  "Evaluate strat cs = Inl e \<longleftrightarrow>
     cs \<noteq> [] \<and> \<not> known_entry (sEntryConditionType strat) \<and>
     e = ''unknown entry condition type: '' @ sEntryConditionType strat"
  by (auto simp: Evaluate_def known_entry_def)

text \<open>C31. Signals never repaint. What Evaluate says on a history is kept, in place, when later
  bars arrive: the signals of the longer history are the old ones followed by signals of the new
  bars, each carrying the time and the close of its own bar.\<close>

theorem Evaluate_no_lookahead:
  assumes "Evaluate strat cs = Inr sigs" "cs \<noteq> []"
  shows "\<exists>is later. Evaluate strat (cs @ ds) = Inr (sigs @ later) \<and> signals_at (cs @ ds) is later
    \<and> (\<forall>i \<in> set is. length cs \<le> i)"
proof -
  have "known_entry (sEntryConditionType strat)"
    using assms by (auto simp: Evaluate_def known_entry_def split: if_splits)
  then obtain sg lo where e: "bar_evaluator sg lo"
    "\<And>cs. cs \<noteq> [] \<Longrightarrow> Evaluate strat cs = Inr (List.map_filter (sg cs) [lo..<length cs])"
    using Evaluate_is_evaluator by blast
  from bar_evaluator.signals_causal [OF e(1), of cs ds] show ?thesis
    using assms by (auto simp: e(2))
qed

definition demo_strategy :: "string \<Rightarrow> strategy" where
  "demo_strategy t = \<lparr>sID = 1, sName = ''demo'', sDescription = [], sUnderlying = ''NIFTY'',
     sInstrumentType = InstrumentTypeFuturesIndexCont, sExpiryRule = [], sOptionLeg = [],
     sEntryConditionType = t, sTargetPct = Some (lit 2 1), sStopLossPct = Some (lit 1 1),
     sTimeExitMinutes = None, sLotSize = 50, sMode = [], sIsReadyForRun = True, sCreatedAt = 0,
     sUpdatedAt = 0\<rparr>"

definition demo_history :: "candle list" where
  "demo_history = replicate 20 (demo_bar 0 10 8 9) @ [demo_bar 1 13 9 12]"

theorem Evaluate_no_lookahead_witness:
  "\<exists>is later. Evaluate (demo_strategy EntryConditionMomentum) (demo_history @ [demo_bar 2 9 7 8]) =
      Inr ([mk_signal (demo_bar 1 13 9 12) OrderSideBuy ''Breakout above 20-period high''] @ later)
    \<and> signals_at (demo_history @ [demo_bar 2 9 7 8]) is later \<and> (\<forall>i \<in> set is. length demo_history \<le> i)"
proof (rule Evaluate_no_lookahead)
  show "Evaluate (demo_strategy EntryConditionMomentum) demo_history =
      Inr [mk_signal (demo_bar 1 13 9 12) OrderSideBuy ''Breakout above 20-period high'']"
    by code_simp
qed (simp add: demo_history_def)

lemma Evaluate_bars:
  assumes "Evaluate strat cs = Inr sigs"
  shows "\<exists>is. signals_at cs is sigs"
proof (cases "cs = []")
  case True
  with assms show ?thesis by (auto simp: Evaluate_def signals_at_def)
next
  case False
  have "known_entry (sEntryConditionType strat)"
    using assms False by (auto simp: Evaluate_def known_entry_def split: if_splits)
  then obtain sg lo where e: "bar_evaluator sg lo"
    "\<And>cs. cs \<noteq> [] \<Longrightarrow> Evaluate strat cs = Inr (List.map_filter (sg cs) [lo..<length cs])"
    using Evaluate_is_evaluator by blast
  from bar_evaluator.signals_bars [OF e(1) order_refl order_refl, of cs] show ?thesis
    using assms False by (auto simp: e(2))
qed

lemma signals_at_sorted:
  assumes "signals_at cs is sigs" "sorted_wrt (\<lambda>c d. cTimestamp c < cTimestamp d) cs"
  shows "sorted_wrt (<) (map gTimestamp sigs)"
proof -
  have js: "sorted_wrt (<) is" "\<forall>i \<in> set is. i < length cs"
    and ts: "map gTimestamp sigs = map (\<lambda>i. cTimestamp (cs ! i)) is"
    using assms(1) by (simp_all add: signals_at_def)
  from js(1) have "sorted_wrt (\<lambda>i j. cTimestamp (cs ! i) < cTimestamp (cs ! j)) is"
  proof (rule sorted_wrt_mono_rel [rotated])
    fix i j assume "i \<in> set is" "j \<in> set is" "i < j"
    with js(2) show "cTimestamp (cs ! i) < cTimestamp (cs ! j)"
      by (intro sorted_wrt_nth_less [OF assms(2)]) auto
  qed
  then show ?thesis unfolding ts by (simp add: sorted_wrt_map)
qed

section \<open>Alternation\<close>

definition alternating :: "signal list \<Rightarrow> bool" where
  "alternating sigs \<longleftrightarrow> successively (\<lambda>s t. gSide s \<noteq> gSide t) sigs"

text \<open>Signals that mark the edges of a level \<open>b\<close>: BUY where it rises, SELL where it falls.\<close>

definition marks_edges :: "(nat \<Rightarrow> bool) \<Rightarrow> (nat \<Rightarrow> signal option) \<Rightarrow> nat \<Rightarrow> bool" where
  "marks_edges b f i \<longleftrightarrow>
     (case f i of None \<Rightarrow> b i = b (i - 1)
      | Some s \<Rightarrow> b i \<noteq> b (i - 1) \<and> gSide s = (if b i then OrderSideBuy else OrderSideSell))"

lemma edges_alternate:
  assumes "\<And>i. i \<in> set [lo..<n] \<Longrightarrow> marks_edges b f i" "0 < lo"
  shows "alternating (List.map_filter f [lo..<n]) \<and>
    (List.map_filter f [lo..<n] \<noteq> [] \<longrightarrow>
      gSide (hd (List.map_filter f [lo..<n])) = (if b (lo - 1) then OrderSideSell else OrderSideBuy))"
  using assms
proof (induction "n - lo" arbitrary: lo)
  case (Suc d)
  then have lo: "lo < n" "[lo..<n] = lo # [Suc lo..<n]" by (auto simp: upt_conv_Cons)
  have IH: "alternating (List.map_filter f [Suc lo..<n]) \<and>
      (List.map_filter f [Suc lo..<n] \<noteq> [] \<longrightarrow>
        gSide (hd (List.map_filter f [Suc lo..<n])) = (if b lo then OrderSideSell else OrderSideBuy))"
    using Suc.hyps(1) [of "Suc lo"] Suc.hyps(2) Suc.prems by simp
  have m: "marks_edges b f lo" using Suc.prems lo by simp
  show ?case
    using IH m by (cases "f lo"; cases "List.map_filter f [Suc lo..<n]")
      (auto simp: lo(2) map_filter_simps alternating_def marks_edges_def sides split: if_splits)
qed (simp add: alternating_def map_filter_simps)

text \<open>The momentum flag after bar \<open>i\<close>.\<close>

primrec breakout :: "candle list \<Rightarrow> nat \<Rightarrow> bool" where
  "breakout cs 0 = False"
| "breakout cs (Suc i) =
     (if Suc i < nat defaultMomentumLookback then False else snd (Momentum_step cs (Suc i) (breakout cs i)))"

lemma Momentum_at_flag:
  assumes "nat defaultMomentumLookback \<le> i" "i < length cs"
  shows "Momentum_at cs i = fst (Momentum_step cs i (breakout cs (i - 1)))"
proof -
  define L where "L = nat defaultMomentumLookback"
  have L: "0 < L" by (simp add: L_def defaultMomentumLookback_def)
  have before: "\<not> breakout cs j" if "j < L" for j
    using that by (induction j) (simp_all add: L_def)
  have step: "snd (Momentum_step cs j s) = breakout cs j" if "s = breakout cs (j - 1)" "L \<le> j" for j s
    using that L by (cases j) (auto simp: L_def)
  from emit_at [of "\<lambda>j s. s = breakout cs (j - 1)" L "length cs" "Momentum_step cs" False i]
  show ?thesis
    using assms before [of "L - 1"] L step by (auto simp: Momentum_at_def L_def)
qed

text \<open>The crossover, Supertrend and momentum evaluators alternate: a BUY is followed by a SELL
  and a SELL by a BUY, and momentum always opens with a BUY.\<close>

theorem signals_alternate:
  "alternating (evaluateMACrossover cs) \<and> alternating (evaluateSupertrend cs) \<and>
   alternating (evaluateMomentum cs) \<and>
   (evaluateMomentum cs = [] \<or> gSide (hd (evaluateMomentum cs)) = OrderSideBuy)"
proof (intro conjI)
  let ?a = "SMA (extractCloses cs) defaultShortMA" and ?b = "SMA (extractCloses cs) defaultLongMA"
  show "alternating (evaluateMACrossover cs)"
    using edges_alternate [of "nat defaultLongMA" "length cs" "\<lambda>i. ?b ! i < ?a ! i" "MACrossover_at cs ?a ?b"]
    by (simp add: evaluateMACrossover_def Let_def MACrossover_at_def marks_edges_def mk_signal_def
      defaultLongMA_def)
  let ?d = "snd (Supertrend cs defaultSupertrendPer defaultSupertrendMult)"
  have d: "?d ! i = 1 \<or> ?d ! i = - 1" if "i < length cs" for i
    using that by (intro Supertrend_dir [of defaultSupertrendPer _ cs defaultSupertrendMult])
      (simp_all add: defaultSupertrendPer_def)
  have "marks_edges (\<lambda>i. ?d ! i = 1) (Supertrend_at cs ?d) i" if "i < length cs" for i
    using d [OF that] d [OF less_imp_diff_less [OF that], of 1]
    by (auto simp: Supertrend_at_def marks_edges_def mk_signal_def)
  then show "alternating (evaluateSupertrend cs)"
    using edges_alternate [of "nat defaultSupertrendPer" "length cs" "\<lambda>i. ?d ! i = 1" "Supertrend_at cs ?d"]
    by (simp add: evaluateSupertrend_def Let_def defaultSupertrendPer_def)
  have "marks_edges (breakout cs) (Momentum_at cs) i"
    if "nat defaultMomentumLookback \<le> i" "i < length cs" for i
  proof -
    have "breakout cs i = snd (Momentum_step cs i (breakout cs (i - 1)))"
      using that(1) by (cases i) (simp_all add: defaultMomentumLookback_def)
    then show ?thesis
      by (auto simp: marks_edges_def Momentum_at_flag [OF that] Momentum_step_def Let_def mk_signal_def)
  qed
  moreover have "\<not> breakout cs (nat defaultMomentumLookback - 1)"
    by (simp add: defaultMomentumLookback_def numeral_eq_Suc)
  ultimately show "alternating (evaluateMomentum cs)"
    "evaluateMomentum cs = [] \<or> gSide (hd (evaluateMomentum cs)) = OrderSideBuy"
    using edges_alternate [of "nat defaultMomentumLookback" "length cs" "breakout cs" "Momentum_at cs"]
    by (auto simp: evaluateMomentum_at defaultMomentumLookback_def)
qed

end
