(* ===== verification/Backtester.thy ===== *)
theory Backtester
  imports Evaluator
begin

text \<open>
  \<^verbatim>\<open>internal/engine/backtest.go\<close>: scheduling of signals on the trade candles, the exit rules,
  the closing and recording of trades and the run itself. The \<^verbatim>\<open>ChargeCalculator\<close> the
  backtester holds is the argument \<open>charges\<close>. The slice \<^verbatim>\<open>scheduledSignals[sigIdx:]\<close> that the
  run has not reached yet is the list \<open>pending\<close>.
\<close>

definition ExitReasonTarget :: string where [go_const]: "ExitReasonTarget = ''target''"
definition ExitReasonStopLoss :: string where [go_const]: "ExitReasonStopLoss = ''stop_loss''"
definition ExitReasonTimeExit :: string where [go_const]: "ExitReasonTimeExit = ''time_exit''"
definition ExitReasonSignalReversal :: string where
  [go_const]: "ExitReasonSignalReversal = ''signal_reversal''"
definition ExitReasonEndOfData :: string where [go_const]: "ExitReasonEndOfData = ''end_of_data''"

definition candleInterval1DDuration :: duration where
  [go_const]: "candleInterval1DDuration = 24 * hour"
definition candleInterval5MDuration :: duration where
  [go_const]: "candleInterval5MDuration = 5 * minute"

section \<open>Scheduling\<close>

record scheduledSignal =
  Signal :: signal
  ExecutionTimestamp :: time

text \<open>\<^verbatim>\<open>for i < len(cs) && cs[i].Timestamp.Before(t) { i++ }\<close>\<close>

function advance :: "candle list \<Rightarrow> time \<Rightarrow> nat \<Rightarrow> nat" where
  "advance cs t i = (if i < length cs \<and> cTimestamp (cs ! i) < t then advance cs t (Suc i) else i)"
  by pat_completeness auto
termination by (relation "measure (\<lambda>(cs, _, i). length cs - i)") auto

declare advance.simps [simp del]

fun schedule_loop :: "candle list \<Rightarrow> duration \<Rightarrow> nat \<Rightarrow> nat \<Rightarrow> signal list \<Rightarrow> scheduledSignal list" where
  "schedule_loop cs interval matchTradeIdx executionTradeIdx [] = []"
| "schedule_loop cs interval matchTradeIdx executionTradeIdx (sig # sigs) =
     (let m = advance cs (gTimestamp sig) matchTradeIdx in
      if length cs \<le> m then []
      else if cTimestamp (cs ! m) \<noteq> gTimestamp sig
        then schedule_loop cs interval m executionTradeIdx sigs
      else
        let earliestExecution = gTimestamp sig + interval;
            e = advance cs earliestExecution (if executionTradeIdx < m then m else executionTradeIdx)
        in if length cs \<le> e then []
           else \<lparr>Signal = sig, ExecutionTimestamp = cTimestamp (cs ! e)\<rparr>
                # schedule_loop cs interval m e sigs)"

definition scheduleSignals :: "signal list \<Rightarrow> candle list \<Rightarrow> duration \<Rightarrow> scheduledSignal list" where
  "scheduleSignals signals tradeCandles interval =
     (if signals = [] \<or> tradeCandles = [] then []
      else schedule_loop tradeCandles interval 0 0 signals)"

definition intervalDuration :: "string \<Rightarrow> string + duration" where
  "intervalDuration interval =
     (if interval = CandleInterval1D then Inr candleInterval1DDuration
      else if interval = CandleInterval5M then Inr candleInterval5MDuration
      else Inl (''unknown candle interval: '' @ interval))"

section \<open>Exits\<close>

text \<open>The first rule of the three that fires gives the reason and the price; \<open>('''', 0)\<close> when none does.\<close>

definition checkExitConditions :: "trade \<Rightarrow> candle \<Rightarrow> strategy \<Rightarrow> string \<times> f64" where
  "checkExitConditions tr c strat =
     (let entry = tEntryPrice tr;
          target = (case sTargetPct strat of None \<Rightarrow> None
            | Some pct \<Rightarrow>
               let target = pct / lit 100 1 in
               if tSide tr = OrderSideBuy
               then (if entry * (1 + target) \<le> cHigh c then Some (entry * (1 + target)) else None)
               else (if cLow c \<le> entry * (1 - target) then Some (entry * (1 - target)) else None));
          stop = (case sStopLossPct strat of None \<Rightarrow> None
            | Some pct \<Rightarrow>
               let sl = pct / lit 100 1 in
               if tSide tr = OrderSideBuy
               then (if cLow c \<le> entry * (1 - sl) then Some (entry * (1 - sl)) else None)
               else (if entry * (1 + sl) \<le> cHigh c then Some (entry * (1 + sl)) else None));
          timeUp = (case sTimeExitMinutes strat of None \<Rightarrow> False
            | Some m \<Rightarrow> wrap64 (m * minute) \<le> time_sub (cTimestamp c) (tEntryTimestamp tr))
      in case target of Some price \<Rightarrow> (ExitReasonTarget, price)
         | None \<Rightarrow>
           (case stop of Some price \<Rightarrow> (ExitReasonStopLoss, price)
            | None \<Rightarrow> if timeUp then (ExitReasonTimeExit, cClose c) else ([], 0)))"

definition isReversal :: "string \<Rightarrow> string \<Rightarrow> bool" where
  "isReversal openSide sigSide \<longleftrightarrow>
     (openSide = OrderSideBuy \<and> sigSide = OrderSideSell) \<or>
     (openSide = OrderSideSell \<and> sigSide = OrderSideBuy)"

type_synonym calculator = "string \<Rightarrow> string \<Rightarrow> f64 \<Rightarrow> f64 \<Rightarrow> goint \<Rightarrow> charge_breakdown"

definition closeTrade ::
  "calculator \<Rightarrow> trade \<Rightarrow> f64 \<Rightarrow> time \<Rightarrow> string \<Rightarrow> goint \<Rightarrow> string \<Rightarrow> f64 \<Rightarrow> trade" where
  "closeTrade charges tr exitPrice exitTime reason qty segment slippagePct =
     (let gross = (if tSide tr = OrderSideBuy then (exitPrice - tEntryPrice tr) * f_of_int qty
                   else (tEntryPrice tr - exitPrice) * f_of_int qty);
          cb = charges segment (tSide tr) (tEntryPrice tr) exitPrice qty;
          slippage = (slippagePct / lit 100 1) * (tEntryPrice tr + exitPrice) * f_of_int qty
      in tr\<lparr>tExitTimestamp := exitTime, tExitPrice := exitPrice, tExitReason := reason,
            tGrossPnL := gross, tSlippage := slippage, tBrokerage := Brokerage cb, tSTT := STT cb,
            tExchangeFees := ExchangeFees cb, tSEBIFees := SEBIFees cb, tGST := GST cb,
            tStampDuty := StampDuty cb, tTotalCharges := Total cb,
            tNetPnL := gross - Total cb - slippage\<rparr>)"

section \<open>The run\<close>

text \<open>The variables of \<^verbatim>\<open>RunBacktest\<close> that its loop changes; \<open>rsTrades\<close> is \<^verbatim>\<open>result.Trades\<close>.\<close>

record run_state =
  rsTrades :: "trade list"
  rsEquity :: f64
  rsPeak :: f64
  rsMaxDrawdown :: f64
  rsOpen :: "trade option"
  rsPending :: "scheduledSignal list"

definition recordTrade :: "trade \<Rightarrow> run_state \<Rightarrow> run_state" where
  "recordTrade tr s =
     (let equity = rsEquity s + tNetPnL tr;
          peak = (if rsPeak s < equity then equity else rsPeak s);
          dd = (if 0 < peak then (peak - equity) / peak else 0)
      in s\<lparr>rsTrades := rsTrades s @ [tr], rsEquity := equity, rsPeak := peak,
           rsMaxDrawdown := (if rsMaxDrawdown s < dd then dd else rsMaxDrawdown s)\<rparr>)"

record run_env =
  eCharges :: calculator
  eStrategy :: strategy
  eQty :: goint
  eSlippagePct :: f64

text \<open>\<^verbatim>\<open>closeTrade\<close>, \<^verbatim>\<open>recordTrade\<close> and \<^verbatim>\<open>openTrade = nil\<close>, which the run always does together.\<close>

definition close_and_record :: "run_env \<Rightarrow> trade \<Rightarrow> f64 \<Rightarrow> time \<Rightarrow> string \<Rightarrow> run_state \<Rightarrow> run_state" where
  "close_and_record e tr price t reason s =
     (recordTrade (closeTrade (eCharges e) tr price t reason (eQty e)
        (sInstrumentType (eStrategy e)) (eSlippagePct e)) s)\<lparr>rsOpen := None\<rparr>"

definition new_trade :: "run_env \<Rightarrow> candle \<Rightarrow> signal \<Rightarrow> trade" where
  "new_trade e c sig =
     \<lparr>tEntryTimestamp = cTimestamp c, tExitTimestamp = zero_time, tSide = gSide sig,
      tQuantity = eQty e, tEntryPrice = cOpen c, tExitPrice = 0, tGrossPnL = 0, tSlippage = 0,
      tBrokerage = 0, tSTT = 0, tExchangeFees = 0, tSEBIFees = 0, tGST = 0, tStampDuty = 0,
      tTotalCharges = 0, tNetPnL = 0, tReason = gReason sig, tExitReason = []\<rparr>"

definition check_exit :: "run_env \<Rightarrow> candle \<Rightarrow> run_state \<Rightarrow> run_state" where
  "check_exit e c s =
     (case rsOpen s of None \<Rightarrow> s
      | Some tr \<Rightarrow>
         let (reason, price) = checkExitConditions tr c (eStrategy e)
         in if reason \<noteq> [] then close_and_record e tr price (cTimestamp c) reason s else s)"

text \<open>One scheduled signal that is due at the candle.\<close>

definition take_signal :: "run_env \<Rightarrow> candle \<Rightarrow> signal \<Rightarrow> run_state \<Rightarrow> run_state" where
  "take_signal e c sig s =
     (case rsOpen s of None \<Rightarrow> s\<lparr>rsOpen := Some (new_trade e c sig)\<rparr>
      | Some tr \<Rightarrow>
         if \<not> isReversal (tSide tr) (gSide sig) then s
         else (close_and_record e tr (cOpen c) (cTimestamp c) ExitReasonSignalReversal s)
                \<lparr>rsOpen := Some (new_trade e c sig)\<rparr>)"

fun take_due :: "run_env \<Rightarrow> candle \<Rightarrow> scheduledSignal list \<Rightarrow> run_state \<Rightarrow> run_state" where
  "take_due e c [] s = s\<lparr>rsPending := []\<rparr>"
| "take_due e c (p # ps) s =
     (if ExecutionTimestamp p = cTimestamp c then take_due e c ps (take_signal e c (Signal p) s)
      else s\<lparr>rsPending := p # ps\<rparr>)"

definition run_candle :: "run_env \<Rightarrow> candle \<Rightarrow> run_state \<Rightarrow> run_state" where
  "run_candle e c s = take_due e c (rsPending s) (check_exit e c s)"

definition close_at_end :: "run_env \<Rightarrow> candle list \<Rightarrow> run_state \<Rightarrow> run_state" where
  "close_at_end e cs s =
     (case rsOpen s of None \<Rightarrow> s
      | Some tr \<Rightarrow>
         if cs = [] then s
         else close_and_record e tr (cClose (last cs)) (cTimestamp (last cs)) ExitReasonEndOfData s)"

definition empty_result :: backtest_result where
  "empty_result = \<lparr>rTrades = [], rGrossPnL = 0, rTotalCharges = 0, rSlippage = 0, rSlippagePct = 0,
     rNetPnL = 0, rTotalTrades = 0, rWinCount = 0, rLossCount = 0, rMaxDrawdown = 0\<rparr>"

text \<open>The aggregation loop over \<^verbatim>\<open>result.Trades\<close>.\<close>

definition add_totals :: "trade \<Rightarrow> backtest_result \<Rightarrow> backtest_result" where
  "add_totals tr r =
     r\<lparr>rGrossPnL := rGrossPnL r + tGrossPnL tr,
       rTotalCharges := rTotalCharges r + tTotalCharges tr,
       rSlippage := rSlippage r + tSlippage tr,
       rWinCount := (if 0 < tNetPnL tr then rWinCount r + 1 else rWinCount r),
       rLossCount := (if \<not> 0 < tNetPnL tr \<and> tNetPnL tr < 0 then rLossCount r + 1 else rLossCount r)\<rparr>"

definition summarize :: "f64 \<Rightarrow> run_state \<Rightarrow> backtest_result" where
  "summarize slippagePct s =
     (let r = fold add_totals (rsTrades s)
                (empty_result\<lparr>rTrades := rsTrades s, rSlippagePct := slippagePct,
                   rTotalTrades := int (length (rsTrades s))\<rparr>)
      in r\<lparr>rNetPnL := rGrossPnL r - rTotalCharges r - rSlippage r,
           rMaxDrawdown := fround (rsMaxDrawdown s * lit 10000 1) / lit 10000 1\<rparr>)"

definition order_quantity :: "strategy \<Rightarrow> backtest_run_config \<Rightarrow> goint" where
  "order_quantity strat cfg =
     (let lotSize = (if sLotSize strat \<le> 0 then 1 else sLotSize strat);
          nLots = (if Lots cfg \<le> 0 then 1 else Lots cfg)
      in wrap64 (lotSize * nLots))"

definition start_state :: "f64 \<Rightarrow> scheduledSignal list \<Rightarrow> run_state" where
  "start_state capital pending =
     \<lparr>rsTrades = [], rsEquity = capital, rsPeak = capital, rsMaxDrawdown = 0, rsOpen = None,
      rsPending = pending\<rparr>"

definition make_env :: "calculator \<Rightarrow> strategy \<Rightarrow> backtest_run_config \<Rightarrow> run_env" where
  "make_env charges strat cfg =
     \<lparr>eCharges = charges, eStrategy = strat, eQty = order_quantity strat cfg,
      eSlippagePct = SlippagePct cfg\<rparr>"

definition run_loop ::
  "calculator \<Rightarrow> strategy \<Rightarrow> candle list \<Rightarrow> backtest_run_config \<Rightarrow> scheduledSignal list \<Rightarrow> run_state" where
  "run_loop charges strat cs cfg scheduled =
     fold (run_candle (make_env charges strat cfg)) cs (start_state (InitialCapital cfg) scheduled)"

definition RunBacktest ::
  "calculator \<Rightarrow> strategy \<Rightarrow> engine_inputs \<Rightarrow> backtest_run_config \<Rightarrow> string + backtest_result" where
  "RunBacktest charges strat inputs cfg =
     (if SignalCandles inputs = [] \<or> TradeCandles inputs = [] then Inr empty_result
      else case Evaluate strat (SignalCandles inputs) of
        Inl err \<Rightarrow> Inl err
      | Inr signals \<Rightarrow>
         (case intervalDuration (Interval inputs) of
            Inl err \<Rightarrow> Inl err
          | Inr interval \<Rightarrow>
             let scheduled = scheduleSignals signals (TradeCandles inputs) interval;
                 s = run_loop charges strat (TradeCandles inputs) cfg scheduled
             in Inr (summarize (SlippagePct cfg)
                  (close_at_end (make_env charges strat cfg) (TradeCandles inputs) s))))"

section \<open>Scheduling is the join of signals and bars\<close>

lemma advance_spec:
  "i \<le> advance cs t i \<and>
   (\<forall>j. i \<le> j \<and> j < advance cs t i \<longrightarrow> j < length cs \<and> cTimestamp (cs ! j) < t) \<and>
   (advance cs t i < length cs \<longrightarrow> t \<le> cTimestamp (cs ! advance cs t i))"
proof (induction cs t i rule: advance.induct)
  case (1 cs t i)
  show ?case
  proof (cases "i < length cs \<and> cTimestamp (cs ! i) < t")
    case True
    then have "advance cs t i = advance cs t (Suc i)" by (subst advance.simps) simp
    with 1 [OF True] True show ?thesis by (metis Suc_leD Suc_le_eq le_neq_implies_less)
  next
    case False
    then have "advance cs t i = i" by (subst advance.simps) (rule if_not_P)
    with False show ?thesis by auto
  qed
qed

text \<open>The specification: each signal with a trade bar at its own time is due at the first trade
  bar that starts no earlier than the signal's bar has ended; the others are dropped.\<close>

definition due :: "candle list \<Rightarrow> duration \<Rightarrow> signal \<Rightarrow> scheduledSignal option" where
  "due cs interval sig =
     (if gTimestamp sig \<in> set (map cTimestamp cs)
      then map_option (\<lambda>c. \<lparr>Signal = sig, ExecutionTimestamp = cTimestamp c\<rparr>)
             (List.find (\<lambda>c. gTimestamp sig + interval \<le> cTimestamp c) cs)
      else None)"

lemma find_first:
  assumes "e < length cs" "P (cs ! e)" "\<And>j. j < e \<Longrightarrow> \<not> P (cs ! j)"
  shows "List.find P cs = Some (cs ! e)"
  using assms by (auto simp: find_Some_iff)

lemma due_late:
  assumes "\<And>j. j < length cs \<Longrightarrow> cTimestamp (cs ! j) < t" "\<And>s. s \<in> set sigs \<Longrightarrow> t \<le> gTimestamp s + interval"
  shows "List.map_filter (due cs interval) sigs = []"
proof -
  have "due cs interval s = None" if "s \<in> set sigs" for s
  proof -
    have "cTimestamp c < gTimestamp s + interval" if "c \<in> set cs" for c
      using assms(1) assms(2) [OF \<open>s \<in> set sigs\<close>] that by (force simp: in_set_conv_nth)
    then have "List.find (\<lambda>c. gTimestamp s + interval \<le> cTimestamp c) cs = None"
      by (fastforce simp: find_None_iff)
    then show ?thesis by (simp add: due_def)
  qed
  then show ?thesis by (induction sigs) (simp_all add: map_filter_simps)
qed

lemma due_unmatched:
  assumes "sorted (map cTimestamp cs)" "m < length cs" "gTimestamp sig < cTimestamp (cs ! m)"
    and "\<And>j. j < m \<Longrightarrow> cTimestamp (cs ! j) < gTimestamp sig"
  shows "due cs interval sig = None"
proof -
  have "cTimestamp (cs ! j) \<noteq> gTimestamp sig" if "j < length cs" for j
    using that assms(3) assms(4) [of j] sorted_nth_mono [OF assms(1), of m j]
    by (cases "j < m") (auto simp: not_less)
  then have "gTimestamp sig \<notin> set (map cTimestamp cs)"
    by (metis in_set_conv_nth length_map nth_map)
  then show ?thesis by (simp add: due_def)
qed

lemma schedule_loop_due:
  assumes "sorted (map cTimestamp cs)" "sorted (map gTimestamp sigs)" "0 \<le> interval"
    and "\<And>j sig. j < mi \<Longrightarrow> sig \<in> set sigs \<Longrightarrow> j < length cs \<and> cTimestamp (cs ! j) < gTimestamp sig"
    and "\<And>j sig. j < ei \<Longrightarrow> sig \<in> set sigs \<Longrightarrow> j < length cs \<and> cTimestamp (cs ! j) < gTimestamp sig + interval"
  shows "schedule_loop cs interval mi ei sigs = List.map_filter (due cs interval) sigs"
  using assms
proof (induction sigs arbitrary: mi ei)
  case (Cons sig sigs)
  define m where "m = advance cs (gTimestamp sig) mi"
  define e where "e = advance cs (gTimestamp sig + interval) (if ei < m then m else ei)"
  note M = advance_spec [of mi cs "gTimestamp sig", folded m_def]
  note E = advance_spec [of "if ei < m then m else ei" cs "gTimestamp sig + interval", folded e_def]
  have le: "gTimestamp sig \<le> gTimestamp s" if "s \<in> set sigs" for s using Cons.prems(2) that by simp
  have below_m: "j < length cs \<and> cTimestamp (cs ! j) < gTimestamp sig" if "j < m" for j
    using that M Cons.prems(4) [of j sig] by (cases "j < mi") auto
  have below_e: "j < length cs \<and> cTimestamp (cs ! j) < gTimestamp sig + interval" if "j < e" for j
    using that E Cons.prems(5) [of j sig] below_m [of j] Cons.prems(3)
    by (cases "j < ei"; cases "j < m") (force split: if_splits)+
  have rest: "schedule_loop cs interval m ei' sigs = List.map_filter (due cs interval) sigs"
    if "\<And>j. j < ei' \<Longrightarrow> j < length cs \<and> cTimestamp (cs ! j) < gTimestamp sig + interval" for ei'
    using Cons.prems(1-3) below_m le that by (intro Cons.IH) force+
  consider "length cs \<le> m" | "m < length cs" "cTimestamp (cs ! m) \<noteq> gTimestamp sig"
    | "m < length cs" "cTimestamp (cs ! m) = gTimestamp sig" "length cs \<le> e"
    | "m < length cs" "cTimestamp (cs ! m) = gTimestamp sig" "e < length cs" by linarith
  then show ?case
  proof cases
    case 1
    have "List.map_filter (due cs interval) (sig # sigs) = []"
      by (rule due_late [of _ "gTimestamp sig"]) (use 1 below_m le Cons.prems(3) in force)+
    with 1 show ?thesis by (simp add: m_def)
  next
    case 2
    have "gTimestamp sig < cTimestamp (cs ! m)" using M 2 by force
    then have "due cs interval sig = None"
      using Cons.prems(1) 2 below_m by (intro due_unmatched) blast+
    moreover have "schedule_loop cs interval m ei sigs = List.map_filter (due cs interval) sigs"
      by (rule rest) (rule Cons.prems(5), simp_all)
    ultimately show ?thesis using 2 by (simp add: map_filter_simps flip: m_def)
  next
    case 3
    have "List.map_filter (due cs interval) (sig # sigs) = []"
      by (rule due_late [of _ "gTimestamp sig + interval"]) (use 3 below_e le in force)+
    with 3 show ?thesis by (simp flip: m_def e_def)
  next
    case 4
    have "List.find (\<lambda>c. gTimestamp sig + interval \<le> cTimestamp c) cs = Some (cs ! e)"
      using 4 E below_e by (intro find_first) (auto simp: not_le)
    moreover have "gTimestamp sig \<in> cTimestamp ` set cs" using 4 by (metis imageI nth_mem)
    ultimately have "due cs interval sig = Some \<lparr>Signal = sig, ExecutionTimestamp = cTimestamp (cs ! e)\<rparr>"
      by (simp add: due_def)
    then show ?thesis
      using rest [of e] below_e 4 by (simp add: map_filter_simps flip: m_def e_def)
  qed
qed (simp add: map_filter_simps)

lemma scheduleSignals_due:
  assumes "sorted (map cTimestamp cs)" "sorted (map gTimestamp sigs)" "0 \<le> interval"
  shows "scheduleSignals sigs cs interval = List.map_filter (due cs interval) sigs"
proof (cases "cs = []")
  case True
  then have "List.map_filter (due cs interval) sigs = []"
    by (induction sigs) (simp_all add: map_filter_simps due_def)
  then show ?thesis using True by (simp add: scheduleSignals_def)
next
  case False
  then show ?thesis
    using schedule_loop_due [OF assms, of 0 0] by (simp add: scheduleSignals_def map_filter_simps)
qed

section \<open>Invariants of the run\<close>

lemma take_due_inv:
  assumes "P s"
    and opens: "\<And>s p. P s \<Longrightarrow> rsOpen s = None \<Longrightarrow> p \<in> set ps \<Longrightarrow>
      ExecutionTimestamp p = cTimestamp c \<Longrightarrow> P (s\<lparr>rsOpen := Some (new_trade e c (Signal p))\<rparr>)"
    and reverses: "\<And>s p tr. P s \<Longrightarrow> rsOpen s = Some tr \<Longrightarrow> p \<in> set ps \<Longrightarrow>
      ExecutionTimestamp p = cTimestamp c \<Longrightarrow> isReversal (tSide tr) (gSide (Signal p)) \<Longrightarrow>
      P (close_and_record e tr (cOpen c) (cTimestamp c) ExitReasonSignalReversal s)"
    and pend: "\<And>s qs. P s \<Longrightarrow> set qs \<subseteq> set ps \<Longrightarrow> P (s\<lparr>rsPending := qs\<rparr>)"
  shows "P (take_due e c ps s)"
proof -
  have "P s \<Longrightarrow> set qs \<subseteq> set ps \<Longrightarrow> P (take_due e c qs s)" for qs s
  proof (induction qs arbitrary: s)
    case (Cons q qs)
    have "P (take_signal e c (Signal q) s)" if due: "ExecutionTimestamp q = cTimestamp c"
    proof (cases "rsOpen s")
      case None
      with opens [OF Cons.prems(1) None, of q] Cons.prems(2) due show ?thesis
        by (simp add: take_signal_def)
    next
      case (Some tr)
      let ?t = "close_and_record e tr (cOpen c) (cTimestamp c) ExitReasonSignalReversal s"
      have "rsOpen ?t = None" by (simp add: close_and_record_def)
      then have "P (?t\<lparr>rsOpen := Some (new_trade e c (Signal q))\<rparr>)" if r: "isReversal (tSide tr) (gSide (Signal q))"
        using reverses [OF Cons.prems(1) Some _ due r] opens [of ?t q] Cons.prems(2) due by simp
      with Cons.prems(1) show ?thesis by (simp add: take_signal_def Some)
    qed
    with Cons pend [of s "q # qs"] show ?case by simp
  qed (simp add: pend)
  with assms(1) show ?thesis by blast
qed

lemma check_exit_inv:
  assumes "P s"
    and "\<And>tr reason price. rsOpen s = Some tr \<Longrightarrow>
      checkExitConditions tr c (eStrategy e) = (reason, price) \<Longrightarrow> reason \<noteq> [] \<Longrightarrow>
      P (close_and_record e tr price (cTimestamp c) reason s)"
  shows "P (check_exit e c s)"
  using assms by (auto simp: check_exit_def split: option.split prod.split)

lemmas run_simps = close_and_record_def recordTrade_def Let_def

lemma closeTrade_fields [simp]:
  "tEntryTimestamp (closeTrade ch tr p t r q seg sl) = tEntryTimestamp tr"
  "tExitTimestamp (closeTrade ch tr p t r q seg sl) = t"
  "tSide (closeTrade ch tr p t r q seg sl) = tSide tr"
  "tQuantity (closeTrade ch tr p t r q seg sl) = tQuantity tr"
  "tEntryPrice (closeTrade ch tr p t r q seg sl) = tEntryPrice tr"
  "tExitPrice (closeTrade ch tr p t r q seg sl) = p"
  "tExitReason (closeTrade ch tr p t r q seg sl) = r"
  "tReason (closeTrade ch tr p t r q seg sl) = tReason tr"
  by (simp_all add: closeTrade_def Let_def)

lemma closeTrade_again:
  "closeTrade ch (closeTrade ch tr p t r q seg sl) p t r q seg sl = closeTrade ch tr p t r q seg sl"
  by (simp add: closeTrade_def Let_def)

lemma close_and_record_fields [simp]:
  "rsTrades (close_and_record e tr p t r s) = rsTrades s @
     [closeTrade (eCharges e) tr p t r (eQty e) (sInstrumentType (eStrategy e)) (eSlippagePct e)]"
  "rsOpen (close_and_record e tr p t r s) = None"
  "rsPending (close_and_record e tr p t r s) = rsPending s"
  by (simp_all add: run_simps)

text \<open>What the run promises of a completed trade: it was opened at the open of a bar and closed at
  a bar, by the rule its exit reason names and at that rule's price, and its money fields are
  those of \<^verbatim>\<open>closeTrade\<close>.\<close>

definition exit_ok :: "run_env \<Rightarrow> scheduledSignal list \<Rightarrow> candle list \<Rightarrow> candle \<Rightarrow> trade \<Rightarrow> bool" where
  "exit_ok e ps cs c tr \<longleftrightarrow>
     (tExitReason tr = ExitReasonTarget \<and> (\<exists>pct. sTargetPct (eStrategy e) = Some pct \<and>
        (if tSide tr = OrderSideBuy
         then tExitPrice tr = tEntryPrice tr * (1 + pct / lit 100 1) \<and> tExitPrice tr \<le> cHigh c
         else tExitPrice tr = tEntryPrice tr * (1 - pct / lit 100 1) \<and> cLow c \<le> tExitPrice tr))) \<or>
     (tExitReason tr = ExitReasonStopLoss \<and> (\<exists>pct. sStopLossPct (eStrategy e) = Some pct \<and>
        (if tSide tr = OrderSideBuy
         then tExitPrice tr = tEntryPrice tr * (1 - pct / lit 100 1) \<and> cLow c \<le> tExitPrice tr
         else tExitPrice tr = tEntryPrice tr * (1 + pct / lit 100 1) \<and> tExitPrice tr \<le> cHigh c))) \<or>
     (tExitReason tr = ExitReasonTimeExit \<and> tExitPrice tr = cClose c \<and>
        (\<exists>m. sTimeExitMinutes (eStrategy e) = Some m \<and>
           wrap64 (m * minute) \<le> time_sub (cTimestamp c) (tEntryTimestamp tr))) \<or>
     (tExitReason tr = ExitReasonSignalReversal \<and> tExitPrice tr = cOpen c \<and>
        (\<exists>p \<in> set ps. ExecutionTimestamp p = cTimestamp c \<and>
           {tSide tr, gSide (Signal p)} = {OrderSideBuy, OrderSideSell})) \<or>
     (tExitReason tr = ExitReasonEndOfData \<and> tExitPrice tr = cClose c \<and> c = last cs)"

definition opened_ok :: "run_env \<Rightarrow> scheduledSignal list \<Rightarrow> candle list \<Rightarrow> trade \<Rightarrow> bool" where
  "opened_ok e ps cs tr \<longleftrightarrow> tQuantity tr = eQty e \<and>
     (\<exists>c \<in> set cs. tEntryTimestamp tr = cTimestamp c \<and> tEntryPrice tr = cOpen c) \<and>
     (\<exists>p \<in> set ps. tEntryTimestamp tr = ExecutionTimestamp p \<and> tSide tr = gSide (Signal p) \<and>
        tReason tr = gReason (Signal p))"

definition trade_ok :: "run_env \<Rightarrow> scheduledSignal list \<Rightarrow> candle list \<Rightarrow> trade \<Rightarrow> bool" where
  "trade_ok e ps cs tr \<longleftrightarrow> opened_ok e ps cs tr \<and>
     (\<exists>c \<in> set cs. tExitTimestamp tr = cTimestamp c \<and> exit_ok e ps cs c tr) \<and>
     tr = closeTrade (eCharges e) tr (tExitPrice tr) (tExitTimestamp tr) (tExitReason tr) (eQty e)
       (sInstrumentType (eStrategy e)) (eSlippagePct e)"

definition state_ok :: "run_env \<Rightarrow> scheduledSignal list \<Rightarrow> candle list \<Rightarrow> run_state \<Rightarrow> bool" where
  "state_ok e ps cs s \<longleftrightarrow> (\<forall>tr \<in> set (rsTrades s). trade_ok e ps cs tr) \<and>
     (\<forall>tr. rsOpen s = Some tr \<longrightarrow> opened_ok e ps cs tr) \<and> set (rsPending s) \<subseteq> set ps"

lemma trade_ok_close:
  assumes "opened_ok e ps cs tr" "c \<in> set cs"
    and "exit_ok e ps cs c (closeTrade (eCharges e) tr p (cTimestamp c) r (eQty e)
          (sInstrumentType (eStrategy e)) (eSlippagePct e))"
  shows "trade_ok e ps cs (closeTrade (eCharges e) tr p (cTimestamp c) r (eQty e)
          (sInstrumentType (eStrategy e)) (eSlippagePct e))"
  using assms by (auto simp: trade_ok_def opened_ok_def closeTrade_again)

lemma exit_rules:
  assumes "checkExitConditions tr c strat = (reason, price)" "reason \<noteq> []" "eStrategy e = strat"
  shows "exit_ok e ps cs c (closeTrade ch tr price t reason q seg sl)"
  using assms
  by (auto simp: checkExitConditions_def exit_ok_def Let_def split: option.splits if_splits)

lemma state_ok_run_candle:
  assumes "state_ok e ps cs s" "c \<in> set cs"
  shows "state_ok e ps cs (run_candle e c s)"
proof -
  have close: "state_ok e ps cs (close_and_record e tr p (cTimestamp c) r t)"
    if "state_ok e ps cs t" "rsOpen t = Some tr"
      "exit_ok e ps cs c (closeTrade (eCharges e) tr p (cTimestamp c) r (eQty e)
          (sInstrumentType (eStrategy e)) (eSlippagePct e))" for t tr p r
    using that trade_ok_close [OF _ assms(2)] by (auto simp: state_ok_def)
  have "state_ok e ps cs (check_exit e c s)"
    using assms(1) by (rule check_exit_inv) (use assms(1) exit_rules in \<open>auto intro: close\<close>)
  then show ?thesis
    unfolding run_candle_def
  proof (rule take_due_inv)
    show "state_ok e ps cs (t\<lparr>rsOpen := Some (new_trade e c (Signal p))\<rparr>)"
      if "state_ok e ps cs t" "p \<in> set (rsPending s)" "ExecutionTimestamp p = cTimestamp c" for t p
    proof -
      have "p \<in> set ps" using assms(1) that(2) by (auto simp: state_ok_def)
      with that(3) assms(2) have "opened_ok e ps cs (new_trade e c (Signal p))"
        by (auto simp: opened_ok_def new_trade_def intro!: bexI [of _ p])
      with that(1) show ?thesis by (simp add: state_ok_def)
    qed
    show "state_ok e ps cs (close_and_record e tr (cOpen c) (cTimestamp c) ExitReasonSignalReversal t)"
      if "state_ok e ps cs t" "rsOpen t = Some tr" "p \<in> set (rsPending s)"
        "ExecutionTimestamp p = cTimestamp c" "isReversal (tSide tr) (gSide (Signal p))" for t p tr
    proof -
      have "p \<in> set ps" using assms(1) that(3) by (auto simp: state_ok_def)
      with that show ?thesis by (intro close) (auto simp: exit_ok_def isReversal_def)
    qed
    show "state_ok e ps cs (t\<lparr>rsPending := qs\<rparr>)" if "state_ok e ps cs t" "set qs \<subseteq> set (rsPending s)" for t qs
      using that assms(1) by (auto simp: state_ok_def)
  qed
qed

lemma fold_inv:
  assumes "P s" "\<And>x s. x \<in> set xs \<Longrightarrow> P s \<Longrightarrow> P (f x s)"
  shows "P (fold f xs s)"
  using assms by (induction xs arbitrary: s) auto

lemma state_ok_run:
  "state_ok (make_env ch strat cfg) ps cs (close_at_end (make_env ch strat cfg) cs (run_loop ch strat cs cfg ps))"
proof -
  let ?e = "make_env ch strat cfg"
  have "state_ok ?e ps cs (run_loop ch strat cs cfg ps)"
    unfolding run_loop_def
  proof (rule fold_inv)
    show "state_ok ?e ps cs (start_state (InitialCapital cfg) ps)"
      by (simp add: state_ok_def start_state_def)
  qed (rule state_ok_run_candle)
  then show ?thesis
    using trade_ok_close [of ?e ps cs _ "last cs"]
    by (auto simp: close_at_end_def state_ok_def exit_ok_def split: option.split)
qed

section \<open>Trades do not overlap\<close>

definition in_order :: "trade list \<Rightarrow> bool" where
  "in_order trs \<longleftrightarrow> sorted_wrt (\<lambda>a b. tExitTimestamp a \<le> tEntryTimestamp b) trs \<and>
     (\<forall>tr \<in> set trs. tEntryTimestamp tr \<le> tExitTimestamp tr)"

text \<open>Up to the instant \<open>t\<close>: the closed trades are in order and over, the open one began after them.\<close>

definition order_ok :: "time \<Rightarrow> run_state \<Rightarrow> bool" where
  "order_ok t s \<longleftrightarrow> in_order (rsTrades s) \<and> (\<forall>tr \<in> set (rsTrades s). tExitTimestamp tr \<le> t) \<and>
     (\<forall>o'. rsOpen s = Some o' \<longrightarrow> tEntryTimestamp o' \<le> t \<and>
        (\<forall>tr \<in> set (rsTrades s). tExitTimestamp tr \<le> tEntryTimestamp o'))"

lemma order_ok_close:
  assumes "order_ok t s" "rsOpen s = Some tr" "t \<le> t'"
  shows "order_ok t' (close_and_record e tr p t' r s)"
  using assms by (force simp: order_ok_def in_order_def sorted_wrt_append)

lemma order_ok_mono: "order_ok t s \<Longrightarrow> t \<le> t' \<Longrightarrow> order_ok t' s"
  by (force simp: order_ok_def)

lemma order_ok_run_candle:
  assumes "order_ok t s" "t \<le> cTimestamp c"
  shows "order_ok (cTimestamp c) (run_candle e c s)"
proof -
  have "order_ok (cTimestamp c) (check_exit e c s)"
    using order_ok_mono [OF assms] by (rule check_exit_inv) (use assms order_ok_close in blast)
  then show ?thesis
    unfolding run_candle_def
  proof (rule take_due_inv)
    show "order_ok (cTimestamp c) (s\<lparr>rsOpen := Some (new_trade e c (Signal p))\<rparr>)"
      if "order_ok (cTimestamp c) s" for s p
      using that by (simp add: order_ok_def new_trade_def)
    show "order_ok (cTimestamp c) (close_and_record e tr (cOpen c) (cTimestamp c) ExitReasonSignalReversal s)"
      if "order_ok (cTimestamp c) s" "rsOpen s = Some tr" for s tr
      using order_ok_close [OF that] by simp
  qed (simp add: order_ok_def)
qed

lemma order_ok_run:
  assumes "sorted (map cTimestamp cs)" "cs \<noteq> []"
  shows "order_ok (cTimestamp (last cs)) (run_loop ch strat cs cfg ps)"
proof -
  have "order_ok (cTimestamp (last cs)) (fold (run_candle e) cs s)"
    if "order_ok t s" "sorted (map cTimestamp cs)" "cs \<noteq> []" "t \<le> cTimestamp (hd cs)" for e s t cs
    using that
  proof (induction cs arbitrary: s t)
    case (Cons c cs)
    have "order_ok (cTimestamp c) (run_candle e c s)"
      using Cons.prems by (intro order_ok_run_candle) auto
    with Cons.IH [of "cTimestamp c"] Cons.prems show ?case by (cases cs) auto
  qed simp
  moreover have "order_ok (cTimestamp (hd cs)) (start_state (InitialCapital cfg) ps)"
    by (simp add: order_ok_def start_state_def in_order_def)
  ultimately show ?thesis unfolding run_loop_def using assms by blast
qed

lemma in_order_result:
  assumes "sorted (map cTimestamp cs)" "cs \<noteq> []"
  shows "in_order (rsTrades (close_at_end e cs (run_loop ch strat cs cfg ps)))"
proof (cases "rsOpen (run_loop ch strat cs cfg ps)")
  case None
  with order_ok_run [OF assms, of ch strat cfg ps] show ?thesis
    by (simp only: close_at_end_def order_ok_def option.case)
next
  case (Some tr)
  from order_ok_close [OF order_ok_run [OF assms] this order_refl]
  have "order_ok (cTimestamp (last cs)) (close_and_record e tr (cClose (last cs)) (cTimestamp (last cs))
      ExitReasonEndOfData (run_loop ch strat cs cfg ps))" .
  then show ?thesis
    using assms(2) unfolding close_at_end_def Some option.case order_ok_def by (simp only: if_False)
qed

section \<open>Every scheduled signal is met\<close>

lemma rsPending_take_due:
  "rsPending (take_due e c ps s) = dropWhile (\<lambda>p. ExecutionTimestamp p = cTimestamp c) ps"
  by (induction ps arbitrary: s) simp_all

lemma rsPending_run:
  assumes "sorted (map ExecutionTimestamp (rsPending s))" "sorted (map cTimestamp cs)"
    and "\<forall>p \<in> set (rsPending s). ExecutionTimestamp p \<in> set (map cTimestamp cs)"
  shows "rsPending (fold (run_candle e) cs s) = []"
  using assms
proof (induction cs arbitrary: s)
  case (Cons c cs)
  let ?r = "rsPending (run_candle e c s)"
  have r: "?r = dropWhile (\<lambda>p. ExecutionTimestamp p = cTimestamp c) (rsPending s)"
    by (simp add: run_candle_def rsPending_take_due)
  obtain zs where zs: "rsPending s = zs @ ?r" unfolding r by (metis takeWhile_dropWhile_id)
  have sorted: "sorted (map ExecutionTimestamp ?r)"
    using Cons.prems(1) by (subst (asm) zs) (simp add: sorted_append)
  have "ExecutionTimestamp p \<noteq> cTimestamp c" if p: "p \<in> set ?r" for p
  proof (cases ?r)
    case (Cons q qs)
    then have q: "ExecutionTimestamp q \<noteq> cTimestamp c" "q \<in> set (rsPending s)"
      using hd_dropWhile [of "\<lambda>p. ExecutionTimestamp p = cTimestamp c" "rsPending s"]
        set_dropWhileD [of q "\<lambda>p. ExecutionTimestamp p = cTimestamp c" "rsPending s"] r by auto
    then have "cTimestamp c \<le> ExecutionTimestamp q" using Cons.prems(2,3) by auto
    moreover have "ExecutionTimestamp q \<le> ExecutionTimestamp p" using sorted p Cons by auto
    ultimately show ?thesis using q(1) by simp
  qed (use p in simp)
  moreover have "set ?r \<subseteq> set (rsPending s)" unfolding r using set_dropWhileD by fast
  ultimately have "\<forall>p \<in> set ?r. ExecutionTimestamp p \<in> set (map cTimestamp cs)"
    using Cons.prems(3) by fastforce
  with Cons.IH [OF sorted] Cons.prems(2) show ?case by simp
qed simp

lemma due_time:
  assumes "due cs interval sig = Some p" "sorted (map cTimestamp cs)"
  shows "Signal p = sig" "gTimestamp sig + interval \<le> ExecutionTimestamp p"
    "ExecutionTimestamp p \<in> set (map cTimestamp cs)"
    "\<And>c. c \<in> set cs \<Longrightarrow> gTimestamp sig + interval \<le> cTimestamp c \<Longrightarrow> ExecutionTimestamp p \<le> cTimestamp c"
proof -
  obtain c where c: "List.find (\<lambda>c. gTimestamp sig + interval \<le> cTimestamp c) cs = Some c"
    "p = \<lparr>Signal = sig, ExecutionTimestamp = cTimestamp c\<rparr>"
    using assms(1) by (auto simp: due_def split: if_splits)
  then obtain e where e: "e < length cs" "gTimestamp sig + interval \<le> cTimestamp (cs ! e)" "c = cs ! e"
    "\<And>j. j < e \<Longrightarrow> \<not> gTimestamp sig + interval \<le> cTimestamp (cs ! j)"
    by (auto simp: find_Some_iff)
  show "Signal p = sig" "gTimestamp sig + interval \<le> ExecutionTimestamp p"
    "ExecutionTimestamp p \<in> set (map cTimestamp cs)"
    using c e by auto
  fix d assume "d \<in> set cs" "gTimestamp sig + interval \<le> cTimestamp d"
  moreover then obtain j where "j < length cs" "d = cs ! j" by (auto simp: in_set_conv_nth)
  ultimately show "ExecutionTimestamp p \<le> cTimestamp d"
    using c e sorted_nth_mono [OF assms(2), of e j] by (cases "j < e") auto
qed

lemma map_filter_set: "set (List.map_filter f xs) = {y. \<exists>x \<in> set xs. f x = Some y}"
  by (induction xs) (auto simp: map_filter_simps split: option.split)

lemma scheduled_sorted:
  assumes "sorted (map cTimestamp cs)" "sorted (map gTimestamp sigs)"
  shows "sorted (map ExecutionTimestamp (List.map_filter (due cs interval) sigs))"
  using assms(2)
proof (induction sigs)
  case (Cons sig sigs)
  show ?case
  proof (cases "due cs interval sig")
    case (Some p)
    have "ExecutionTimestamp p \<le> ExecutionTimestamp q"
      if "q \<in> set (List.map_filter (due cs interval) sigs)" for q
    proof -
      obtain s where s: "s \<in> set sigs" "due cs interval s = Some q"
        using \<open>q \<in> _\<close> by (auto simp: map_filter_set)
      have "gTimestamp sig \<le> gTimestamp s" using Cons.prems s(1) by simp
      with due_time(2,3) [OF s(2) assms(1)] due_time(4) [OF Some assms(1)] show ?thesis
        by fastforce
    qed
    with Cons Some show ?thesis by (simp add: map_filter_simps)
  qed (use Cons in \<open>simp add: map_filter_simps\<close>)
qed (simp add: map_filter_simps)

section \<open>Totals and drawdown\<close>

lemma fold_add_totals:
  "fold add_totals trs r = r\<lparr>rGrossPnL := foldl (+) (rGrossPnL r) (map tGrossPnL trs),
     rTotalCharges := foldl (+) (rTotalCharges r) (map tTotalCharges trs),
     rSlippage := foldl (+) (rSlippage r) (map tSlippage trs),
     rWinCount := rWinCount r + int (length (filter (\<lambda>tr. 0 < tNetPnL tr) trs)),
     rLossCount := rLossCount r + int (length (filter (\<lambda>tr. tNetPnL tr < 0) trs))\<rparr>"
proof (induction trs arbitrary: r)
  case (Cons tr trs)
  have "\<not> (0 < x \<and> x < 0)" for x :: f64
    using f64_less_imp_le [of 0 x] f64_le_not_less [of 0 x] by auto
  then show ?case unfolding fold_Cons o_apply Cons.IH by (auto simp: add_totals_def)
qed simp

definition drawdown_ok :: "run_state \<Rightarrow> bool" where
  "drawdown_ok s \<longleftrightarrow> wf64 (rsPeak s) \<and> wf64 (rsMaxDrawdown s) \<and> 0 \<le> rsMaxDrawdown s"

lemma drawdown_ok_close:
  assumes "drawdown_ok s" shows "drawdown_ok (close_and_record e tr p t r s)"
proof -
  have "0 \<le> d" if "rsMaxDrawdown s < d" "wf64 d" for d
    using that assms f64_le_trans [of 0 "rsMaxDrawdown s" d] f64_less_imp_le [of "rsMaxDrawdown s" d]
    by (simp add: drawdown_ok_def)
  then show ?thesis
    using assms by (simp add: drawdown_ok_def run_simps wf64_divide)
qed

lemma drawdown_ok_run:
  assumes "wf64 (InitialCapital cfg)"
  shows "drawdown_ok (close_at_end e cs (run_loop ch strat cs cfg ps))"
proof -
  have step: "drawdown_ok (run_candle e' c s)" if "drawdown_ok s" for e' c s
  proof -
    have "drawdown_ok (check_exit e' c s)"
      using that by (rule check_exit_inv) (simp add: drawdown_ok_close that)
    then show ?thesis
      unfolding run_candle_def
      by (rule take_due_inv) (simp_all add: drawdown_ok_close, simp_all add: drawdown_ok_def)
  qed
  have "drawdown_ok (run_loop ch strat cs cfg ps)"
    unfolding run_loop_def
    by (rule fold_inv) (use assms step in \<open>simp_all add: drawdown_ok_def start_state_def\<close>)
  then show ?thesis
    by (cases "rsOpen (run_loop ch strat cs cfg ps)") (auto simp: close_at_end_def drawdown_ok_close)
qed

lemma rounded_drawdown:
  assumes "wf64 x" "0 \<le> x"
  shows "0 \<le> fround (x * lit 10000 1) / lit 10000 1"
proof -
  have r: "is_fin (lit 10000 1)" "0 < xval (lit 10000 1)" by (rule lit_pos; simp)+
  with assms have "0 \<le> x * lit 10000 1" "wf64 (x * lit 10000 1)"
    by (simp_all add: times_pos_nonneg wf64_times)
  with r show ?thesis by (intro divide_pos_nonneg fround_nonneg wf64_fround) simp_all
qed

section \<open>What a run returns\<close>

lemma RunBacktest_Inr:
  assumes "RunBacktest charges strat inputs cfg = Inr r" "SignalCandles inputs \<noteq> []" "TradeCandles inputs \<noteq> []"
  obtains sigs iv where "Evaluate strat (SignalCandles inputs) = Inr sigs"
    "intervalDuration (Interval inputs) = Inr iv"
    "r = summarize (SlippagePct cfg) (close_at_end (make_env charges strat cfg) (TradeCandles inputs)
       (run_loop charges strat (TradeCandles inputs) cfg (scheduleSignals sigs (TradeCandles inputs) iv)))"
  using assms by (auto simp: RunBacktest_def Let_def split: sum.splits)

lemma rTrades_summarize [simp]: "rTrades (summarize sp s) = rsTrades s"
  by (simp add: summarize_def Let_def fold_add_totals)

lemma interval_nonneg: "intervalDuration i = Inr iv \<Longrightarrow> 0 < iv"
  by (auto simp: intervalDuration_def candleInterval1DDuration_def candleInterval5MDuration_def
    hour_def minute_def second_def split: if_splits)

text \<open>C32. Scheduling is the inner join the engine documents: on chronological signals and bars,
  the two-pointer loop returns, for each signal with a trade bar at its own time, the first trade
  bar starting no earlier than the end of the signal's bar, and nothing for the other signals.\<close>

theorem scheduleSignals_join:
  assumes "sorted (map cTimestamp cs)" "sorted (map gTimestamp sigs)" "0 \<le> interval"
  shows "scheduleSignals sigs cs interval = List.map_filter (due cs interval) sigs"
  using assms by (rule scheduleSignals_due)

definition demo_signal :: "time \<Rightarrow> string \<Rightarrow> signal" where
  "demo_signal t side = \<lparr>gTimestamp = t, gSide = side, gPrice = 0, gReason = []\<rparr>"

theorem scheduleSignals_join_witness:
  "scheduleSignals [demo_signal 0 OrderSideBuy, demo_signal 1 OrderSideSell, demo_signal 5 OrderSideSell]
      [demo_bar 0 12 8 10, demo_bar 5 16 12 15, demo_bar 9 16 12 15] 5 =
    [\<lparr>Signal = demo_signal 0 OrderSideBuy, ExecutionTimestamp = 5\<rparr>]"
  by (subst scheduleSignals_join)
    (simp_all add: demo_signal_def demo_bar_def due_def map_filter_simps)

text \<open>C4. Every trade a run reports is accounted for: it was opened at the open of a trade bar by
  a scheduled signal of its side that is due at that bar, it was closed at a bar by the rule its
  exit reason names and at exactly that rule's price (for a target or a stop, the configured
  percentage of the entry price, which the bar's range reached; for a reversal, the open of a bar
  at which a scheduled signal of the other side is due), its size is the configured one,
  and its money fields are those of \<^verbatim>\<open>closeTrade\<close>.\<close>

theorem RunBacktest_trades:
  assumes "RunBacktest charges strat inputs cfg = Inr r" "tr \<in> set (rTrades r)"
  shows "\<exists>sigs interval. Evaluate strat (SignalCandles inputs) = Inr sigs \<and>
    intervalDuration (Interval inputs) = Inr interval \<and>
    trade_ok (make_env charges strat cfg) (scheduleSignals sigs (TradeCandles inputs) interval)
      (TradeCandles inputs) tr"
proof -
  have ne: "SignalCandles inputs \<noteq> [] \<and> TradeCandles inputs \<noteq> []"
    using assms by (auto simp: RunBacktest_def empty_result_def split: if_splits)
  from RunBacktest_Inr [OF assms(1)] ne assms(2)
    state_ok_run [of charges strat cfg _ "TradeCandles inputs"]
  show ?thesis by (simp add: state_ok_def) (metis rTrades_summarize)
qed

text \<open>The witnesses share one run: twenty quiet bars, a breakout, then the bars it trades on.\<close>

definition demo_trade_bars :: "candle list" where
  "demo_trade_bars = [demo_bar (20 * 300000000000) 13 9 12, demo_bar (21 * 300000000000) 11 9 10,
      demo_bar (22 * 300000000000) 16 11 12]"

definition demo_signal_bars :: "candle list" where
  "demo_signal_bars = map (\<lambda>i. demo_bar (int i * 300000000000) 10 8 9) [0..<20] @ demo_trade_bars"

definition demo_inputs :: engine_inputs where
  "demo_inputs = \<lparr>Interval = CandleInterval5M, SignalCandles = demo_signal_bars,
     TradeCandles = demo_trade_bars\<rparr>"

definition demo_cfg :: backtest_run_config where
  "demo_cfg = \<lparr>Lots = 2, InitialCapital = lit 100000 1, SlippagePct = lit 5 100\<rparr>"

definition demo_run :: "string + backtest_result" where
  "demo_run = RunBacktest Compute (demo_strategy EntryConditionMomentum) demo_inputs demo_cfg"

definition demo_result :: backtest_result where
  "demo_result =
    \<lparr>rTrades = [\<lparr>tEntryTimestamp = 6300000000000, tExitTimestamp = 6600000000000,
    tSide = ''BUY'', tQuantity = 100, tEntryPrice = FNum False 5629499534213120 (- 49),
    tExitPrice = FNum False 5742089524897382 (- 49), tGrossPnL = FNum False 5629499534213100 (-
    48), tSlippage = FNum False 4548635623644201 (- 52), tBrokerage = FNum False
    5458362748373040 (- 53), tSTT = FNum False 4593671619917906 (- 53), tExchangeFees = FNum
    False 5327362042412088 (- 57), tSEBIFees = FNum False 4657802878611662 (- 61), tGST = FNum
    False 8365705082666457 (- 56), tStampDuty = FNum False 5764607523034235 (- 58),
    tTotalCharges = FNum False 5814523079432203 (- 52), tNetPnL = FNum False 4981802115270824
    (- 48), tReason = ''Breakout above 20-period high'', tExitReason = ''target''\<rparr>,
    \<lparr>tEntryTimestamp = 6600000000000, tExitTimestamp = 6600000000000, tSide = ''SELL'',
    tQuantity = 100, tEntryPrice = FNum False 6755399441055744 (- 49), tExitPrice = FNum False
    6755399441055744 (- 49), tGrossPnL = FNum False 0 (- 1074), tSlippage = FNum False
    5404319552844595 (- 52), tBrokerage = FNum False 6485183463413514 (- 53), tSTT = FNum False
    5404319552844595 (- 53), tExchangeFees = FNum False 6329539060291590 (- 57), tSEBIFees =
    FNum False 5534023222112865 (- 61), tGST = FNum False 4969725791683043 (- 55), tStampDuty =
    FNum False 6917529027641082 (- 58), tTotalCharges = FNum False 6882660357886127 (- 52),
    tNetPnL = FNum True 6143489955365361 (- 51), tReason = ''Fell below 20-period high'',
    tExitReason = ''end_of_data''\<rparr>], rGrossPnL = FNum False 5629499534213100 (- 48),
    rTotalCharges = FNum False 6348591718659165 (- 51), rSlippage = FNum False 4976477588244398
    (- 51), rSlippagePct = FNum False 7205759403792794 (- 57), rNetPnL = FNum False
    8427731741700308 (- 49), rTotalTrades = 2, rWinCount = 1, rLossCount = 1, rMaxDrawdown =
    FNum False 0 (- 1074)\<rparr>"

lemma demo_run_value: "demo_run = Inr demo_result"
  by code_simp

text \<open>A single trade of the run, named by its side.\<close>

lemma demo_run_Inr:
  "RunBacktest Compute (demo_strategy EntryConditionMomentum) demo_inputs demo_cfg = Inr demo_result"
  using demo_run_value by (simp add: demo_run_def)

theorem RunBacktest_trades_witness:
  "\<exists>sigs interval.
    Evaluate (demo_strategy EntryConditionMomentum) (SignalCandles demo_inputs) = Inr sigs \<and>
    intervalDuration (Interval demo_inputs) = Inr interval \<and>
    trade_ok (make_env Compute (demo_strategy EntryConditionMomentum) demo_cfg)
      (scheduleSignals sigs (TradeCandles demo_inputs) interval) (TradeCandles demo_inputs)
      (hd (rTrades demo_result))"
  by (rule RunBacktest_trades [OF demo_run_Inr]) (simp add: demo_result_def)

text \<open>One position at a time: on chronological trade bars the reported trades are in order,
  each ends no earlier than it begins and no trade begins before the previous one has ended.\<close>

lemma RunBacktest_in_order:
  assumes "RunBacktest charges strat inputs cfg = Inr r" "sorted (map cTimestamp (TradeCandles inputs))"
  shows "in_order (rTrades r)"
proof (cases "SignalCandles inputs = [] \<or> TradeCandles inputs = []")
  case True
  with assms(1) have "r = empty_result" by (auto simp: RunBacktest_def)
  then show ?thesis by (simp add: empty_result_def in_order_def)
next
  case False
  with RunBacktest_Inr [OF assms(1)] in_order_result [OF assms(2)] show ?thesis
    by (metis rTrades_summarize)
qed

theorem RunBacktest_in_order_witness: "in_order (rTrades demo_result)"
  by (rule RunBacktest_in_order [OF demo_run_Inr])
    (simp add: demo_inputs_def demo_trade_bars_def demo_bar_def)

text \<open>C29. The aggregate of a run is the aggregate of its trades: the counts count them, the three
  sums are the running sums of the trades' fields in order, and the net is gross minus charges
  minus slippage.\<close>

theorem RunBacktest_totals:
  assumes "RunBacktest charges strat inputs cfg = Inr r"
  shows "rTotalTrades r = int (length (rTrades r)) \<and>
    rWinCount r = int (length (filter (\<lambda>tr. 0 < tNetPnL tr) (rTrades r))) \<and>
    rLossCount r = int (length (filter (\<lambda>tr. tNetPnL tr < 0) (rTrades r))) \<and>
    rWinCount r + rLossCount r \<le> rTotalTrades r \<and>
    rGrossPnL r = foldl (+) 0 (map tGrossPnL (rTrades r)) \<and>
    rTotalCharges r = foldl (+) 0 (map tTotalCharges (rTrades r)) \<and>
    rSlippage r = foldl (+) 0 (map tSlippage (rTrades r)) \<and>
    (rTrades r = [] \<or> rNetPnL r = rGrossPnL r - rTotalCharges r - rSlippage r)"
proof -
  have "length (filter (\<lambda>tr. 0 < tNetPnL tr) trs) + length (filter (\<lambda>tr. tNetPnL tr < 0) trs) \<le> length trs" for trs
    by (rule length_filter_disjoint) (use f64_less_imp_le f64_le_not_less in blast)
  then have le: "int (length (filter (\<lambda>tr. 0 < tNetPnL tr) trs)) + int (length (filter (\<lambda>tr. tNetPnL tr < 0) trs)) \<le> int (length trs)" for trs
    by (metis of_nat_add of_nat_le_iff)
  consider "r = empty_result" | s sp where "r = summarize sp s"
    using assms by (auto simp: RunBacktest_def Let_def split: sum.splits if_splits)
  then show ?thesis
  proof cases
    case 2
    with le [of "rsTrades s"] show ?thesis
      by (simp add: summarize_def Let_def fold_add_totals empty_result_def)
  qed (simp add: empty_result_def)
qed

theorem RunBacktest_totals_witness:
  "rWinCount demo_result + rLossCount demo_result \<le> rTotalTrades demo_result \<and>
    rGrossPnL demo_result = foldl (+) 0 (map tGrossPnL (rTrades demo_result))"
  using RunBacktest_totals [OF demo_run_Inr] by blast

text \<open>The maximum drawdown of a run is a number and not negative, whatever the trades did.\<close>

lemma RunBacktest_drawdown:
  assumes "RunBacktest charges strat inputs cfg = Inr r" "wf64 (InitialCapital cfg)"
  shows "0 \<le> rMaxDrawdown r \<and> \<not> is_nan (rMaxDrawdown r)"
proof (cases "SignalCandles inputs = [] \<or> TradeCandles inputs = []")
  case True
  with assms(1) have "r = empty_result" by (auto simp: RunBacktest_def)
  then show ?thesis by (simp add: empty_result_def)
next
  case False
  with RunBacktest_Inr [OF assms(1)] obtain s where s: "r = summarize (SlippagePct cfg) s" "drawdown_ok s"
    using drawdown_ok_run [OF assms(2)] by metis
  then have "0 \<le> rMaxDrawdown r"
    by (simp add: summarize_def Let_def drawdown_ok_def rounded_drawdown)
  then show ?thesis by (simp add: nonneg_not_nan)
qed

theorem RunBacktest_drawdown_witness: "0 \<le> rMaxDrawdown demo_result \<and> \<not> is_nan (rMaxDrawdown demo_result)"
  by (rule RunBacktest_drawdown [OF demo_run_Inr]) (simp add: demo_cfg_def)

text \<open>A run fails exactly when both candle streams have bars and the strategy's entry type or
  the interval is unknown; no configuration of lots, capital or slippage makes it fail.\<close>

theorem RunBacktest_error:
  "isl (RunBacktest charges strat inputs cfg) \<longleftrightarrow>
     SignalCandles inputs \<noteq> [] \<and> TradeCandles inputs \<noteq> [] \<and>
     \<not> (known_entry (sEntryConditionType strat) \<and>
        Interval inputs \<in> {CandleInterval1D, CandleInterval5M})"
proof -
  have "isl (Evaluate strat cs) \<longleftrightarrow> cs \<noteq> [] \<and> \<not> known_entry (sEntryConditionType strat)" for cs
    by (auto simp: Evaluate_def known_entry_def)
  from this [of "SignalCandles inputs"] show ?thesis
    by (cases "Evaluate strat (SignalCandles inputs)")
      (auto simp: RunBacktest_def Let_def intervalDuration_def)
qed

text \<open>No scheduled signal is left behind: on chronological bars the run reaches every signal
  that was scheduled, so each one has opened a trade, reversed one or met a position of its own
  side; and no trade is entered before the bar of its signal has ended.\<close>

lemma RunBacktest_meets_signals:
  assumes "Evaluate strat (SignalCandles inputs) = Inr sigs" "intervalDuration (Interval inputs) = Inr interval"
    and sorted: "sorted_wrt (\<lambda>c d. cTimestamp c < cTimestamp d) (SignalCandles inputs)"
      "sorted (map cTimestamp (TradeCandles inputs))"
  defines "ps \<equiv> scheduleSignals sigs (TradeCandles inputs) interval"
  shows "rsPending (run_loop charges strat (TradeCandles inputs) cfg ps) = [] \<and>
    (\<forall>p \<in> set ps. Signal p \<in> set sigs \<and> gTimestamp (Signal p) + interval \<le> ExecutionTimestamp p)"
proof -
  obtain js where "signals_at (SignalCandles inputs) js sigs"
    using Evaluate_bars [OF assms(1)] by blast
  then have sigs: "sorted (map gTimestamp sigs)"
    using signals_at_sorted [OF _ sorted(1)] strict_sorted_imp_sorted by blast
  have ps: "ps = List.map_filter (due (TradeCandles inputs) interval) sigs"
    unfolding ps_def using sorted(2) sigs interval_nonneg [OF assms(2)] by (simp add: scheduleSignals_due)
  have each: "Signal p \<in> set sigs \<and> gTimestamp (Signal p) + interval \<le> ExecutionTimestamp p \<and>
      ExecutionTimestamp p \<in> set (map cTimestamp (TradeCandles inputs))" if "p \<in> set ps" for p
    using that due_time(1-3) [OF _ sorted(2)] by (auto simp: ps map_filter_set)
  have "rsPending (run_loop charges strat (TradeCandles inputs) cfg ps) = []"
    unfolding run_loop_def using scheduled_sorted [OF sorted(2) sigs] each sorted(2)
    by (intro rsPending_run) (simp_all add: start_state_def ps)
  with each show ?thesis by blast
qed

theorem RunBacktest_meets_signals_witness:
  "rsPending (run_loop Compute (demo_strategy EntryConditionMomentum) demo_trade_bars demo_cfg
     (scheduleSignals (projr (Evaluate (demo_strategy EntryConditionMomentum) demo_signal_bars))
        demo_trade_bars candleInterval5MDuration)) = []"
proof -
  have "Evaluate (demo_strategy EntryConditionMomentum) (SignalCandles demo_inputs) =
      Inr (projr (Evaluate (demo_strategy EntryConditionMomentum) demo_signal_bars))"
    by (simp add: demo_inputs_def Evaluate_def demo_strategy_def entry_types demo_signal_bars_def demo_trade_bars_def)
  moreover have "intervalDuration (Interval demo_inputs) = Inr candleInterval5MDuration"
    by (simp add: intervalDuration_def demo_inputs_def CandleInterval1D_def CandleInterval5M_def)
  moreover have "sorted_wrt (\<lambda>c d. cTimestamp c < cTimestamp d) (SignalCandles demo_inputs)"
    by (simp add: demo_inputs_def demo_signal_bars_def demo_trade_bars_def demo_bar_def
      sorted_wrt_append sorted_wrt_map)
  moreover have "sorted (map cTimestamp (TradeCandles demo_inputs))"
    by (simp add: demo_inputs_def demo_trade_bars_def demo_bar_def)
  ultimately show ?thesis
    using RunBacktest_meets_signals [of "demo_strategy EntryConditionMomentum" demo_inputs _ _ Compute demo_cfg]
    by (simp add: demo_inputs_def)
qed

section \<open>Friction\<close>

lemma minus_le:
  assumes "0 \<le> c" "wf64 g" "wf64 c" "\<not> is_nan g" "\<not> is_nan (g - c)" shows "g - c \<le> (g::f64)"
proof (cases "is_fin g \<and> is_fin c")
  case True
  then have "rd (xval g - xval c) \<le> rd (xval g)"
    using assms(1) by (intro rd_mono) (simp add: zero_le_iff)
  with True assms show ?thesis by (simp add: f64_le_iff minus_f64_def plus_fin rd_xval)
next
  case False
  have low: "FInf True \<le> u" if "\<not> is_nan u" for u using that by (cases u) simp_all
  from False assms low show ?thesis
    by (cases g; cases c) (auto simp: minus_f64_def zero_le_iff split: if_splits)
qed

text \<open>From the contract of the calculator alone: costs are never negative and never improve a trade.\<close>

context charge_calculator
begin

lemma closeTrade_friction:
  fixes tr :: trade and price slippagePct :: f64 and t :: time and reason seg :: string and qty :: goint
  assumes "wf64 (tEntryPrice tr)" "wf64 price" "0 \<le> tEntryPrice tr" "0 \<le> price" "0 < qty" "in64 qty"
    and "wf64 slippagePct" "0 \<le> slippagePct" "is_fin slippagePct" "is_fin (tEntryPrice tr + price)"
  defines "cl \<equiv> closeTrade compute tr price t reason qty seg slippagePct"
  shows "0 \<le> tTotalCharges cl \<and> 0 \<le> tSlippage cl \<and> (is_nan (tNetPnL cl) \<or> tNetPnL cl \<le> tGrossPnL cl)"
proof -
  have c: "0 \<le> tTotalCharges cl" "wf64 (tTotalCharges cl)"
    using total_ge_parts(2) [OF assms(1-6)] wf_total by (simp_all add: cl_def closeTrade_def Let_def)
  have hundred: "is_fin (lit 100 1)" "0 < xval (lit 100 1)" by (rule lit_pos; simp)+
  have q: "0 < xval (f_of_int qty)" "is_fin (f_of_int qty)" using f_of_int_pos assms(5,6) by auto
  have "0 \<le> slippagePct / lit 100 1" using hundred assms(7,8) by (intro divide_pos_nonneg) simp_all
  moreover have "\<not> is_nan (slippagePct / lit 100 1 * (tEntryPrice tr + price))"
  proof -
    have "is_fin (slippagePct / lit 100 1)"
    proof -
      have "0 \<le> xval slippagePct" using assms(8) by (simp add: zero_le_iff)
      then have "xval slippagePct / 100 \<le> xval slippagePct" by simp
      then have "rd (xval slippagePct / 100) \<le> rd (xval slippagePct)" by (rule rd_mono)
      then have "xval (slippagePct / lit 100 1) \<le> xval slippagePct"
        using assms(7,9) lit_100 by (simp add: divide_fin rd_xval)
      with \<open>0 \<le> slippagePct / lit 100 1\<close> xval_fin_bound [OF assms(7,9)] show ?thesis
        by (cases "slippagePct / lit 100 1") (auto simp: zero_le_iff split: if_splits)
    qed
    then show ?thesis using assms by (simp add: times_fin wf64_divide)
  qed
  moreover have "0 \<le> tEntryPrice tr + price" using assms by (intro plus_nonneg)
  ultimately have p: "0 \<le> slippagePct / lit 100 1 * (tEntryPrice tr + price)"
    using assms by (intro times_nonneg) (simp_all add: wf64_divide)
  have s: "0 \<le> tSlippage cl" "wf64 (tSlippage cl)"
    using times_pos_nonneg(2) [OF q(2,1) _ _ p] assms by (simp_all add: cl_def closeTrade_def Let_def wf64_times wf64_divide)
  have net: "tNetPnL cl = tGrossPnL cl - tTotalCharges cl - tSlippage cl" "wf64 (tGrossPnL cl)"
    using assms by (auto simp: cl_def closeTrade_def Let_def wf64_times)
  have "tNetPnL cl \<le> tGrossPnL cl" if n: "\<not> is_nan (tNetPnL cl)"
  proof -
    have gc: "\<not> is_nan (tGrossPnL cl - tTotalCharges cl)"
      using n by (auto simp: net(1) minus_f64_def dest!: is_nanD)
    moreover from this have "\<not> is_nan (tGrossPnL cl)" by (auto simp: minus_f64_def dest!: is_nanD)
    ultimately have "tGrossPnL cl - tTotalCharges cl \<le> tGrossPnL cl" using c net(2) by (intro minus_le)
    moreover have "tNetPnL cl \<le> tGrossPnL cl - tTotalCharges cl"
      using n gc s unfolding net(1) by (intro minus_le) simp_all
    ultimately show ?thesis
      using f64_le_trans [of "tNetPnL cl" "tGrossPnL cl - tTotalCharges cl" "tGrossPnL cl"] net by simp
  qed
  with c s show ?thesis by blast
qed

end

text \<open>Costs only cost: closing a trade at non-negative prices, with a positive quantity and a
  non-negative slippage setting, books charges and slippage of at least zero, and the net result
  is never above the gross one.\<close>

theorem closeTrade_costs:
  assumes "wf64 (tEntryPrice tr)" "wf64 price" "0 \<le> tEntryPrice tr" "0 \<le> price" "0 < qty" "in64 qty"
    and "wf64 slippagePct" "0 \<le> slippagePct" "is_fin slippagePct" "is_fin (tEntryPrice tr + price)"
  shows "0 \<le> tTotalCharges (closeTrade Compute tr price t reason qty seg slippagePct) \<and>
    0 \<le> tSlippage (closeTrade Compute tr price t reason qty seg slippagePct) \<and>
    (is_nan (tNetPnL (closeTrade Compute tr price t reason qty seg slippagePct)) \<or>
     tNetPnL (closeTrade Compute tr price t reason qty seg slippagePct) \<le>
     tGrossPnL (closeTrade Compute tr price t reason qty seg slippagePct))"
  using assms by (rule irc.closeTrade_friction)

theorem closeTrade_costs_witness:
  "0 \<le> tTotalCharges (closeTrade Compute (hd (rTrades demo_result)) (f_of_int 12) 7 ExitReasonTarget 100
     InstrumentTypeFuturesIndexCont (lit 5 100))"
proof -
  have "wf64 (tEntryPrice (hd (rTrades demo_result)))" "0 \<le> tEntryPrice (hd (rTrades demo_result))"
    "is_fin (tEntryPrice (hd (rTrades demo_result)) + f_of_int 12)"
    "0 \<le> f_of_int 12"
    by code_simp+
  moreover have "is_fin (lit 5 100)" "0 \<le> lit 5 100" by (rule lit_pos; simp)+
  ultimately show ?thesis
    using closeTrade_costs [of "hd (rTrades demo_result)" "f_of_int 12" 100 "lit 5 100" 7 ExitReasonTarget
        InstrumentTypeFuturesIndexCont]
    by (simp add: in64_def)
qed

end
