(* ===== verification/Stats.thy ===== *)
theory Stats
  imports Backtester
begin

text \<open>
  \<^verbatim>\<open>internal/engine/stats.go\<close>: the statistics of a completed trade list and the two chart
  series. A \<^verbatim>\<open>*float64\<close> is an option. A duration in minutes or hours is the quotient plus the
  fraction of the remainder, as \<^verbatim>\<open>time.Duration.Minutes\<close> computes it.
\<close>

definition round2 :: "f64 \<Rightarrow> f64" where
  "round2 v = fround (v * lit 100 1) / lit 100 1"

text \<open>Go's \<^verbatim>\<open>d % unit\<close> takes the sign of \<open>d\<close>.\<close>

definition duration_in :: "duration \<Rightarrow> duration \<Rightarrow> f64" where
  "duration_in unit d =
     f_of_int (go_div d unit) + f_of_int (d - unit * go_div d unit) / f_of_int unit"

definition Minutes :: "duration \<Rightarrow> f64" where "Minutes = duration_in minute"
definition Hours :: "duration \<Rightarrow> f64" where "Hours = duration_in hour"

record stats_acc =
  aBest :: f64
  aWorst :: f64
  aTotalHolding :: f64
  aGrossWins :: f64
  aGrossLosses :: f64
  aWinSum :: f64
  aLossSum :: f64
  aWinCount :: goint
  aLossCount :: goint

text \<open>One round of the loop of \<^verbatim>\<open>ComputeTradeStats\<close>.\<close>

definition stats_step :: "trade \<Rightarrow> stats_acc \<Rightarrow> stats_acc" where
  "stats_step tr a =
     (let net = tNetPnL tr;
          a = a\<lparr>aBest := (if aBest a < net then net else aBest a)\<rparr>;
          a = a\<lparr>aWorst := (if net < aWorst a then net else aWorst a)\<rparr>;
          a = a\<lparr>aTotalHolding := aTotalHolding a
                   + Minutes (time_sub (tExitTimestamp tr) (tEntryTimestamp tr))\<rparr>
      in if 0 < net
           then a\<lparr>aWinSum := aWinSum a + net, aGrossWins := aGrossWins a + net,
                   aWinCount := aWinCount a + 1\<rparr>
         else if net < 0
           then a\<lparr>aLossSum := aLossSum a + net, aGrossLosses := aGrossLosses a + net,
                   aLossCount := aLossCount a + 1\<rparr>
         else a)"

record streaks =
  longestWin :: goint
  longestLoss :: goint
  curWin :: goint
  curLoss :: goint

definition streak_step :: "trade \<Rightarrow> streaks \<Rightarrow> streaks" where
  "streak_step tr s =
     (if 0 < tNetPnL tr
        then (let w = curWin s + 1
              in s\<lparr>curWin := w, curLoss := 0,
                   longestWin := (if longestWin s < w then w else longestWin s)\<rparr>)
      else if tNetPnL tr < 0
        then (let l = curLoss s + 1
              in s\<lparr>curLoss := l, curWin := 0,
                   longestLoss := (if longestLoss s < l then l else longestLoss s)\<rparr>)
      else s\<lparr>curWin := 0, curLoss := 0\<rparr>)"

definition computeStreaks :: "trade list \<Rightarrow> goint \<times> goint" where
  "computeStreaks trades =
     (let s = fold streak_step trades \<lparr>longestWin = 0, longestLoss = 0, curWin = 0, curLoss = 0\<rparr>
      in (longestWin s, longestLoss s))"

definition computeTradesPerWeek :: "goint \<Rightarrow> time \<Rightarrow> time \<Rightarrow> f64" where
  "computeTradesPerWeek n from_ts to_ts =
     (let weeks = Hours (time_sub to_ts from_ts) / lit (24 * 7) 1
      in if weeks \<le> 0 then 0 else round2 (f_of_int n / weeks))"

definition ComputeTradeStats :: "trade list \<Rightarrow> time \<Rightarrow> time \<Rightarrow> trade_stats" where
  "ComputeTradeStats trades from_ts to_ts =
     (if trades = []
      then \<lparr>AvgWin = None, AvgLoss = None, BestTrade = None, WorstTrade = None,
            AvgPnlPerTrade = None, AvgHoldingMinutes = None, ProfitFactor = None,
            RewardRisk = None, LongestWinStreak = 0, LongestLossStreak = 0, TradesPerWeek = 0\<rparr>
      else
        let a = fold stats_step trades
                  \<lparr>aBest = tNetPnL (hd trades), aWorst = tNetPnL (hd trades), aTotalHolding = 0,
                   aGrossWins = 0, aGrossLosses = 0, aWinSum = 0, aLossSum = 0, aWinCount = 0,
                   aLossCount = 0\<rparr>;
            n = int (length trades);
            totalPnL = aGrossWins a + aGrossLosses a;
            avgWin = (if 0 < aWinCount a
              then Some (round2 (aWinSum a / f_of_int (aWinCount a))) else None);
            avgLoss = (if 0 < aLossCount a
              then Some (round2 (aLossSum a / f_of_int (aLossCount a))) else None);
            profitFactor = (if 0 < aGrossWins a \<and> aGrossLosses a < 0
              then Some (round2 (aGrossWins a / fabs (aGrossLosses a))) else None);
            rewardRisk = (case (avgWin, avgLoss) of
              (Some w, Some l) \<Rightarrow> if \<not> feq l 0 then Some (round2 (w / fabs l)) else None
            | _ \<Rightarrow> None);
            (lw, ll) = computeStreaks trades
        in \<lparr>AvgWin = avgWin, AvgLoss = avgLoss, BestTrade = Some (round2 (aBest a)),
            WorstTrade = Some (round2 (aWorst a)),
            AvgPnlPerTrade = Some (round2 (totalPnL / f_of_int n)),
            AvgHoldingMinutes = Some (round2 (aTotalHolding a / f_of_int n)),
            ProfitFactor = profitFactor, RewardRisk = rewardRisk, LongestWinStreak = lw,
            LongestLossStreak = ll, TradesPerWeek = computeTradesPerWeek n from_ts to_ts\<rparr>)"

section \<open>The chart\<close>

record chart_state =
  csEquity :: "chart_point list"
  csDrawdown :: "chart_point list"
  csPeak :: f64
  csCumPnL :: f64
  csLastExit :: time

definition drawdown_pct :: "f64 \<Rightarrow> f64 \<Rightarrow> f64" where
  "drawdown_pct peak eq = (if 0 < peak then round2 ((peak - eq) / peak * lit 100 1) else 0)"

definition chart_step :: "f64 \<Rightarrow> trade \<Rightarrow> chart_state \<Rightarrow> chart_state" where
  "chart_step capital tr s =
     (let cum = csCumPnL s + tNetPnL tr;
          eq = capital + cum;
          peak = (if csPeak s < eq then eq else csPeak s)
      in \<lparr>csEquity = csEquity s @ [\<lparr>Ts = tExitTimestamp tr, Value = round2 eq\<rparr>],
          csDrawdown = csDrawdown s @ [\<lparr>Ts = tExitTimestamp tr, Value = drawdown_pct peak eq\<rparr>],
          csPeak = peak, csCumPnL = cum, csLastExit = tExitTimestamp tr\<rparr>)"

definition BuildChartData :: "trade list \<Rightarrow> f64 \<Rightarrow> time \<Rightarrow> time \<Rightarrow> chart_data" where
  "BuildChartData trades capital from_ts to_ts =
     (if \<not> from_ts < to_ts then \<lparr>Equity = [], Drawdown = []\<rparr>
      else
        let s = fold (chart_step capital) trades
              \<lparr>csEquity = [\<lparr>Ts = from_ts, Value = round2 capital\<rparr>],
               csDrawdown = [\<lparr>Ts = from_ts, Value = 0\<rparr>], csPeak = capital, csCumPnL = 0,
               csLastExit = zero_time\<rparr>
        in if trades = [] \<or> csLastExit s \<noteq> to_ts
           then let finalEq = capital + csCumPnL s
                in \<lparr>Equity = csEquity s @ [\<lparr>Ts = to_ts, Value = round2 finalEq\<rparr>],
                    Drawdown = csDrawdown s @ [\<lparr>Ts = to_ts, Value = drawdown_pct (csPeak s) finalEq\<rparr>]\<rparr>
           else \<lparr>Equity = csEquity s, Drawdown = csDrawdown s\<rparr>)"

section \<open>Streaks\<close>

definition win :: "trade \<Rightarrow> bool" where "win tr \<longleftrightarrow> 0 < tNetPnL tr"
definition loss :: "trade \<Rightarrow> bool" where "loss tr \<longleftrightarrow> tNetPnL tr < 0"

lemma not_win_and_loss: "\<not> (win tr \<and> loss tr)"
  using f64_less_imp_le f64_le_not_less by (auto simp: win_def loss_def)

text \<open>\<open>n\<close> is the length of the longest contiguous block of \<open>xs\<close> whose members satisfy \<open>P\<close>.\<close>

definition longest_block :: "('a \<Rightarrow> bool) \<Rightarrow> 'a list \<Rightarrow> int \<Rightarrow> bool" where
  "longest_block P xs n \<longleftrightarrow>
     (\<exists>as ys bs. xs = as @ ys @ bs \<and> list_all P ys \<and> int (length ys) = n) \<and>
     (\<forall>as ys bs. xs = as @ ys @ bs \<longrightarrow> list_all P ys \<longrightarrow> int (length ys) \<le> n)"

text \<open>The counter of the current block and the best so far, for one predicate.\<close>

definition streak_inv :: "('a \<Rightarrow> bool) \<Rightarrow> 'a list \<Rightarrow> int \<Rightarrow> int \<Rightarrow> bool" where
  "streak_inv P xs cur best \<longleftrightarrow> longest_block P xs best \<and>
     (\<exists>as ys. xs = as @ ys \<and> list_all P ys \<and> int (length ys) = cur) \<and>
     (\<forall>as ys. xs = as @ ys \<longrightarrow> list_all P ys \<longrightarrow> int (length ys) \<le> cur)"

lemma streak_inv_Nil: "streak_inv P [] 0 0"
  by (auto simp: streak_inv_def longest_block_def)

lemma suffix_snoc:
  "xs @ [x] = as @ ys \<longleftrightarrow> (ys = [] \<and> as = xs @ [x]) \<or> (\<exists>zs. ys = zs @ [x] \<and> xs = as @ zs)"
  by (cases ys rule: rev_cases) auto

lemma block_snoc:
  "xs @ [x] = as @ ys @ bs \<longleftrightarrow>
    (bs = [] \<and> xs @ [x] = as @ ys) \<or> (\<exists>cs. bs = cs @ [x] \<and> xs = as @ ys @ cs)"
  by (cases bs rule: rev_cases) auto

lemma streak_inv_hit:
  assumes "streak_inv P xs cur best" "P x"
  shows "streak_inv P (xs @ [x]) (cur + 1) (if best < cur + 1 then cur + 1 else best)"
proof -
  from assms obtain as ys where cur: "xs = as @ ys" "list_all P ys" "int (length ys) = cur"
    "\<And>as ys. xs = as @ ys \<Longrightarrow> list_all P ys \<Longrightarrow> int (length ys) \<le> cur"
    by (auto simp: streak_inv_def)
  from assms obtain cs zs ds where best: "xs = cs @ zs @ ds" "list_all P zs" "int (length zs) = best"
    "\<And>as ys bs. xs = as @ ys @ bs \<Longrightarrow> list_all P ys \<Longrightarrow> int (length ys) \<le> best"
    unfolding streak_inv_def longest_block_def by metis
  have suf: "int (length vs) \<le> cur + 1" if "xs @ [x] = us @ vs" "list_all P vs" for us vs
    using that cur(4) best(3) cur(3) by (auto simp: suffix_snoc)
  have new: "xs @ [x] = as @ (ys @ [x]) @ []" "list_all P (ys @ [x])" "int (length (ys @ [x])) = cur + 1"
    using cur assms(2) by simp_all
  have old: "xs @ [x] = cs @ zs @ (ds @ [x])" using best(1) by simp
  have blk: "int (length vs) \<le> (if best < cur + 1 then cur + 1 else best)"
    if "xs @ [x] = us @ vs @ ws" "list_all P vs" for us vs ws
    using that suf [of us vs] best(4) [of us vs] by (auto simp: block_snoc split: if_splits)
  show ?thesis
    unfolding streak_inv_def longest_block_def
  proof (intro conjI allI impI)
    show "\<exists>as ys bs. xs @ [x] = as @ ys @ bs \<and> list_all P ys \<and>
        int (length ys) = (if best < cur + 1 then cur + 1 else best)"
    proof (cases "best < cur + 1")
      case True
      then show ?thesis
        by (intro exI [of _ as] exI [of _ "ys @ [x]"] exI [of _ "[]"]) (use new in simp)
    next
      case False
      then show ?thesis
        by (intro exI [of _ cs] exI [of _ zs] exI [of _ "ds @ [x]"]) (use old best(2,3) in simp)
    qed
    show "\<exists>as ys. xs @ [x] = as @ ys \<and> list_all P ys \<and> int (length ys) = cur + 1"
      using new by (intro exI [of _ as] exI [of _ "ys @ [x]"]) simp
  qed (rule blk suf; assumption)+
qed

lemma streak_inv_miss:
  assumes "streak_inv P xs cur best" "\<not> P x"
  shows "streak_inv P (xs @ [x]) 0 best"
proof -
  from assms obtain cs zs ds where best: "xs = cs @ zs @ ds" "list_all P zs" "int (length zs) = best"
    "\<And>as ys bs. xs = as @ ys @ bs \<Longrightarrow> list_all P ys \<Longrightarrow> int (length ys) \<le> best"
    unfolding streak_inv_def longest_block_def by metis
  have suf: "vs = []" if "xs @ [x] = us @ vs" "list_all P vs" for us vs
    using that assms(2) by (auto simp: suffix_snoc)
  show ?thesis
    unfolding streak_inv_def longest_block_def
  proof (intro conjI allI impI)
    show "\<exists>as ys bs. xs @ [x] = as @ ys @ bs \<and> list_all P ys \<and> int (length ys) = best"
      using best by (intro exI [of _ cs] exI [of _ zs] exI [of _ "ds @ [x]"]) simp
    show "\<exists>as ys. xs @ [x] = as @ ys \<and> list_all P ys \<and> int (length ys) = 0"
      by (intro exI [of _ "xs @ [x]"] exI [of _ "[]"]) simp
    fix us vs ws assume "xs @ [x] = us @ vs @ ws" "list_all P vs"
    then show "int (length vs) \<le> best"
      using suf [of us vs] best(3,4) by (auto simp: block_snoc)
  qed (use suf in fastforce)
qed

lemma streaks_fold:
  "let s = fold streak_step trades \<lparr>longestWin = 0, longestLoss = 0, curWin = 0, curLoss = 0\<rparr>
   in streak_inv win trades (curWin s) (longestWin s) \<and> streak_inv loss trades (curLoss s) (longestLoss s)"
proof (induction trades rule: rev_induct)
  case Nil
  then show ?case by (simp add: streak_inv_Nil)
next
  case (snoc tr trades)
  define s where "s = fold streak_step trades \<lparr>longestWin = 0, longestLoss = 0, curWin = 0, curLoss = 0\<rparr>"
  have IH: "streak_inv win trades (curWin s) (longestWin s)" "streak_inv loss trades (curLoss s) (longestLoss s)"
    using snoc by (simp_all add: s_def Let_def)
  have "streak_inv win (trades @ [tr]) (curWin (streak_step tr s)) (longestWin (streak_step tr s)) \<and>
      streak_inv loss (trades @ [tr]) (curLoss (streak_step tr s)) (longestLoss (streak_step tr s))"
    using streak_inv_hit [OF IH(1)] streak_inv_miss [OF IH(1)] streak_inv_hit [OF IH(2)]
      streak_inv_miss [OF IH(2)] not_win_and_loss [of tr]
    by (auto simp: streak_step_def win_def [symmetric] loss_def [symmetric] Let_def)
  then show ?case by (simp add: s_def)
qed

text \<open>The streaks are what their names say: the length of the longest block of consecutive
  winning trades and of the longest block of consecutive losing ones.\<close>

theorem computeStreaks_longest:
  "longest_block win trades (fst (computeStreaks trades)) \<and>
   longest_block loss trades (snd (computeStreaks trades))"
  using streaks_fold [of trades] by (simp add: computeStreaks_def Let_def streak_inv_def)

section \<open>Chart series\<close>

definition chart_ok :: "time \<Rightarrow> f64 \<Rightarrow> trade list \<Rightarrow> chart_state \<Rightarrow> bool" where
  "chart_ok from_ts capital trs s \<longleftrightarrow>
     map Ts (csEquity s) = from_ts # map tExitTimestamp trs \<and>
     map Ts (csDrawdown s) = from_ts # map tExitTimestamp trs \<and>
     map Value (csEquity s) = map (\<lambda>n. round2 (if n = 0 then capital
        else capital + foldl (+) 0 (map tNetPnL (take n trs)))) [0..<Suc (length trs)] \<and>
     csCumPnL s = foldl (+) 0 (map tNetPnL trs) \<and>
     csLastExit s = (if trs = [] then zero_time else tExitTimestamp (last trs)) \<and>
     wf64 (csPeak s) \<and> (trs \<noteq> [] \<longrightarrow> \<not> csPeak s < capital + csCumPnL s) \<and>
     (\<forall>p \<in> set (csDrawdown s). is_nan (Value p) \<or> 0 \<le> Value p)"

lemma round2_nn: "nn x \<Longrightarrow> nn (round2 x)"
proof -
  have r: "0 < xval (lit 100 1)" by (rule lit_pos) simp_all
  assume "nn x"
  then have x: "nn (x * lit 100 1)" using r by (intro nn_times) (auto simp: nn_def zero_le_iff)
  then have "nn (fround (x * lit 100 1))"
    by (cases "is_nan (x * lit 100 1)") (auto simp: nn_def wf64_fround fround_nonneg fround_not_nan)
  with r show "nn (round2 x)" unfolding round2_def by (intro nn_divide) simp_all
qed

lemma drawdown_pct_nn:
  assumes "wf64 peak" "wf64 eq" "\<not> peak < eq"
  shows "is_nan (drawdown_pct peak eq) \<or> 0 \<le> drawdown_pct peak eq"
proof (cases "0 < peak")
  case True
  have r: "0 < xval (lit 100 1)" by (rule lit_pos) simp_all
  have "nn (peak - eq)"
  proof (cases "is_nan eq")
    case False
    then have "eq \<le> peak" using True assms f64_less_not_nan by (simp add: f64_not_less [symmetric])
    then show ?thesis using assms(1,2) by (intro nn_minus)
  qed (auto dest!: is_nanD)
  moreover have "0 < xval peak" using True assms(1) by (simp add: f64_less_iff)
  ultimately have "nn ((peak - eq) / peak * lit 100 1)"
    using assms(1) r by (intro nn_times nn_divide) (auto simp: nn_def zero_le_iff)
  then have "nn (drawdown_pct peak eq)" using True by (simp add: drawdown_pct_def round2_nn)
  then show ?thesis by (simp add: nn_def)
qed (simp add: drawdown_pct_def)

lemma chart_ok_fold:
  assumes "wf64 capital"
  shows "chart_ok from_ts capital trs (fold (chart_step capital) trs
    \<lparr>csEquity = [\<lparr>Ts = from_ts, Value = round2 capital\<rparr>],
     csDrawdown = [\<lparr>Ts = from_ts, Value = 0\<rparr>], csPeak = capital, csCumPnL = 0,
     csLastExit = zero_time\<rparr>)"
proof (induction trs rule: rev_induct)
  case Nil
  then show ?case using assms by (simp add: chart_ok_def)
next
  case (snoc tr trs)
  let ?s = "fold (chart_step capital) trs \<lparr>csEquity = [\<lparr>Ts = from_ts, Value = round2 capital\<rparr>],
     csDrawdown = [\<lparr>Ts = from_ts, Value = 0\<rparr>], csPeak = capital, csCumPnL = 0,
     csLastExit = zero_time\<rparr>"
  define eq where "eq = capital + (csCumPnL ?s + tNetPnL tr)"
  define peak where "peak = (if csPeak ?s < eq then eq else csPeak ?s)"
  have peak: "wf64 peak" "\<not> peak < eq" "wf64 eq"
    using snoc f64_le_refl [of eq] f64_le_not_less [of eq eq] f64_less_not_nan [of "csPeak ?s" eq]
    by (auto simp: chart_ok_def peak_def eq_def)
  have step: "chart_step capital tr ?s =
      \<lparr>csEquity = csEquity ?s @ [\<lparr>Ts = tExitTimestamp tr, Value = round2 eq\<rparr>],
       csDrawdown = csDrawdown ?s @ [\<lparr>Ts = tExitTimestamp tr, Value = drawdown_pct peak eq\<rparr>],
       csPeak = peak, csCumPnL = csCumPnL ?s + tNetPnL tr, csLastExit = tExitTimestamp tr\<rparr>"
    by (simp add: chart_step_def Let_def eq_def peak_def)
  show ?case
    using snoc peak drawdown_pct_nn [OF peak(1,3,2)]
    by (auto simp: step chart_ok_def eq_def)
qed

text \<open>The chart of a run with a proper window: both series have one point per trade between
  the two ends of the window (the last trade's point closes the window when it falls on its end),
  they share their time axis, which never runs backwards when the trades do not, equity starts
  at the capital and is the capital plus the cumulative net result at each point, and no drawdown
  that is a number is negative. An improper window gives two empty series.\<close>

lemma BuildChartData_spec:
  fixes capital :: f64 and trades :: "trade list" and from_ts to_ts :: time
  assumes "wf64 capital" "from_ts < to_ts"
  defines "cd \<equiv> BuildChartData trades capital from_ts to_ts"
    and "ends \<equiv> trades \<noteq> [] \<and> tExitTimestamp (last trades) = to_ts"
  shows "map Ts (Equity cd) = from_ts # map tExitTimestamp trades @ (if ends then [] else [to_ts]) \<and>
    map Ts (Drawdown cd) = map Ts (Equity cd) \<and> 2 \<le> length (Equity cd) \<and>
    last (map Ts (Equity cd)) = to_ts \<and>
    hd (Equity cd) = \<lparr>Ts = from_ts, Value = round2 capital\<rparr> \<and>
    (\<forall>n < length trades. Value (Equity cd ! Suc n) =
       round2 (capital + foldl (+) 0 (map tNetPnL (take (Suc n) trades)))) \<and>
    (\<forall>p \<in> set (Drawdown cd). is_nan (Value p) \<or> 0 \<le> Value p)"
proof -
  define s where "s = fold (chart_step capital) trades \<lparr>csEquity = [\<lparr>Ts = from_ts, Value = round2 capital\<rparr>],
     csDrawdown = [\<lparr>Ts = from_ts, Value = 0\<rparr>], csPeak = capital, csCumPnL = 0,
     csLastExit = zero_time\<rparr>"
  have ok: "map Ts (csEquity s) = from_ts # map tExitTimestamp trades"
    "map Ts (csDrawdown s) = from_ts # map tExitTimestamp trades"
    "map Value (csEquity s) = map (\<lambda>n. round2 (if n = 0 then capital
        else capital + foldl (+) 0 (map tNetPnL (take n trades)))) [0..<Suc (length trades)]"
    "csLastExit s = (if trades = [] then zero_time else tExitTimestamp (last trades))"
    "wf64 (csPeak s)" "trades \<noteq> [] \<Longrightarrow> \<not> csPeak s < capital + csCumPnL s"
    "\<And>p. p \<in> set (csDrawdown s) \<Longrightarrow> is_nan (Value p) \<or> 0 \<le> Value p"
    using chart_ok_fold [OF assms(1), of from_ts trades] unfolding chart_ok_def s_def by blast+
  define fin where "fin = capital + csCumPnL s"
  have fin: "\<not> csPeak s < fin"
  proof (cases "trades = []")
    case True
    have "\<not> capital < capital + 0"
    proof (cases "is_fin capital")
      case True
      then show ?thesis using assms(1) by (simp add: f64_less_iff plus_fin rd_xval)
    next
      case False
      then show ?thesis by (cases capital) (simp_all add: zero_f64_def)
    qed
    with True show ?thesis by (simp add: fin_def s_def)
  qed (use ok in \<open>simp add: fin_def\<close>)
  have cd: "cd = (if ends then \<lparr>Equity = csEquity s, Drawdown = csDrawdown s\<rparr>
      else \<lparr>Equity = csEquity s @ [\<lparr>Ts = to_ts, Value = round2 fin\<rparr>],
            Drawdown = csDrawdown s @ [\<lparr>Ts = to_ts, Value = drawdown_pct (csPeak s) fin\<rparr>]\<rparr>)"
    using assms(2) ok(4) unfolding cd_def BuildChartData_def Let_def s_def [symmetric] ends_def fin_def
    by auto
  have len: "length (csEquity s) = Suc (length trades)"
    using ok(1) by (metis length_Cons length_map)
  have val: "Value (csEquity s ! n) = round2 (if n = 0 then capital
        else capital + foldl (+) 0 (map tNetPnL (take n trades)))" if "n \<le> length trades" for n
  proof -
    have "Value (csEquity s ! n) = map Value (csEquity s) ! n" using that len by simp
    with that ok(3) show ?thesis by (simp add: nth_append del: upt_Suc)
  qed
  have first: "csEquity s ! 0 = \<lparr>Ts = from_ts, Value = round2 capital\<rparr>"
  proof -
    have "Ts (csEquity s ! 0) = map Ts (csEquity s) ! 0" using len by simp
    with ok(1) val [of 0] show ?thesis by simp
  qed
  have ne: "csEquity s \<noteq> []" using len by auto
  then have hd: "hd (csEquity s) = csEquity s ! 0" "csEquity s \<noteq> []"
    by (simp_all only: hd_conv_nth not_False_eq_True)
  have ts: "map Ts (Equity cd) = from_ts # map tExitTimestamp trades @ (if ends then [] else [to_ts])"
    "map Ts (Drawdown cd) = map Ts (Equity cd)"
    using ok(1,2) by (simp_all add: cd)
  moreover have "2 \<le> length (Equity cd)"
    using len by (cases trades) (auto simp: cd ends_def)
  moreover have "last (map Ts (Equity cd)) = to_ts"
    unfolding ts(1) by (cases trades rule: rev_cases) (auto simp: ends_def)
  moreover have "hd (Equity cd) = \<lparr>Ts = from_ts, Value = round2 capital\<rparr>"
    using hd first by (simp add: cd)
  moreover have "Value (Equity cd ! Suc n) = round2 (capital + foldl (+) 0 (map tNetPnL (take (Suc n) trades)))"
    if "n < length trades" for n
    using that val [of "Suc n"] len by (simp add: cd nth_append)
  moreover have "is_nan (Value p) \<or> 0 \<le> Value p" if "p \<in> set (Drawdown cd)" for p
    using that ok(5,7) drawdown_pct_nn [of "csPeak s" fin] fin by (auto simp: cd fin_def split: if_splits)
  ultimately show ?thesis by blast
qed

theorem BuildChartData_spec_witness:
  "2 \<le> length (Equity (BuildChartData (rTrades demo_result) (lit 100000 1) 0 6600000000000))"
  using BuildChartData_spec [of "lit 100000 1" 0 6600000000000 "rTrades demo_result"] by simp

section \<open>Statistics\<close>

definition stats_ok :: "trade list \<Rightarrow> stats_acc \<Rightarrow> bool" where
  "stats_ok trs a \<longleftrightarrow>
     (\<forall>tr \<in> set trs. \<not> aBest a < tNetPnL tr \<and> \<not> tNetPnL tr < aWorst a) \<and>
     wf64 (aBest a) \<and> wf64 (aWorst a) \<and>
     aWinSum a = foldl (+) 0 (map tNetPnL (filter win trs)) \<and> aGrossWins a = aWinSum a \<and>
     aLossSum a = foldl (+) 0 (map tNetPnL (filter loss trs)) \<and> aGrossLosses a = aLossSum a \<and>
     aWinCount a = int (length (filter win trs)) \<and> aLossCount a = int (length (filter loss trs))"

lemma f64_less_trans: "x < y \<Longrightarrow> y < z \<Longrightarrow> wf64 x \<Longrightarrow> wf64 y \<Longrightarrow> wf64 z \<Longrightarrow> x < (z::f64)"
  by (auto simp: f64_less_iff)

lemma stats_ok_fold:
  assumes "\<forall>tr \<in> set trs. wf64 (tNetPnL tr)" "wf64 x"
  shows "stats_ok trs (fold stats_step trs
      \<lparr>aBest = x, aWorst = x, aTotalHolding = 0, aGrossWins = 0, aGrossLosses = 0, aWinSum = 0,
       aLossSum = 0, aWinCount = 0, aLossCount = 0\<rparr>)"
  using assms(1)
proof (induction trs rule: rev_induct)
  case Nil
  then show ?case using assms(2) by (simp add: stats_ok_def)
next
  case (snoc tr trs)
  define a where "a = fold stats_step trs
      \<lparr>aBest = x, aWorst = x, aTotalHolding = 0, aGrossWins = 0, aGrossLosses = 0, aWinSum = 0,
       aLossSum = 0, aWinCount = 0, aLossCount = 0\<rparr>"
  define net where "net = tNetPnL tr"
  have a: "stats_ok trs a" and net: "wf64 net" using snoc by (auto simp: a_def net_def)
  have irr: "\<not> y < y" for y :: f64
    using f64_less_imp_le [of y y] f64_le_not_less [of y y] by auto
  let ?a = "stats_step tr a"
  have best: "aBest ?a = (if aBest a < net then net else aBest a)"
    and worst: "aWorst ?a = (if net < aWorst a then net else aWorst a)"
    by (simp_all add: stats_step_def Let_def net_def)
  have order: "\<not> aBest ?a < tNetPnL tr' \<and> \<not> tNetPnL tr' < aWorst ?a" if mem: "tr' \<in> set (trs @ [tr])" for tr'
  proof -
    have w: "wf64 (tNetPnL tr')" using mem snoc.prems by auto
    consider "tr' = tr" | "tr' \<in> set trs" using mem by auto
    then show ?thesis
    proof cases
      case 1
      then show ?thesis by (simp add: best worst irr flip: net_def)
    next
      case 2
      with a have "\<not> aBest a < tNetPnL tr'" "\<not> tNetPnL tr' < aWorst a" "wf64 (aBest a)" "wf64 (aWorst a)"
        by (auto simp: stats_ok_def)
      with f64_less_trans [of "aBest a" net "tNetPnL tr'"] f64_less_trans [of "tNetPnL tr'" net "aWorst a"]
        net w
      show ?thesis by (auto simp: best worst)
    qed
  qed
  have "stats_ok (trs @ [tr]) ?a"
    using a net order not_win_and_loss [of tr] best worst
    unfolding stats_ok_def by (auto simp: stats_step_def win_def loss_def Let_def)
  then show ?case by (simp add: a_def)
qed

text \<open>The statistics of a non-empty trade list: best and worst bound every trade's net result,
  a win average exists exactly when a trade won and a loss average exactly when one lost, each the
  rounded mean of those trades, and the two ratios only exist when both do.\<close>

lemma ComputeTradeStats_spec:
  fixes trades :: "trade list" and from_ts to_ts :: time
  assumes "trades \<noteq> []" "\<forall>tr \<in> set trades. wf64 (tNetPnL tr)"
  defines "stats \<equiv> ComputeTradeStats trades from_ts to_ts"
    and "wins \<equiv> map tNetPnL (filter win trades)" and "losses \<equiv> map tNetPnL (filter loss trades)"
  shows "(\<exists>b w. BestTrade stats = Some (round2 b) \<and> WorstTrade stats = Some (round2 w) \<and>
       (\<forall>tr \<in> set trades. \<not> b < tNetPnL tr \<and> \<not> tNetPnL tr < w)) \<and>
    AvgWin stats = (if wins = [] then None
      else Some (round2 (foldl (+) 0 wins / f_of_int (int (length wins))))) \<and>
    AvgLoss stats = (if losses = [] then None
      else Some (round2 (foldl (+) 0 losses / f_of_int (int (length losses))))) \<and>
    (ProfitFactor stats \<noteq> None \<longrightarrow> wins \<noteq> [] \<and> losses \<noteq> []) \<and>
    (RewardRisk stats \<noteq> None \<longrightarrow> wins \<noteq> [] \<and> losses \<noteq> [])"
proof -
  define a where "a = fold stats_step trades
      \<lparr>aBest = tNetPnL (hd trades), aWorst = tNetPnL (hd trades), aTotalHolding = 0, aGrossWins = 0,
       aGrossLosses = 0, aWinSum = 0, aLossSum = 0, aWinCount = 0, aLossCount = 0\<rparr>"
  have ok: "stats_ok trades a"
    unfolding a_def using assms(1,2) by (intro stats_ok_fold) auto
  have avg: "AvgWin stats = (if 0 < aWinCount a then Some (round2 (aWinSum a / f_of_int (aWinCount a))) else None)"
    "AvgLoss stats = (if 0 < aLossCount a then Some (round2 (aLossSum a / f_of_int (aLossCount a))) else None)"
    "BestTrade stats = Some (round2 (aBest a))" "WorstTrade stats = Some (round2 (aWorst a))"
    "ProfitFactor stats = (if 0 < aGrossWins a \<and> aGrossLosses a < 0
       then Some (round2 (aGrossWins a / fabs (aGrossLosses a))) else None)"
    and rr: "AvgWin stats = None \<or> AvgLoss stats = None \<Longrightarrow> RewardRisk stats = None"
  proof -
    obtain lw ll where "computeStreaks trades = (lw, ll)" by fastforce
    then show "AvgWin stats = (if 0 < aWinCount a then Some (round2 (aWinSum a / f_of_int (aWinCount a))) else None)"
      "AvgLoss stats = (if 0 < aLossCount a then Some (round2 (aLossSum a / f_of_int (aLossCount a))) else None)"
      "BestTrade stats = Some (round2 (aBest a))" "WorstTrade stats = Some (round2 (aWorst a))"
      "ProfitFactor stats = (if 0 < aGrossWins a \<and> aGrossLosses a < 0
         then Some (round2 (aGrossWins a / fabs (aGrossLosses a))) else None)"
      "AvgWin stats = None \<or> AvgLoss stats = None \<Longrightarrow> RewardRisk stats = None"
      using assms(1) unfolding stats_def ComputeTradeStats_def Let_def a_def [symmetric]
      by (auto split: option.splits)
  qed
  have "ProfitFactor stats = None" if "wins = [] \<or> losses = []"
    using that ok by (auto simp: avg stats_ok_def wins_def losses_def)
  then show ?thesis
    using ok rr unfolding avg(1-4) stats_ok_def wins_def losses_def
    by (auto simp: length_greater_0_conv)
qed

theorem ComputeTradeStats_spec_witness:
  "AvgLoss (ComputeTradeStats (rTrades demo_result) 0 6600000000000) \<noteq> None"
proof -
  have "rTrades demo_result \<noteq> []" "\<forall>tr \<in> set (rTrades demo_result). wf64 (tNetPnL tr)"
    "map tNetPnL (filter loss (rTrades demo_result)) \<noteq> []" by code_simp+
  with ComputeTradeStats_spec [of "rTrades demo_result" 0 6600000000000] show ?thesis by simp
qed

end
