(* ===== verification/Errors.thy ===== *)
theory Errors
  imports Models
begin

text \<open>
  What the services, the storage and the handlers take from Go's standard library: error
  values with their wrapping (\<^verbatim>\<open>errors.New\<close>, \<^verbatim>\<open>fmt.Errorf\<close> with and without \<^verbatim>\<open>%w\<close>,
  \<^verbatim>\<open>errors.Is\<close>) and the functions of \<^verbatim>\<open>strings\<close>. A string is a list of bytes; the case
  mapping and the white space are those of ASCII.
\<close>

section \<open>Error values\<close>

text \<open>
  A sentinel is a package-level \<^verbatim>\<open>errors.New\<close>, compared by identity and known by its text;
  \<open>Plain\<close> is an error nothing compares against (\<^verbatim>\<open>fmt.Errorf\<close> without \<^verbatim>\<open>%w\<close>, an error of
  the driver), \<open>PgError c n\<close> is a \<^verbatim>\<open>*pgconn.PgError\<close> with SQLSTATE \<open>c\<close> about the constraint \<open>n\<close>,
  and \<open>Wrap p e s\<close> is \<^verbatim>\<open>fmt.Errorf("p%ws", e)\<close>.
\<close>

datatype err = Sentinel string | Plain string | PgError string string | Wrap string err string

type_synonym 'a res = "err + 'a"

primrec err_msg :: "err \<Rightarrow> string" where
  "err_msg (Sentinel s) = s"
| "err_msg (Plain s) = s"
| "err_msg (PgError c n) = n @ '' (SQLSTATE '' @ c @ '')''"
| "err_msg (Wrap p e s) = p @ err_msg e @ s"

primrec errors_is :: "err \<Rightarrow> err \<Rightarrow> bool" where
  "errors_is (Sentinel s) t \<longleftrightarrow> t = Sentinel s"
| "errors_is (Plain s) t \<longleftrightarrow> False"
| "errors_is (PgError c n) t \<longleftrightarrow> False"
| "errors_is (Wrap p e s) t \<longleftrightarrow> errors_is e t"

text \<open>\<^verbatim>\<open>errors.As\<close> for a \<^verbatim>\<open>*pgconn.PgError\<close>.\<close>

primrec as_pg_error :: "err \<Rightarrow> (string \<times> string) option" where
  "as_pg_error (Sentinel s) = None"
| "as_pg_error (Plain s) = None"
| "as_pg_error (PgError c n) = Some (c, n)"
| "as_pg_error (Wrap p e s) = as_pg_error e"

named_theorems err_const \<open>the sentinel errors of the source\<close>

definition ErrNotFound :: err where [err_const]: "ErrNotFound = Sentinel ''not found''"

text \<open>The driver's sentinel for an empty result set.\<close>

definition pgx_ErrNoRows :: err where [err_const]: "pgx_ErrNoRows = Sentinel ''no rows in result set''"

section \<open>Strings\<close>

definition char_between :: "char \<Rightarrow> char \<Rightarrow> char \<Rightarrow> bool" where
  "char_between lo hi c \<longleftrightarrow> (of_char lo :: nat) \<le> of_char c \<and> (of_char c :: nat) \<le> of_char hi"

definition lower_char :: "char \<Rightarrow> char" where
  "lower_char c = (if char_between CHR ''A'' CHR ''Z'' c then char_of ((of_char c :: nat) + 32) else c)"

definition ToLower :: "string \<Rightarrow> string" where
  "ToLower s = map lower_char s"

definition is_space :: "char \<Rightarrow> bool" where
  "is_space c \<longleftrightarrow> c = CHR '' '' \<or> char_between (CHR 0x09) (CHR 0x0D) c"

definition TrimSpace :: "string \<Rightarrow> string" where
  "TrimSpace s = rev (dropWhile is_space (rev (dropWhile is_space s)))"

lemma lower_char_idem [simp]: "lower_char (lower_char c) = lower_char c"
proof -
  have "of_char (char_of ((of_char c :: nat) + 32)) = (of_char c :: nat) + 32"
    if "(of_char c :: nat) \<le> 90"
    using that by (simp add: of_char_of)
  then show ?thesis
    by (auto simp: lower_char_def char_between_def)
qed

lemma ToLower_idem [simp]: "ToLower (ToLower s) = ToLower s"
  by (simp add: ToLower_def)

lemma is_space_lower [simp]: "is_space (lower_char c) = is_space c"
proof -
  have *: "of_char (char_of ((of_char c :: nat) + 32)) = (of_char c :: nat) + 32"
    if "(of_char c :: nat) \<le> 90"
    using that by (simp add: of_char_of)
  have "lower_char c = c \<or> (65 \<le> (of_char c :: nat) \<and> (of_char c :: nat) \<le> 90)"
    by (auto simp: lower_char_def char_between_def)
  then show ?thesis
  proof
    assume c: "65 \<le> (of_char c :: nat) \<and> (of_char c :: nat) \<le> 90"
    then have l: "(of_char (lower_char c) :: nat) = of_char c + 32"
      using * by (simp add: lower_char_def char_between_def)
    have "lower_char c \<noteq> CHR '' ''"
    proof
      assume "lower_char c = CHR '' ''"
      then have "(of_char (lower_char c) :: nat) = 32" by simp
      with l c show False by simp
    qed
    moreover have "c \<noteq> CHR '' ''" using c by auto
    ultimately show ?thesis using l c by (simp add: is_space_def char_between_def)
  qed simp
qed

lemma dropWhile_id: "xs = [] \<or> \<not> P (hd xs) \<Longrightarrow> dropWhile P xs = xs"
  by (cases xs) auto

lemma hd_dropWhile': "dropWhile P xs = [] \<or> \<not> P (hd (dropWhile P xs))"
  using hd_dropWhile by blast

lemma TrimSpace_idem [simp]: "TrimSpace (TrimSpace s) = TrimSpace s"
proof -
  define a where "a = dropWhile is_space s"
  define b where "b = dropWhile is_space (rev a)"
  have a: "a = [] \<or> \<not> is_space (hd a)" unfolding a_def by (rule hd_dropWhile')
  have b: "b = [] \<or> \<not> is_space (hd b)" unfolding b_def by (rule hd_dropWhile')
  have "rev b = [] \<or> \<not> is_space (hd (rev b))"
  proof (cases "rev b = []")
    case False
    obtain pre where "rev a = pre @ b"
      unfolding b_def by (metis takeWhile_dropWhile_id)
    then have "a = rev b @ rev pre" by (metis rev_append rev_rev_ident)
    with False a show ?thesis by simp
  qed simp
  then have "dropWhile is_space (rev b) = rev b" by (rule dropWhile_id)
  moreover have "dropWhile is_space b = b" using b by (rule dropWhile_id)
  ultimately show ?thesis by (simp add: TrimSpace_def a_def [symmetric] b_def [symmetric])
qed

lemma TrimSpace_ToLower: "TrimSpace (ToLower s) = ToLower (TrimSpace s)"
  by (simp add: TrimSpace_def ToLower_def dropWhile_map rev_map comp_def)

section \<open>Quoted text\<close>

text \<open>
  The verb \<^verbatim>\<open>%q\<close>: the text in double quotes, with quotes, backslashes and control bytes
  escaped. Bytes above ASCII belong to printable text and stay.
\<close>

definition quoted_char :: "char \<Rightarrow> string" where
  "quoted_char c =
     (let n = (of_char c :: nat) in
      if n = 34 then [CHR 0x5C, CHR 0x22] else if n = 92 then [CHR 0x5C, CHR 0x5C]
      else if n = 7 then CHR 0x5C # ''a'' else if n = 8 then CHR 0x5C # ''b''
      else if n = 9 then CHR 0x5C # ''t'' else if n = 10 then CHR 0x5C # ''n''
      else if n = 11 then CHR 0x5C # ''v'' else if n = 12 then CHR 0x5C # ''f''
      else if n = 13 then CHR 0x5C # ''r''
      else if n < 32 \<or> n = 127
      then CHR 0x5C # ''x'' @ [''0123456789abcdef'' ! (n div 16), ''0123456789abcdef'' ! (n mod 16)]
      else [c])"

definition quoted :: "string \<Rightarrow> string" where
  "quoted s = [CHR 0x22] @ concat (map quoted_char s) @ [CHR 0x22]"

end
