(* ===== verification/Json.thy ===== *)
theory Json
  imports Errors
begin

text \<open>
  JSON as \<^verbatim>\<open>encoding/json\<close> and PostgreSQL's \<^verbatim>\<open>jsonb\<close> read and write it, at the level of
  values: the text of a document is not modelled. \<open>JInt\<close> is a number written from a Go
  integer, \<open>JNum\<close> one written from a \<^verbatim>\<open>float64\<close> (its shortest decimal, which reads back as
  the same double) and \<open>JTime t\<close> the RFC 3339 string of the instant \<open>t\<close>.
\<close>

datatype json =
    JNull
  | JBool bool
  | JInt int
  | JNum f64
  | JStr string
  | JTime time
  | JArr "json list"
  | JObj "(string \<times> json) list"

definition json_error :: err where "json_error = Plain ''json''"

section \<open>Writing\<close>

text \<open>\<^verbatim>\<open>json.Marshal\<close> refuses \<open>NaN\<close> and the infinities, and an instant whose year is not
  between 0 and 9999. \<open>None\<close> is its error.\<close>

definition year_0 :: time where "year_0 = - 62167219200 * second"
definition year_10000 :: time where "year_10000 = 253402300800 * second"

definition marshal_float :: "f64 \<Rightarrow> json option" where
  "marshal_float x = (if is_fin x then Some (JNum x) else None)"

definition marshal_float_ptr :: "f64 option \<Rightarrow> json option" where
  "marshal_float_ptr p = (case p of None \<Rightarrow> Some JNull | Some x \<Rightarrow> marshal_float x)"

definition marshal_time :: "time \<Rightarrow> json option" where
  "marshal_time t = (if year_0 \<le> t \<and> t < year_10000 then Some (JTime t) else None)"

definition marshal_int :: "goint \<Rightarrow> json option" where "marshal_int i = Some (JInt i)"
definition marshal_string :: "string \<Rightarrow> json option" where "marshal_string s = Some (JStr s)"

text \<open>The fields of a struct, in the order of its declaration; the first that cannot be
  written makes the whole value unwritable.\<close>

primrec marshal_fields :: "(string \<times> json option) list \<Rightarrow> (string \<times> json) list option" where
  "marshal_fields [] = Some []"
| "marshal_fields (f # fs) =
     (case snd f of None \<Rightarrow> None
      | Some v \<Rightarrow> map_option ((#) (fst f, v)) (marshal_fields fs))"

definition marshal_struct :: "(string \<times> json option) list \<Rightarrow> json option" where
  "marshal_struct fs = map_option JObj (marshal_fields fs)"

primrec marshal_all :: "('a \<Rightarrow> json option) \<Rightarrow> 'a list \<Rightarrow> json list option" where
  "marshal_all m [] = Some []"
| "marshal_all m (x # xs) =
     (case m x of None \<Rightarrow> None | Some v \<Rightarrow> map_option ((#) v) (marshal_all m xs))"

section \<open>Reading\<close>

text \<open>
  \<^verbatim>\<open>json.Unmarshal\<close> into a struct assigns the members in the order of the document. A key
  names the field it equals, else a field it equals up to case; an unknown key is skipped.
  \<open>null\<close> leaves a scalar as it is and makes a pointer nil. \<open>None\<close> is a value of the wrong type.
\<close>

definition json_key :: "string list \<Rightarrow> string \<Rightarrow> string" where
  "json_key names k =
     (if k \<in> set names then k
      else case find (\<lambda>n. ToLower n = ToLower k) names of Some n \<Rightarrow> n | None \<Rightarrow> k)"

primrec decode_members ::
  "(string \<Rightarrow> json \<Rightarrow> 'a \<Rightarrow> 'a option) \<Rightarrow> string list \<Rightarrow> (string \<times> json) list \<Rightarrow> 'a \<Rightarrow> 'a option" where
  "decode_members assign names [] a = Some a"
| "decode_members assign names (kv # kvs) a =
     (case assign (json_key names (fst kv)) (snd kv) a of
        None \<Rightarrow> None
      | Some a' \<Rightarrow> decode_members assign names kvs a')"

definition decode_struct ::
  "(string \<Rightarrow> json \<Rightarrow> 'a \<Rightarrow> 'a option) \<Rightarrow> string list \<Rightarrow> json \<Rightarrow> 'a \<Rightarrow> 'a option" where
  "decode_struct assign names j a =
     (case j of JObj kvs \<Rightarrow> decode_members assign names kvs a | JNull \<Rightarrow> Some a | _ \<Rightarrow> None)"

primrec decode_all :: "('a \<Rightarrow> 'b option) \<Rightarrow> 'a list \<Rightarrow> 'b list option" where
  "decode_all d [] = Some []"
| "decode_all d (x # xs) =
     (case d x of None \<Rightarrow> None | Some v \<Rightarrow> map_option ((#) v) (decode_all d xs))"

definition decode_array :: "(json \<Rightarrow> 'b option) \<Rightarrow> json \<Rightarrow> 'b list option" where
  "decode_array d j =
     (case j of JArr xs \<Rightarrow> decode_all d xs | JNull \<Rightarrow> Some [] | _ \<Rightarrow> None)"

definition read_float :: "json \<Rightarrow> f64 \<Rightarrow> f64 option" where
  "read_float j old =
     (case j of JNum x \<Rightarrow> Some x | JInt i \<Rightarrow> Some (f_of_int i) | JNull \<Rightarrow> Some old | _ \<Rightarrow> None)"

definition read_float_ptr :: "json \<Rightarrow> f64 option option" where
  "read_float_ptr j =
     (case j of JNum x \<Rightarrow> Some (Some x) | JInt i \<Rightarrow> Some (Some (f_of_int i))
      | JNull \<Rightarrow> Some None | _ \<Rightarrow> None)"

definition read_int :: "json \<Rightarrow> goint \<Rightarrow> goint option" where
  "read_int j old =
     (case j of JInt i \<Rightarrow> (if in64 i then Some i else None) | JNull \<Rightarrow> Some old | _ \<Rightarrow> None)"

definition read_string :: "json \<Rightarrow> string \<Rightarrow> string option" where
  "read_string j old = (case j of JStr s \<Rightarrow> Some s | JNull \<Rightarrow> Some old | _ \<Rightarrow> None)"

definition read_time :: "json \<Rightarrow> time \<Rightarrow> time option" where
  "read_time j old = (case j of JTime t \<Rightarrow> Some t | JNull \<Rightarrow> Some old | _ \<Rightarrow> None)"

section \<open>\<^verbatim>\<open>jsonb\<close> and \<^verbatim>\<open>NUMERIC\<close>\<close>

text \<open>A number of a \<^verbatim>\<open>NUMERIC\<close> column or of a \<^verbatim>\<open>jsonb\<close> value is a decimal, which has one
  zero.\<close>

definition numeric :: "f64 \<Rightarrow> f64" where
  "numeric x = (if feq x 0 then 0 else x)"

primrec jsonb :: "json \<Rightarrow> json" where
  "jsonb JNull = JNull"
| "jsonb (JBool b) = JBool b"
| "jsonb (JInt i) = JInt i"
| "jsonb (JNum x) = JNum (numeric x)"
| "jsonb (JStr s) = JStr s"
| "jsonb (JTime t) = JTime t"
| "jsonb (JArr xs) = JArr (map jsonb xs)"
| "jsonb (JObj kvs) = JObj (map (map_prod id jsonb) kvs)"

section \<open>Lemmas\<close>

named_theorems json_simps \<open>the readers and writers on the values they meet\<close>

lemma numeric_idem [simp]: "numeric (numeric x) = numeric x"
  by (simp add: numeric_def)

lemma json_key_known [simp]: "k \<in> set names \<Longrightarrow> json_key names k = k"
  by (simp add: json_key_def)

lemma marshal_readers [json_simps]:
  "marshal_int i = Some (JInt i)" "marshal_string s = Some (JStr s)"
  "marshal_float x = (if is_fin x then Some (JNum x) else None)"
  "marshal_time t = (if year_0 \<le> t \<and> t < year_10000 then Some (JTime t) else None)"
  "read_float (JNum x) old = Some x" "read_float_ptr (JNum x) = Some (Some x)"
  "read_float_ptr JNull = Some None" "read_string (JStr s) old' = Some s"
  "read_time (JTime t) old'' = Some t" "in64 i \<Longrightarrow> read_int (JInt i) i' = Some i"
  by (simp_all add: marshal_int_def marshal_string_def marshal_float_def marshal_time_def
      read_float_def read_float_ptr_def read_string_def read_time_def read_int_def)

lemma marshal_all_Some:
  "marshal_all m xs = Some js \<longleftrightarrow> list_all2 (\<lambda>x j. m x = Some j) xs js"
  by (induction xs arbitrary: js)
    (auto simp: list_all2_Cons1 split: option.splits)

lemma marshal_all_total: "marshal_all m xs \<noteq> None \<longleftrightarrow> (\<forall>x \<in> set xs. m x \<noteq> None)"
  by (induction xs) (auto split: option.splits)

lemma decode_all_Some:
  "decode_all d xs = Some ys \<longleftrightarrow> list_all2 (\<lambda>x y. d x = Some y) xs ys"
  by (induction xs arbitrary: ys)
    (auto simp: list_all2_Cons1 split: option.splits)

lemma decode_marshal_all:
  assumes "marshal_all m xs = Some js"
    and "\<And>x j. x \<in> set xs \<Longrightarrow> m x = Some j \<Longrightarrow> d (g j) = Some (f x)"
  shows "decode_all d (map g js) = Some (map f xs)"
  using assms
proof (induction xs arbitrary: js)
  case (Cons x xs)
  from Cons.prems(1) obtain v vs where v: "m x = Some v" "marshal_all m xs = Some vs" "js = v # vs"
    by (auto split: option.splits)
  moreover have "d (g v) = Some (f x)" using Cons.prems(2) v(1) by simp
  moreover have "decode_all d (map g vs) = Some (map f xs)"
    by (rule Cons.IH [OF v(2)]) (simp add: Cons.prems(2))
  ultimately show ?case by simp
qed simp

end
