(* ===== verification/Database.thy ===== *)
theory Database
  imports Json
begin

text \<open>
  The rows of \<^verbatim>\<open>internal/entities\<close>, the domain types of \<^verbatim>\<open>internal/models\<close> they are
  mapped to, and the database the storage layer talks to: one list of rows per table, in
  insertion order, with the constraints the migrations declare.

  PostgreSQL and its driver are not part of the program. What the model takes from them is
  the meaning of the statements the code sends: a statement either fails as a whole with an
  error and changes nothing, or has the effect the SQL says, with \<^verbatim>\<open>NOW()\<close> the clock of the
  database. Which statements fail is an input: \<open>db_faults\<close> lists, for the statements to
  come, the error the driver will report (\<open>None\<close> where it will not), and a run of the program
  under every such list is covered. Rows that an \<^verbatim>\<open>ORDER BY\<close> does not tell apart come in
  insertion order, and text is ordered by its bytes.
\<close>

section \<open>Rows and domain types\<close>

record backtest_row =
  erID :: uuid
  erUserID :: "uuid option"
  erStrategyID :: "uuid option"
  erInstrumentToken :: string
  erSignalInstrumentToken :: "string option"
  erFromTs :: time
  erToTs :: time
  erCandleInterval :: string
  erStatus :: string
  erNetPnl :: "f64 option"
  erGrossPnl :: "f64 option"
  erTotalCharges :: "f64 option"
  erSlippage :: "f64 option"
  erTotalTrades :: "goint option"
  erWinCount :: "goint option"
  erLossCount :: "goint option"
  erMaxDrawdown :: "f64 option"
  erTradesJSON :: "json option"
  erErrorMessage :: "string option"
  erCreatedAt :: time
  erCompletedAt :: "time option"
  erStrategySlug :: "string option"
  erCapital :: "f64 option"
  erLots :: "goint option"
  erUnderlying :: "string option"
  erResultStatsJSON :: "json option"
  erChartDataJSON :: "json option"
  erSlippagePct :: f64

record backtest_run =
  bID :: uuid
  bUserID :: "uuid option"
  bStrategyID :: "uuid option"
  bInstrumentToken :: string
  bSignalInstrumentToken :: "string option"
  bFromTs :: time
  bToTs :: time
  bCandleInterval :: string
  bStatus :: string
  bNetPnl :: "f64 option"
  bGrossPnl :: "f64 option"
  bTotalCharges :: "f64 option"
  bSlippage :: "f64 option"
  bTotalTrades :: "goint option"
  bWinCount :: "goint option"
  bLossCount :: "goint option"
  bMaxDrawdown :: "f64 option"
  bTrades :: "trade list"
  bErrorMessage :: "string option"
  bCreatedAt :: time
  bCompletedAt :: "time option"
  bStrategySlug :: "string option"
  bStrategyName :: "string option"
  bCapital :: "f64 option"
  bLots :: "goint option"
  bUnderlying :: "string option"
  bResultStats :: "trade_stats option"
  bChartData :: "chart_data option"
  bSlippagePct :: f64

record candle_row =
  ecInstrumentID :: uuid
  ecTimestamp :: time
  ecInterval :: string
  ecOpen :: f64
  ecHigh :: f64
  ecLow :: f64
  ecClose :: f64
  ecVolume :: goint
  ecProvider :: string

record instrument_row =
  eiID :: uuid
  eiSymbol :: string
  eiName :: string
  eiExchange :: string
  eiInstrumentType :: string
  eiUnderlying :: "string option"
  eiExpiry :: "time option"
  eiStrike :: "f64 option"
  eiOptionType :: "string option"
  eiLotSize :: goint
  eiCreatedAt :: time
  eiUpdatedAt :: time

record instrument =
  iID :: uuid
  iSymbol :: string
  iName :: string
  iExchange :: string
  iInstrumentType :: string
  iUnderlying :: "string option"
  iExpiry :: "time option"
  iStrike :: "f64 option"
  iOptionType :: "string option"
  iLotSize :: goint
  iCreatedAt :: time
  iUpdatedAt :: time

record strategy_row =
  esID :: uuid
  esName :: string
  esDescription :: string
  esUnderlying :: string
  esInstrumentType :: string
  esExpiryRule :: string
  esOptionLegJSON :: "string option"
  esEntryConditionType :: string
  esTargetPct :: "f64 option"
  esStopLossPct :: "f64 option"
  esTimeExitMinutes :: "goint option"
  esLotSize :: goint
  esMode :: string
  esIsReadyForRun :: bool
  esCreatedAt :: time
  esUpdatedAt :: time

record sync_run =
  syID :: uuid
  syProvider :: string
  sySyncType :: string
  syStatus :: string
  syRecordsProcessed :: goint
  syErrorMessage :: "string option"
  syStartedAt :: time
  syCompletedAt :: "time option"

record user_row =
  euID :: uuid
  euEmail :: string
  euFirebaseUID :: string
  euDisplayName :: "string option"
  euPhotoURL :: "string option"
  euLastLoginAt :: "time option"
  euCreatedAt :: time
  euUpdatedAt :: time

record user =
  uID :: uuid
  uFirebaseUID :: string
  uEmail :: string
  uDisplayName :: string
  uPhotoURL :: string
  uCreatedAt :: time

record refresh_token =
  rtID :: uuid
  rtUserID :: uuid
  rtTokenHash :: string
  rtExpiresAt :: time
  rtRevokedAt :: "time option"
  rtCreatedAt :: time

section \<open>The database\<close>

record db =
  db_now :: time
  db_next :: uuid
  db_faults :: "err option list"
  db_backtest_runs :: "backtest_row list"
  db_candles :: "candle_row list"
  db_instruments :: "instrument_row list"
  db_strategies :: "strategy_row list"
  db_sync_runs :: "sync_run list"
  db_users :: "user_row list"
  db_refresh_tokens :: "refresh_token list"
  db_identity :: "string list"
  db_migrations :: "(int \<times> bool) list"

definition empty_db :: "time \<Rightarrow> db" where
  "empty_db t =
     \<lparr>db_now = t, db_next = 0, db_faults = [], db_backtest_runs = [], db_candles = [],
      db_instruments = [], db_strategies = [], db_sync_runs = [], db_users = [],
      db_refresh_tokens = [], db_identity = [], db_migrations = []\<rparr>"

text \<open>One statement: the fault its turn brings, or its effect.\<close>

definition run_sql :: "(db \<Rightarrow> 'a res \<times> db) \<Rightarrow> db \<Rightarrow> 'a res \<times> db" where
  "run_sql f w =
     (let w' = w\<lparr>db_faults := tl (db_faults w)\<rparr>
      in case db_faults w of Some e # fs \<Rightarrow> (Inl e, w') | _ \<Rightarrow> f w')"

text \<open>\<^verbatim>\<open>uuid.New()\<close> returns an identifier never returned before. \<^verbatim>\<open>uuid.Nil\<close> is not one.\<close>

definition uuid_New :: "db \<Rightarrow> uuid \<times> db" where
  "uuid_New w = (Suc (db_next w), w\<lparr>db_next := Suc (db_next w)\<rparr>)"

text \<open>The types of the columns: \<^verbatim>\<open>TIMESTAMPTZ\<close> keeps microseconds, \<^verbatim>\<open>DATE\<close> the day, and
  \<^verbatim>\<open>INTEGER\<close> is 32 bits wide: the driver refuses a value outside it.\<close>

definition timestamptz :: "time \<Rightarrow> time" where "timestamptz t = t div 1000 * 1000"

definition date :: "time \<Rightarrow> time" where "date t = t div (24 * hour) * (24 * hour)"

definition int4 :: "goint \<Rightarrow> bool" where "int4 n \<longleftrightarrow> - (2 ^ 31) \<le> n \<and> n < 2 ^ 31"

definition int4_error :: err where "int4_error = Plain ''value out of range for int4''"

definition unique_violation :: "string \<Rightarrow> err" where
  "unique_violation c = PgError ''23505'' c"

definition foreign_key_violation :: "string \<Rightarrow> err" where
  "foreign_key_violation c = PgError ''23503'' c"

definition check_violation :: "string \<Rightarrow> err" where
  "check_violation c = PgError ''23514'' c"

text \<open>\<^verbatim>\<open>QueryRow().Scan\<close>: the first row, or \<^verbatim>\<open>pgx.ErrNoRows\<close>.\<close>

definition first_row :: "'a list \<Rightarrow> 'a res" where
  "first_row rows = (case rows of [] \<Rightarrow> Inl pgx_ErrNoRows | r # _ \<Rightarrow> Inr r)"

text \<open>\<^verbatim>\<open>LIMIT\<close> and \<^verbatim>\<open>OFFSET\<close>; PostgreSQL refuses a negative one.\<close>

definition limit_offset :: "int \<Rightarrow> int \<Rightarrow> 'a list \<Rightarrow> 'a list res" where
  "limit_offset l off xs =
     (if l < 0 then Inl (PgError ''2201W'' '''')
      else if off < 0 then Inl (PgError ''2201X'' '''')
      else Inr (take (nat l) (drop (nat off) xs)))"

section \<open>Lemmas\<close>

lemma run_sql_no_fault: "db_faults w = [] \<Longrightarrow> run_sql f w = f w"
  by (cases w) (simp add: run_sql_def)

lemma run_sql_cases:
  obtains e where "run_sql f w = (Inl e, w\<lparr>db_faults := tl (db_faults w)\<rparr>)"
  | "run_sql f w = f (w\<lparr>db_faults := tl (db_faults w)\<rparr>)"
  by (cases "\<exists>e fs. db_faults w = Some e # fs")
    (auto simp: run_sql_def Let_def split: list.splits option.splits)

text \<open>What every statement keeps, however it ends.\<close>

lemma run_sql_keeps:
  assumes "P (w\<lparr>db_faults := tl (db_faults w)\<rparr>)"
    and "\<And>r w'. f (w\<lparr>db_faults := tl (db_faults w)\<rparr>) = (r, w') \<Longrightarrow> P w'"
  shows "P (snd (run_sql f w))"
  by (rule run_sql_cases [of f w]) (auto simp: assms(1) intro: assms(2) [OF prod.collapse [symmetric]])

lemma timestamptz_idem [simp]: "timestamptz (timestamptz t) = timestamptz t"
  by (simp add: timestamptz_def)

lemma timestamptz_mono: "s \<le> t \<Longrightarrow> timestamptz s \<le> timestamptz t"
  by (simp add: timestamptz_def zdiv_mono1)

lemma timestamptz_le: "timestamptz t \<le> t"
  by (simp add: timestamptz_def)

lemma first_row_eq [simp]:
  "first_row [] = Inl pgx_ErrNoRows" "first_row (r # rs) = Inr r"
  by (simp_all add: first_row_def)

end
