(* ===== verification/Backtest_Rows.thy ===== *)
theory Backtest_Rows
  imports Database Stats
begin

text \<open>
  How a backtest run becomes a row of \<^verbatim>\<open>backtest_runs\<close> and back: the trade DTO of
  \<^verbatim>\<open>internal/storage/backtests_trades_dto.go\<close> with its reader for the trades persisted
  before the charge split, and the mappers and row scanners of
  \<^verbatim>\<open>internal/storage/backtests_mapper.go\<close>. Reading what was written gives the run back,
  up to what the columns do not keep.
\<close>

section \<open>The trades of a run\<close>

record trade_persist =
  pEntryTimestamp :: time
  pExitTimestamp :: time
  pSide :: string
  pQuantity :: goint
  pEntryPrice :: f64
  pExitPrice :: f64
  pGrossPnL :: f64
  pSlippage :: f64
  pBrokerage :: f64
  pSTT :: f64
  pExchangeFees :: f64
  pSEBIFees :: f64
  pGST :: f64
  pStampDuty :: f64
  pTotalCharges :: f64
  pNetPnL :: f64
  pReason :: string
  pExitReason :: string

definition toTradePersist :: "trade \<Rightarrow> trade_persist" where
  "toTradePersist tr =
     \<lparr>pEntryTimestamp = tEntryTimestamp tr, pExitTimestamp = tExitTimestamp tr, pSide = tSide tr,
      pQuantity = tQuantity tr, pEntryPrice = tEntryPrice tr, pExitPrice = tExitPrice tr,
      pGrossPnL = tGrossPnL tr, pSlippage = tSlippage tr, pBrokerage = tBrokerage tr,
      pSTT = tSTT tr, pExchangeFees = tExchangeFees tr, pSEBIFees = tSEBIFees tr, pGST = tGST tr,
      pStampDuty = tStampDuty tr, pTotalCharges = tTotalCharges tr, pNetPnL = tNetPnL tr,
      pReason = tReason tr, pExitReason = tExitReason tr\<rparr>"

definition toTradeModel :: "trade_persist \<Rightarrow> trade" where
  "toTradeModel tp =
     \<lparr>tEntryTimestamp = pEntryTimestamp tp, tExitTimestamp = pExitTimestamp tp, tSide = pSide tp,
      tQuantity = pQuantity tp, tEntryPrice = pEntryPrice tp, tExitPrice = pExitPrice tp,
      tGrossPnL = pGrossPnL tp, tSlippage = pSlippage tp, tBrokerage = pBrokerage tp,
      tSTT = pSTT tp, tExchangeFees = pExchangeFees tp, tSEBIFees = pSEBIFees tp, tGST = pGST tp,
      tStampDuty = pStampDuty tp, tTotalCharges = pTotalCharges tp, tNetPnL = pNetPnL tp,
      tReason = pReason tp, tExitReason = pExitReason tp\<rparr>"

definition zero_trade_persist :: trade_persist where
  "zero_trade_persist =
     \<lparr>pEntryTimestamp = zero_time, pExitTimestamp = zero_time, pSide = '''', pQuantity = 0,
      pEntryPrice = 0, pExitPrice = 0, pGrossPnL = 0, pSlippage = 0, pBrokerage = 0, pSTT = 0,
      pExchangeFees = 0, pSEBIFees = 0, pGST = 0, pStampDuty = 0, pTotalCharges = 0, pNetPnL = 0,
      pReason = '''', pExitReason = ''''\<rparr>"

definition marshal_trade :: "trade_persist \<Rightarrow> json option" where
  "marshal_trade tp = marshal_struct
     [(''EntryTimestamp'', marshal_time (pEntryTimestamp tp)),
      (''ExitTimestamp'', marshal_time (pExitTimestamp tp)),
      (''Side'', marshal_string (pSide tp)), (''Quantity'', marshal_int (pQuantity tp)),
      (''EntryPrice'', marshal_float (pEntryPrice tp)),
      (''ExitPrice'', marshal_float (pExitPrice tp)),
      (''GrossPnL'', marshal_float (pGrossPnL tp)), (''Slippage'', marshal_float (pSlippage tp)),
      (''Brokerage'', marshal_float (pBrokerage tp)), (''STT'', marshal_float (pSTT tp)),
      (''ExchangeFees'', marshal_float (pExchangeFees tp)),
      (''SEBIFees'', marshal_float (pSEBIFees tp)), (''GST'', marshal_float (pGST tp)),
      (''StampDuty'', marshal_float (pStampDuty tp)),
      (''TotalCharges'', marshal_float (pTotalCharges tp)),
      (''NetPnL'', marshal_float (pNetPnL tp)), (''Reason'', marshal_string (pReason tp)),
      (''ExitReason'', marshal_string (pExitReason tp))]"

definition trade_keys :: "string list" where
  "trade_keys =
     [''EntryTimestamp'', ''ExitTimestamp'', ''Side'', ''Quantity'', ''EntryPrice'',
      ''ExitPrice'', ''GrossPnL'', ''Slippage'', ''Brokerage'', ''STT'', ''ExchangeFees'',
      ''SEBIFees'', ''GST'', ''StampDuty'', ''TotalCharges'', ''NetPnL'', ''Reason'',
      ''ExitReason'', ''PnL'']"

definition set_trade_field ::
  "string \<Rightarrow> json \<Rightarrow> trade_persist \<times> f64 option \<Rightarrow> (trade_persist \<times> f64 option) option" where
  "set_trade_field k v = (\<lambda>(tp, legacy).
     if k = ''EntryTimestamp'' then map_option (\<lambda>x. (tp\<lparr>pEntryTimestamp := x\<rparr>, legacy)) (read_time v (pEntryTimestamp tp))
      else if k = ''ExitTimestamp'' then map_option (\<lambda>x. (tp\<lparr>pExitTimestamp := x\<rparr>, legacy)) (read_time v (pExitTimestamp tp))
      else if k = ''Side'' then map_option (\<lambda>x. (tp\<lparr>pSide := x\<rparr>, legacy)) (read_string v (pSide tp))
      else if k = ''Quantity'' then map_option (\<lambda>x. (tp\<lparr>pQuantity := x\<rparr>, legacy)) (read_int v (pQuantity tp))
      else if k = ''EntryPrice'' then map_option (\<lambda>x. (tp\<lparr>pEntryPrice := x\<rparr>, legacy)) (read_float v (pEntryPrice tp))
      else if k = ''ExitPrice'' then map_option (\<lambda>x. (tp\<lparr>pExitPrice := x\<rparr>, legacy)) (read_float v (pExitPrice tp))
      else if k = ''GrossPnL'' then map_option (\<lambda>x. (tp\<lparr>pGrossPnL := x\<rparr>, legacy)) (read_float v (pGrossPnL tp))
      else if k = ''Slippage'' then map_option (\<lambda>x. (tp\<lparr>pSlippage := x\<rparr>, legacy)) (read_float v (pSlippage tp))
      else if k = ''Brokerage'' then map_option (\<lambda>x. (tp\<lparr>pBrokerage := x\<rparr>, legacy)) (read_float v (pBrokerage tp))
      else if k = ''STT'' then map_option (\<lambda>x. (tp\<lparr>pSTT := x\<rparr>, legacy)) (read_float v (pSTT tp))
      else if k = ''ExchangeFees'' then map_option (\<lambda>x. (tp\<lparr>pExchangeFees := x\<rparr>, legacy)) (read_float v (pExchangeFees tp))
      else if k = ''SEBIFees'' then map_option (\<lambda>x. (tp\<lparr>pSEBIFees := x\<rparr>, legacy)) (read_float v (pSEBIFees tp))
      else if k = ''GST'' then map_option (\<lambda>x. (tp\<lparr>pGST := x\<rparr>, legacy)) (read_float v (pGST tp))
      else if k = ''StampDuty'' then map_option (\<lambda>x. (tp\<lparr>pStampDuty := x\<rparr>, legacy)) (read_float v (pStampDuty tp))
      else if k = ''TotalCharges'' then map_option (\<lambda>x. (tp\<lparr>pTotalCharges := x\<rparr>, legacy)) (read_float v (pTotalCharges tp))
      else if k = ''NetPnL'' then map_option (\<lambda>x. (tp\<lparr>pNetPnL := x\<rparr>, legacy)) (read_float v (pNetPnL tp))
      else if k = ''Reason'' then map_option (\<lambda>x. (tp\<lparr>pReason := x\<rparr>, legacy)) (read_string v (pReason tp))
      else if k = ''ExitReason'' then map_option (\<lambda>x. (tp\<lparr>pExitReason := x\<rparr>, legacy)) (read_string v (pExitReason tp))
      else if k = ''PnL'' then map_option (\<lambda>x. (tp, x)) (read_float_ptr v)
      else Some (tp, legacy))"

text \<open>\<^verbatim>\<open>UnmarshalJSON\<close>: the fields through the alias, then the legacy \<^verbatim>\<open>PnL\<close> member.\<close>

definition UnmarshalJSON :: "json \<Rightarrow> trade_persist \<Rightarrow> trade_persist option" where
  "UnmarshalJSON data tp =
     (case decode_struct set_trade_field trade_keys data (tp, None) of
        None \<Rightarrow> None
      | Some (tp', legacy) \<Rightarrow>
         Some (case legacy of
                 Some pnl \<Rightarrow> tp'\<lparr>pNetPnL := pnl, pGrossPnL := pnl\<rparr>
               | None \<Rightarrow> tp'))"

definition encodeTradesJSON :: "trade list \<Rightarrow> json res" where
  "encodeTradesJSON trades =
     (case marshal_all marshal_trade (map toTradePersist trades) of
        None \<Rightarrow> Inl json_error
      | Some js \<Rightarrow> Inr (JArr js))"

definition decodeTradesJSON :: "json option \<Rightarrow> trade list res" where
  "decodeTradesJSON data =
     (case data of
        None \<Rightarrow> Inr []
      | Some j \<Rightarrow>
         (case decode_array (\<lambda>v. UnmarshalJSON v zero_trade_persist) j of
            None \<Rightarrow> Inl (Wrap ''unmarshaling trades_json: '' json_error '''')
          | Some dtos \<Rightarrow> Inr (map toTradeModel dtos)))"

section \<open>Statistics and chart series\<close>

text \<open>\<^verbatim>\<open>models.TradeStats\<close> and \<^verbatim>\<open>models.ChartData\<close> are written under their Go field names;
  a nil slice is written \<^verbatim>\<open>null\<close>.\<close>

definition marshal_stats :: "trade_stats \<Rightarrow> json option" where
  "marshal_stats s = marshal_struct
     [(''AvgWin'', marshal_float_ptr (AvgWin s)), (''AvgLoss'', marshal_float_ptr (AvgLoss s)),
      (''BestTrade'', marshal_float_ptr (BestTrade s)),
      (''WorstTrade'', marshal_float_ptr (WorstTrade s)),
      (''AvgPnlPerTrade'', marshal_float_ptr (AvgPnlPerTrade s)),
      (''AvgHoldingMinutes'', marshal_float_ptr (AvgHoldingMinutes s)),
      (''ProfitFactor'', marshal_float_ptr (ProfitFactor s)),
      (''RewardRisk'', marshal_float_ptr (RewardRisk s)),
      (''LongestWinStreak'', marshal_int (LongestWinStreak s)),
      (''LongestLossStreak'', marshal_int (LongestLossStreak s)),
      (''TradesPerWeek'', marshal_float (TradesPerWeek s))]"

definition stats_keys :: "string list" where
  "stats_keys =
     [''AvgWin'', ''AvgLoss'', ''BestTrade'', ''WorstTrade'', ''AvgPnlPerTrade'',
      ''AvgHoldingMinutes'', ''ProfitFactor'', ''RewardRisk'', ''LongestWinStreak'',
      ''LongestLossStreak'', ''TradesPerWeek'']"

definition zero_stats :: trade_stats where
  "zero_stats =
     \<lparr>AvgWin = None, AvgLoss = None, BestTrade = None, WorstTrade = None, AvgPnlPerTrade = None,
      AvgHoldingMinutes = None, ProfitFactor = None, RewardRisk = None, LongestWinStreak = 0,
      LongestLossStreak = 0, TradesPerWeek = 0\<rparr>"

definition set_stats_field :: "string \<Rightarrow> json \<Rightarrow> trade_stats \<Rightarrow> trade_stats option" where
  "set_stats_field k v s =
     (if k = ''AvgWin'' then map_option (\<lambda>x. s\<lparr>AvgWin := x\<rparr>) (read_float_ptr v)
      else if k = ''AvgLoss'' then map_option (\<lambda>x. s\<lparr>AvgLoss := x\<rparr>) (read_float_ptr v)
      else if k = ''BestTrade'' then map_option (\<lambda>x. s\<lparr>BestTrade := x\<rparr>) (read_float_ptr v)
      else if k = ''WorstTrade'' then map_option (\<lambda>x. s\<lparr>WorstTrade := x\<rparr>) (read_float_ptr v)
      else if k = ''AvgPnlPerTrade'' then map_option (\<lambda>x. s\<lparr>AvgPnlPerTrade := x\<rparr>) (read_float_ptr v)
      else if k = ''AvgHoldingMinutes'' then map_option (\<lambda>x. s\<lparr>AvgHoldingMinutes := x\<rparr>) (read_float_ptr v)
      else if k = ''ProfitFactor'' then map_option (\<lambda>x. s\<lparr>ProfitFactor := x\<rparr>) (read_float_ptr v)
      else if k = ''RewardRisk'' then map_option (\<lambda>x. s\<lparr>RewardRisk := x\<rparr>) (read_float_ptr v)
      else if k = ''LongestWinStreak'' then map_option (\<lambda>x. s\<lparr>LongestWinStreak := x\<rparr>) (read_int v (LongestWinStreak s))
      else if k = ''LongestLossStreak'' then map_option (\<lambda>x. s\<lparr>LongestLossStreak := x\<rparr>) (read_int v (LongestLossStreak s))
      else if k = ''TradesPerWeek'' then map_option (\<lambda>x. s\<lparr>TradesPerWeek := x\<rparr>) (read_float v (TradesPerWeek s))
      else Some s)"

definition unmarshal_stats :: "json \<Rightarrow> trade_stats option" where
  "unmarshal_stats j = decode_struct set_stats_field stats_keys j zero_stats"

definition marshal_point :: "chart_point \<Rightarrow> json option" where
  "marshal_point p =
     marshal_struct [(''Ts'', marshal_time (Ts p)), (''Value'', marshal_float (Value p))]"

definition set_point_field :: "string \<Rightarrow> json \<Rightarrow> chart_point \<Rightarrow> chart_point option" where
  "set_point_field k v p =
     (if k = ''Ts'' then map_option (\<lambda>x. p\<lparr>Ts := x\<rparr>) (read_time v (Ts p))
      else if k = ''Value'' then map_option (\<lambda>x. p\<lparr>Value := x\<rparr>) (read_float v (Value p))
      else Some p)"

definition unmarshal_point :: "json \<Rightarrow> chart_point option" where
  "unmarshal_point j =
     decode_struct set_point_field [''Ts'', ''Value''] j \<lparr>Ts = zero_time, Value = 0\<rparr>"

definition marshal_points :: "chart_point list \<Rightarrow> json option" where
  "marshal_points ps =
     (if ps = [] then Some JNull else map_option JArr (marshal_all marshal_point ps))"

definition marshal_chart :: "chart_data \<Rightarrow> json option" where
  "marshal_chart cd =
     marshal_struct [(''Equity'', marshal_points (Equity cd)), (''Drawdown'', marshal_points (Drawdown cd))]"

definition set_chart_field :: "string \<Rightarrow> json \<Rightarrow> chart_data \<Rightarrow> chart_data option" where
  "set_chart_field k v cd =
     (if k = ''Equity''
      then map_option (\<lambda>x. cd\<lparr>Equity := x\<rparr>) (decode_array unmarshal_point v)
      else if k = ''Drawdown''
      then map_option (\<lambda>x. cd\<lparr>Drawdown := x\<rparr>) (decode_array unmarshal_point v)
      else Some cd)"

definition unmarshal_chart :: "json \<Rightarrow> chart_data option" where
  "unmarshal_chart j =
     decode_struct set_chart_field [''Equity'', ''Drawdown''] j \<lparr>Equity = [], Drawdown = []\<rparr>"

section \<open>Entity and model\<close>

text \<open>A document that does not parse is logged and skipped, as is a value that cannot be
  written.\<close>

definition toBacktestModel :: "backtest_row \<Rightarrow> backtest_run" where
  "toBacktestModel e =
     \<lparr>bID = erID e, bUserID = erUserID e, bStrategyID = erStrategyID e,
      bInstrumentToken = erInstrumentToken e, bSignalInstrumentToken = erSignalInstrumentToken e,
      bFromTs = erFromTs e, bToTs = erToTs e, bCandleInterval = erCandleInterval e,
      bStatus = erStatus e, bNetPnl = erNetPnl e, bGrossPnl = erGrossPnl e,
      bTotalCharges = erTotalCharges e, bSlippage = erSlippage e, bTotalTrades = erTotalTrades e,
      bWinCount = erWinCount e, bLossCount = erLossCount e, bMaxDrawdown = erMaxDrawdown e,
      bTrades = [], bErrorMessage = erErrorMessage e, bCreatedAt = erCreatedAt e,
      bCompletedAt = erCompletedAt e, bStrategySlug = erStrategySlug e, bStrategyName = None,
      bCapital = erCapital e, bLots = erLots e, bUnderlying = erUnderlying e,
      bResultStats = Option.bind (erResultStatsJSON e) unmarshal_stats,
      bChartData = Option.bind (erChartDataJSON e) unmarshal_chart, bSlippagePct = erSlippagePct e\<rparr>"

definition toBacktestEntity :: "backtest_run \<Rightarrow> backtest_row" where
  "toBacktestEntity r =
     \<lparr>erID = bID r, erUserID = bUserID r, erStrategyID = bStrategyID r,
      erInstrumentToken = bInstrumentToken r, erSignalInstrumentToken = bSignalInstrumentToken r,
      erFromTs = bFromTs r, erToTs = bToTs r, erCandleInterval = bCandleInterval r,
      erStatus = bStatus r, erNetPnl = bNetPnl r, erGrossPnl = bGrossPnl r,
      erTotalCharges = bTotalCharges r, erSlippage = bSlippage r, erTotalTrades = bTotalTrades r,
      erWinCount = bWinCount r, erLossCount = bLossCount r, erMaxDrawdown = bMaxDrawdown r,
      erTradesJSON = None, erErrorMessage = bErrorMessage r, erCreatedAt = bCreatedAt r,
      erCompletedAt = bCompletedAt r, erStrategySlug = bStrategySlug r, erCapital = bCapital r,
      erLots = bLots r, erUnderlying = bUnderlying r,
      erResultStatsJSON = Option.bind (bResultStats r) marshal_stats,
      erChartDataJSON = Option.bind (bChartData r) marshal_chart, erSlippagePct = bSlippagePct r\<rparr>"

text \<open>The three scanners fill the columns their \<^verbatim>\<open>SELECT\<close> names; the documents it does not
  name stay nil.\<close>

definition scanBacktestRun :: "backtest_row \<Rightarrow> backtest_row" where
  "scanBacktestRun r = r\<lparr>erTradesJSON := None\<rparr>"

definition scanBacktestRunWithTrades :: "backtest_row \<Rightarrow> backtest_row" where
  "scanBacktestRunWithTrades r = r\<lparr>erResultStatsJSON := None, erChartDataJSON := None\<rparr>"

definition scanBacktestRunRow :: "backtest_row \<Rightarrow> backtest_row" where
  "scanBacktestRunRow r =
     r\<lparr>erTradesJSON := None, erResultStatsJSON := None, erChartDataJSON := None\<rparr>"

section \<open>What the JSON columns keep\<close>

text \<open>The trades \<^verbatim>\<open>json.Marshal\<close> can write, their document, and the trade a \<^verbatim>\<open>jsonb\<close> column
  gives back: the same but for the sign of a zero.\<close>

definition writable_time :: "time \<Rightarrow> bool" where
  "writable_time t \<longleftrightarrow> year_0 \<le> t \<and> t < year_10000"

definition trade_floats :: "trade \<Rightarrow> f64 list" where
  "trade_floats tr =
     [tEntryPrice tr, tExitPrice tr, tGrossPnL tr, tSlippage tr, tBrokerage tr, tSTT tr,
      tExchangeFees tr, tSEBIFees tr, tGST tr, tStampDuty tr, tTotalCharges tr, tNetPnL tr]"

definition writable_trade :: "trade \<Rightarrow> bool" where
  "writable_trade tr \<longleftrightarrow>
     writable_time (tEntryTimestamp tr) \<and> writable_time (tExitTimestamp tr) \<and>
     list_all is_fin (trade_floats tr)"

definition stored_trade :: "trade \<Rightarrow> trade" where
  "stored_trade tr =
     tr\<lparr>tEntryPrice := numeric (tEntryPrice tr), tExitPrice := numeric (tExitPrice tr),
       tGrossPnL := numeric (tGrossPnL tr), tSlippage := numeric (tSlippage tr),
       tBrokerage := numeric (tBrokerage tr), tSTT := numeric (tSTT tr),
       tExchangeFees := numeric (tExchangeFees tr), tSEBIFees := numeric (tSEBIFees tr),
       tGST := numeric (tGST tr), tStampDuty := numeric (tStampDuty tr),
       tTotalCharges := numeric (tTotalCharges tr), tNetPnL := numeric (tNetPnL tr)\<rparr>"

definition trade_doc :: "trade \<Rightarrow> json" where
  "trade_doc tr = JObj
     [(''EntryTimestamp'', JTime (tEntryTimestamp tr)),
      (''ExitTimestamp'', JTime (tExitTimestamp tr)),
      (''Side'', JStr (tSide tr)), (''Quantity'', JInt (tQuantity tr)),
      (''EntryPrice'', JNum (tEntryPrice tr)), (''ExitPrice'', JNum (tExitPrice tr)),
      (''GrossPnL'', JNum (tGrossPnL tr)), (''Slippage'', JNum (tSlippage tr)),
      (''Brokerage'', JNum (tBrokerage tr)), (''STT'', JNum (tSTT tr)),
      (''ExchangeFees'', JNum (tExchangeFees tr)), (''SEBIFees'', JNum (tSEBIFees tr)),
      (''GST'', JNum (tGST tr)), (''StampDuty'', JNum (tStampDuty tr)),
      (''TotalCharges'', JNum (tTotalCharges tr)), (''NetPnL'', JNum (tNetPnL tr)),
      (''Reason'', JStr (tReason tr)), (''ExitReason'', JStr (tExitReason tr))]"

lemma marshal_trade_doc:
  "marshal_trade (toTradePersist tr) = (if writable_trade tr then Some (trade_doc tr) else None)"
  by (simp add: marshal_trade_def toTradePersist_def marshal_struct_def json_simps
      writable_trade_def writable_time_def trade_floats_def trade_doc_def)

lemma toTradeModel_inverse [simp]: "toTradeModel (toTradePersist tr) = tr"
  by (simp add: toTradePersist_def toTradeModel_def)

lemma decode_trade_doc:
  "in64 (tQuantity tr) \<Longrightarrow>
     UnmarshalJSON (trade_doc tr) zero_trade_persist = Some (toTradePersist tr)"
  by (simp add: UnmarshalJSON_def decode_struct_def trade_doc_def json_key_def trade_keys_def
      set_trade_field_def json_simps toTradePersist_def)

lemma jsonb_trade_doc: "jsonb (trade_doc tr) = trade_doc (stored_trade tr)"
  by (simp add: trade_doc_def stored_trade_def)

lemma stored_trade_quantity [simp]: "tQuantity (stored_trade tr) = tQuantity tr"
  by (simp add: stored_trade_def)

lemma encodeTradesJSON_eq:
  "encodeTradesJSON ts =
     (if list_all writable_trade ts then Inr (JArr (map trade_doc ts)) else Inl json_error)"
proof (induction ts)
  case Nil
  show ?case by (simp add: encodeTradesJSON_def)
next
  case (Cons tr ts)
  then show ?case
    by (auto simp: encodeTradesJSON_def marshal_trade_doc split: option.splits if_splits)
qed

lemma decode_all_docs:
  assumes "\<forall>tr \<in> set ts. in64 (tQuantity tr)"
  shows "decodeTradesJSON (Some (JArr (map trade_doc ts))) = Inr ts"
proof -
  have "decode_all (\<lambda>v. UnmarshalJSON v zero_trade_persist) (map trade_doc ts)
          = Some (map toTradePersist ts)"
    using assms by (induction ts) (simp_all add: decode_trade_doc)
  then show ?thesis by (simp add: decodeTradesJSON_def decode_array_def comp_def)
qed

text \<open>A trade as it was persisted before the charges were split off: one \<^verbatim>\<open>PnL\<close> member.\<close>

definition legacy_doc :: "trade \<Rightarrow> f64 \<Rightarrow> json" where
  "legacy_doc tr pnl = JObj
     [(''EntryTimestamp'', JTime (tEntryTimestamp tr)),
      (''ExitTimestamp'', JTime (tExitTimestamp tr)),
      (''Side'', JStr (tSide tr)), (''Quantity'', JInt (tQuantity tr)),
      (''EntryPrice'', JNum (tEntryPrice tr)), (''ExitPrice'', JNum (tExitPrice tr)),
      (''PnL'', JNum pnl), (''Reason'', JStr (tReason tr)), (''ExitReason'', JStr (tExitReason tr))]"

definition legacy_trade :: "trade \<Rightarrow> f64 \<Rightarrow> trade" where
  "legacy_trade tr pnl =
     tr\<lparr>tGrossPnL := pnl, tSlippage := 0, tBrokerage := 0, tSTT := 0, tExchangeFees := 0,
       tSEBIFees := 0, tGST := 0, tStampDuty := 0, tTotalCharges := 0, tNetPnL := pnl\<rparr>"

lemma decode_legacy_doc:
  "in64 (tQuantity tr) \<Longrightarrow>
     UnmarshalJSON (legacy_doc tr pnl) zero_trade_persist
       = Some (toTradePersist (legacy_trade tr pnl))"
  by (simp add: UnmarshalJSON_def decode_struct_def legacy_doc_def json_key_def trade_keys_def
      set_trade_field_def json_simps toTradePersist_def legacy_trade_def zero_trade_persist_def)

text \<open>C28. Encoding the trades of a run fails exactly when some trade holds a \<open>NaN\<close>, an
  infinity or a date outside the years 0 to 9999. Otherwise decoding the document gives the
  trades back, unchanged when it is read as it was written and with the sign of a zero lost
  when it went through the \<^verbatim>\<open>jsonb\<close> column; and the trades persisted before the charge
  split come back with their single profit as both gross and net profit and no charges.\<close>

theorem trades_roundtrip:
  assumes "list_all (\<lambda>tr. in64 (tQuantity tr)) ts"
  shows "(\<exists>e. encodeTradesJSON ts = Inl e) = list_ex (\<lambda>tr. \<not> writable_trade tr) ts \<and>
    (case encodeTradesJSON ts of Inl e \<Rightarrow> True
     | Inr j \<Rightarrow> decodeTradesJSON (Some j) = Inr ts \<and>
              decodeTradesJSON (Some (jsonb j)) = Inr (map stored_trade ts)) \<and>
    decodeTradesJSON (Some (JArr (map (\<lambda>tr. legacy_doc tr (tNetPnL tr)) ts)))
      = Inr (map (\<lambda>tr. legacy_trade tr (tNetPnL tr)) ts)"
proof -
  have q: "\<forall>tr \<in> set ts. in64 (tQuantity tr)" using assms by (simp add: list_all_iff)
  have "\<forall>tr \<in> set (map stored_trade ts). in64 (tQuantity tr)" using q by simp
  then have "decodeTradesJSON (Some (JArr (map trade_doc (map stored_trade ts))))
      = Inr (map stored_trade ts)"
    by (rule decode_all_docs)
  then have stored: "decodeTradesJSON (Some (jsonb (JArr (map trade_doc ts))))
      = Inr (map stored_trade ts)"
    by (simp add: comp_def jsonb_trade_doc)
  have "decode_all (\<lambda>v. UnmarshalJSON v zero_trade_persist)
          (map (\<lambda>tr. legacy_doc tr (tNetPnL tr)) ts)
        = Some (map (\<lambda>tr. toTradePersist (legacy_trade tr (tNetPnL tr))) ts)"
    using q by (induction ts) (simp_all add: decode_legacy_doc)
  then have legacy: "decodeTradesJSON (Some (JArr (map (\<lambda>tr. legacy_doc tr (tNetPnL tr)) ts)))
      = Inr (map (\<lambda>tr. legacy_trade tr (tNetPnL tr)) ts)"
    by (simp add: decodeTradesJSON_def decode_array_def comp_def)
  show ?thesis
    using stored legacy decode_all_docs [OF q]
    by (simp add: encodeTradesJSON_eq list_all_iff list_ex_iff)
qed

lemma trades_roundtrip_witness:
  "decodeTradesJSON (Some (jsonb (JArr (map trade_doc (rTrades demo_result)))))
     = Inr (map stored_trade (rTrades demo_result))"
proof -
  have q: "list_all (\<lambda>tr. in64 (tQuantity tr)) (rTrades demo_result)" by code_simp
  have w: "list_all writable_trade (rTrades demo_result)" by code_simp
  show ?thesis using trades_roundtrip [OF q] w by (simp add: encodeTradesJSON_eq)
qed

section \<open>Statistics, chart series and the run itself\<close>

definition json_ptr :: "f64 option \<Rightarrow> json" where
  "json_ptr p = (case p of None \<Rightarrow> JNull | Some x \<Rightarrow> JNum x)"

definition writable_ptr :: "f64 option \<Rightarrow> bool" where
  "writable_ptr p = (case p of None \<Rightarrow> True | Some x \<Rightarrow> is_fin x)"

lemma json_ptr_simps [json_simps]:
  "marshal_float_ptr p = (if writable_ptr p then Some (json_ptr p) else None)"
  "read_float_ptr (json_ptr p) = Some p"
  by (simp_all add: marshal_float_ptr_def writable_ptr_def json_ptr_def marshal_float_def
      read_float_ptr_def split: option.splits)

definition writable_stats :: "trade_stats \<Rightarrow> bool" where
  "writable_stats s \<longleftrightarrow>
     list_all writable_ptr
       [AvgWin s, AvgLoss s, BestTrade s, WorstTrade s, AvgPnlPerTrade s, AvgHoldingMinutes s,
        ProfitFactor s, RewardRisk s] \<and> is_fin (TradesPerWeek s)"

lemma unmarshal_marshal_stats:
  assumes "in64 (LongestWinStreak s)" "in64 (LongestLossStreak s)"
  shows "Option.bind (marshal_stats s) unmarshal_stats = (if writable_stats s then Some s else None)"
  using assms
  by (simp add: marshal_stats_def marshal_struct_def unmarshal_stats_def decode_struct_def
      json_simps json_key_def stats_keys_def set_stats_field_def zero_stats_def
      writable_stats_def)

definition writable_point :: "chart_point \<Rightarrow> bool" where
  "writable_point p \<longleftrightarrow> writable_time (Ts p) \<and> is_fin (Value p)"

lemma marshal_point_eq:
  "marshal_point p =
     (if writable_point p then Some (JObj [(''Ts'', JTime (Ts p)), (''Value'', JNum (Value p))])
      else None)"
  by (simp add: marshal_point_def marshal_struct_def json_simps writable_point_def
      writable_time_def)

definition points_doc :: "chart_point list \<Rightarrow> json" where
  "points_doc ps =
     (if ps = [] then JNull
      else JArr (map (\<lambda>p. JObj [(''Ts'', JTime (Ts p)), (''Value'', JNum (Value p))]) ps))"

lemma marshal_points_eq:
  "marshal_points ps = (if list_all writable_point ps then Some (points_doc ps) else None)"
proof -
  have "marshal_all marshal_point ps =
    (if list_all writable_point ps
     then Some (map (\<lambda>p. JObj [(''Ts'', JTime (Ts p)), (''Value'', JNum (Value p))]) ps)
     else None)"
    by (induction ps) (simp_all add: marshal_point_eq)
  then show ?thesis by (simp add: marshal_points_def points_doc_def)
qed

lemma decode_points_doc: "decode_array unmarshal_point (points_doc ps) = Some ps"
proof -
  have "unmarshal_point (JObj [(''Ts'', JTime (Ts p)), (''Value'', JNum (Value p))]) = Some p" for p
    by (simp add: unmarshal_point_def decode_struct_def json_simps set_point_field_def)
  then have "decode_all unmarshal_point
      (map (\<lambda>p. JObj [(''Ts'', JTime (Ts p)), (''Value'', JNum (Value p))]) ps) = Some ps"
    by (induction ps) simp_all
  then show ?thesis by (simp add: points_doc_def decode_array_def)
qed

lemma unmarshal_marshal_chart:
  "Option.bind (marshal_chart cd) unmarshal_chart =
     (if list_all writable_point (Equity cd) \<and> list_all writable_point (Drawdown cd)
      then Some cd else None)"
  by (simp add: marshal_chart_def marshal_points_eq marshal_struct_def unmarshal_chart_def
      decode_struct_def set_chart_field_def decode_points_doc)

text \<open>The domain run a row mapped from it reads back as.\<close>

definition readable_stats :: "trade_stats option \<Rightarrow> trade_stats option" where
  "readable_stats p = Option.bind p (\<lambda>s. if writable_stats s then Some s else None)"

definition readable_chart :: "chart_data option \<Rightarrow> chart_data option" where
  "readable_chart p = Option.bind p (\<lambda>cd.
     if list_all writable_point (Equity cd) \<and> list_all writable_point (Drawdown cd)
     then Some cd else None)"

definition streaks_in64 :: "backtest_run \<Rightarrow> bool" where
  "streaks_in64 r = (case bResultStats r of None \<Rightarrow> True
     | Some s \<Rightarrow> in64 (LongestWinStreak s) \<and> in64 (LongestLossStreak s))"

lemma run_roundtrip:
  assumes "streaks_in64 r"
  shows "toBacktestModel (toBacktestEntity r) =
    r\<lparr>bTrades := [], bStrategyName := None, bResultStats := readable_stats (bResultStats r),
      bChartData := readable_chart (bChartData r)\<rparr>"
proof -
  have "Option.bind (Option.bind (bResultStats r) marshal_stats) unmarshal_stats
      = readable_stats (bResultStats r)"
    using assms unmarshal_marshal_stats
    by (auto simp: readable_stats_def streaks_in64_def split: option.splits)
  moreover have "Option.bind (Option.bind (bChartData r) marshal_chart) unmarshal_chart
      = readable_chart (bChartData r)"
    using unmarshal_marshal_chart
    by (auto simp: readable_chart_def split: option.splits)
  ultimately show ?thesis
    by (simp add: toBacktestModel_def toBacktestEntity_def)
qed

end
