(* ===== verification/Backtest_Store.thy ===== *)
theory Backtest_Store
  imports Backtest_Rows
begin

text \<open>
  \<^verbatim>\<open>internal/storage/backtests.go\<close>: the statements of \<^verbatim>\<open>BacktestStore\<close> over the table of runs.
  Writes go by the identifier of the run, reads are scoped to a user. A run that belongs to
  somebody else reads like one that does not exist, and the pages of the completed runs
  partition the list their total counts.
\<close>

section \<open>Writing\<close>

definition num_nonnulls :: "bool list \<Rightarrow> nat" where
  "num_nonnulls bs = length (filter id bs)"

text \<open>The constraints of the migrations: the primary key, the reference to a strategy or a
  slug but not both, and the foreign keys.\<close>

definition insert_run :: "backtest_row \<Rightarrow> db \<Rightarrow> unit res \<times> db" where
  "insert_run row w =
     (if \<not> (case erLots row of None \<Rightarrow> True | Some n \<Rightarrow> int4 n) then (Inl int4_error, w)
      else if num_nonnulls [erStrategyID row \<noteq> None, erStrategySlug row \<noteq> None] \<noteq> 1
      then (Inl (check_violation ''chk_strategy_ref''), w)
      else if erID row \<in> erID ` set (db_backtest_runs w)
      then (Inl (unique_violation ''backtest_runs_pkey''), w)
      else if \<not> (case erUserID row of None \<Rightarrow> True | Some u \<Rightarrow> u \<in> euID ` set (db_users w))
      then (Inl (foreign_key_violation ''backtest_runs_user_id_fkey''), w)
      else if \<not> (case erStrategyID row of None \<Rightarrow> True | Some s \<Rightarrow> s \<in> esID ` set (db_strategies w))
      then (Inl (foreign_key_violation ''backtest_runs_strategy_id_fkey''), w)
      else (Inr (), w\<lparr>db_backtest_runs := db_backtest_runs w @ [row]\<rparr>))"

text \<open>The columns of the \<^verbatim>\<open>INSERT\<close>; the others take their defaults.\<close>

definition new_run_row :: "time \<Rightarrow> backtest_row \<Rightarrow> backtest_row" where
  "new_run_row t ent =
     ent\<lparr>erFromTs := timestamptz (erFromTs ent), erToTs := timestamptz (erToTs ent),
       erCapital := map_option numeric (erCapital ent),
       erNetPnl := None, erGrossPnl := None, erTotalCharges := None, erSlippage := None,
       erTotalTrades := None, erWinCount := None, erLossCount := None, erMaxDrawdown := None,
       erTradesJSON := None, erErrorMessage := None, erCreatedAt := timestamptz t,
       erCompletedAt := None, erResultStatsJSON := None, erChartDataJSON := None\<rparr>"

definition Create :: "backtest_run \<Rightarrow> db \<Rightarrow> backtest_run res \<times> db" where
  "Create run w =
     (let (run', w') = (if bID run = uuid_nil
                        then let (i, w') = uuid_New w in (run\<lparr>bID := i\<rparr>, w') else (run, w));
          ent = toBacktestEntity run'
      in case run_sql (\<lambda>v. insert_run (new_run_row (db_now v) ent) v) w' of
           (Inl e, v) \<Rightarrow> (Inl e, v)
         | (Inr _, v) \<Rightarrow> (Inr run', v))"

definition update_runs :: "uuid \<Rightarrow> (backtest_row \<Rightarrow> backtest_row) \<Rightarrow> db \<Rightarrow> db" where
  "update_runs i f w =
     w\<lparr>db_backtest_runs := map (\<lambda>r. if erID r = i then f r else r) (db_backtest_runs w)\<rparr>"

definition UpdateStatus :: "backtest_run \<Rightarrow> db \<Rightarrow> unit res \<times> db" where
  "UpdateStatus run =
     run_sql (\<lambda>w. (Inr (), update_runs (bID run) (\<lambda>r. r\<lparr>erStatus := bStatus run\<rparr>) w))"

text \<open>The columns \<^verbatim>\<open>UpdateResult\<close> sets, with \<open>tj\<close> the document of the trades.\<close>

definition result_row :: "time \<Rightarrow> backtest_row \<Rightarrow> json option \<Rightarrow> backtest_row \<Rightarrow> backtest_row" where
  "result_row t ent tj r =
     r\<lparr>erStatus := erStatus ent, erNetPnl := map_option numeric (erNetPnl ent),
       erTotalTrades := erTotalTrades ent, erWinCount := erWinCount ent,
       erLossCount := erLossCount ent, erMaxDrawdown := map_option numeric (erMaxDrawdown ent),
       erTradesJSON := map_option jsonb tj, erErrorMessage := erErrorMessage ent,
       erResultStatsJSON := map_option jsonb (erResultStatsJSON ent),
       erChartDataJSON := map_option jsonb (erChartDataJSON ent),
       erGrossPnl := map_option numeric (erGrossPnl ent),
       erTotalCharges := map_option numeric (erTotalCharges ent),
       erSlippage := map_option numeric (erSlippage ent), erSlippagePct := erSlippagePct ent,
       erCompletedAt := Some (timestamptz t)\<rparr>"

definition counts_int4 :: "backtest_row \<Rightarrow> bool" where
  "counts_int4 ent \<longleftrightarrow>
     list_all (\<lambda>p. case p of None \<Rightarrow> True | Some n \<Rightarrow> int4 n)
       [erTotalTrades ent, erWinCount ent, erLossCount ent]"

definition UpdateResult :: "backtest_run \<Rightarrow> db \<Rightarrow> unit res \<times> db" where
  "UpdateResult run w =
     (let ent = toBacktestEntity run
      in case (if bTrades run = [] then Inr None
               else map_sum id Some (encodeTradesJSON (bTrades run))) of
           Inl e \<Rightarrow> (Inl (Wrap ''encoding trades_json for backtest: '' e ''''), w)
         | Inr tj \<Rightarrow>
             run_sql (\<lambda>v. if \<not> counts_int4 ent then (Inl int4_error, v)
                         else (Inr (), update_runs (erID ent) (result_row (db_now v) ent tj) v)) w)"

section \<open>Reading\<close>

text \<open>\<^verbatim>\<open>WHERE id = $1 AND user_id = $2\<close>; a null \<^verbatim>\<open>user_id\<close> equals nothing.\<close>

definition own_run :: "uuid \<Rightarrow> uuid \<Rightarrow> backtest_row \<Rightarrow> bool" where
  "own_run i u r \<longleftrightarrow> erID r = i \<and> erUserID r = Some u"

definition not_found :: "err \<Rightarrow> err" where
  "not_found e = (if errors_is e pgx_ErrNoRows then ErrNotFound else e)"

definition GetByID :: "uuid \<Rightarrow> uuid \<Rightarrow> db \<Rightarrow> backtest_run res \<times> db" where
  "GetByID i u w =
     (case run_sql (\<lambda>v. (first_row (map scanBacktestRun (filter (own_run i u) (db_backtest_runs v))), v)) w of
        (Inl e, w') \<Rightarrow> (Inl (not_found e), w')
      | (Inr ent, w') \<Rightarrow> (Inr (toBacktestModel ent), w'))"

text \<open>The trades are decoded apart; a document that does not parse is an error here.\<close>

definition with_trades :: "backtest_row \<Rightarrow> backtest_run res" where
  "with_trades ent =
     (case erTradesJSON ent of None \<Rightarrow> Inr (toBacktestModel ent)
      | Some j \<Rightarrow>
         (case decodeTradesJSON (Some j) of
            Inl e \<Rightarrow> Inl (Wrap ''decoding trades_json for backtest: '' e '''')
          | Inr ts \<Rightarrow> Inr ((toBacktestModel ent)\<lparr>bTrades := ts\<rparr>)))"

definition GetByIDWithTrades :: "uuid \<Rightarrow> uuid \<Rightarrow> db \<Rightarrow> backtest_run res \<times> db" where
  "GetByIDWithTrades i u w =
     (case run_sql (\<lambda>v. (first_row (map scanBacktestRunWithTrades
                (filter (own_run i u) (db_backtest_runs v))), v)) w of
        (Inl e, w') \<Rightarrow> (Inl (not_found e), w')
      | (Inr ent, w') \<Rightarrow> (with_trades ent, w'))"

text \<open>The predicate the count and the page share, and the order of the page.\<close>

definition listed :: "uuid \<Rightarrow> backtest_row \<Rightarrow> bool" where
  "listed u r \<longleftrightarrow>
     erStatus r = BacktestCompleted \<and> erCompletedAt r \<noteq> None \<and>
     (case erTotalTrades r of None \<Rightarrow> False | Some n \<Rightarrow> 0 < n) \<and> erUserID r = Some u"

text \<open>\<^verbatim>\<open>ORDER BY completed_at DESC, created_at DESC\<close>. PostgreSQL fixes no order of rows with the same
  two times, and need not choose the same one for two pages; the model takes that of insertion, and
  the theorems about the order ask that the pair of times be a key.\<close>

definition newest_first :: "backtest_row list \<Rightarrow> backtest_row list" where
  "newest_first rs =
     sort_key (\<lambda>r. - the (erCompletedAt r)) (sort_key (\<lambda>r. - erCreatedAt r) rs)"

definition ListCompleted ::
  "uuid \<Rightarrow> goint \<Rightarrow> goint \<Rightarrow> db \<Rightarrow> (backtest_run list \<times> goint) res \<times> db" where
  "ListCompleted u page limit w =
     (case run_sql (\<lambda>v. (Inr (int (length (filter (listed u) (db_backtest_runs v)))), v)) w of
        (Inl e, w') \<Rightarrow> (Inl e, w')
      | (Inr n, w') \<Rightarrow>
         (let offset = wrap64 (wrap64 (page - 1) * limit)
          in case run_sql (\<lambda>v. (limit_offset limit offset
                      (newest_first (filter (listed u) (db_backtest_runs v))), v)) w' of
               (Inl e, w'') \<Rightarrow> (Inl e, w'')
             | (Inr rows, w'') \<Rightarrow>
                (Inr (map (toBacktestModel \<circ> scanBacktestRunRow) rows, n), w'')))"

definition LatestCompletedBySlug :: "string \<Rightarrow> uuid \<Rightarrow> db \<Rightarrow> backtest_run res \<times> db" where
  "LatestCompletedBySlug slug u w =
     (case run_sql (\<lambda>v. (first_row (map scanBacktestRun (sort_key (\<lambda>r. - erCreatedAt r)
              (filter (\<lambda>r. erStrategySlug r = Some slug \<and> erStatus r = BacktestCompleted \<and>
                          erUserID r = Some u) (db_backtest_runs v)))), v)) w of
        (Inl e, w') \<Rightarrow> (Inl (not_found e), w')
      | (Inr ent, w') \<Rightarrow> (Inr (toBacktestModel ent), w'))"

section \<open>The reads of a user depend on the runs of that user\<close>

definition visible :: "uuid \<Rightarrow> db \<Rightarrow> backtest_row list" where
  "visible u w = filter (\<lambda>r. erUserID r = Some u) (db_backtest_runs w)"

lemma filter_own_run:
  "filter (own_run i u) (db_backtest_runs w) = filter (\<lambda>r. erID r = i) (visible u w)"
  by (auto simp: visible_def own_run_def intro!: filter_cong)

lemma filter_listed:
  "filter (listed u) (db_backtest_runs w)
     = filter (\<lambda>r. erStatus r = BacktestCompleted \<and> erCompletedAt r \<noteq> None \<and>
         (case erTotalTrades r of None \<Rightarrow> False | Some n \<Rightarrow> 0 < n)) (visible u w)"
  by (auto simp: visible_def listed_def intro!: filter_cong)

lemma filter_slug:
  "filter (\<lambda>r. erStrategySlug r = Some slug \<and> erStatus r = BacktestCompleted \<and> erUserID r = Some u)
     (db_backtest_runs w)
     = filter (\<lambda>r. erStrategySlug r = Some slug \<and> erStatus r = BacktestCompleted) (visible u w)"
  by (simp add: visible_def conj_ac)

lemmas scoped_reads = filter_own_run filter_listed filter_slug

lemma visible_faults [simp]: "visible u (w\<lparr>db_faults := fs\<rparr>) = visible u w"
  by (simp add: visible_def)

lemma toBacktestModel_user [simp]: "bUserID (toBacktestModel e) = erUserID e"
  by (simp add: toBacktestModel_def)

lemma scan_user [simp]:
  "erUserID (scanBacktestRun r) = erUserID r" "erUserID (scanBacktestRunWithTrades r) = erUserID r"
  "erUserID (scanBacktestRunRow r) = erUserID r"
  by (simp_all add: scanBacktestRun_def scanBacktestRunWithTrades_def scanBacktestRunRow_def)

lemma set_newest_first [simp]: "set (newest_first rs) = set rs"
  by (simp add: newest_first_def)

lemma length_newest_first [simp]: "length (newest_first rs) = length rs"
  by (simp add: newest_first_def)

lemma first_row_Inr: "first_row rs = Inr r \<Longrightarrow> r \<in> set rs"
  by (cases rs) auto

lemma run_sql_read:
  "run_sql (\<lambda>v. (f v, v)) w =
     (case db_faults w of Some e # fs \<Rightarrow> Inl e | _ \<Rightarrow> f (w\<lparr>db_faults := tl (db_faults w)\<rparr>),
      w\<lparr>db_faults := tl (db_faults w)\<rparr>)"
  by (simp add: run_sql_def Let_def split: list.splits option.splits)

lemma limit_offset_Inr: "limit_offset l off xs = Inr ys \<Longrightarrow> set ys \<subseteq> set xs"
  by (auto simp: limit_offset_def split: if_splits dest: in_set_takeD in_set_dropD)

text \<open>The outcome of each read as a function of the next fault and the visible runs.\<close>

lemma GetByID_visible:
  "fst (GetByID i u w) =
     (case db_faults w of Some e # fs \<Rightarrow> Inl (not_found e)
      | _ \<Rightarrow> map_sum not_found toBacktestModel
               (first_row (map scanBacktestRun (filter (\<lambda>r. erID r = i) (visible u w)))))"
  by (simp add: GetByID_def run_sql_read scoped_reads split: list.split option.split sum.split)

lemma GetByIDWithTrades_visible:
  "fst (GetByIDWithTrades i u w) =
     (case db_faults w of Some e # fs \<Rightarrow> Inl (not_found e)
      | _ \<Rightarrow> (case filter (\<lambda>r. erID r = i) (visible u w) of
                [] \<Rightarrow> Inl ErrNotFound | r # _ \<Rightarrow> with_trades (scanBacktestRunWithTrades r)))"
  by (cases "filter (\<lambda>r. erID r = i) (visible u w)")
    (simp_all add: GetByIDWithTrades_def run_sql_read scoped_reads not_found_def
      err_const split: list.split option.split)

lemma ListCompleted_visible:
  "fst (ListCompleted u page limit w) =
     (let rs = filter (\<lambda>r. erStatus r = BacktestCompleted \<and> erCompletedAt r \<noteq> None \<and>
         (case erTotalTrades r of None \<Rightarrow> False | Some n \<Rightarrow> 0 < n)) (visible u w)
      in case db_faults w of Some e # fs \<Rightarrow> Inl e
      | _ \<Rightarrow> (case tl (db_faults w) of Some e # fs \<Rightarrow> Inl e
         | _ \<Rightarrow> map_sum id (\<lambda>rows. (map (toBacktestModel \<circ> scanBacktestRunRow) rows, int (length rs)))
              (limit_offset limit (wrap64 (wrap64 (page - 1) * limit)) (newest_first rs))))"
  by (simp add: ListCompleted_def run_sql_read scoped_reads Let_def
      split: list.split option.split sum.split)

lemma LatestCompletedBySlug_visible:
  "fst (LatestCompletedBySlug slug u w) =
     (case db_faults w of Some e # fs \<Rightarrow> Inl (not_found e)
      | _ \<Rightarrow> map_sum not_found toBacktestModel
               (first_row (map scanBacktestRun (sort_key (\<lambda>r. - erCreatedAt r)
                  (filter (\<lambda>r. erStrategySlug r = Some slug \<and> erStatus r = BacktestCompleted)
                     (visible u w))))))"
  by (simp add: LatestCompletedBySlug_def run_sql_read scoped_reads
      split: list.split option.split sum.split)

lemmas reads_visible =
  GetByID_visible GetByIDWithTrades_visible ListCompleted_visible LatestCompletedBySlug_visible

lemma visible_user: "r \<in> set (visible u w) \<Longrightarrow> erUserID r = Some u"
  by (simp add: visible_def)

lemma with_trades_user: "with_trades e = Inr r \<Longrightarrow> bUserID r = erUserID e"
  by (auto simp: with_trades_def split: option.splits sum.splits)

lemma filter_Cons_mem: "filter P xs = y # ys \<Longrightarrow> y \<in> set xs"
  by (metis filter_is_subset list.set_intros(1) subsetD)

lemma map_sum_Inr_conv: "map_sum f g x = Inr y \<longleftrightarrow> (\<exists>z. x = Inr z \<and> y = g z)"
  by (cases x) auto

lemma reads_own:
  "fst (GetByID i u w) = Inr r \<Longrightarrow> bUserID r = Some u"
  "fst (GetByIDWithTrades i u w) = Inr r \<Longrightarrow> bUserID r = Some u"
  "fst (ListCompleted u page limit w) = Inr (rs, n) \<Longrightarrow> r \<in> set rs \<Longrightarrow> bUserID r = Some u"
  "fst (LatestCompletedBySlug slug u w) = Inr r \<Longrightarrow> bUserID r = Some u"
proof -
  show "bUserID r = Some u" if "fst (GetByID i u w) = Inr r"
    using that by (auto simp: GetByID_visible visible_user map_sum_Inr_conv split: list.splits option.splits
        dest!: first_row_Inr)
  show "bUserID r = Some u" if "fst (GetByIDWithTrades i u w) = Inr r"
    using that by (auto simp: GetByIDWithTrades_visible visible_user split: list.splits option.splits
        dest!: with_trades_user filter_Cons_mem)
  show "bUserID r = Some u" if "fst (LatestCompletedBySlug slug u w) = Inr r"
    using that by (auto simp: LatestCompletedBySlug_visible visible_user map_sum_Inr_conv split: list.splits option.splits
        dest!: first_row_Inr)
  show "bUserID r = Some u" if "fst (ListCompleted u page limit w) = Inr (rs, n)" "r \<in> set rs"
    using that by (auto simp: ListCompleted_visible visible_user map_sum_Inr_conv Let_def split: list.splits option.splits
        dest!: limit_offset_Inr) (blast dest: visible_user)+
qed

text \<open>Reads are scoped to their user: whatever the tables hold of other users' runs, the
  four reads of a user return the same, found, missing or failing (so an identifier that
  belongs to somebody else cannot be told from one that does not exist), and every run they
  return is the user's own.\<close>

lemma tenant_isolation:
  assumes "visible u w = visible u w'" and "db_faults w = db_faults w'"
  shows "fst (GetByID i u w) = fst (GetByID i u w') \<and>
    fst (GetByIDWithTrades i u w) = fst (GetByIDWithTrades i u w') \<and>
    fst (ListCompleted u page limit w) = fst (ListCompleted u page limit w') \<and>
    fst (LatestCompletedBySlug slug u w) = fst (LatestCompletedBySlug slug u w') \<and>
    pred_sum (\<lambda>_. True) (\<lambda>r. bUserID r = Some u) (fst (GetByID i u w)) \<and>
    pred_sum (\<lambda>_. True) (\<lambda>r. bUserID r = Some u) (fst (GetByIDWithTrades i u w)) \<and>
    pred_sum (\<lambda>_. True) (\<lambda>p. list_all (\<lambda>r. bUserID r = Some u) (fst p))
      (fst (ListCompleted u page limit w)) \<and>
    pred_sum (\<lambda>_. True) (\<lambda>r. bUserID r = Some u) (fst (LatestCompletedBySlug slug u w))"
proof -
  have "fst (GetByID i u w) = fst (GetByID i u w')"
    "fst (GetByIDWithTrades i u w) = fst (GetByIDWithTrades i u w')"
    "fst (ListCompleted u page limit w) = fst (ListCompleted u page limit w')"
    "fst (LatestCompletedBySlug slug u w) = fst (LatestCompletedBySlug slug u w')"
    unfolding reads_visible assms by (rule refl)+
  then show ?thesis
    by (auto simp: pred_sum.simps reads_own list_all_iff intro: sum.exhaust)
qed

text \<open>A run with nothing but its keys, for the concrete instances.\<close>

definition blank_run :: backtest_run where
  "blank_run =
     \<lparr>bID = 7, bUserID = Some 1, bStrategyID = None, bInstrumentToken = ''NIFTY-FUTCONT'',
      bSignalInstrumentToken = None, bFromTs = 0, bToTs = 0, bCandleInterval = CandleInterval1D,
      bStatus = BacktestRunning, bNetPnl = None, bGrossPnl = None, bTotalCharges = None,
      bSlippage = None, bTotalTrades = None, bWinCount = None, bLossCount = None,
      bMaxDrawdown = None, bTrades = [], bErrorMessage = None, bCreatedAt = 0,
      bCompletedAt = None, bStrategySlug = Some ''ma_crossover'', bStrategyName = None,
      bCapital = None, bLots = None, bUnderlying = None, bResultStats = None,
      bChartData = None, bSlippagePct = 0\<rparr>"

definition completed_row :: "uuid \<Rightarrow> time \<Rightarrow> backtest_row" where
  "completed_row i t =
     (toBacktestEntity blank_run)\<lparr>erID := i, erStatus := BacktestCompleted,
       erTotalTrades := Some 1, erCompletedAt := Some t\<rparr>"

lemma tenant_isolation_witness:
  "fst (GetByID 7 2 ((empty_db 0)\<lparr>db_backtest_runs := [completed_row 7 10]\<rparr>))
     = fst (GetByID 7 2 (empty_db 0))"
  by (rule conjunct1 [OF tenant_isolation])
    (simp_all add: visible_def empty_db_def completed_row_def toBacktestEntity_def blank_run_def)

section \<open>Pages\<close>

definition completed_rows :: "uuid \<Rightarrow> db \<Rightarrow> backtest_row list" where
  "completed_rows u w = newest_first (filter (listed u) (db_backtest_runs w))"

definition page_of :: "uuid \<Rightarrow> goint \<Rightarrow> db \<Rightarrow> nat \<Rightarrow> backtest_run list" where
  "page_of u limit w k =
     (case fst (ListCompleted u (int k) limit w) of Inl e \<Rightarrow> [] | Inr (rs, n) \<Rightarrow> rs)"

lemma concat_pages:
  "concat (map (\<lambda>k. take l (drop ((k - 1) * l) xs)) [1..<Suc n]) = take (n * l) xs"
proof (induction n)
  case (Suc n)
  have "take (n * l) xs @ take l (drop (n * l) xs) = take (n * l + l) xs"
    by (simp add: take_add)
  with Suc show ?case by (simp add: add.commute)
qed simp

lemma ListCompleted_page:
  assumes "db_faults w = []" "0 < limit" "1 \<le> k" "int k * limit < 2 ^ 63"
  shows "fst (ListCompleted u (int k) limit w) =
    Inr (map (toBacktestModel \<circ> scanBacktestRunRow)
           (take (nat limit) (drop ((k - 1) * nat limit) (completed_rows u w))),
         int (length (completed_rows u w)))"
proof -
  have "int k \<le> int k * limit" using assms(2) by (simp add: mult_le_cancel_left1)
  then have "int k < 2 ^ 63" using assms(4) by (rule le_less_trans)
  then have "in64 (int k - 1)" using assms(3) by (simp add: in64_def)
  moreover have "(int k - 1) * limit \<le> int k * limit" using assms(2) by (simp add: mult_right_mono)
  then have "(int k - 1) * limit < 2 ^ 63" using assms(4) by (rule le_less_trans)
  moreover have nn: "0 \<le> (int k - 1) * limit" using assms(2,3) by simp
  ultimately have "in64 ((int k - 1) * limit)" unfolding in64_def
    by (meson dual_order.trans neg_0_le_iff_le neg_le_0_iff_le zero_le_numeral zero_le_power)
  with \<open>in64 (int k - 1)\<close> have off: "wrap64 (wrap64 (int k - 1) * limit) = (int k - 1) * limit"
    by simp
  note nn moreover have "nat ((int k - 1) * limit) = (k - 1) * nat limit"
    using assms(2,3) by (simp add: nat_mult_distrib nat_diff_distrib)
  ultimately show ?thesis
    using assms(2)
    by (simp add: ListCompleted_def run_sql_no_fault assms(1) Let_def off limit_offset_def
        completed_rows_def del: of_nat_le_0_iff)
qed

text \<open>What the \<^verbatim>\<open>ORDER BY\<close> promises of a result, and that distinct pairs of times leave it one.\<close>

definition newer :: "backtest_row \<Rightarrow> backtest_row \<Rightarrow> bool" where
  "newer a b \<longleftrightarrow> the (erCompletedAt b) < the (erCompletedAt a) \<or>
     (the (erCompletedAt b) = the (erCompletedAt a) \<and> erCreatedAt b \<le> erCreatedAt a)"

lemma sorted_by_two:
  fixes f g :: "'a \<Rightarrow> 'b::linorder"
  assumes "sorted (map f xs)" "\<And>k. sorted (map g (filter (\<lambda>x. f x = k) xs))"
  shows "sorted_wrt (\<lambda>a b. f a < f b \<or> (f a = f b \<and> g a \<le> g b)) xs"
  using assms
proof (induction xs)
  case (Cons x xs)
  have "sorted (map g (filter (\<lambda>x. f x = k) xs))" for k
    using Cons.prems(2) [of k] by (cases "f x = k") simp_all
  with Cons have "sorted_wrt (\<lambda>a b. f a < f b \<or> (f a = f b \<and> g a \<le> g b)) xs" by simp
  moreover have "f x < f y \<or> (f x = f y \<and> g x \<le> g y)" if "y \<in> set xs" for y
  proof -
    have "f x \<le> f y" using Cons.prems(1) that by simp
    moreover have "g x \<le> g y" if "f y = f x" using Cons.prems(2) [of "f x"] \<open>y \<in> set xs\<close> that by simp
    ultimately show ?thesis by fastforce
  qed
  ultimately show ?case by simp
qed simp

lemma newest_first_newer: "sorted_wrt newer (newest_first rs)"
proof -
  have "sorted_wrt (\<lambda>a b. - the (erCompletedAt a) < - the (erCompletedAt b) \<or>
      (- the (erCompletedAt a) = - the (erCompletedAt b) \<and> - erCreatedAt a \<le> - erCreatedAt b)) (newest_first rs)"
    unfolding newest_first_def
  proof (rule sorted_by_two)
    fix k
    have "filter (\<lambda>x. - the (erCompletedAt x) = k) (sort_key (\<lambda>r. - the (erCompletedAt r)) (sort_key (\<lambda>r. - erCreatedAt r) rs))
        = filter (\<lambda>x. - the (erCompletedAt x) = k) (sort_key (\<lambda>r. - erCreatedAt r) rs)"
      by (rule sort_key_stable)
    then show "sorted (map (\<lambda>r. - erCreatedAt r) (filter (\<lambda>x. - the (erCompletedAt x) = k)
        (sort_key (\<lambda>r. - the (erCompletedAt r)) (sort_key (\<lambda>r. - erCreatedAt r) rs))))"
      by (simp add: sorted_filter)
  qed simp
  then show ?thesis by (rule sorted_wrt_mono_rel [rotated]) (auto simp: newer_def)
qed

lemma newer_unique:
  assumes "sorted_wrt newer xs" "sorted_wrt newer ys" "distinct xs" "distinct ys" "set xs = set ys"
    and "inj_on (\<lambda>r. (the (erCompletedAt r), erCreatedAt r)) (set xs)"
  shows "xs = ys"
  using assms
proof (induction xs arbitrary: ys)
  case (Cons x xs)
  obtain y ys' where ys: "ys = y # ys'" using Cons.prems(5) by (cases ys) auto
  have anti: "a = b" if "newer a b" "newer b a" "a \<in> set (x # xs)" "b \<in> set (x # xs)" for a b
    using that by (intro inj_onD [OF Cons.prems(6)]) (auto simp: newer_def)
  have "x = y"
  proof (rule ccontr)
    assume "x \<noteq> y"
    then have "newer x y" "newer y x" using Cons.prems(1,2,5) by (auto simp: ys set_eq_iff)
    moreover have "y \<in> set (x # xs)" unfolding Cons.prems(5) by (simp add: ys)
    ultimately show False using \<open>x \<noteq> y\<close> anti [of x y] by simp
  qed
  moreover have "set xs = set ys'"
    using Cons.prems(3,4,5) \<open>x = y\<close> by (simp add: ys insert_ident)
  moreover have "inj_on (\<lambda>r. (the (erCompletedAt r), erCreatedAt r)) (set xs)"
    using Cons.prems(6) by (rule inj_on_subset) auto
  ultimately have "xs = ys'" using Cons.prems(1-4) by (intro Cons.IH) (simp_all add: ys)
  with \<open>x = y\<close> show ?case by (simp add: ys)
qed simp

text \<open>C35. The list of completed runs is paged without gap or repetition, provided no two of the
  runs it is about have the same times of completion and creation: the rows the user may see have
  then exactly one order the \<^verbatim>\<open>ORDER BY\<close> allows, the most recently completed first, and the first
  \<open>n\<close> pages laid end to end are its first \<open>n\<close> times \<open>limit\<close> runs, so all of it, each run
  once, when they reach the total; and every page reports that total.\<close>

theorem ListCompleted_pages:
  assumes "db_faults w = []" and "0 < limit" and "int n * limit < 2 ^ 63"
    and "distinct (map erID (db_backtest_runs w))"
    and "distinct (map (\<lambda>r. (the (erCompletedAt r), erCreatedAt r)) (filter (listed u) (db_backtest_runs w)))"
  shows "\<exists>rows. (\<forall>rs. distinct rs \<and> set rs = {r \<in> set (db_backtest_runs w). listed u r} \<and>
              sorted_wrt newer rs \<longleftrightarrow> rs = rows) \<and>
            concat (map (page_of u limit w) [1..<Suc n])
              = map (toBacktestModel \<circ> scanBacktestRunRow) (take (n * nat limit) rows) \<and>
            list_all (\<lambda>k. \<exists>rs. fst (ListCompleted u (int k) limit w) = Inr (rs, int (length rows)))
              [1..<Suc n]"
proof -
  let ?rows = "completed_rows u w"
  have k: "int k * limit < 2 ^ 63" if "k \<in> set [1..<Suc n]" for k
  proof -
    have "int k \<le> int n" using that by auto
    then have "int k * limit \<le> int n * limit" using assms(2) by (simp add: mult_right_mono)
    with assms(3) show ?thesis by simp
  qed
  have page: "fst (ListCompleted u (int k) limit w) =
    Inr (map (toBacktestModel \<circ> scanBacktestRunRow)
           (take (nat limit) (drop ((k - 1) * nat limit) ?rows)),
         int (length ?rows))" if "k \<in> set [1..<Suc n]" for k
    by (rule ListCompleted_page [OF assms(1,2) _ k [OF that]]) (use that in auto)
  have "map (page_of u limit w) [1..<Suc n]
      = map (\<lambda>k. map (toBacktestModel \<circ> scanBacktestRunRow)
           (take (nat limit) (drop ((k - 1) * nat limit) ?rows))) [1..<Suc n]"
    by (rule map_cong [OF refl]) (simp only: page page_of_def sum.case prod.case)
  then have pages: "concat (map (page_of u limit w) [1..<Suc n])
      = map (toBacktestModel \<circ> scanBacktestRunRow) (take (n * nat limit) ?rows)"
    by (simp only: concat_pages [symmetric] map_concat map_map comp_def)
  have rows: "distinct ?rows" "set ?rows = {r \<in> set (db_backtest_runs w). listed u r}"
    "sorted_wrt newer ?rows"
    using assms(4) newest_first_newer by (simp_all add: completed_rows_def newest_first_def distinct_map)
  have inj: "inj_on (\<lambda>r. (the (erCompletedAt r), erCreatedAt r)) (set rs)"
    if "set rs = {r \<in> set (db_backtest_runs w). listed u r}" for rs
    using assms(5) that by (simp add: distinct_map)
  have "distinct rs \<and> set rs = {r \<in> set (db_backtest_runs w). listed u r} \<and> sorted_wrt newer rs
      \<longleftrightarrow> rs = ?rows" for rs
    using newer_unique [of rs ?rows] inj [of rs] rows by blast
  moreover have "list_all (\<lambda>k. \<exists>rs. fst (ListCompleted u (int k) limit w)
      = Inr (rs, int (length ?rows))) [1..<Suc n]"
    unfolding list_all_iff using page by blast
  ultimately show ?thesis using pages by blast
qed

definition three_runs :: db where
  "three_runs = (empty_db 0)\<lparr>db_backtest_runs := map (\<lambda>i. completed_row i (int i)) [1, 2, 3]\<rparr>"

lemma ListCompleted_pages_witness:
  "\<exists>rows. concat (map (page_of 1 2 three_runs) [1..<Suc 2])
            = map (toBacktestModel \<circ> scanBacktestRunRow) (take (2 * nat 2) rows) \<and>
          set rows = {r \<in> set (db_backtest_runs three_runs). listed 1 r}"
proof -
  have "db_faults three_runs = []" "distinct (map erID (db_backtest_runs three_runs))"
    "distinct (map (\<lambda>r. (the (erCompletedAt r), erCreatedAt r)) (filter (listed 1) (db_backtest_runs three_runs)))"
    by (simp_all add: three_runs_def empty_db_def completed_row_def listed_def)
  from ListCompleted_pages [OF this(1) _ _ this(2,3), of 2 2] show ?thesis by auto
qed

end
