(* ===== verification/Float8_Numeric.thy ===== *)
theory Float8_Numeric
  imports F64_Order Json
begin

text \<open>
  PostgreSQL's cast from \<^verbatim>\<open>DOUBLE PRECISION\<close> to \<^verbatim>\<open>NUMERIC\<close>, which the bulk insert of candles goes
  through: \<^verbatim>\<open>float8_numeric\<close> of the server prints the double with \<^verbatim>\<open>DBL_DIG\<close> = 15 significant
  digits (\<^verbatim>\<open>%.15g\<close>, to nearest, ties to even) and keeps that decimal. A column is modelled by the
  double its decimal reads back as. A decimal of at most fifteen digits survives the cast; a
  double like \<^verbatim>\<open>0.30000000000000004\<close> does not. For a double within 15 digits of the largest one the
  decimal exceeds every double, which the model shows as an infinity.
\<close>

section \<open>The cast\<close>

function decimal_length :: "int \<Rightarrow> int" where
  "decimal_length n = (if n < 10 then 1 else 1 + decimal_length (n div 10))"
  by pat_completeness auto
termination
  by (relation "measure nat") auto

function tenfolds :: "int \<Rightarrow> int \<Rightarrow> int" where
  "tenfolds n d = (if n \<le> 0 \<or> d \<le> n then 0 else 1 + tenfolds (10 * n) d)"
  by pat_completeness auto
termination
  by (relation "measure (\<lambda>(n, d). nat (d - n))") auto

declare decimal_length.simps [simp del] tenfolds.simps [simp del]

text \<open>The exponent of the first digit of \<open>n / d\<close>.\<close>

definition decimal_exponent :: "int \<Rightarrow> int \<Rightarrow> int" where
  "decimal_exponent n d = (if d \<le> n then decimal_length (n div d) - 1 else - tenfolds n d)"

fun float8_numeric :: "f64 \<Rightarrow> f64" where
  "float8_numeric (FNum s m e) =
     (if m = 0 then 0
      else let n = m * 2 ^ nat e; d = 2 ^ nat (- e);
               k = decimal_exponent n d - 14;
               q = rne (n * 10 ^ nat (- k)) (d * 10 ^ nat k)
           in round64 s (q * 10 ^ nat k) (10 ^ nat (- k)) 0)"
| "float8_numeric x = x"

section \<open>What the cast keeps\<close>

lemma powi_split: "(b::real) \<noteq> 0 \<Longrightarrow> b powi k = b ^ nat k / b ^ nat (- k)"
proof (cases "0 \<le> k")
  case False
  then show ?thesis by (simp only: power_int_def if_False) (simp add: field_simps)
qed (simp add: power_int_def)

lemma decimal_length_pos: "0 < decimal_length n"
proof (induction n rule: decimal_length.induct)
  case (1 n)
  show ?case
  proof (cases "n < 10")
    case False
    with 1 have "0 < decimal_length (n div 10)" .
    with False show ?thesis by (subst decimal_length.simps) simp
  qed (subst decimal_length.simps, simp)
qed

lemma decimal_length_bounds:
  "0 < n \<Longrightarrow> 10 powi (decimal_length n - 1) \<le> real_of_int n \<and> real_of_int n < 10 powi decimal_length n"
proof (induction n rule: decimal_length.induct)
  case (1 n)
  show ?case
  proof (cases "n < 10")
    case True
    with 1(2) show ?thesis by (simp add: decimal_length.simps [of n])
  next
    case False
    then have ih: "10 powi (decimal_length (n div 10) - 1) \<le> real_of_int (n div 10)"
      "real_of_int (n div 10) < 10 powi decimal_length (n div 10)"
      using 1(1) by simp_all
    have len: "decimal_length n = decimal_length (n div 10) + 1"
      using False by (simp add: decimal_length.simps [of n])
    have pos: "0 \<le> decimal_length (n div 10)" using decimal_length_pos [of "n div 10"] by simp
    define p where "p = (10::int) ^ nat (decimal_length (n div 10))"
    have p: "(10::real) powi decimal_length (n div 10) = of_int p"
      using pos by (simp add: p_def power_int_def)
    have "n div 10 < p" using ih(2) unfolding p by simp
    then have "n < 10 * p" by presburger
    then have "real_of_int n < 10 * of_int p" by linarith
    moreover have "10 * (n div 10) \<le> n" by presburger
    then have "real_of_int (10 * (n div 10)) \<le> of_int n" by (simp only: of_int_le_iff)
    then have "(10::real) * 10 powi (decimal_length (n div 10) - 1) \<le> real_of_int n"
      using ih(1) by simp
    ultimately show ?thesis
      by (simp add: len power_int_add p power_int_diff)
  qed
qed

lemma tenfolds_bounds:
  "0 < n \<Longrightarrow> n < d \<Longrightarrow>
     real_of_int d \<le> of_int n * 10 powi tenfolds n d \<and> of_int n * 10 powi tenfolds n d < 10 * real_of_int d"
proof (induction n d rule: tenfolds.induct)
  case (1 n d)
  have eq: "tenfolds n d = 1 + tenfolds (10 * n) d" using 1(2,3) by (simp add: tenfolds.simps [of n])
  show ?case
  proof (cases "10 * n < d")
    case True
    with 1 show ?thesis by (simp add: eq power_int_add algebra_simps)
  next
    case False
    then have "tenfolds (10 * n) d = 0" by (simp add: tenfolds.simps [of "10 * n"])
    moreover have "real_of_int d \<le> 10 * of_int n" "10 * real_of_int n < 10 * of_int d"
      using False 1(3) by linarith+
    ultimately show ?thesis by (simp add: eq algebra_simps)
  qed
qed

lemma decimal_exponent_bounds:
  assumes "0 < n" "0 < d"
  shows "10 powi decimal_exponent n d \<le> real_of_int n / of_int d"
    and "real_of_int n / of_int d < 10 powi (decimal_exponent n d + 1)"
proof -
  have "10 powi decimal_exponent n d \<le> real_of_int n / of_int d \<and>
    real_of_int n / of_int d < 10 powi (decimal_exponent n d + 1)"
  proof (cases "d \<le> n")
    case True
    then have q: "0 < n div d" using assms by (simp add: pos_imp_zdiv_pos_iff)
    define l where "l = decimal_length (n div d)"
    have l: "0 < l" unfolding l_def by (rule decimal_length_pos)
    have b: "10 powi (l - 1) \<le> real_of_int (n div d)" "real_of_int (n div d) < 10 powi l"
      using decimal_length_bounds [OF q] by (simp_all add: l_def)
    have "real_of_int (n div d) \<le> real_of_int n / of_int d" by (rule real_of_int_div4)
    moreover have "real_of_int n / of_int d < of_int (n div d) + 1"
      using floor_divide_of_int_eq [of n d, where 'a = real] by linarith
    moreover have "real_of_int (n div d) + 1 \<le> 10 powi l"
    proof -
      have p: "(10::real) powi l = of_int (10 ^ nat l)" using l by (simp add: power_int_def)
      have "n div d < 10 ^ nat l" using b(2) unfolding p of_int_less_iff .
      then have "n div d + 1 \<le> 10 ^ nat l" by simp
      then show ?thesis unfolding p using of_int_le_iff [of "n div d + 1"] by (simp only: of_int_add of_int_1)
    qed
    ultimately show ?thesis using True b(1) by (simp add: decimal_exponent_def l_def)
  next
    case False
    define t where "t = tenfolds n d"
    have t: "real_of_int d \<le> of_int n * 10 powi t" "of_int n * 10 powi t < 10 * real_of_int d"
      using tenfolds_bounds [of n d] False assms by (simp_all add: t_def)
    have "(10::real) powi (- t) = 1 / 10 powi t" "(10::real) powi (1 - t) = 10 / 10 powi t"
      by (simp_all add: power_int_minus power_int_diff divide_inverse)
    moreover have "(0::real) < 10 powi t" by simp
    ultimately show ?thesis using False t assms
      by (simp add: decimal_exponent_def flip: t_def) (simp add: field_simps)
  qed
  then show "10 powi decimal_exponent n d \<le> real_of_int n / of_int d"
    "real_of_int n / of_int d < 10 powi (decimal_exponent n d + 1)" by simp_all
qed

lemma rnei_near: "\<bar>of_int (rnei x) - x\<bar> \<le> 1 / 2"
  unfolding rnei_def by auto

lemma rnei_nearest: "\<bar>x - of_int q\<bar> < 1 / 2 \<Longrightarrow> rnei x = q"
  using rnei_near [of x] by linarith

lemma float8_numeric_value:
  assumes "wf64 (FNum s m e)" "m \<noteq> 0"
  obtains k where "10 powi (k + 14) \<le> \<bar>xval (FNum s m e)\<bar>" "\<bar>xval (FNum s m e)\<bar> < 10 powi (k + 15)"
    "xval (float8_numeric (FNum s m e)) =
       (if s then - 1 else 1) * rd (of_int (rnei (\<bar>xval (FNum s m e)\<bar> / 10 powi k)) * 10 powi k)"
    "wf64 (float8_numeric (FNum s m e))" "\<not> is_nan (float8_numeric (FNum s m e))"
    "signbit (float8_numeric (FNum s m e)) = s"
proof -
  define n where "n = m * 2 ^ nat e"
  define d :: int where "d = 2 ^ nat (- e)"
  define k where "k = decimal_exponent n d - 14"
  define q where "q = rne (n * 10 ^ nat (- k)) (d * 10 ^ nat k)"
  have m: "0 < m" using assms by simp
  have pos: "0 < n" "0 < d" "0 < d * 10 ^ nat k" using m by (simp_all add: n_def d_def)
  have x: "\<bar>xval (FNum s m e)\<bar> = of_int n / of_int d"
    using m powi_split [of 2 e] by (simp add: n_def d_def smant_def abs_mult)
  have r: "real_of_int (n * 10 ^ nat (- k)) / of_int (d * 10 ^ nat k) = of_int n / of_int d / 10 powi k"
    using pos(2) by (simp add: powi_split [of 10 k] field_simps)
  have q': "q = rnei (of_int n / of_int d / 10 powi k)"
    unfolding q_def rne_rnei [OF pos(3)] r ..
  have "0 \<le> q" using rnei_mono [of 0 "of_int n / of_int d / 10 powi k"] pos rnei_of_int [of 0] by (simp add: q')
  then have nn: "0 \<le> q * 10 ^ nat k" "(0::int) < 10 ^ nat (- k)" by simp_all
  have cast: "float8_numeric (FNum s m e) = round64 s (q * 10 ^ nat k) (10 ^ nat (- k)) 0"
    using assms(2) by (simp add: Let_def n_def d_def k_def q_def)
  have v: "real_of_int (q * 10 ^ nat k) / of_int (10 ^ nat (- k)) * 2 powi 0 = of_int q * 10 powi k"
    by (simp add: powi_split [of 10 k])
  have k': "k + 14 = decimal_exponent n d" "k + 15 = decimal_exponent n d + 1" by (simp_all add: k_def)
  note round = round64_correct [OF nn, of s 0, unfolded v, folded cast]
  show thesis
    by (rule that [of k]) (use decimal_exponent_bounds [OF pos(1,2)] round in \<open>simp_all only: x k' q' not_False_eq_True\<close>)
qed

lemma rd_relative:
  assumes "2 powi - 1022 \<le> x" "x < 2 ^ 1023"
  shows "\<bar>rd x - x\<bar> \<le> x / 2 ^ 53"
proof -
  have x: "0 < x" using assms(1) by (rule less_le_trans [rotated]) simp
  define E where "E = fexp x"
  have exp: "is_exp x E" unfolding E_def by (rule fexp_is_exp [OF x])
  have lo: "2 powi (E + 52) \<le> x"
  proof (cases "E = emin")
    case True
    with assms(1) show ?thesis by (simp add: emin_def)
  qed (use exp in \<open>simp add: is_exp_def\<close>)
  have "rde x E - x = (of_int (rnei (x / 2 powi E)) - x / 2 powi E) * 2 powi E"
    by (simp add: rde_def left_diff_distrib)
  then have "\<bar>rde x E - x\<bar> = \<bar>of_int (rnei (x / 2 powi E)) - x / 2 powi E\<bar> * 2 powi E"
    by (simp add: abs_mult)
  also have "\<dots> \<le> 1 / 2 * 2 powi E" by (intro mult_right_mono rnei_near) simp
  also have "\<dots> \<le> x / 2 ^ 53" using lo by (simp add: powi_two_add field_simps)
  finally have near: "\<bar>rde x E - x\<bar> \<le> x / 2 ^ 53" .
  have "x / 2 ^ 53 \<le> x" using x by (simp add: field_simps)
  then have "rde x E \<le> 2 * x" using near by linarith
  then have "rde x E \<le> 2 ^ 1024" using assms(2) by simp
  with near x show ?thesis by (simp add: rd_pos E_def)
qed

text \<open>A decimal of at most fifteen digits is what the cast of its double gives back.\<close>

lemma fifteen_digits_grid:
  fixes c x :: real
  assumes c: "c = of_int q / 10 ^ j" "0 < q" "q < 10 ^ 15" and near: "\<bar>x - c\<bar> \<le> c / 2 ^ 53"
    and k: "10 powi (k + 14) \<le> x" "x < 10 powi (k + 15)"
  shows "of_int (rnei (x / 10 powi k)) * 10 powi k = c"
proof -
  have ten: "(0::real) < 10 powi k" by simp
  have "\<exists>p::int. c = of_int p * 10 powi k"
  proof (cases "k \<le> - int j")
    case True
    have "(10::real) powi (- int j) = 10 ^ nat (- int j - k) * 10 powi k"
      using True by (simp add: power_int_add [symmetric] flip: power_int_of_nat)
    then have "c = of_int (q * 10 ^ nat (- int j - k)) * 10 powi k"
      by (simp add: c(1) power_int_minus divide_inverse)
    then show ?thesis by blast
  next
    case False
    define u :: real where "u = 10 powi (- int j)"
    have u: "0 < u" "c = of_int q * u" by (simp_all add: u_def c(1) power_int_minus divide_inverse)
    have "15 - int j \<le> k + 14" using False by simp
    then have "(10::real) powi (15 - int j) \<le> 10 powi (k + 14)" by (intro power_int_increasing) simp_all
    moreover have "(10::real) powi (15 - int j) = 10 ^ 15 * u"
      using power_int_add [of "10::real" 15 "- int j"] by (simp add: u_def)
    moreover have "real_of_int q \<le> 10 ^ 15 - 1" using c(3) by simp
    then have "c \<le> (10 ^ 15 - 1) * u" using u by (simp add: mult_right_mono)
    then have "c + c / 2 ^ 53 \<le> (10 ^ 15 - 1) * u + (10 ^ 15 - 1) * u / 2 ^ 53"
      by (intro add_mono divide_right_mono) simp_all
    moreover have "x \<le> c + c / 2 ^ 53" using near by linarith
    ultimately have "10 ^ 15 * u \<le> (10 ^ 15 - 1) * u + (10 ^ 15 - 1) * u / 2 ^ 53" using k(1) by linarith
    then show ?thesis using u(1) by (simp add: field_simps)
  qed
  then obtain p :: int where p: "c = of_int p * 10 powi k" by blast
  have "x / 10 powi k < 10 ^ 15"
    using k(2) ten by (simp add: power_int_add field_simps)
  moreover have "\<bar>x / 10 powi k - of_int p\<bar> \<le> of_int p / 2 ^ 53"
  proof -
    have "x / 10 powi k - of_int p = (x - c) / 10 powi k" by (simp add: p diff_divide_distrib)
    then have "\<bar>x / 10 powi k - of_int p\<bar> = \<bar>x - c\<bar> / 10 powi k" by simp
    also have "\<dots> \<le> c / 2 ^ 53 / 10 powi k" using near by (intro divide_right_mono) simp_all
    also have "\<dots> = of_int p / 2 ^ 53" by (simp add: p)
    finally show ?thesis .
  qed
  moreover have "\<bar>y - a\<bar> < 1 / 2" if "y < 10 ^ 15" "\<bar>y - a\<bar> \<le> a / 2 ^ 53" for y a :: real
  proof -
    have "a - y \<le> a / 2 ^ 53" using that(2) by linarith
    with that(1) have "a < 2 * 10 ^ 15" by simp
    then have "a / 2 ^ 53 < 1 / 2" by simp
    with that(2) show ?thesis by linarith
  qed
  ultimately have "\<bar>x / 10 powi k - of_int p\<bar> < 1 / 2" by blast
  then have "rnei (x / 10 powi k) = p" by (rule rnei_nearest)
  then show ?thesis by (simp add: p)
qed

lemma float8_numeric_keeps:
  assumes q: "\<bar>q\<bar> < 10 ^ 15" and j: "j \<le> 290"
  shows "float8_numeric (lit q (10 ^ j)) = lit q (10 ^ j)"
proof (cases "q = 0")
  case True
  then show ?thesis by (simp add: lit_def round64_def zero_f64_def)
next
  case False
  let ?x = "lit q (10 ^ j)" and ?c = "of_int \<bar>q\<bar> / 10 ^ j :: real"
  have d: "(0::int) < 10 ^ j" by simp
  have "(10::real) ^ j \<le> 10 ^ 290" using j by (intro power_increasing) simp_all
  then have "1 / 10 ^ 290 \<le> (1::real) / 10 ^ j" by (simp add: frac_le)
  also have "\<dots> \<le> ?c" using False by (intro divide_right_mono) simp_all
  finally have "1 / 10 ^ 290 \<le> ?c" .
  then have lo: "2 powi - 1022 \<le> ?c" by (simp add: power_int_minus)
  have "?c \<le> of_int \<bar>q\<bar> / 1" by (intro divide_left_mono) simp_all
  then have hi: "?c < 2 ^ 1023" using q by simp
  have v: "xval ?x = (if q < 0 then - 1 else 1) * rd ?c" "signbit ?x \<longleftrightarrow> q < 0"
    using round64_correct [of "\<bar>q\<bar>" "10 ^ j" "q < 0" 0] by (simp_all add: lit_def)
  have near: "\<bar>rd ?c - ?c\<bar> \<le> ?c / 2 ^ 53" by (rule rd_relative [OF lo hi])
  have c: "0 < ?c" using False by simp
  have "?c / 2 ^ 53 < ?c" using c by (simp add: field_simps)
  then have r: "0 < rd ?c" "rd ?c < 2 * ?c" using near by linarith+
  then have ax: "\<bar>xval ?x\<bar> = rd ?c" by (simp add: v(1) abs_mult)
  have "rd ?c < 2 ^ 1024" using r(2) hi by simp
  then have "is_fin ?x" using fin_if_bounded [of ?x] d ax by simp
  then obtain s m e where x: "?x = FNum s m e" by (cases ?x) simp_all
  have w: "wf64 (FNum s m e)" unfolding x [symmetric] using d by (rule wf64_lit)
  have "m \<noteq> 0" using ax r(1) by (cases s) (auto simp: x smant_def)
  then obtain k where k: "10 powi (k + 14) \<le> rd ?c" "rd ?c < 10 powi (k + 15)"
    "xval (float8_numeric ?x) = (if s then - 1 else 1) * rd (of_int (rnei (rd ?c / 10 powi k)) * 10 powi k)"
    "wf64 (float8_numeric ?x)" "\<not> is_nan (float8_numeric ?x)" "signbit (float8_numeric ?x) = s"
    using float8_numeric_value [OF w] unfolding x [symmetric] ax by metis
  have "of_int (rnei (rd ?c / 10 powi k)) * 10 powi k = ?c"
    by (rule fifteen_digits_grid [of _ "\<bar>q\<bar>" j]) (use False q near k in simp_all)
  moreover have s: "s \<longleftrightarrow> q < 0" using v(2) by (simp add: x)
  ultimately have "xval (float8_numeric ?x) = xval ?x" using k(3) v(1) by simp
  then show ?thesis using k(4,5,6) d s v(2) by (intro f64_eqI) simp_all
qed

text \<open>A sum that picked up a seventeenth digit loses it.\<close>

lemma float8_numeric_seventeen: "float8_numeric (lit 1 10 + lit 2 10) = lit 3 10 \<and> lit 1 10 + lit 2 10 \<noteq> lit 3 10"
  by code_simp

end
