(* ===== verification/Stores.thy ===== *)
theory Stores
  imports Database Float8_Numeric "HOL-Library.List_Lexorder" "HOL-Library.Product_Lexorder"
begin

text \<open>
  The other tables of \<^verbatim>\<open>internal/storage\<close>: candles (bulk inserts and the chronological
  query the engine runs on), instruments (upserts keyed on symbol and exchange), the
  user-defined strategies, the sync runs and the health checks. A transaction or a batch that
  fails leaves its table as it was.
\<close>

section \<open>Transactions\<close>

text \<open>What a rolled-back transaction leaves: the tables of its start, with the faults and the
  identifiers it used up.\<close>

definition rollback :: "db \<Rightarrow> db \<Rightarrow> db" where
  "rollback w w' = w\<lparr>db_faults := db_faults w', db_next := db_next w'\<rparr>"

text \<open>A statement with no effect on the tables the model keeps: \<^verbatim>\<open>BEGIN\<close>, \<^verbatim>\<open>COMMIT\<close>, the
  staging table.\<close>

definition no_op :: "db \<Rightarrow> unit res \<times> db" where
  "no_op = run_sql (\<lambda>w. (Inr (), w))"

section \<open>Candles\<close>

definition toCandleModel :: "candle_row \<Rightarrow> candle" where
  "toCandleModel e =
     \<lparr>cInstrumentID = ecInstrumentID e, cTimestamp = ecTimestamp e, cInterval = ecInterval e,
      cOpen = ecOpen e, cHigh = ecHigh e, cLow = ecLow e, cClose = ecClose e,
      cVolume = ecVolume e, cProvider = ecProvider e\<rparr>"

text \<open>The row the columns of \<^verbatim>\<open>InsertBatch\<close> hold: its prices are sent as \<^verbatim>\<open>NUMERIC\<close> values.\<close>

definition candle_columns :: "candle \<Rightarrow> candle_row" where
  "candle_columns c =
     \<lparr>ecInstrumentID = cInstrumentID c, ecTimestamp = timestamptz (cTimestamp c),
      ecInterval = cInterval c, ecOpen = numeric (cOpen c), ecHigh = numeric (cHigh c),
      ecLow = numeric (cLow c), ecClose = numeric (cClose c), ecVolume = cVolume c,
      ecProvider = cProvider c\<rparr>"

text \<open>A row of the staging table, whose prices are \<^verbatim>\<open>DOUBLE PRECISION\<close>, and what the \<^verbatim>\<open>SELECT\<close> from it
  puts into the \<^verbatim>\<open>NUMERIC\<close> columns of \<^verbatim>\<open>candles\<close>.\<close>

definition stage_columns :: "candle \<Rightarrow> candle_row" where
  "stage_columns c =
     \<lparr>ecInstrumentID = cInstrumentID c, ecTimestamp = timestamptz (cTimestamp c),
      ecInterval = cInterval c, ecOpen = cOpen c, ecHigh = cHigh c, ecLow = cLow c,
      ecClose = cClose c, ecVolume = cVolume c, ecProvider = cProvider c\<rparr>"

definition cast_prices :: "candle_row \<Rightarrow> candle_row" where
  "cast_prices r =
     r\<lparr>ecOpen := float8_numeric (ecOpen r), ecHigh := float8_numeric (ecHigh r),
       ecLow := float8_numeric (ecLow r), ecClose := float8_numeric (ecClose r)\<rparr>"

definition candle_key :: "candle_row \<Rightarrow> uuid \<times> time \<times> string" where
  "candle_key r = (ecInstrumentID r, ecTimestamp r, ecInterval r)"

definition known_instruments :: "candle_row list \<Rightarrow> db \<Rightarrow> bool" where
  "known_instruments rows w \<longleftrightarrow>
     list_all (\<lambda>r. ecInstrumentID r \<in> eiID ` set (db_instruments w)) rows"

text \<open>\<^verbatim>\<open>InsertBatch\<close>: a \<^verbatim>\<open>COPY\<close>, refused as a whole on a duplicate key.\<close>

definition copy_candles :: "candle_row list \<Rightarrow> db \<Rightarrow> goint res \<times> db" where
  "copy_candles rows w =
     (if \<not> distinct (map candle_key (db_candles w @ rows))
      then (Inl (unique_violation ''candles_pkey''), w)
      else if \<not> known_instruments rows w
      then (Inl (foreign_key_violation ''candles_instrument_id_fkey''), w)
      else (Inr (int (length rows)), w\<lparr>db_candles := db_candles w @ rows\<rparr>))"

definition InsertBatch :: "candle_row list \<Rightarrow> db \<Rightarrow> goint res \<times> db" where
  "InsertBatch candles w =
     (if candles = [] then (Inr 0, w)
      else run_sql (copy_candles (map (candle_columns \<circ> toCandleModel) candles)) w)"

text \<open>\<^verbatim>\<open>ON CONFLICT (instrument_id, ts, interval) DO NOTHING\<close>, over the staging table in the order it
  was filled.\<close>

definition insert_new :: "candle_row \<Rightarrow> candle_row list \<Rightarrow> candle_row list" where
  "insert_new r table =
     (if candle_key r \<in> candle_key ` set table then table else table @ [r])"

definition insert_from_staging :: "candle_row list \<Rightarrow> db \<Rightarrow> goint res \<times> db" where
  "insert_from_staging rows w =
     (let table = fold insert_new (map cast_prices rows) (db_candles w)
      in if \<not> known_instruments (drop (length (db_candles w)) table) w
         then (Inl (foreign_key_violation ''candles_instrument_id_fkey''), w)
         else (Inr (int (length table - length (db_candles w))), w\<lparr>db_candles := table\<rparr>))"

definition InsertBatchIgnoreDuplicates :: "candle list \<Rightarrow> db \<Rightarrow> goint res \<times> db" where
  "InsertBatchIgnoreDuplicates candles w =
     (if candles = [] then (Inr 0, w)
      else case no_op w of
        (Inl e, w1) \<Rightarrow> (Inl e, w1)
      | (Inr _, w1) \<Rightarrow>
     (case no_op w1 of
        (Inl e, w2) \<Rightarrow> (Inl (Wrap ''create staging table: '' e ''''), rollback w w2)
      | (Inr _, w2) \<Rightarrow>
     (case no_op w2 of
        (Inl e, w3) \<Rightarrow> (Inl (Wrap ''copy to staging: '' e ''''), rollback w w3)
      | (Inr _, w3) \<Rightarrow>
     (case run_sql (insert_from_staging (map stage_columns candles)) w3 of
        (Inl e, w4) \<Rightarrow> (Inl (Wrap ''insert from staging: '' e ''''), rollback w w4)
      | (Inr n, w4) \<Rightarrow>
     (case no_op w4 of
        (Inl e, w5) \<Rightarrow> (Inl e, rollback w w5)
      | (Inr _, w5) \<Rightarrow> (Inr n, w5))))))"

text \<open>\<^verbatim>\<open>MAX(ts::date)\<close>, null over no rows; the session's time zone is UTC.\<close>

definition max_date :: "candle_row list \<Rightarrow> time option" where
  "max_date rows =
     (case map (date \<circ> ecTimestamp) rows of [] \<Rightarrow> None | d # ds \<Rightarrow> Some (fold max ds d))"

definition date_or_zero :: "time option \<Rightarrow> time" where
  "date_or_zero d = (case d of None \<Rightarrow> zero_time | Some t \<Rightarrow> t)"

definition LastSyncedDate :: "string \<Rightarrow> db \<Rightarrow> time res \<times> db" where
  "LastSyncedDate provider =
     run_sql (\<lambda>w. (Inr (date_or_zero
       (max_date (filter (\<lambda>r. ecProvider r = provider) (db_candles w)))), w))"

definition MaxDate :: "db \<Rightarrow> time res \<times> db" where
  "MaxDate = run_sql (\<lambda>w. (Inr (date_or_zero (max_date (db_candles w))), w))"

record candle_filter =
  cfInstrumentID :: uuid
  cfFrom :: time
  cfTo :: time
  cfInterval :: string

text \<open>The bounds are parameters of type \<^verbatim>\<open>TIMESTAMPTZ\<close>.\<close>

definition in_filter :: "candle_filter \<Rightarrow> candle_row \<Rightarrow> bool" where
  "in_filter f r \<longleftrightarrow>
     ecInstrumentID r = cfInstrumentID f \<and> ecInterval r = cfInterval f \<and>
     timestamptz (cfFrom f) \<le> ecTimestamp r \<and> ecTimestamp r \<le> timestamptz (cfTo f)"

definition Query :: "candle_filter \<Rightarrow> db \<Rightarrow> candle list res \<times> db" where
  "Query f =
     run_sql (\<lambda>w. (Inr (map toCandleModel (sort_key ecTimestamp (filter (in_filter f) (db_candles w)))), w))"

section \<open>Instruments\<close>

definition toInstrumentModel :: "instrument_row \<Rightarrow> instrument" where
  "toInstrumentModel e =
     \<lparr>iID = eiID e, iSymbol = eiSymbol e, iName = eiName e, iExchange = eiExchange e,
      iInstrumentType = eiInstrumentType e, iUnderlying = eiUnderlying e, iExpiry = eiExpiry e,
      iStrike = eiStrike e, iOptionType = eiOptionType e, iLotSize = eiLotSize e,
      iCreatedAt = eiCreatedAt e, iUpdatedAt = eiUpdatedAt e\<rparr>"

text \<open>The scanners read every column into the entity.\<close>

definition scanInstrument :: "instrument_row \<Rightarrow> instrument_row" where "scanInstrument r = r"
definition scanInstrumentRow :: "instrument_row \<Rightarrow> instrument_row" where "scanInstrumentRow r = r"

definition instrument_key :: "instrument_row \<Rightarrow> string \<times> string" where
  "instrument_key r = (eiSymbol r, eiExchange r)"

text \<open>The row an insert would add, and what \<^verbatim>\<open>DO UPDATE SET\<close> takes from it: everything but the
  identifier, the key and the creation time.\<close>

definition instrument_columns :: "time \<Rightarrow> instrument_row \<Rightarrow> instrument_row" where
  "instrument_columns t r =
     r\<lparr>eiExpiry := map_option date (eiExpiry r), eiStrike := map_option numeric (eiStrike r),
       eiCreatedAt := timestamptz t, eiUpdatedAt := timestamptz t\<rparr>"

definition update_excluded :: "instrument_row \<Rightarrow> instrument_row \<Rightarrow> instrument_row" where
  "update_excluded new r =
     r\<lparr>eiName := eiName new, eiInstrumentType := eiInstrumentType new,
       eiUnderlying := eiUnderlying new, eiExpiry := eiExpiry new, eiStrike := eiStrike new,
       eiOptionType := eiOptionType new, eiLotSize := eiLotSize new,
       eiUpdatedAt := eiUpdatedAt new\<rparr>"

definition upsert_instrument :: "instrument_row \<Rightarrow> db \<Rightarrow> unit res \<times> db" where
  "upsert_instrument inst w =
     (let new = instrument_columns (db_now w) inst; table = db_instruments w
      in if \<not> int4 (eiLotSize inst) then (Inl int4_error, w)
         else if instrument_key new \<in> instrument_key ` set table
         then (Inr (), w\<lparr>db_instruments := map (\<lambda>r. if instrument_key r = instrument_key new
                                               then update_excluded new r else r) table\<rparr>)
         else if eiID new \<in> eiID ` set table
         then (Inl (unique_violation ''instruments_pkey''), w)
         else (Inr (), w\<lparr>db_instruments := table @ [new]\<rparr>))"

definition fresh_instrument_id :: "instrument_row \<Rightarrow> db \<Rightarrow> instrument_row \<times> db" where
  "fresh_instrument_id inst w =
     (if eiID inst = uuid_nil then let (i, w') = uuid_New w in (inst\<lparr>eiID := i\<rparr>, w') else (inst, w))"

definition Upsert :: "instrument_row \<Rightarrow> db \<Rightarrow> unit res \<times> db" where
  "Upsert inst w =
     (let (inst', w') = fresh_instrument_id inst w in run_sql (upsert_instrument inst') w')"

definition instrument_of_model :: "instrument \<Rightarrow> instrument_row" where
  "instrument_of_model i =
     \<lparr>eiID = iID i, eiSymbol = iSymbol i, eiName = iName i, eiExchange = iExchange i,
      eiInstrumentType = iInstrumentType i, eiUnderlying = iUnderlying i, eiExpiry = iExpiry i,
      eiStrike = iStrike i, eiOptionType = iOptionType i, eiLotSize = iLotSize i,
      eiCreatedAt = iCreatedAt i, eiUpdatedAt = iUpdatedAt i\<rparr>"

text \<open>The identifiers are drawn while the batch is queued; the batch then runs as one implicit
  transaction.\<close>

primrec queue_upserts :: "instrument list \<Rightarrow> db \<Rightarrow> instrument_row list \<times> db" where
  "queue_upserts [] w = ([], w)"
| "queue_upserts (i # is) w =
     (let (row, w') = fresh_instrument_id (instrument_of_model i) w;
          (rows, w'') = queue_upserts is w'
      in (row # rows, w''))"

text \<open>\<^verbatim>\<open>br.Exec\<close> for every queued statement, up to the first that fails.\<close>

primrec exec_batch :: "('r \<Rightarrow> db \<Rightarrow> unit res \<times> db) \<Rightarrow> 'r list \<Rightarrow> db \<Rightarrow> unit res \<times> db" where
  "exec_batch step [] w = (Inr (), w)"
| "exec_batch step (r # rs) w =
     (case run_sql (step r) w of
        (Inl e, w') \<Rightarrow> (Inl e, w')
      | (Inr _, w') \<Rightarrow> exec_batch step rs w')"

definition UpsertBatch :: "instrument list \<Rightarrow> db \<Rightarrow> unit res \<times> db" where
  "UpsertBatch instruments w =
     (if instruments = [] then (Inr (), w)
      else let (rows, w') = queue_upserts instruments w
           in case exec_batch upsert_instrument rows w' of
                (Inl e, w'') \<Rightarrow> (Inl e, rollback w w'')
              | (Inr _, w'') \<Rightarrow> (Inr (), w''))"

text \<open>The driver's error is passed on as it is, \<^verbatim>\<open>pgx.ErrNoRows\<close> included.\<close>

definition InstrumentStore_GetByID :: "uuid \<Rightarrow> db \<Rightarrow> instrument res \<times> db" where
  "InstrumentStore_GetByID i =
     run_sql (\<lambda>w. (map_sum id (toInstrumentModel \<circ> scanInstrument)
       (first_row (filter (\<lambda>r. eiID r = i) (db_instruments w))), w))"

record instrument_filter =
  ifExchange :: "string option"
  ifInstrumentType :: "string option"
  ifUnderlying :: "string option"

text \<open>The conditions are appended for the fields that are set; comparing a null column with a
  value is not true.\<close>

definition instrument_conds :: "instrument_filter \<Rightarrow> (instrument_row \<Rightarrow> bool) list" where
  "instrument_conds f =
     (case ifExchange f of None \<Rightarrow> [] | Some x \<Rightarrow> [\<lambda>r. eiExchange r = x]) @
     (case ifInstrumentType f of None \<Rightarrow> [] | Some x \<Rightarrow> [\<lambda>r. eiInstrumentType r = x]) @
     (case ifUnderlying f of None \<Rightarrow> [] | Some x \<Rightarrow> [\<lambda>r. eiUnderlying r = Some x])"

definition isFutures :: "instrument_filter \<Rightarrow> bool" where
  "isFutures f =
     (case ifInstrumentType f of None \<Rightarrow> False
      | Some t \<Rightarrow> t = InstrumentTypeFuturesIndex \<or> t = InstrumentTypeFuturesStock \<or>
                 t = InstrumentTypeFuturesIndexCont \<or> t = InstrumentTypeFuturesStockCont)"

text \<open>\<^verbatim>\<open>ORDER BY expiry ASC\<close> puts the nulls last.\<close>

definition by_expiry :: "instrument_row list \<Rightarrow> instrument_row list" where
  "by_expiry rows = sort_key (\<lambda>r. (eiExpiry r = None, case eiExpiry r of None \<Rightarrow> 0 | Some t \<Rightarrow> t)) rows"

definition by_symbol :: "instrument_row list \<Rightarrow> instrument_row list" where
  "by_symbol rows = sort_key (\<lambda>r. map (of_char :: char \<Rightarrow> nat) (eiSymbol r)) rows"

definition InstrumentStore_List :: "instrument_filter \<Rightarrow> db \<Rightarrow> instrument list res \<times> db" where
  "InstrumentStore_List f =
     run_sql (\<lambda>w.
       let rows = filter (\<lambda>r. list_all (\<lambda>c. c r) (instrument_conds f)) (db_instruments w)
       in (Inr (map (toInstrumentModel \<circ> scanInstrumentRow)
                 (if isFutures f then by_expiry rows else by_symbol rows)), w))"

section \<open>User-defined strategies\<close>

text \<open>\<^verbatim>\<open>OptionLeg\<close> is an opaque JSON text; the empty one is a nil message, a null column.\<close>

definition json_column :: "string \<Rightarrow> string option" where
  "json_column s = (if s = [] then None else Some s)"

definition toStrategyModel :: "strategy_row \<Rightarrow> strategy" where
  "toStrategyModel e =
     \<lparr>sID = esID e, sName = esName e, sDescription = esDescription e,
      sUnderlying = esUnderlying e, sInstrumentType = esInstrumentType e,
      sExpiryRule = esExpiryRule e,
      sOptionLeg = (case esOptionLegJSON e of None \<Rightarrow> [] | Some s \<Rightarrow> s),
      sEntryConditionType = esEntryConditionType e, sTargetPct = esTargetPct e,
      sStopLossPct = esStopLossPct e, sTimeExitMinutes = esTimeExitMinutes e,
      sLotSize = esLotSize e, sMode = esMode e, sIsReadyForRun = esIsReadyForRun e,
      sCreatedAt = esCreatedAt e, sUpdatedAt = esUpdatedAt e\<rparr>"

definition toStrategyEntity :: "strategy \<Rightarrow> strategy_row" where
  "toStrategyEntity s =
     \<lparr>esID = sID s, esName = sName s, esDescription = sDescription s,
      esUnderlying = sUnderlying s, esInstrumentType = sInstrumentType s,
      esExpiryRule = sExpiryRule s, esOptionLegJSON = json_column (sOptionLeg s),
      esEntryConditionType = sEntryConditionType s, esTargetPct = sTargetPct s,
      esStopLossPct = sStopLossPct s, esTimeExitMinutes = sTimeExitMinutes s,
      esLotSize = sLotSize s, esMode = sMode s, esIsReadyForRun = sIsReadyForRun s,
      esCreatedAt = sCreatedAt s, esUpdatedAt = sUpdatedAt s\<rparr>"

definition scanStrategy :: "strategy_row \<Rightarrow> strategy_row" where "scanStrategy r = r"
definition scanStrategyRow :: "strategy_row \<Rightarrow> strategy_row" where "scanStrategyRow r = r"

definition strategy_int4 :: "strategy_row \<Rightarrow> bool" where
  "strategy_int4 ent \<longleftrightarrow>
     int4 (esLotSize ent) \<and> (case esTimeExitMinutes ent of None \<Rightarrow> True | Some n \<Rightarrow> int4 n)"

definition strategy_columns :: "time \<Rightarrow> strategy_row \<Rightarrow> strategy_row" where
  "strategy_columns t ent =
     ent\<lparr>esTargetPct := map_option numeric (esTargetPct ent),
       esStopLossPct := map_option numeric (esStopLossPct ent),
       esCreatedAt := timestamptz t, esUpdatedAt := timestamptz t\<rparr>"

definition insert_strategy :: "strategy_row \<Rightarrow> db \<Rightarrow> unit res \<times> db" where
  "insert_strategy ent w =
     (if \<not> strategy_int4 ent then (Inl int4_error, w)
      else if esID ent \<in> esID ` set (db_strategies w)
      then (Inl (unique_violation ''strategies_pkey''), w)
      else (Inr (), w\<lparr>db_strategies := db_strategies w @ [strategy_columns (db_now w) ent]\<rparr>))"

definition StrategyStore_Create :: "strategy \<Rightarrow> db \<Rightarrow> strategy res \<times> db" where
  "StrategyStore_Create strat w =
     (let (strat', w') = (if sID strat = uuid_nil
                          then let (i, v) = uuid_New w in (strat\<lparr>sID := i\<rparr>, v) else (strat, w))
      in case run_sql (insert_strategy (toStrategyEntity strat')) w' of
           (Inl e, v) \<Rightarrow> (Inl e, v)
         | (Inr _, v) \<Rightarrow> (Inr strat', v))"

definition StrategyStore_GetByID :: "uuid \<Rightarrow> db \<Rightarrow> strategy res \<times> db" where
  "StrategyStore_GetByID i =
     run_sql (\<lambda>w. (map_sum id (toStrategyModel \<circ> scanStrategy)
       (first_row (filter (\<lambda>r. esID r = i) (db_strategies w))), w))"

definition StrategyStore_List :: "db \<Rightarrow> strategy list res \<times> db" where
  "StrategyStore_List =
     run_sql (\<lambda>w. (Inr (map (toStrategyModel \<circ> scanStrategyRow)
       (sort_key (\<lambda>r. - esUpdatedAt r) (db_strategies w))), w))"

text \<open>\<^verbatim>\<open>UPDATE\<close> sets every column but the identifier and the creation time.\<close>

definition set_strategy :: "time \<Rightarrow> strategy_row \<Rightarrow> strategy_row \<Rightarrow> strategy_row" where
  "set_strategy t ent r =
     (strategy_columns t ent)\<lparr>esID := esID r, esCreatedAt := esCreatedAt r\<rparr>"

definition StrategyStore_Update :: "strategy \<Rightarrow> db \<Rightarrow> unit res \<times> db" where
  "StrategyStore_Update strat =
     (let ent = toStrategyEntity strat
      in run_sql (\<lambda>w. if \<not> strategy_int4 ent then (Inl int4_error, w)
           else (Inr (), w\<lparr>db_strategies := map (\<lambda>r. if esID r = esID ent
                              then set_strategy (db_now w) ent r else r) (db_strategies w)\<rparr>)))"

definition StrategyStore_Delete :: "uuid \<Rightarrow> db \<Rightarrow> unit res \<times> db" where
  "StrategyStore_Delete i =
     run_sql (\<lambda>w.
       if i \<in> esID ` set (db_strategies w) \<and> Some i \<in> erStrategyID ` set (db_backtest_runs w)
       then (Inl (foreign_key_violation ''backtest_runs_strategy_id_fkey''), w)
       else (Inr (), w\<lparr>db_strategies := filter (\<lambda>r. esID r \<noteq> i) (db_strategies w)\<rparr>))"

section \<open>Sync runs and health\<close>

text \<open>\<^verbatim>\<open>entities.SyncRun\<close> and \<^verbatim>\<open>models.SyncRun\<close> have the same fields.\<close>

definition SyncRunPending :: string where [go_const]: "SyncRunPending = ''PENDING''"
definition SyncRunRunning :: string where [go_const]: "SyncRunRunning = ''RUNNING''"
definition SyncRunCompleted :: string where [go_const]: "SyncRunCompleted = ''COMPLETED''"
definition SyncRunFailed :: string where [go_const]: "SyncRunFailed = ''FAILED''"
definition SyncTypeFull :: string where [go_const]: "SyncTypeFull = ''full''"

definition insert_sync_run :: "sync_run \<Rightarrow> db \<Rightarrow> unit res \<times> db" where
  "insert_sync_run run w =
     (if \<not> int4 (syRecordsProcessed run) then (Inl int4_error, w)
      else if syID run \<in> syID ` set (db_sync_runs w)
      then (Inl (unique_violation ''sync_runs_pkey''), w)
      else (Inr (), w\<lparr>db_sync_runs := db_sync_runs w @
              [run\<lparr>syErrorMessage := None, syStartedAt := timestamptz (db_now w),
                 syCompletedAt := None\<rparr>]\<rparr>))"

definition SyncRunStore_Create :: "sync_run \<Rightarrow> db \<Rightarrow> sync_run res \<times> db" where
  "SyncRunStore_Create run w =
     (let (run', w') = (if syID run = uuid_nil
                        then let (i, v) = uuid_New w in (run\<lparr>syID := i\<rparr>, v) else (run, w))
      in case run_sql (insert_sync_run run') w' of
           (Inl e, v) \<Rightarrow> (Inl e, v)
         | (Inr _, v) \<Rightarrow> (Inr run', v))"

definition Complete :: "uuid \<Rightarrow> string \<Rightarrow> goint \<Rightarrow> string option \<Rightarrow> db \<Rightarrow> unit res \<times> db" where
  "Complete i status records errMsg =
     run_sql (\<lambda>w. if \<not> int4 records then (Inl int4_error, w)
       else (Inr (), w\<lparr>db_sync_runs := map (\<lambda>r. if syID r = i
               then r\<lparr>syStatus := status, syRecordsProcessed := records,
                      syErrorMessage := errMsg, syCompletedAt := Some (timestamptz (db_now w))\<rparr>
               else r) (db_sync_runs w)\<rparr>))"

definition ListByProvider :: "string \<Rightarrow> goint \<Rightarrow> db \<Rightarrow> sync_run list res \<times> db" where
  "ListByProvider provider limit =
     run_sql (\<lambda>w. (limit_offset limit 0 (sort_key (\<lambda>r. - syStartedAt r)
       (filter (\<lambda>r. syProvider r = provider) (db_sync_runs w))), w))"

definition Ping :: "db \<Rightarrow> unit res \<times> db" where
  "Ping = no_op"

definition QueryDBIdentity :: "db \<Rightarrow> string res \<times> db" where
  "QueryDBIdentity = run_sql (\<lambda>w. (first_row (db_identity w), w))"

definition MigrationVersion :: "db \<Rightarrow> goint res \<times> db" where
  "MigrationVersion =
     run_sql (\<lambda>w. (Inr (case map fst (filter (\<lambda>m. \<not> snd m) (db_migrations w)) of
                        [] \<Rightarrow> 0 | v # vs \<Rightarrow> fold max vs v), w))"

section \<open>What the candle table guarantees\<close>

definition candles_ok :: "db \<Rightarrow> bool" where
  "candles_ok w \<longleftrightarrow> distinct (map candle_key (db_candles w))"

definition stored_candle :: "candle \<Rightarrow> candle_row" where
  "stored_candle c = cast_prices (stage_columns c)"

lemma stored_candle_key [simp]:
  "candle_key (stored_candle c) = (cInstrumentID c, timestamptz (cTimestamp c), cInterval c)"
  by (simp add: stored_candle_def candle_key_def cast_prices_def stage_columns_def)

lemma stored_candle_instrument [simp]: "ecInstrumentID (stored_candle c) = cInstrumentID c"
  by (simp add: stored_candle_def cast_prices_def stage_columns_def)

lemma cast_staged [simp]: "map cast_prices (map stage_columns cs) = map stored_candle cs"
  by (simp add: stored_candle_def)

lemma insert_from_staging_stored:
  "insert_from_staging (map stage_columns cs) w =
     (let table = fold insert_new (map stored_candle cs) (db_candles w)
      in if \<not> known_instruments (drop (length (db_candles w)) table) w
         then (Inl (foreign_key_violation ''candles_instrument_id_fkey''), w)
         else (Inr (int (length table - length (db_candles w))), w\<lparr>db_candles := table\<rparr>))"
  unfolding insert_from_staging_def cast_staged ..

text \<open>A decimal of at most fifteen digits, as every price of the exchange is.\<close>

definition fifteen_digits :: "f64 \<Rightarrow> bool" where
  "fifteen_digits x \<longleftrightarrow> (\<exists>q j. \<bar>q\<bar> < 10 ^ 15 \<and> j \<le> 290 \<and> x = lit q (10 ^ j))"

lemma stored_candle_exact:
  assumes "list_all fifteen_digits [cOpen c, cHigh c, cLow c, cClose c]"
  shows "toCandleModel (stored_candle c) = c\<lparr>cTimestamp := timestamptz (cTimestamp c)\<rparr>"
proof -
  have "float8_numeric x = x" if "fifteen_digits x" for x
    using that float8_numeric_keeps by (auto simp: fifteen_digits_def)
  with assms show ?thesis
    by (simp add: toCandleModel_def stored_candle_def cast_prices_def stage_columns_def)
qed

lemma find_append:
  "find P (xs @ ys) = (case find P xs of None \<Rightarrow> find P ys | Some x \<Rightarrow> Some x)"
  by (induction xs) auto

lemma insert_new_fold:
  assumes "distinct (map candle_key table)"
  shows "\<exists>new. fold insert_new rows table = table @ new \<and>
    distinct (map candle_key (table @ new)) \<and>
    candle_key ` set (table @ new) = candle_key ` set table \<union> candle_key ` set rows \<and>
    (\<forall>r \<in> set new. find (\<lambda>c. candle_key c = candle_key r) rows = Some r)"
proof (induction rows rule: rev_induct)
  case Nil
  show ?case using assms by simp
next
  case (snoc x rows)
  then obtain new where new: "fold insert_new rows table = table @ new"
    "distinct (map candle_key (table @ new))"
    "candle_key ` set (table @ new) = candle_key ` set table \<union> candle_key ` set rows"
    "\<forall>r \<in> set new. find (\<lambda>c. candle_key c = candle_key r) rows = Some r" by blast
  show ?case
  proof (cases "candle_key x \<in> candle_key ` set (table @ new)")
    case True
    then have "fold insert_new (rows @ [x]) table = table @ new"
      by (simp add: new(1) insert_new_def)
    moreover have "candle_key ` set (table @ new)
        = candle_key ` set table \<union> candle_key ` set (rows @ [x])"
      using True new(3) by auto
    moreover have "\<forall>r \<in> set new. find (\<lambda>c. candle_key c = candle_key r) (rows @ [x]) = Some r"
      using new(4) by (simp add: find_append)
    ultimately show ?thesis using new(2) by blast
  next
    case False
    then have "fold insert_new (rows @ [x]) table = table @ (new @ [x])"
      by (simp add: new(1) insert_new_def)
    moreover have "distinct (map candle_key (table @ (new @ [x])))"
      using False new(2) by (auto simp: image_iff)
    moreover have "candle_key ` set (table @ (new @ [x]))
        = candle_key ` set table \<union> candle_key ` set (rows @ [x])"
      using new(3) by auto
    moreover have "find (\<lambda>c. candle_key c = candle_key x) rows = None"
      using False new(3) by (simp add: find_None_iff) (metis Un_iff image_eqI)
    then have "\<forall>r \<in> set (new @ [x]). find (\<lambda>c. candle_key c = candle_key r) (rows @ [x]) = Some r"
      using new(4) by (simp add: find_append)
    ultimately show ?thesis by blast
  qed
qed

lemma no_op_keeps: "no_op w = (r, w') \<Longrightarrow> w' = w\<lparr>db_faults := tl (db_faults w)\<rparr>"
  by (auto simp: no_op_def run_sql_def Let_def split: list.splits option.splits)

lemma rollback_tables [simp]:
  "db_candles (rollback w w') = db_candles w" "db_instruments (rollback w w') = db_instruments w"
  by (simp_all add: rollback_def)

lemma insert_ignore_cases:
  assumes "InsertBatchIgnoreDuplicates cs w = (r, w')" "cs \<noteq> []"
  obtains e where "r = Inl e" "db_candles w' = db_candles w"
  | "r = Inr (int (length (db_candles w') - length (db_candles w)))"
    "db_candles w' = fold insert_new (map stored_candle cs) (db_candles w)"
proof -
  obtain w4 r4 where w4: "run_sql (insert_from_staging (map stage_columns cs))
      (w\<lparr>db_faults := tl (tl (tl (db_faults w)))\<rparr>) = (r4, w4)"
    by (metis prod.exhaust)
  show thesis
  proof (cases "db_candles w' = db_candles w \<and> (\<exists>e. r = Inl e)")
    case True
    then show thesis using that(1) by blast
  next
    case False
    with assms w4 obtain n where n: "r4 = Inr n" "r = Inr n" "db_candles w' = db_candles w4"
      by (auto simp: InsertBatchIgnoreDuplicates_def dest!: no_op_keeps
          split: prod.splits sum.splits)
    then have "n = int (length (db_candles w4) - length (db_candles w))"
      "db_candles w4 = fold insert_new (map stored_candle cs) (db_candles w)"
      using w4 by (auto simp: run_sql_def insert_from_staging_stored Let_def
          split: list.splits option.splits if_splits)
    then show thesis using n that(2) by simp
  qed
qed

text \<open>C30. A bulk insert of candles is atomic, keeps what is there and is idempotent: if it fails
  the table is unchanged; if it succeeds the old rows are still there untouched, the new rows
  are exactly one per key the table did not have (the first of the batch with that key, its
  prices as the cast from \<^verbatim>\<open>DOUBLE PRECISION\<close> to \<^verbatim>\<open>NUMERIC\<close> leaves them), the reported count is
  their number, keys stay unique, and inserting the batch again adds nothing. A candle whose
  prices have at most fifteen digits is read back as it was.\<close>

theorem insert_candles_idempotent:
  assumes "candles_ok w"
  shows "case InsertBatchIgnoreDuplicates cs w of
      (Inl e, w') \<Rightarrow> db_candles w' = db_candles w
    | (Inr n, w') \<Rightarrow> candles_ok w' \<and>
        (\<exists>new. db_candles w' = db_candles w @ new \<and> n = int (length new) \<and>
           candle_key ` set new
             = candle_key ` set (map stored_candle cs) - candle_key ` set (db_candles w) \<and>
           list_all (\<lambda>r. find (\<lambda>c. candle_key c = candle_key r) (map stored_candle cs) = Some r) new) \<and>
        db_candles (snd (InsertBatchIgnoreDuplicates cs w')) = db_candles w' \<and>
        list_all (\<lambda>c. list_all fifteen_digits [cOpen c, cHigh c, cLow c, cClose c] \<longrightarrow>
            toCandleModel (stored_candle c) = c\<lparr>cTimestamp := timestamptz (cTimestamp c)\<rparr>) cs"
proof (cases "cs = []")
  case True
  with assms show ?thesis by (auto simp: InsertBatchIgnoreDuplicates_def candles_ok_def)
next
  case False
  let ?rows = "map stored_candle cs"
  obtain r w' where run: "InsertBatchIgnoreDuplicates cs w = (r, w')" by (metis prod.exhaust)
  from run False show ?thesis
  proof (cases rule: insert_ignore_cases)
    case (1 e)
    with run show ?thesis by simp
  next
    case 2
    obtain new where new: "db_candles w' = db_candles w @ new"
      "distinct (map candle_key (db_candles w @ new))"
      "candle_key ` set (db_candles w @ new)
         = candle_key ` set (db_candles w) \<union> candle_key ` set ?rows"
      "\<forall>r \<in> set new. find (\<lambda>c. candle_key c = candle_key r) ?rows = Some r"
      using insert_new_fold [of "db_candles w" ?rows] assms 2(2) by (auto simp: candles_ok_def)
    have disj: "candle_key ` set (db_candles w) \<inter> candle_key ` set new = {}"
      using new(2) by auto
    have keys: "candle_key ` set new = candle_key ` set ?rows - candle_key ` set (db_candles w)"
      using new(3) disj unfolding set_append image_Un by blast
    have "fold insert_new ?rows (db_candles w') = db_candles w'"
    proof -
      have "candle_key ` set ?rows \<subseteq> candle_key ` set (db_candles w')"
        using new(1,3) by auto
      then show ?thesis
        by (induction ?rows arbitrary: cs) (auto simp: insert_new_def)
    qed
    then have again: "db_candles (snd (InsertBatchIgnoreDuplicates cs w')) = db_candles w'"
      by (cases "InsertBatchIgnoreDuplicates cs w'")
        (auto elim!: insert_ignore_cases [OF _ False])
    show ?thesis
      using run 2(1) new keys again stored_candle_exact
      by (auto simp: candles_ok_def list_all_iff simp del: stored_candle_key)
  qed
qed

definition sample_bar :: "time \<Rightarrow> candle" where
  "sample_bar t =
     \<lparr>cInstrumentID = 1, cTimestamp = t, cInterval = CandleInterval1D, cOpen = 1, cHigh = 1,
      cLow = 1, cClose = 1, cVolume = 1, cProvider = ''nse''\<rparr>"

lemma insert_candles_idempotent_witness:
  "case InsertBatchIgnoreDuplicates [sample_bar 0, (sample_bar 0)\<lparr>cVolume := 5\<rparr>] (empty_db 0) of
      (Inl e, w') \<Rightarrow> db_candles w' = []
    | (Inr n, w') \<Rightarrow> candles_ok w'"
  using insert_candles_idempotent [of "empty_db 0" "[sample_bar 0, (sample_bar 0)\<lparr>cVolume := 5\<rparr>]"]
  by (simp add: candles_ok_def empty_db_def split: prod.splits sum.splits)

lemma Query_cases:
  assumes "fst (Query f w) = Inr cs"
  shows "cs = map toCandleModel (sort_key ecTimestamp (filter (in_filter f) (db_candles w)))"
  using assms by (auto simp: Query_def run_sql_def Let_def split: list.splits option.splits)

lemma Query_sorted:
  assumes "candles_ok w" "fst (Query f w) = Inr cs"
  shows "sorted_wrt (\<lambda>a b. cTimestamp a < cTimestamp b) cs"
proof -
  let ?rows = "sort_key ecTimestamp (filter (in_filter f) (db_candles w))"
  have "distinct (map candle_key (filter (in_filter f) (db_candles w)))"
    using assms(1) by (simp add: candles_ok_def distinct_map inj_on_def)
  moreover have "candle_key r = (cfInstrumentID f, ecTimestamp r, cfInterval f)"
    if "r \<in> set (filter (in_filter f) (db_candles w))" for r
    using that by (simp add: candle_key_def in_filter_def)
  ultimately have "distinct (map ecTimestamp (filter (in_filter f) (db_candles w)))"
    by (auto simp: distinct_map inj_on_def)
  then have "distinct (map ecTimestamp ?rows)"
    by (simp add: distinct_map)
  then have "sorted_wrt (<) (map ecTimestamp ?rows)"
    by (simp add: strict_sorted_iff)
  then have "sorted_wrt (\<lambda>a b. cTimestamp a < cTimestamp b) (map toCandleModel ?rows)"
    by (simp add: sorted_wrt_map toCandleModel_def)
  then show ?thesis using Query_cases [OF assms(2)] by simp
qed

text \<open>A query for the candles of an instrument returns exactly the stored bars of that
  instrument and interval between the two bounds, both included, in strictly increasing order
  of time: what the engine asks of its inputs.\<close>

theorem Query_chronological:
  assumes "candles_ok w" and "fst (Query f w) = Inr cs"
  shows "sorted_wrt (\<lambda>a b. cTimestamp a < cTimestamp b) cs \<and>
    set cs = toCandleModel ` {r \<in> set (db_candles w).
      ecInstrumentID r = cfInstrumentID f \<and> ecInterval r = cfInterval f \<and>
      timestamptz (cfFrom f) \<le> ecTimestamp r \<and> ecTimestamp r \<le> timestamptz (cfTo f)}"
  using Query_sorted [OF assms] Query_cases [OF assms(2)]
  by (simp add: in_filter_def)

lemma Query_chronological_witness:
  "let w = (empty_db 0)\<lparr>db_candles := [candle_columns (sample_bar 2000),
                                     candle_columns (sample_bar 1000)]\<rparr>;
       f = \<lparr>cfInstrumentID = 1, cfFrom = 0, cfTo = 5000, cfInterval = CandleInterval1D\<rparr>
   in sorted_wrt (\<lambda>a b. cTimestamp a < cTimestamp b) (projr (fst (Query f w)))"
proof -
  let ?w = "(empty_db 0)\<lparr>db_candles := [candle_columns (sample_bar 2000),
                                     candle_columns (sample_bar 1000)]\<rparr>"
  let ?f = "\<lparr>cfInstrumentID = 1, cfFrom = 0, cfTo = 5000, cfInterval = CandleInterval1D\<rparr>"
  have "candles_ok ?w"
    by (simp add: candles_ok_def candle_key_def candle_columns_def timestamptz_def sample_bar_def)
  moreover have "fst (Query ?f ?w) = Inr (projr (fst (Query ?f ?w)))"
    by (simp add: Query_def run_sql_no_fault empty_db_def)
  ultimately show ?thesis unfolding Let_def by (rule conjunct1 [OF Query_chronological])
qed

section \<open>What an upsert keeps\<close>

text \<open>The contract of one statement of a batch: it keeps an invariant of the tables. The batch
  then keeps it.\<close>

locale batch_step =
  fixes step :: "'r \<Rightarrow> db \<Rightarrow> unit res \<times> db"
    and keeps :: "db \<Rightarrow> db \<Rightarrow> bool"
  assumes keeps_refl: "keeps w w"
    and keeps_trans: "keeps u v \<Longrightarrow> keeps v w \<Longrightarrow> keeps u w"
    and keeps_step: "keeps w (snd (step r w))"
    and keeps_faults: "keeps w (w\<lparr>db_faults := fs\<rparr>)"
begin

lemma keeps_run: "keeps w (snd (run_sql (step r) w))"
  by (rule run_sql_cases [of "step r" w])
    (auto intro: keeps_faults keeps_trans [OF keeps_faults keeps_step])

lemma keeps_batch: "keeps w (snd (exec_batch step rs w))"
proof (induction rs arbitrary: w)
  case Nil
  show ?case by (simp add: keeps_refl)
next
  case (Cons r rs)
  show ?case
    using keeps_run [of w r] Cons.IH
    by (auto split: prod.split sum.split intro: keeps_trans)
qed

end

definition same_identity :: "instrument_row \<Rightarrow> instrument_row \<Rightarrow> bool" where
  "same_identity r r' \<longleftrightarrow>
     eiID r' = eiID r \<and> instrument_key r' = instrument_key r \<and> eiCreatedAt r' = eiCreatedAt r"

definition unique_keys :: "db \<Rightarrow> bool" where
  "unique_keys w \<longleftrightarrow> distinct (map instrument_key (db_instruments w)) \<and>
     distinct (map eiID (db_instruments w))"

text \<open>Rows stay where they are with their identity, new ones come after them, and keys and
  identifiers stay unique.\<close>

definition extends_table :: "db \<Rightarrow> db \<Rightarrow> bool" where
  "extends_table w w' \<longleftrightarrow>
     (\<exists>rows new. db_instruments w' = rows @ new \<and>
        list_all2 same_identity (db_instruments w) rows) \<and>
     (unique_keys w \<longrightarrow> unique_keys w') \<and> db_now w' = db_now w"

lemma same_identity_self [simp]: "same_identity r r"
  by (simp add: same_identity_def)

lemma same_identity_refl [simp]: "list_all2 same_identity rs rs"
  by (simp add: list_all2_same)

lemma same_identity_trans:
  "list_all2 same_identity xs ys \<Longrightarrow> list_all2 same_identity ys zs \<Longrightarrow> list_all2 same_identity xs zs"
proof (rule list_all2_trans)
  show "same_identity a b \<Longrightarrow> same_identity b c \<Longrightarrow> same_identity a c" for a b c
    by (simp add: same_identity_def)
qed

lemma extends_tableI:
  "db_instruments w' = rows @ new \<Longrightarrow> list_all2 same_identity (db_instruments w) rows \<Longrightarrow>
     (unique_keys w \<Longrightarrow> unique_keys w') \<Longrightarrow> db_now w' = db_now w \<Longrightarrow> extends_table w w'"
  by (auto simp: extends_table_def)

lemma extends_table_same:
  "db_instruments w' = db_instruments w \<Longrightarrow> db_now w' = db_now w \<Longrightarrow> extends_table w w'"
  by (rule extends_tableI [where rows = "db_instruments w" and new = "[]"])
    (simp_all add: unique_keys_def)

lemma same_identity_maps:
  "list_all2 same_identity xs ys \<Longrightarrow>
     map instrument_key ys = map instrument_key xs \<and> map eiID ys = map eiID xs"
  by (induction rule: list_all2_induct) (auto simp: same_identity_def)

lemma instrument_columns_simps [simp]:
  "instrument_key (instrument_columns t r) = instrument_key r"
  "eiID (instrument_columns t r) = eiID r"
  by (simp_all add: instrument_columns_def instrument_key_def)

lemma update_excluded_simps [simp]:
  "eiID (update_excluded n r) = eiID r" "instrument_key (update_excluded n r) = instrument_key r"
  "eiCreatedAt (update_excluded n r) = eiCreatedAt r"
  by (simp_all add: update_excluded_def instrument_key_def)

lemma upsert_cases:
  assumes "upsert_instrument inst w = (res, w')"
  obtains e where "res = Inl e" "w' = w"
  | "res = Inr ()" "instrument_key inst \<in> instrument_key ` set (db_instruments w)"
    "w' = w\<lparr>db_instruments := map (\<lambda>r. if instrument_key r = instrument_key inst
             then update_excluded (instrument_columns (db_now w) inst) r else r) (db_instruments w)\<rparr>"
  | "res = Inr ()" "instrument_key inst \<notin> instrument_key ` set (db_instruments w)"
    "eiID inst \<notin> eiID ` set (db_instruments w)"
    "w' = w\<lparr>db_instruments := db_instruments w @ [instrument_columns (db_now w) inst]\<rparr>"
proof -
  consider "\<not> int4 (eiLotSize inst)"
    | "int4 (eiLotSize inst)" "instrument_key inst \<in> instrument_key ` set (db_instruments w)"
    | "int4 (eiLotSize inst)" "instrument_key inst \<notin> instrument_key ` set (db_instruments w)"
      "eiID inst \<in> eiID ` set (db_instruments w)"
    | "int4 (eiLotSize inst)" "instrument_key inst \<notin> instrument_key ` set (db_instruments w)"
      "eiID inst \<notin> eiID ` set (db_instruments w)"
    by blast
  then show thesis
  proof cases
    case 1
    with assms have "(Inl int4_error, w) = (res, w')" by (simp add: upsert_instrument_def Let_def)
    then show thesis by (intro that(1)) auto
  next
    case 2
    then show thesis using assms by (intro that(2)) (simp_all add: upsert_instrument_def Let_def)
  next
    case 3
    with assms have "(Inl (unique_violation ''instruments_pkey''), w) = (res, w')"
      by (simp add: upsert_instrument_def Let_def)
    then show thesis by (intro that(1)) auto
  next
    case 4
    then show thesis using assms by (intro that(3)) (simp_all add: upsert_instrument_def Let_def)
  qed
qed

lemma extends_table_map:
  assumes "\<And>r. same_identity r (f r)"
  shows "extends_table w (w\<lparr>db_instruments := map f (db_instruments w)\<rparr>)"
proof -
  have *: "list_all2 same_identity (db_instruments w) (map f (db_instruments w))"
    using assms by (simp add: list_all2_conv_all_nth)
  then show ?thesis
    using same_identity_maps [OF *]
    by (intro extends_tableI [where new = "[]", OF _ *])
      (simp_all del: map_map add: unique_keys_def)
qed

interpretation instrument_upserts: batch_step upsert_instrument extends_table
proof
  show "extends_table w w" for w
    by (rule extends_table_same) simp_all
  show "extends_table u w" if "extends_table u v" "extends_table v w" for u v w
  proof -
    obtain rows new where v: "db_instruments v = rows @ new"
      "list_all2 same_identity (db_instruments u) rows"
      using \<open>extends_table u v\<close> by (auto simp: extends_table_def)
    obtain rows' new' where w: "db_instruments w = rows' @ new'"
      "list_all2 same_identity (rows @ new) rows'"
      using \<open>extends_table v w\<close> v(1) by (auto simp: extends_table_def)
    obtain r1 r2 where r: "rows' = r1 @ r2" "list_all2 same_identity rows r1"
      using w(2) by (auto simp: list_all2_append1)
    have "list_all2 same_identity (db_instruments u) r1"
      using v(2) r(2) by (rule same_identity_trans)
    moreover have "db_instruments w = r1 @ (r2 @ new')" using w(1) r(1) by simp
    ultimately show ?thesis
      by (intro extends_tableI [of w r1 "r2 @ new'" u]) (use that in \<open>simp_all add: extends_table_def\<close>)
  qed
  show "extends_table w (snd (upsert_instrument r w))" for r w
  proof (cases "upsert_instrument r w")
    case (Pair res w')
    then show ?thesis
    proof (cases rule: upsert_cases)
      case 1
      with Pair show ?thesis by (simp add: extends_table_same)
    next
      case 2
      then show ?thesis using Pair
        by (simp only: snd_conv) (rule extends_table_map, simp add: same_identity_def)
    next
      case 3
      then show ?thesis using Pair
        by (intro extends_tableI [OF _ same_identity_refl]) (auto simp: unique_keys_def)
    qed
  qed
  show "extends_table w (w\<lparr>db_faults := fs\<rparr>)" for w fs
    by (rule extends_table_same) simp_all
qed

lemma queue_upserts_keeps:
  assumes "queue_upserts is w = (rows, w')"
  shows "db_instruments w' = db_instruments w" "db_now w' = db_now w" "db_faults w' = db_faults w"
    "list_all2 (\<lambda>i r. \<exists>k. r = (instrument_of_model i)\<lparr>eiID := k\<rparr>) is rows"
  using assms
  by (induction "is" arbitrary: w rows w')
    (auto simp: fresh_instrument_id_def uuid_New_def Let_def split: prod.splits if_splits,
     (metis instrument_row.surjective instrument_row.update_convs(1))+)


definition carries :: "time \<Rightarrow> instrument_row \<Rightarrow> db \<Rightarrow> bool" where
  "carries t r w \<longleftrightarrow> (\<exists>x \<in> set (db_instruments w). instrument_key x = instrument_key r \<and>
     update_excluded (instrument_columns t r) x = x)"

lemma upsert_carries:
  assumes "run_sql (upsert_instrument r) w = (Inr u, w')"
  shows "carries (db_now w) r w'" "db_now w' = db_now w"
    "x \<in> set (db_instruments w) \<Longrightarrow> instrument_key x \<noteq> instrument_key r \<Longrightarrow> x \<in> set (db_instruments w')"
    "instrument_key ` set (db_instruments w')
       = insert (instrument_key r) (instrument_key ` set (db_instruments w))"
proof -
  obtain fs where run: "upsert_instrument r (w\<lparr>db_faults := fs\<rparr>) = (Inr u, w')"
    using assms by (rule_tac run_sql_cases [of "upsert_instrument r" w]) auto
  have twice: "update_excluded (instrument_columns t r) (update_excluded (instrument_columns t r) y)
      = update_excluded (instrument_columns t r) y" for t y
    by (simp add: update_excluded_def)
  have self: "update_excluded (instrument_columns t r) (instrument_columns t r)
      = instrument_columns t r" for t
    by (simp add: update_excluded_def)
  from run have "carries (db_now w) r w' \<and> db_now w' = db_now w \<and>
    (x \<in> set (db_instruments w) \<longrightarrow> instrument_key x \<noteq> instrument_key r \<longrightarrow> x \<in> set (db_instruments w')) \<and>
    instrument_key ` set (db_instruments w')
       = insert (instrument_key r) (instrument_key ` set (db_instruments w))"
  proof (cases rule: upsert_cases)
    case 2
    then obtain y where y: "y \<in> set (db_instruments w)" "instrument_key y = instrument_key r" by auto
    then have "update_excluded (instrument_columns (db_now w) r) y \<in> set (db_instruments w')"
      using 2(3) by force
    then have "carries (db_now w) r w'"
      using y(2) unfolding carries_def
      by (intro bexI [of _ "update_excluded (instrument_columns (db_now w) r) y"]) (simp_all add: twice)
    moreover have "map instrument_key (db_instruments w') = map instrument_key (db_instruments w)"
      using 2(3) by simp
    then have "instrument_key ` set (db_instruments w') = instrument_key ` set (db_instruments w)"
      by (metis set_map)
    ultimately show ?thesis using 2 by (auto simp: insert_absorb)
  next
    case 3
    then show ?thesis by (auto simp: carries_def self)
  qed simp
  then show "carries (db_now w) r w'" "db_now w' = db_now w"
    "x \<in> set (db_instruments w) \<Longrightarrow> instrument_key x \<noteq> instrument_key r \<Longrightarrow> x \<in> set (db_instruments w')"
    "instrument_key ` set (db_instruments w')
       = insert (instrument_key r) (instrument_key ` set (db_instruments w))"
    by blast+
qed

lemma batch_carries:
  assumes "exec_batch upsert_instrument rs w = (Inr u, w')"
  shows "instrument_key ` set (db_instruments w')
       = instrument_key ` set (db_instruments w) \<union> instrument_key ` set rs"
    and "x \<in> set (db_instruments w) \<Longrightarrow> instrument_key x \<notin> instrument_key ` set rs \<Longrightarrow>
       x \<in> set (db_instruments w')"
    and "distinct (map instrument_key rs) \<Longrightarrow> \<forall>r \<in> set rs. carries (db_now w) r w'"
  using assms
proof (induction rs arbitrary: w x)
  case (Cons r rs)
  {
    case 1
    then obtain v w1 where w1: "run_sql (upsert_instrument r) w = (Inr v, w1)"
      "exec_batch upsert_instrument rs w1 = (Inr u, w')" by (auto split: prod.splits sum.splits)
    show ?case using Cons.IH(1) [OF w1(2)] upsert_carries(4) [OF w1(1)] by auto
  next
    case 2
    then obtain v w1 where w1: "run_sql (upsert_instrument r) w = (Inr v, w1)"
      "exec_batch upsert_instrument rs w1 = (Inr u, w')" by (auto split: prod.splits sum.splits)
    show ?case using Cons.IH(2) [OF _ _ w1(2)] upsert_carries(3) [OF w1(1)] 2 by auto
  next
    case 3
    then obtain v w1 where w1: "run_sql (upsert_instrument r) w = (Inr v, w1)"
      "exec_batch upsert_instrument rs w1 = (Inr u, w')" by (auto split: prod.splits sum.splits)
    have now: "db_now w1 = db_now w" by (rule upsert_carries(2) [OF w1(1)])
    obtain y where y: "y \<in> set (db_instruments w1)" "instrument_key y = instrument_key r"
      "update_excluded (instrument_columns (db_now w) r) y = y"
      using upsert_carries(1) [OF w1(1)] by (auto simp: carries_def)
    have "y \<in> set (db_instruments w')"
      using Cons.IH(2) [OF y(1) _ w1(2)] y(2) 3 by auto
    then have "carries (db_now w) r w'" using y by (auto simp: carries_def)
    moreover have "\<forall>r \<in> set rs. carries (db_now w) r w'"
      using Cons.IH(3) [OF _ w1(2)] 3 now by simp
    ultimately show ?case by simp
  }
qed auto

text \<open>A batch of upserts is all or nothing and keyed on symbol and exchange: if any statement
  fails the table of instruments is unchanged; if all succeed every old row keeps its place,
  identifier, key and creation time, identifiers and keys stay unique, the keys are the old
  ones and those of the batch, and every instrument of a batch without repeated keys is in
  the table with the attributes given.\<close>

lemma UpsertBatch_atomic:
  assumes "unique_keys w"
  shows "case UpsertBatch instruments w of
      (Inl e, w') \<Rightarrow> db_instruments w' = db_instruments w
    | (Inr _, w') \<Rightarrow> unique_keys w' \<and>
        (\<exists>rows new. db_instruments w' = rows @ new \<and>
           list_all2 same_identity (db_instruments w) rows) \<and>
        instrument_key ` set (db_instruments w') = instrument_key ` set (db_instruments w) \<union>
          instrument_key ` instrument_of_model ` set instruments \<and>
        (distinct (map (instrument_key \<circ> instrument_of_model) instruments) \<longrightarrow>
           list_all (\<lambda>i. carries (db_now w) (instrument_of_model i) w') instruments)"
proof (cases "instruments = []")
  case True
  with assms show ?thesis
    by (auto simp: UpsertBatch_def intro: exI [of _ "[]"] exI [of _ "db_instruments w"])
next
  case False
  obtain rows w1 where q: "queue_upserts instruments w = (rows, w1)" by fastforce
  note qk = queue_upserts_keeps [OF q]
  obtain res w2 where x: "exec_batch upsert_instrument rows w1 = (res, w2)" by fastforce
  show ?thesis
  proof (cases res)
    case (Inl e)
    with False q x show ?thesis by (simp add: UpsertBatch_def)
  next
    case (Inr u)
    have ext: "extends_table w1 w2"
      using instrument_upserts.keeps_batch [of w1 rows] x by simp
    have keys: "map instrument_key rows = map (instrument_key \<circ> instrument_of_model) instruments"
      and car: "list_all2 (\<lambda>i r. carries t r v \<longleftrightarrow> carries t (instrument_of_model i) v) instruments rows"
      for t v
      using qk(4)
      by (induction rule: list_all2_induct)
        (auto simp: instrument_key_def carries_def update_excluded_def instrument_columns_def)
    have "instrument_key ` set rows = instrument_key ` instrument_of_model ` set instruments"
      using arg_cong [OF keys, of set] by (simp add: image_comp)
    moreover have "list_all (\<lambda>i. carries (db_now w) (instrument_of_model i) w2) instruments"
      if d: "distinct (map (instrument_key \<circ> instrument_of_model) instruments)"
    proof -
      have "\<forall>r \<in> set rows. carries (db_now w) r w2"
        using batch_carries(3) [of rows w1 u w2] x Inr d keys qk(2) by simp
      with car [of "db_now w" w2] show ?thesis
        by (induction rule: list_all2_induct) auto
    qed
    moreover have "unique_keys w1" using assms qk(1) by (simp add: unique_keys_def)
    ultimately show ?thesis
      using False q x Inr ext batch_carries(1) [of rows w1 u w2] qk(1)
      by (simp add: UpsertBatch_def extends_table_def)
  qed
qed

definition sample_instrument :: "string \<Rightarrow> string \<Rightarrow> instrument" where
  "sample_instrument symbol ty =
     \<lparr>iID = uuid_nil, iSymbol = symbol, iName = symbol, iExchange = ''NSE'', iInstrumentType = ty,
      iUnderlying = Some ''NIFTY'', iExpiry = None, iStrike = None, iOptionType = None,
      iLotSize = 75, iCreatedAt = 0, iUpdatedAt = 0\<rparr>"

lemma UpsertBatch_atomic_witness:
  "case UpsertBatch [sample_instrument ''NIFTY'' InstrumentTypeIndex] (empty_db 0) of
      (Inl e, w') \<Rightarrow> db_instruments w' = []
    | (Inr _, w') \<Rightarrow>
        list_all (\<lambda>i. carries 0 (instrument_of_model i) w')
          [sample_instrument ''NIFTY'' InstrumentTypeIndex]"
  using UpsertBatch_atomic [of "empty_db 0" "[sample_instrument ''NIFTY'' InstrumentTypeIndex]"]
  by (simp add: unique_keys_def empty_db_def split: prod.splits sum.splits)

end
