(* ===== verification/Strategies.thy ===== *)
theory Strategies
  imports Database
begin

text \<open>
  The code-defined strategies: \<^verbatim>\<open>internal/models/builtin_strategy.go\<close> and
  \<^verbatim>\<open>strategy_sources.go\<close>, and \<^verbatim>\<open>internal/strategies\<close> with the two built-ins and the
  registry that refuses, by a panic at start-up, what later code relies on. Text outside
  ASCII is written as its UTF-8 bytes.
\<close>

section \<open>Sources\<close>

type_synonym instrument_kind = string

definition InstrumentKindIndex :: instrument_kind where
  [go_const]: "InstrumentKindIndex = InstrumentTypeIndex"
definition InstrumentKindEquity :: instrument_kind where
  [go_const]: "InstrumentKindEquity = InstrumentTypeEquity"
definition InstrumentKindFuturesIndex :: instrument_kind where
  [go_const]: "InstrumentKindFuturesIndex = InstrumentTypeFuturesIndex"
definition InstrumentKindFuturesStock :: instrument_kind where
  [go_const]: "InstrumentKindFuturesStock = InstrumentTypeFuturesStock"
definition InstrumentKindFuturesIndexContinuous :: instrument_kind where
  [go_const]: "InstrumentKindFuturesIndexContinuous = InstrumentTypeFuturesIndexCont"
definition InstrumentKindFuturesStockContinuous :: instrument_kind where
  [go_const]: "InstrumentKindFuturesStockContinuous = InstrumentTypeFuturesStockCont"
definition InstrumentKindOptionsIndex :: instrument_kind where
  [go_const]: "InstrumentKindOptionsIndex = InstrumentTypeOptionsIndex"
definition InstrumentKindOptionsStock :: instrument_kind where
  [go_const]: "InstrumentKindOptionsStock = InstrumentTypeOptionsStock"

text \<open>\<^verbatim>\<open>StrategyParams\<close> has the underlying for its only field, \<^verbatim>\<open>InstrumentSpec\<close> the kind.\<close>

record strategy_params =
  spUnderlying :: string

record instrument_spec =
  Kind :: instrument_kind

record strategy_sources =
  srcSignal :: instrument_spec
  srcTrade :: instrument_spec

type_synonym source_resolver = "strategy_params \<Rightarrow> strategy_sources"

definition supportsStrategyInterval :: "instrument_kind \<Rightarrow> string \<Rightarrow> bool" where
  "supportsStrategyInterval kind interval \<longleftrightarrow>
     kind \<in> {InstrumentKindIndex, InstrumentKindEquity, InstrumentKindFuturesIndex,
       InstrumentKindFuturesStock, InstrumentKindFuturesIndexContinuous,
       InstrumentKindFuturesStockContinuous, InstrumentKindOptionsIndex,
       InstrumentKindOptionsStock} \<and> interval = CandleInterval1D"

definition ValidateStrategySourceIntervals :: "strategy_sources \<Rightarrow> string \<Rightarrow> err option" where
  "ValidateStrategySourceIntervals sources interval =
     (if \<not> supportsStrategyInterval (Kind (srcSignal sources)) interval
      then Some (Plain (''signal source kind '' @ Kind (srcSignal sources) @
             '' does not support interval '' @ interval))
      else if \<not> supportsStrategyInterval (Kind (srcTrade sources)) interval
      then Some (Plain (''trade source kind '' @ Kind (srcTrade sources) @
             '' does not support interval '' @ interval))
      else None)"

section \<open>Built-in strategies\<close>

text \<open>A value of type \<^verbatim>\<open>any\<close> in a declaration is an integer or a string.\<close>

datatype any_value = AnyInt int | AnyString string

record strategy_input =
  inKey :: string
  inLabel :: string
  inType :: string
  inOptions :: "string list"
  inConstraints :: "(string \<times> any_value) list"
  inDefaultValue :: "any_value option"
  inDefaultFrom :: string
  inDefaultTo :: string
  inPrefix :: string
  inSuffix :: string
  inCaption :: string
  inCaptionAtZero :: string

record builtin_strategy =
  bsID :: string
  bsName :: string
  bsCategory :: string
  bsDescription :: string
  bsLogic :: "string list"
  bsInputs :: "strategy_input list"
  bsEntryConditionType :: string
  bsInstrumentType :: string
  bsExpiryRule :: string
  bsCandleInterval :: string
  bsTargetPct :: "f64 option"
  bsStopLossPct :: "f64 option"
  bsTimeExitMinutes :: "goint option"
  bsSourceResolver :: "source_resolver option"

definition InputTypeSelect :: string where "InputTypeSelect = ''SELECT''"
definition InputTypeDateRange :: string where "InputTypeDateRange = ''DATE_RANGE''"
definition InputTypeStepper :: string where "InputTypeStepper = ''STEPPER''"
definition InputTypeNumberInput :: string where "InputTypeNumberInput = ''NUMBER_INPUT''"
definition StrategyInputKeyUnderlying :: string where
  "StrategyInputKeyUnderlying = ''underlying''"
definition ConstraintMin :: string where "ConstraintMin = ''min''"
definition ConstraintMax :: string where "ConstraintMax = ''max''"
definition ConstraintMinDate :: string where "ConstraintMinDate = ''minDate''"
definition ConstraintDecimals :: string where "ConstraintDecimals = ''decimals''"
definition ExpiryRuleCurrentMonth :: string where "ExpiryRuleCurrentMonth = ''CURRENT_MONTH''"

definition historicalDataStart :: string where "historicalDataStart = ''2022-01-01''"
definition defaultBacktestFromDate :: string where "defaultBacktestFromDate = ''2025-01-01''"
definition defaultBacktestToDate :: string where "defaultBacktestToDate = ''2025-12-31''"

definition slugMACrossover :: string where "slugMACrossover = ''ma_crossover''"
definition slugVWAPCrossover :: string where "slugVWAPCrossover = ''vwap_crossover''"

definition fixedSourceResolver :: "strategy_sources \<Rightarrow> source_resolver" where
  "fixedSourceResolver sources params = sources"

definition indexSignalFuturesIndexTradeSources :: source_resolver where
  "indexSignalFuturesIndexTradeSources =
     fixedSourceResolver \<lparr>srcSignal = \<lparr>Kind = InstrumentKindIndex\<rparr>,
       srcTrade = \<lparr>Kind = InstrumentKindFuturesIndexContinuous\<rparr>\<rparr>"

definition blank_input :: strategy_input where
  "blank_input =
     \<lparr>inKey = '''', inLabel = '''', inType = '''', inOptions = [], inConstraints = [],
      inDefaultValue = None, inDefaultFrom = '''', inDefaultTo = '''', inPrefix = '''',
      inSuffix = '''', inCaption = '''', inCaptionAtZero = ''''\<rparr>"

definition em_dash :: string where "em_dash = [CHR 0xE2, CHR 0x80, CHR 0x94]"

definition builtin_inputs :: "strategy_input list" where
  "builtin_inputs =
     [blank_input\<lparr>inKey := StrategyInputKeyUnderlying, inLabel := ''Underlying'',
        inType := InputTypeSelect,
        inOptions := [UnderlyingNifty, UnderlyingBankNifty, UnderlyingFinNifty],
        inDefaultValue := Some (AnyString UnderlyingNifty)\<rparr>,
      blank_input\<lparr>inKey := ''dateRange'', inLabel := ''Date range'', inType := InputTypeDateRange,
        inConstraints := [(ConstraintMinDate, AnyString historicalDataStart)],
        inDefaultFrom := defaultBacktestFromDate, inDefaultTo := defaultBacktestToDate\<rparr>,
      blank_input\<lparr>inKey := ''lots'', inLabel := ''Lots'', inType := InputTypeStepper,
        inConstraints := [(ConstraintMin, AnyInt 1), (ConstraintMax, AnyInt 50)],
        inDefaultValue := Some (AnyInt 1)\<rparr>,
      blank_input\<lparr>inKey := ''capital'', inLabel := ''Capital'', inType := InputTypeNumberInput,
        inPrefix := [CHR 0xE2, CHR 0x82, CHR 0xB9],
        inConstraints := [(ConstraintMin, AnyInt 10000), (ConstraintMax, AnyInt 10000000)],
        inDefaultValue := Some (AnyInt 200000)\<rparr>,
      blank_input\<lparr>inKey := ''slippagePct'',
        inLabel := ''Slippage '' @ [CHR 0xC2, CHR 0xB7] @ '' per leg'',
        inType := InputTypeNumberInput, inSuffix := ''%'',
        inConstraints := [(ConstraintMin, AnyInt 0), (ConstraintMax, AnyInt 1),
          (ConstraintDecimals, AnyInt 3)],
        inDefaultValue := Some (AnyInt 0),
        inCaption := ''Applied on entry and exit. Type decimal percent '' @ em_dash @
          '' e.g. 0.005 for 0.005%.'',
        inCaptionAtZero := ''No slippage assumed '' @ em_dash @ '' backtest uses ideal fills.''\<rparr>]"

definition MACrossover :: builtin_strategy where
  "MACrossover =
     \<lparr>bsID = slugMACrossover, bsName = ''MA Crossover'', bsCategory = ''Trend'',
      bsDescription = ''Go long when the short-period SMA crosses above the long-period SMA. Exit on reverse crossover, stop loss, or session end.'',
      bsLogic =
        [''Buy when the 9-period SMA crosses above the 21-period SMA.'',
         ''Sell when the 9-period SMA crosses below the 21-period SMA.'',
         ''Timeframe is fixed at daily candles.'',
         ''Exit on reverse crossover, stop loss hit, or end of data.''],
      bsInputs = builtin_inputs, bsEntryConditionType = EntryConditionMACrossover,
      bsInstrumentType = InstrumentTypeFuturesIndex, bsExpiryRule = ExpiryRuleCurrentMonth,
      bsCandleInterval = CandleInterval1D, bsTargetPct = None, bsStopLossPct = None,
      bsTimeExitMinutes = None, bsSourceResolver = Some indexSignalFuturesIndexTradeSources\<rparr>"

definition VWAPCrossover :: builtin_strategy where
  "VWAPCrossover =
     \<lparr>bsID = slugVWAPCrossover, bsName = ''VWAP Crossover'', bsCategory = ''Momentum'',
      bsDescription = ''Go long when price closes above the rolling 20-day VWAP. Exit on reverse crossover, stop loss, or session end.'',
      bsLogic =
        [''Buy when the daily close crosses above the 20-period rolling VWAP.'',
         ''Sell when the daily close crosses below the 20-period rolling VWAP.'',
         ''VWAP is computed as '' @ [CHR 0xCE, CHR 0xA3] @ ''(TypicalPrice '' @
           [CHR 0xC3, CHR 0x97] @ '' Volume) / '' @ [CHR 0xCE, CHR 0xA3] @
           ''(Volume) over the lookback window.'',
         ''Exit on reverse crossover, stop loss hit, or end of data.''],
      bsInputs = builtin_inputs, bsEntryConditionType = EntryConditionVWAPCrossover,
      bsInstrumentType = InstrumentTypeFuturesIndex, bsExpiryRule = ExpiryRuleCurrentMonth,
      bsCandleInterval = CandleInterval1D, bsTargetPct = None, bsStopLossPct = None,
      bsTimeExitMinutes = None, bsSourceResolver = Some indexSignalFuturesIndexTradeSources\<rparr>"

section \<open>Registry\<close>

record registry =
  rgStrategies :: "string \<rightharpoonup> builtin_strategy"
  rgOrder :: "string list"

text \<open>\<open>Inl\<close> is the text of a panic.\<close>

definition register :: "builtin_strategy \<Rightarrow> registry \<Rightarrow> string + registry" where
  "register s r =
     (if bsID s \<in> dom (rgStrategies r) then Inl (''strategies: duplicate slug '' @ quoted (bsID s))
      else case bsSourceResolver s of
        None \<Rightarrow> Inl (''strategies: missing source resolver for '' @ quoted (bsID s))
      | Some resolver \<Rightarrow>
         (case ValidateStrategySourceIntervals (resolver \<lparr>spUnderlying = ''''\<rparr>) (bsCandleInterval s) of
            Some e \<Rightarrow> Inl (''strategies: invalid source intervals for '' @ quoted (bsID s) @
                        '': '' @ err_msg e)
          | None \<Rightarrow> Inr (r\<lparr>rgStrategies := (rgStrategies r)(bsID s \<mapsto> s),
                          rgOrder := rgOrder r @ [bsID s]\<rparr>)))"

primrec register_all :: "builtin_strategy list \<Rightarrow> registry \<Rightarrow> string + registry" where
  "register_all [] r = Inr r"
| "register_all (s # ss) r =
     (case register s r of Inl panic \<Rightarrow> Inl panic | Inr r' \<Rightarrow> register_all ss r')"

definition empty_registry :: registry where
  "empty_registry = \<lparr>rgStrategies = (\<lambda>_. None), rgOrder = []\<rparr>"

definition NewRegistry :: "string + registry" where
  "NewRegistry = register_all [MACrossover, VWAPCrossover] empty_registry"

text \<open>\<^verbatim>\<open>Get\<close> and \<^verbatim>\<open>All\<close>.\<close>

definition registry_Get :: "registry \<Rightarrow> string \<Rightarrow> builtin_strategy option" where
  "registry_Get r slug = rgStrategies r slug"

definition registry_All :: "registry \<Rightarrow> builtin_strategy option list" where
  "registry_All r = map (rgStrategies r) (rgOrder r)"

section \<open>What a registry guarantees\<close>

text \<open>A strategy the registry accepts: it resolves its sources, and both support its interval.\<close>

definition resolvable :: "builtin_strategy \<Rightarrow> bool" where
  "resolvable s \<longleftrightarrow>
     (case bsSourceResolver s of None \<Rightarrow> False
      | Some resolver \<Rightarrow>
         ValidateStrategySourceIntervals (resolver \<lparr>spUnderlying = ''''\<rparr>) (bsCandleInterval s) = None)"

lemma register_Inr:
  "register s r = Inr r' \<longleftrightarrow>
     bsID s \<notin> dom (rgStrategies r) \<and> resolvable s \<and>
     r' = r\<lparr>rgStrategies := (rgStrategies r)(bsID s \<mapsto> s), rgOrder := rgOrder r @ [bsID s]\<rparr>"
  by (auto simp: register_def resolvable_def split: option.splits)

text \<open>The state after registering \<open>ss\<close>.\<close>

definition holds_exactly :: "builtin_strategy list \<Rightarrow> registry \<Rightarrow> bool" where
  "holds_exactly ss r \<longleftrightarrow>
     rgOrder r = map bsID ss \<and> rgStrategies r = map_of (map (\<lambda>s. (bsID s, s)) ss)"

lemma holds_exactly_register:
  assumes "holds_exactly ss r"
  shows "(\<exists>r'. register s r = Inr r') \<longleftrightarrow> bsID s \<notin> bsID ` set ss \<and> resolvable s"
    and "register s r = Inr r' \<Longrightarrow> holds_exactly (ss @ [s]) r'"
proof -
  have d: "dom (rgStrategies r) = bsID ` set ss"
    using assms by (simp add: holds_exactly_def dom_map_of_conv_image_fst image_image)
  then show "(\<exists>r'. register s r = Inr r') \<longleftrightarrow> bsID s \<notin> bsID ` set ss \<and> resolvable s"
    by (auto simp: register_Inr)
  assume "register s r = Inr r'"
  then have "bsID s \<notin> bsID ` set ss"
    and r': "r' = r\<lparr>rgStrategies := (rgStrategies r)(bsID s \<mapsto> s), rgOrder := rgOrder r @ [bsID s]\<rparr>"
    by (simp_all add: register_Inr d)
  then have "map_of (map (\<lambda>s. (bsID s, s)) ss) (bsID s) = None"
    by (force simp: map_of_eq_None_iff image_image)
  then have "(map_of (map (\<lambda>s. (bsID s, s)) ss))(bsID s \<mapsto> s)
      = map_of (map (\<lambda>s. (bsID s, s)) (ss @ [s]))"
    by (auto simp: map_add_def fun_eq_iff split: option.split)
  with assms r' show "holds_exactly (ss @ [s]) r'"
    by (simp add: holds_exactly_def)
qed

lemma register_all_spec:
  assumes "holds_exactly ss r" "distinct (map bsID ss)"
  shows "case register_all ts r of
      Inl panic \<Rightarrow> \<not> (distinct (map bsID (ss @ ts)) \<and> list_all resolvable ts)
    | Inr r' \<Rightarrow> distinct (map bsID (ss @ ts)) \<and> list_all resolvable ts \<and> holds_exactly (ss @ ts) r'"
  using assms
proof (induction ts arbitrary: ss r)
  case (Cons t ts)
  show ?case
  proof (cases "register t r")
    case (Inl panic)
    then have "\<not> (bsID t \<notin> bsID ` set ss \<and> resolvable t)"
      using holds_exactly_register(1) [OF Cons.prems(1), of t] by auto
    then show ?thesis using Inl by auto
  next
    case (Inr r')
    then have ok: "bsID t \<notin> bsID ` set ss" "resolvable t"
      using holds_exactly_register(1) [OF Cons.prems(1), of t] by auto
    have "holds_exactly (ss @ [t]) r'" by (rule holds_exactly_register(2) [OF Cons.prems(1) Inr])
    moreover have "distinct (map bsID (ss @ [t]))" using Cons.prems(2) ok(1) by simp
    ultimately have "case register_all ts r' of
        Inl panic \<Rightarrow> \<not> (distinct (map bsID ((ss @ [t]) @ ts)) \<and> list_all resolvable ts)
      | Inr r'' \<Rightarrow> distinct (map bsID ((ss @ [t]) @ ts)) \<and> list_all resolvable ts \<and>
          holds_exactly ((ss @ [t]) @ ts) r''"
      by (rule Cons.IH)
    then show ?thesis using Inr ok(2) by (cases "register_all ts r'") auto
  qed
qed simp

lemma holds_exactly_empty: "holds_exactly [] empty_registry"
  by (simp add: holds_exactly_def empty_registry_def fun_eq_iff)

text \<open>Registering a list of strategies panics exactly when two share a slug or one has no
  source resolver or an interval its sources do not support; otherwise \<^verbatim>\<open>All\<close> returns the
  list itself, in its order, and \<^verbatim>\<open>Get\<close> the strategy with that slug if there is one. The
  registry the server starts with exists.\<close>

theorem registry_spec:
  "(case register_all ss empty_registry of
      Inl panic \<Rightarrow> \<not> (distinct (map bsID ss) \<and> list_all resolvable ss)
    | Inr r \<Rightarrow> distinct (map bsID ss) \<and> list_all resolvable ss \<and>
        registry_All r = map Some ss \<and>
        registry_Get r slug = find (\<lambda>s. bsID s = slug) ss) \<and>
   (\<exists>r. NewRegistry = Inr r)"
proof (rule conjI)
  have find: "map_of (map (\<lambda>s. (bsID s, s)) ts) slug = find (\<lambda>s. bsID s = slug) ts" for ts
    by (induction ts) auto
  have all: "map_of (map (\<lambda>s. (bsID s, s)) ts) (bsID s) = Some s"
    if "distinct (map bsID ts)" "s \<in> set ts" for ts :: "builtin_strategy list" and s
    using that by (simp add: comp_def map_of_eq_Some_iff)
  have "case register_all ss empty_registry of
      Inl panic \<Rightarrow> \<not> (distinct (map bsID ([] @ ss)) \<and> list_all resolvable ss)
    | Inr r \<Rightarrow> distinct (map bsID ([] @ ss)) \<and> list_all resolvable ss \<and> holds_exactly ([] @ ss) r"
    by (rule register_all_spec [OF holds_exactly_empty]) simp
  then show "case register_all ss empty_registry of
      Inl panic \<Rightarrow> \<not> (distinct (map bsID ss) \<and> list_all resolvable ss)
    | Inr r \<Rightarrow> distinct (map bsID ss) \<and> list_all resolvable ss \<and>
        registry_All r = map Some ss \<and>
        registry_Get r slug = find (\<lambda>s. bsID s = slug) ss"
    by (simp add: holds_exactly_def registry_All_def registry_Get_def find all comp_def split: sum.splits)
  have "list_all resolvable [MACrossover, VWAPCrossover]"
    by (simp add: resolvable_def MACrossover_def VWAPCrossover_def
        indexSignalFuturesIndexTradeSources_def fixedSourceResolver_def
        ValidateStrategySourceIntervals_def supportsStrategyInterval_def)
  moreover have "distinct (map bsID [MACrossover, VWAPCrossover])"
    by (simp add: MACrossover_def VWAPCrossover_def slugMACrossover_def slugVWAPCrossover_def)
  ultimately show "\<exists>r. NewRegistry = Inr r"
    using register_all_spec [OF holds_exactly_empty, of "[MACrossover, VWAPCrossover]"]
    by (auto simp: NewRegistry_def split: sum.splits)
qed

end
