(* ===== verification/Backtest_Service.thy ===== *)
theory Backtest_Service
  imports Backtest_Store Stores Strategies
begin

text \<open>
  \<^verbatim>\<open>internal/services/backtest.go\<close>: the life of a backtest. \<open>Submit\<close> checks a request, creates
  the run and hands a job to the background; \<open>executeRun\<close> runs the engine on it and stores
  the outcome. The service sees its collaborators through interfaces, which are the fields of
  the record \<open>backtest_service\<close> over a world of type \<open>'w\<close>; the server instantiates them with
  the stores, the registry and the engine (\<open>the_service\<close>).
\<close>

section \<open>Errors, limits, requests\<close>

definition NoDayLimit :: goint where "NoDayLimit = 0"
definition NoCandleLimit :: goint where "NoCandleLimit = 0"
definition oneDay :: duration where "oneDay = 24 * hour"
definition backtestPnlIdentityTolerance :: f64 where "backtestPnlIdentityTolerance = lit 1 1"

definition ErrStrategyNotFound :: err where
  [err_const]: "ErrStrategyNotFound = Sentinel ''strategy not found''"
definition ErrNoInstrument :: err where
  [err_const]: "ErrNoInstrument = Sentinel ''no instrument found for underlying''"
definition ErrNoCandleData :: err where
  [err_const]: "ErrNoCandleData = Sentinel ''no candle data available''"
definition ErrInvalidUnderlying :: err where
  [err_const]: "ErrInvalidUnderlying = Sentinel ''invalid underlying for strategy''"
definition ErrInvalidStrategySources :: err where
  [err_const]: "ErrInvalidStrategySources = Sentinel ''invalid strategy source declaration''"
definition ErrBacktestDisabled :: err where
  [err_const]: "ErrBacktestDisabled = Sentinel ''backtests are disabled''"
definition ErrBacktestDateRangeExceeded :: err where
  [err_const]: "ErrBacktestDateRangeExceeded =
     Sentinel ''backtest date range exceeds maximum allowed days''"
definition ErrBacktestCandleCountExceeded :: err where
  [err_const]: "ErrBacktestCandleCountExceeded = Sentinel ''backtest candle count exceeds maximum''"
definition ErrBacktestPnlIdentityMismatch :: err where
  [err_const]: "ErrBacktestPnlIdentityMismatch = Sentinel ''backtest pnl identity mismatch''"
definition ErrInvalidSlippagePct :: err where
  [err_const]: "ErrInvalidSlippagePct = Sentinel ''invalid slippage percent''"

definition errMsgInternalError :: string where "errMsgInternalError = ''internal error''"
definition errMsgAmbiguousInstrumentResolution :: string where
  "errMsgAmbiguousInstrumentResolution = ''ambiguous instrument resolution''"
definition errMsgUnsupportedInstrumentResolution :: string where
  "errMsgUnsupportedInstrumentResolution = ''unsupported instrument kind for v1 source resolution''"

record backtest_limits =
  BacktestsEnabled :: bool
  MaxDays :: goint
  MaxCandles :: goint

record backtest_request =
  rqStrategySlug :: string
  rqUnderlying :: string
  rqFrom :: time
  rqTo :: time
  rqCfg :: backtest_run_config

text \<open>A call that may panic.\<close>

datatype 'a call = Panic string | Return 'a

record 'w backtest_service =
  svCreate :: "backtest_run \<Rightarrow> 'w \<Rightarrow> backtest_run res \<times> 'w"
  svUpdateStatus :: "backtest_run \<Rightarrow> 'w \<Rightarrow> unit res \<times> 'w"
  svUpdateResult :: "backtest_run \<Rightarrow> 'w \<Rightarrow> unit res \<times> 'w"
  svGetByID :: "uuid \<Rightarrow> uuid \<Rightarrow> 'w \<Rightarrow> backtest_run res \<times> 'w"
  svGetByIDWithTrades :: "uuid \<Rightarrow> uuid \<Rightarrow> 'w \<Rightarrow> backtest_run res \<times> 'w"
  svListCompleted :: "uuid \<Rightarrow> goint \<Rightarrow> goint \<Rightarrow> 'w \<Rightarrow> (backtest_run list \<times> goint) res \<times> 'w"
  svBuiltin :: "string \<Rightarrow> builtin_strategy option"
  svQuery :: "candle_filter \<Rightarrow> 'w \<Rightarrow> candle list res \<times> 'w"
  svInstruments :: "instrument_filter \<Rightarrow> 'w \<Rightarrow> instrument list res \<times> 'w"
  svRunBacktest :: "strategy \<Rightarrow> engine_inputs \<Rightarrow> backtest_run_config \<Rightarrow> backtest_result option res call"
  svComputeTradeStats :: "trade list \<Rightarrow> time \<Rightarrow> time \<Rightarrow> trade_stats call"
  svBuildChartData :: "trade list \<Rightarrow> f64 \<Rightarrow> time \<Rightarrow> time \<Rightarrow> chart_data call"
  svLimits :: backtest_limits
  svNewID :: "'w \<Rightarrow> uuid \<times> 'w"

section \<open>Resolving the inputs\<close>

definition underlyingOptions :: "builtin_strategy \<Rightarrow> string list" where
  "underlyingOptions b =
     (case find (\<lambda>inp. inKey inp = StrategyInputKeyUnderlying) (bsInputs b) of
        Some inp \<Rightarrow> inOptions inp | None \<Rightarrow> [])"

definition supportsSingleInstrumentResolution :: "instrument_kind \<Rightarrow> bool" where
  "supportsSingleInstrumentResolution kind \<longleftrightarrow>
     kind \<in> {InstrumentKindIndex, InstrumentKindEquity, InstrumentKindFuturesIndexContinuous,
       InstrumentKindFuturesStockContinuous}"

definition instrumentTypeForKind :: "instrument_kind \<Rightarrow> string res" where
  "instrumentTypeForKind kind =
     (if kind \<in> {InstrumentTypeIndex, InstrumentTypeEquity, InstrumentTypeFuturesIndex,
          InstrumentTypeFuturesStock, InstrumentTypeFuturesIndexCont, InstrumentTypeFuturesStockCont,
          InstrumentTypeOptionsIndex, InstrumentTypeOptionsStock}
      then Inr kind
      else Inl (Wrap '''' ErrInvalidStrategySources ('': unknown instrument kind '' @ kind)))"

definition resolveInstrumentSpec ::
  "'w backtest_service \<Rightarrow> instrument_spec \<Rightarrow> string \<Rightarrow> 'w \<Rightarrow> instrument res \<times> 'w" where
  "resolveInstrumentSpec sv spec underlying w =
     (if \<not> supportsSingleInstrumentResolution (Kind spec)
      then (Inl (Wrap '''' ErrInvalidStrategySources
              ('': '' @ errMsgUnsupportedInstrumentResolution @ '': '' @ Kind spec)), w)
      else case instrumentTypeForKind (Kind spec) of
        Inl e \<Rightarrow> (Inl e, w)
      | Inr lookupType \<Rightarrow>
         (case svInstruments sv \<lparr>ifExchange = None, ifInstrumentType = Some lookupType,
                                 ifUnderlying = Some underlying\<rparr> w of
            (Inl e, w') \<Rightarrow> (Inl (Wrap ''failed to resolve instrument: '' e ''''), w')
          | (Inr [], w') \<Rightarrow> (Inl ErrNoInstrument, w')
          | (Inr [inst], w') \<Rightarrow> (Inr inst, w')
          | (Inr _, w') \<Rightarrow> (Inl (Wrap '''' ErrInvalidStrategySources
                ('': '' @ errMsgAmbiguousInstrumentResolution @ '' for '' @ underlying @ '' '' @ lookupType)), w')))"

definition fetchCandles ::
  "'w backtest_service \<Rightarrow> uuid \<Rightarrow> string \<Rightarrow> time \<Rightarrow> time \<Rightarrow> 'w \<Rightarrow> candle list res \<times> 'w" where
  "fetchCandles sv i interval from_ts to_ts =
     svQuery sv \<lparr>cfInstrumentID = i, cfFrom = from_ts, cfTo = to_ts, cfInterval = interval\<rparr>"

definition fetchEngineInputs ::
  "'w backtest_service \<Rightarrow> instrument \<Rightarrow> instrument \<Rightarrow> string \<Rightarrow> time \<Rightarrow> time \<Rightarrow> 'w \<Rightarrow> engine_inputs res \<times> 'w" where
  "fetchEngineInputs sv signalInst tradeInst interval from_ts to_ts w =
     (case fetchCandles sv (iID signalInst) interval from_ts to_ts w of
        (Inl e, w') \<Rightarrow> (Inl (Wrap ''failed to fetch signal candle data: '' e ''''), w')
      | (Inr signalCandles, w') \<Rightarrow>
         (if signalCandles = [] then (Inl ErrNoCandleData, w')
          else case fetchCandles sv (iID tradeInst) interval from_ts to_ts w' of
            (Inl e, w'') \<Rightarrow> (Inl (Wrap ''failed to fetch trade candle data: '' e ''''), w'')
          | (Inr tradeCandles, w'') \<Rightarrow>
             (if tradeCandles = [] then (Inl ErrNoCandleData, w'')
              else (Inr \<lparr>Interval = interval, SignalCandles = signalCandles,
                         TradeCandles = tradeCandles\<rparr>, w''))))"

section \<open>Submission\<close>

definition new_run :: "uuid \<Rightarrow> uuid \<Rightarrow> instrument \<Rightarrow> instrument \<Rightarrow> builtin_strategy \<Rightarrow> backtest_request \<Rightarrow> backtest_run" where
  "new_run i u signalInst tradeInst builtin req =
     \<lparr>bID = i, bUserID = Some u, bStrategyID = None, bInstrumentToken = iSymbol tradeInst,
      bSignalInstrumentToken = Some (iSymbol signalInst), bFromTs = rqFrom req,
      bToTs = rqTo req, bCandleInterval = bsCandleInterval builtin, bStatus = BacktestPending,
      bNetPnl = None, bGrossPnl = None, bTotalCharges = None, bSlippage = None,
      bTotalTrades = None, bWinCount = None, bLossCount = None, bMaxDrawdown = None,
      bTrades = [], bErrorMessage = None, bCreatedAt = zero_time, bCompletedAt = None,
      bStrategySlug = Some (rqStrategySlug req), bStrategyName = None,
      bCapital = Some (InitialCapital (rqCfg req)), bLots = Some (Lots (rqCfg req)),
      bUnderlying = Some (rqUnderlying req), bResultStats = None, bChartData = None,
      bSlippagePct = SlippagePct (rqCfg req)\<rparr>"

definition createAndStartRun ::
  "'w backtest_service \<Rightarrow> uuid \<Rightarrow> instrument \<Rightarrow> instrument \<Rightarrow> builtin_strategy \<Rightarrow> backtest_request \<Rightarrow> 'w
     \<Rightarrow> backtest_run res \<times> 'w" where
  "createAndStartRun sv u signalInst tradeInst builtin req w =
     (let (i, w0) = svNewID sv w
      in case svCreate sv (new_run i u signalInst tradeInst builtin req) w0 of
           (Inl e, w') \<Rightarrow> (Inl (Wrap ''failed to create backtest run: '' e ''''), w')
         | (Inr run, w') \<Rightarrow>
             (let run' = run\<lparr>bStatus := BacktestRunning\<rparr>
              in case svUpdateStatus sv run' w' of
                   (Inl e, w'') \<Rightarrow> (Inl (Wrap ''failed to update backtest status: '' e ''''), w'')
                 | (Inr _, w'') \<Rightarrow> (Inr run', w'')))"

definition engine_strategy :: "builtin_strategy \<Rightarrow> instrument \<Rightarrow> string \<Rightarrow> strategy" where
  "engine_strategy builtin tradeInst underlying =
     \<lparr>sID = uuid_nil, sName = bsName builtin, sDescription = bsDescription builtin,
      sUnderlying = underlying, sInstrumentType = bsInstrumentType builtin,
      sExpiryRule = bsExpiryRule builtin, sOptionLeg = [],
      sEntryConditionType = bsEntryConditionType builtin, sTargetPct = bsTargetPct builtin,
      sStopLossPct = bsStopLossPct builtin, sTimeExitMinutes = bsTimeExitMinutes builtin,
      sLotSize = iLotSize tradeInst, sMode = '''', sIsReadyForRun = False,
      sCreatedAt = zero_time, sUpdatedAt = zero_time\<rparr>"

text \<open>What the background execution closes over.\<close>

record job =
  jRun :: backtest_run
  jStrategy :: strategy
  jInputs :: engine_inputs
  jCfg :: backtest_run_config

text \<open>The checks that need no collaborator but the registry, in the order of the code; the
  strategy and its sources if they pass.\<close>

definition check_request ::
  "'w backtest_service \<Rightarrow> backtest_request \<Rightarrow> (builtin_strategy \<times> strategy_sources) res" where
  "check_request sv req =
     (if \<not> BacktestsEnabled (svLimits sv) then Inl ErrBacktestDisabled
      else if MaxDays (svLimits sv) \<noteq> NoDayLimit \<and>
              MaxDays (svLimits sv) < go_div (time_sub (rqTo req) (rqFrom req)) oneDay + 1
      then Inl ErrBacktestDateRangeExceeded
      else if SlippagePct (rqCfg req) < 0 \<or> 1 < SlippagePct (rqCfg req)
      then Inl ErrInvalidSlippagePct
      else case svBuiltin sv (rqStrategySlug req) of
        None \<Rightarrow> Inl ErrStrategyNotFound
      | Some builtin \<Rightarrow>
         (if underlyingOptions builtin \<noteq> [] \<and> rqUnderlying req \<notin> set (underlyingOptions builtin)
          then Inl ErrInvalidUnderlying
          else case bsSourceResolver builtin of
            None \<Rightarrow> Inl ErrInvalidStrategySources
          | Some resolver \<Rightarrow>
             (let sources = resolver \<lparr>spUnderlying = rqUnderlying req\<rparr>
              in case ValidateStrategySourceIntervals sources (bsCandleInterval builtin) of
                   Some e \<Rightarrow> Inl (Wrap '''' ErrInvalidStrategySources ('': '' @ err_msg e))
                 | None \<Rightarrow> Inr (builtin, sources))))"

definition Submit ::
  "'w backtest_service \<Rightarrow> uuid \<Rightarrow> backtest_request \<Rightarrow> 'w \<Rightarrow> (backtest_run \<times> job) res \<times> 'w" where
  "Submit sv u req w =
     (case check_request sv req of
        Inl e \<Rightarrow> (Inl e, w)
      | Inr (builtin, sources) \<Rightarrow>
     (case resolveInstrumentSpec sv (srcSignal sources) (rqUnderlying req) w of
        (Inl e, w1) \<Rightarrow> (Inl e, w1)
      | (Inr signalInst, w1) \<Rightarrow>
     (case resolveInstrumentSpec sv (srcTrade sources) (rqUnderlying req) w1 of
        (Inl e, w2) \<Rightarrow> (Inl e, w2)
      | (Inr tradeInst, w2) \<Rightarrow>
     (case fetchEngineInputs sv signalInst tradeInst (bsCandleInterval builtin) (rqFrom req) (rqTo req) w2 of
        (Inl e, w3) \<Rightarrow> (Inl e, w3)
      | (Inr inputs, w3) \<Rightarrow>
         (if MaxCandles (svLimits sv) \<noteq> NoCandleLimit \<and>
             MaxCandles (svLimits sv)
               < int (max (length (SignalCandles inputs)) (length (TradeCandles inputs)))
          then (Inl ErrBacktestCandleCountExceeded, w3)
          else case createAndStartRun sv u signalInst tradeInst builtin req w3 of
             (Inl e, w4) \<Rightarrow> (Inl e, w4)
           | (Inr run, w4) \<Rightarrow>
              (Inr (run, \<lparr>jRun = run, jStrategy = engine_strategy builtin tradeInst (rqUnderlying req),
                         jInputs = inputs, jCfg = rqCfg req\<rparr>), w4))))))"

section \<open>Execution\<close>

text \<open>The amounts the mismatch error spells out reach the log only.\<close>

definition validateBacktestPnlIdentity :: "backtest_result option \<Rightarrow> err option" where
  "validateBacktestPnlIdentity result =
     (case result of
        None \<Rightarrow> Some ErrBacktestPnlIdentityMismatch
      | Some r \<Rightarrow>
         (let expectedNetPnl = rGrossPnL r - rTotalCharges r - rSlippage r
          in if backtestPnlIdentityTolerance < fabs (expectedNetPnl - rNetPnL r)
             then Some (Wrap '''' ErrBacktestPnlIdentityMismatch '': amounts'')
             else None))"

definition safeErrorMessage :: "err \<Rightarrow> string" where
  "safeErrorMessage e =
     (if errors_is e ErrNoCandleData then err_msg ErrNoCandleData
      else if errors_is e ErrNoInstrument then err_msg ErrNoInstrument
      else errMsgInternalError)"

definition failRun :: "'w backtest_service \<Rightarrow> backtest_run \<Rightarrow> err \<Rightarrow> 'w \<Rightarrow> 'w" where
  "failRun sv run cause w =
     snd (svUpdateResult sv (run\<lparr>bStatus := BacktestFailed,
                                bErrorMessage := Some (safeErrorMessage cause)\<rparr>) w)"

text \<open>The fields \<^verbatim>\<open>applyResult\<close> stamps before it calls the engine again.\<close>

definition stamp_result :: "backtest_result \<Rightarrow> backtest_run \<Rightarrow> backtest_run" where
  "stamp_result r run =
     run\<lparr>bStatus := BacktestCompleted, bNetPnl := Some (rNetPnL r), bGrossPnl := Some (rGrossPnL r),
       bTotalCharges := Some (rTotalCharges r), bSlippage := Some (rSlippage r),
       bSlippagePct := rSlippagePct r, bTotalTrades := Some (rTotalTrades r),
       bWinCount := Some (rWinCount r), bLossCount := Some (rLossCount r),
       bMaxDrawdown := Some (rMaxDrawdown r), bTrades := rTrades r\<rparr>"

text \<open>A panic in the engine's helpers leaves the run as stamped so far; \<^verbatim>\<open>executeRun\<close>'s
  deferred function recovers it. A result that cannot be stored is only logged.\<close>

definition applyResult ::
  "'w backtest_service \<Rightarrow> backtest_run \<Rightarrow> backtest_result \<Rightarrow> f64 \<Rightarrow> 'w \<Rightarrow> (backtest_run \<times> string) + 'w" where
  "applyResult sv run r capital w =
     (let run1 = stamp_result r run
      in case svComputeTradeStats sv (rTrades r) (bFromTs run1) (bToTs run1) of
           Panic p \<Rightarrow> Inl (run1, p)
         | Return stats \<Rightarrow>
            (let run2 = run1\<lparr>bResultStats := Some stats\<rparr>
             in case svBuildChartData sv (rTrades r) capital (bFromTs run2) (bToTs run2) of
                  Panic p \<Rightarrow> Inl (run2, p)
                | Return chart \<Rightarrow>
                   Inr (snd (svUpdateResult sv (run2\<lparr>bChartData := Some chart\<rparr>) w))))"

definition executeRun :: "'w backtest_service \<Rightarrow> job \<Rightarrow> 'w \<Rightarrow> 'w" where
  "executeRun sv j w =
     (case svRunBacktest sv (jStrategy j) (jInputs j) (jCfg j) of
        Panic p \<Rightarrow> failRun sv (jRun j) (Plain (''engine panic: '' @ p)) w
      | Return (Inl e) \<Rightarrow> failRun sv (jRun j) (Wrap ''engine error: '' e '''') w
      | Return (Inr result) \<Rightarrow>
         (case validateBacktestPnlIdentity result of
            Some e \<Rightarrow> failRun sv (jRun j) e w
          | None \<Rightarrow>
             (case result of
                None \<Rightarrow> w
              | Some r \<Rightarrow>
                 (case applyResult sv (jRun j) r (InitialCapital (jCfg j)) w of
                    Inl (run, p) \<Rightarrow> failRun sv run (Plain (''engine panic: '' @ p)) w
                  | Inr w' \<Rightarrow> w'))))"

section \<open>Reading\<close>

definition populateStrategyName :: "'w backtest_service \<Rightarrow> backtest_run \<Rightarrow> backtest_run" where
  "populateStrategyName sv run =
     (case bStrategySlug run of
        None \<Rightarrow> run
      | Some slug \<Rightarrow>
         (case svBuiltin sv slug of
            None \<Rightarrow> run | Some b \<Rightarrow> run\<lparr>bStrategyName := Some (bsName b)\<rparr>))"

definition BacktestService_GetByID ::
  "'w backtest_service \<Rightarrow> uuid \<Rightarrow> uuid \<Rightarrow> 'w \<Rightarrow> backtest_run res \<times> 'w" where
  "BacktestService_GetByID sv i u w =
     (case svGetByID sv i u w of
        (Inl e, w') \<Rightarrow> (Inl e, w')
      | (Inr run, w') \<Rightarrow> (Inr (populateStrategyName sv run), w'))"

definition BacktestService_GetByIDWithTrades ::
  "'w backtest_service \<Rightarrow> uuid \<Rightarrow> uuid \<Rightarrow> 'w \<Rightarrow> backtest_run res \<times> 'w" where
  "BacktestService_GetByIDWithTrades sv = svGetByIDWithTrades sv"

definition BacktestService_ListCompleted ::
  "'w backtest_service \<Rightarrow> uuid \<Rightarrow> goint \<Rightarrow> goint \<Rightarrow> 'w \<Rightarrow> (backtest_run list \<times> goint) res \<times> 'w" where
  "BacktestService_ListCompleted sv u page limit w =
     (case svListCompleted sv u page limit w of
        (Inl e, w') \<Rightarrow> (Inl e, w')
      | (Inr (runs, total_), w') \<Rightarrow> (Inr (map (populateStrategyName sv) runs, total_), w'))"

section \<open>The service of the server\<close>

text \<open>\<^verbatim>\<open>NewBacktestService\<close> as \<^verbatim>\<open>cmd/server\<close> calls it: the stores, the registry and the
  engine with the Indian retail charges.\<close>

definition the_service :: "backtest_limits \<Rightarrow> db backtest_service" where
  "the_service limits =
     \<lparr>svCreate = Backtest_Store.Create, svUpdateStatus = UpdateStatus,
      svUpdateResult = UpdateResult, svGetByID = Backtest_Store.GetByID,
      svGetByIDWithTrades = GetByIDWithTrades, svListCompleted = ListCompleted,
      svBuiltin = (case NewRegistry of Inl p \<Rightarrow> (\<lambda>_. None) | Inr r \<Rightarrow> registry_Get r),
      svQuery = Query, svInstruments = InstrumentStore_List,
      svRunBacktest = (\<lambda>strat inputs cfg. Return (map_sum Plain Some (RunBacktest Compute strat inputs cfg))),
      svComputeTradeStats = (\<lambda>trs f t. Return (ComputeTradeStats trs f t)),
      svBuildChartData = (\<lambda>trs c f t. Return (BuildChartData trs c f t)),
      svLimits = limits, svNewID = uuid_New\<rparr>"

end
