(* ===== verification/Backtest_Lifecycle.thy ===== *)
theory Backtest_Lifecycle
  imports Backtest_Service
begin

text \<open>
  The states of a backtest run. The service is verified against the contract of its
  repository (\<open>run_repository\<close>): what each call does to the rows, by identifier. The store
  meets the contract. On top of it the server is a transition system: submissions, background
  executions in any order, requests of other kinds, and crashes that lose the pending jobs.
\<close>

section \<open>What a row may look like\<close>

definition unfinished :: "backtest_row \<Rightarrow> bool" where
  "unfinished x \<longleftrightarrow>
     erNetPnl x = None \<and> erTotalTrades x = None \<and> erTradesJSON x = None \<and>
     erErrorMessage x = None \<and> erCompletedAt x = None"

definition safe_messages :: "string set" where
  "safe_messages = {err_msg ErrNoCandleData, err_msg ErrNoInstrument, errMsgInternalError}"

text \<open>The metrics of a completed row are those of a result that passed the identity check, and
  its trades the document of the result's trades.\<close>

definition holds_result :: "backtest_row \<Rightarrow> backtest_result \<Rightarrow> bool" where
  "holds_result x r \<longleftrightarrow>
     validateBacktestPnlIdentity (Some r) = None \<and>
     erNetPnl x = Some (numeric (rNetPnL r)) \<and> erGrossPnl x = Some (numeric (rGrossPnL r)) \<and>
     erTotalCharges x = Some (numeric (rTotalCharges r)) \<and>
     erSlippage x = Some (numeric (rSlippage r)) \<and> erTotalTrades x = Some (rTotalTrades r) \<and>
     (if rTrades r = [] then erTradesJSON x = None
      else \<exists>j. encodeTradesJSON (rTrades r) = Inr j \<and> erTradesJSON x = Some (jsonb j))"

definition failed_row :: "backtest_row \<Rightarrow> bool" where
  "failed_row x \<longleftrightarrow>
     erStatus x = BacktestFailed \<and> erCompletedAt x \<noteq> None \<and>
     (\<exists>m \<in> safe_messages. erErrorMessage x = Some m)"

definition completed_ok :: "backtest_row \<Rightarrow> bool" where
  "completed_ok x \<longleftrightarrow>
     erStatus x = BacktestCompleted \<and> erCompletedAt x \<noteq> None \<and> erErrorMessage x = None \<and>
     (\<exists>r. holds_result x r)"

definition row_ok :: "backtest_row \<Rightarrow> bool" where
  "row_ok x \<longleftrightarrow>
     (erStatus x \<in> {BacktestPending, BacktestRunning} \<and> unfinished x) \<or> failed_row x \<or> completed_ok x"

definition terminal :: "backtest_row \<Rightarrow> bool" where
  "terminal x \<longleftrightarrow> erStatus x \<in> {BacktestCompleted, BacktestFailed}"

lemma status_distinct [simp]:
  "BacktestPending \<noteq> BacktestRunning" "BacktestPending \<noteq> BacktestCompleted"
  "BacktestPending \<noteq> BacktestFailed" "BacktestRunning \<noteq> BacktestPending"
  "BacktestRunning \<noteq> BacktestCompleted" "BacktestRunning \<noteq> BacktestFailed"
  "BacktestCompleted \<noteq> BacktestPending" "BacktestCompleted \<noteq> BacktestRunning"
  "BacktestCompleted \<noteq> BacktestFailed" "BacktestFailed \<noteq> BacktestPending"
  "BacktestFailed \<noteq> BacktestRunning" "BacktestFailed \<noteq> BacktestCompleted"
  by (simp_all add: go_const)

text \<open>An execution finishes the row of its run, or leaves everything as it was.\<close>

definition finishes :: "backtest_run \<Rightarrow> backtest_row option \<Rightarrow> backtest_row option \<Rightarrow> bool" where
  "finishes run p q \<longleftrightarrow>
     (case p of None \<Rightarrow> q = None
      | Some x \<Rightarrow> (\<exists>y. q = Some y \<and> erUserID y = erUserID x \<and>
          (failed_row y \<or> (bErrorMessage run = None \<longrightarrow> completed_ok y))))"

text \<open>The ways through a submission, up to the inputs that are read.\<close>

lemma Submit_cases [consumes 1, case_names refused signal trade fetched]:
  assumes "Submit sv u req w = (out, w')"
  obtains e where "out = Inl e" "w' = w"
  | b sources e where "check_request sv req = Inr (b, sources)"
      "resolveInstrumentSpec sv (srcSignal sources) (rqUnderlying req) w = (Inl e, w')" "out = Inl e"
  | b sources si w1 e where "check_request sv req = Inr (b, sources)"
      "resolveInstrumentSpec sv (srcSignal sources) (rqUnderlying req) w = (Inr si, w1)"
      "resolveInstrumentSpec sv (srcTrade sources) (rqUnderlying req) w1 = (Inl e, w')" "out = Inl e"
  | b sources si w1 ti w2 where "check_request sv req = Inr (b, sources)"
      "resolveInstrumentSpec sv (srcSignal sources) (rqUnderlying req) w = (Inr si, w1)"
      "resolveInstrumentSpec sv (srcTrade sources) (rqUnderlying req) w1 = (Inr ti, w2)"
      "(out, w') = (case fetchEngineInputs sv si ti (bsCandleInterval b) (rqFrom req) (rqTo req) w2 of
        (Inl e, w3) \<Rightarrow> (Inl e, w3)
      | (Inr inputs, w3) \<Rightarrow>
         (if MaxCandles (svLimits sv) \<noteq> NoCandleLimit \<and>
             MaxCandles (svLimits sv)
               < int (max (length (SignalCandles inputs)) (length (TradeCandles inputs)))
          then (Inl ErrBacktestCandleCountExceeded, w3)
          else case createAndStartRun sv u si ti b req w3 of
             (Inl e, w4) \<Rightarrow> (Inl e, w4)
           | (Inr run, w4) \<Rightarrow>
              (Inr (run, \<lparr>jRun = run, jStrategy = engine_strategy b ti (rqUnderlying req),
                         jInputs = inputs, jCfg = rqCfg req\<rparr>), w4)))"
  using assms unfolding Submit_def
  by (simp split: prod.split_asm sum.split_asm del: split_paired_All) auto

section \<open>The contract of the repository\<close>

locale run_repository =
  fixes sv :: "'w backtest_service"
    and rows :: "'w \<Rightarrow> uuid \<Rightarrow> backtest_row option"
    and good :: "'w \<Rightarrow> bool"
  assumes create_err: "svCreate sv r w = (Inl e, w') \<Longrightarrow> rows w' = rows w"
    and create_ok: "svCreate sv r w = (Inr r', w') \<Longrightarrow> bID r \<noteq> uuid_nil \<Longrightarrow>
      r' = r \<and> rows w (bID r) = None \<and>
      (\<exists>x. rows w' = (rows w)(bID r \<mapsto> x) \<and> unfinished x \<and> erStatus x = bStatus r \<and>
           erUserID x = bUserID r)"
    and status_err: "svUpdateStatus sv r w = (Inl e, w') \<Longrightarrow> rows w' = rows w"
    and status_ok: "svUpdateStatus sv r w = (Inr u, w') \<Longrightarrow>
      rows w' = (rows w)(bID r := map_option (\<lambda>x. x\<lparr>erStatus := bStatus r\<rparr>) (rows w (bID r)))"
    and result_err: "svUpdateResult sv r w = (Inl e, w') \<Longrightarrow> rows w' = rows w"
    and result_ok: "svUpdateResult sv r w = (Inr u, w') \<Longrightarrow>
      \<exists>t tj. rows w' = (rows w)(bID r := map_option (result_row t (toBacktestEntity r) tj) (rows w (bID r))) \<and>
        (if bTrades r = [] then tj = None
         else \<exists>j. encodeTradesJSON (bTrades r) = Inr j \<and> tj = Some j)"
    and query_keeps: "rows (snd (svQuery sv f w)) = rows w"
    and instruments_keeps: "rows (snd (svInstruments sv g w)) = rows w"
    and new_id_keeps: "rows (snd (svNewID sv w)) = rows w"
    and new_id: "fst (svNewID sv w) \<noteq> uuid_nil"
    and query_good: "good w \<Longrightarrow> good (snd (svQuery sv f w))"
    and instruments_good: "good w \<Longrightarrow> good (snd (svInstruments sv g w))"
    and query_sorted: "good w \<Longrightarrow> fst (svQuery sv f w) = Inr cs \<Longrightarrow>
      sorted_wrt (\<lambda>a b. cTimestamp a < cTimestamp b) cs"
begin

lemma resolve_keeps: "rows (snd (resolveInstrumentSpec sv spec u w)) = rows w"
  using instruments_keeps
  by (auto simp: resolveInstrumentSpec_def split: sum.split prod.split list.split
      dest: arg_cong [of _ _ snd]) (metis snd_conv)+

lemma resolve_good: "good w \<Longrightarrow> good (snd (resolveInstrumentSpec sv spec u w))"
  using instruments_good [of w]
  by (auto simp: resolveInstrumentSpec_def split: sum.split prod.split list.split
      dest: arg_cong [of _ _ snd]) (metis snd_conv)+

lemma fetch_good:
  assumes "good w" "fst (fetchEngineInputs sv si ti i f t w) = Inr inputs"
  shows "Interval inputs = i" "SignalCandles inputs \<noteq> []" "TradeCandles inputs \<noteq> []"
    "sorted_wrt (\<lambda>a b. cTimestamp a < cTimestamp b) (SignalCandles inputs)"
    "sorted_wrt (\<lambda>a b. cTimestamp a < cTimestamp b) (TradeCandles inputs)"
proof -
  let ?f = "\<lambda>k. \<lparr>cfInstrumentID = k, cfFrom = f, cfTo = t, cfInterval = i\<rparr>"
  obtain r1 w1 where r1: "svQuery sv (?f (iID si)) w = (r1, w1)" by fastforce
  obtain r2 w2 where r2: "svQuery sv (?f (iID ti)) w1 = (r2, w2)" by fastforce
  have "good w1" using query_good [OF assms(1), of "?f (iID si)"] r1 by simp
  moreover have in_eq: "r1 = Inr (SignalCandles inputs)" "r2 = Inr (TradeCandles inputs)"
    "Interval inputs = i" "SignalCandles inputs \<noteq> []" "TradeCandles inputs \<noteq> []"
    using assms(2) r1 r2
    by (auto simp: fetchEngineInputs_def fetchCandles_def split: sum.splits if_splits)
  ultimately show "sorted_wrt (\<lambda>a b. cTimestamp a < cTimestamp b) (SignalCandles inputs)"
    "sorted_wrt (\<lambda>a b. cTimestamp a < cTimestamp b) (TradeCandles inputs)"
    using query_sorted [OF assms(1), of "?f (iID si)"] query_sorted [of w1 "?f (iID ti)"] r1 r2
    by simp_all
  show "Interval inputs = i" "SignalCandles inputs \<noteq> []" "TradeCandles inputs \<noteq> []"
    by (rule in_eq)+
qed

lemma fetch_keeps: "rows (snd (fetchEngineInputs sv si ti i f t w)) = rows w"
  using query_keeps
  by (auto simp: fetchEngineInputs_def fetchCandles_def split: sum.split prod.split) (metis snd_conv)+

text \<open>A submission that gets through adds one running row; one that does not adds none, or a
  pending one if only the status update failed.\<close>

lemma create_rows:
  assumes "createAndStartRun sv u si ti b req w = (out, w')"
  shows "(isl out \<and> rows w' = rows w) \<or>
    (\<exists>i x. rows w i = None \<and> rows w' = (rows w)(i \<mapsto> x) \<and> unfinished x \<and> erUserID x = Some u \<and>
       (case out of Inl e \<Rightarrow> erStatus x = BacktestPending
        | Inr run \<Rightarrow> erStatus x = BacktestRunning \<and>
            run = (new_run i u si ti b req)\<lparr>bStatus := BacktestRunning\<rparr>))"
proof -
  obtain i w0 where i: "svNewID sv w = (i, w0)" by fastforce
  then have i0: "i \<noteq> uuid_nil" "rows w0 = rows w"
    using new_id [of w] new_id_keeps [of w] by simp_all
  let ?run = "new_run i u si ti b req"
  have run: "bID ?run = i" "bStatus ?run = BacktestPending" "bUserID ?run = Some u"
    by (simp_all add: new_run_def)
  obtain c w1 where c: "svCreate sv ?run w0 = (c, w1)" by fastforce
  show ?thesis
  proof (cases c)
    case (Inl e)
    with assms i c i0(2) create_err show ?thesis
      by (auto simp: createAndStartRun_def)
  next
    case (Inr r')
    obtain x where x: "r' = ?run" "rows w i = None" "rows w1 = (rows w)(i \<mapsto> x)" "unfinished x"
      "erStatus x = BacktestPending" "erUserID x = Some u"
      using create_ok [of ?run w0 r' w1] c Inr i0 run by auto
    let ?run' = "?run\<lparr>bStatus := BacktestRunning\<rparr>"
    obtain s w2 where s: "svUpdateStatus sv ?run' w1 = (s, w2)" by fastforce
    show ?thesis
    proof (cases s)
      case (Inl e)
      then have "rows w2 = (rows w)(i \<mapsto> x)" using status_err s x(3) by simp
      moreover have "isl out" "w' = w2"
        using assms i c Inr s Inl x(1) by (auto simp: createAndStartRun_def Let_def)
      ultimately show ?thesis using x
        by (intro disjI2 exI [of _ i] exI [of _ x]) (auto split: sum.split)
    next
      case (Inr v)
      have "rows w2 = (rows w)(i \<mapsto> x\<lparr>erStatus := BacktestRunning\<rparr>)"
        using status_ok [of ?run' w1 v w2] s Inr x(3) run(1) by simp
      moreover have "unfinished (x\<lparr>erStatus := BacktestRunning\<rparr>)"
        using x(4) by (simp add: unfinished_def)
      ultimately show ?thesis
        using assms i c \<open>c = Inr r'\<close> s Inr x
        by (intro disjI2 exI [of _ i] exI [of _ "x\<lparr>erStatus := BacktestRunning\<rparr>"])
          (auto simp: createAndStartRun_def Let_def)
    qed
  qed
qed

lemma Submit_steps:
  assumes "Submit sv u req w = (out, w')"
  obtains e where "out = Inl e" "rows w' = rows w"
  | b sources si ti inputs w3 res where
    "check_request sv req = Inr (b, sources)" "rows w3 = rows w"
    "createAndStartRun sv u si ti b req w3 = (res, w')"
    "out = map_sum id (\<lambda>run. (run, \<lparr>jRun = run, jStrategy = engine_strategy b ti (rqUnderlying req),
                         jInputs = inputs, jCfg = rqCfg req\<rparr>)) res"
    "\<exists>w2. (good w \<longrightarrow> good w2) \<and>
       fst (fetchEngineInputs sv si ti (bsCandleInterval b) (rqFrom req) (rqTo req) w2) = Inr inputs"
    "\<not> (MaxCandles (svLimits sv) \<noteq> NoCandleLimit \<and> MaxCandles (svLimits sv)
        < int (max (length (SignalCandles inputs)) (length (TradeCandles inputs))))"
  using assms
proof (cases rule: Submit_cases)
  case refused
  then show thesis using that(1) by simp
next
  case (signal b sources e)
  then show thesis using resolve_keeps [of "srcSignal sources" "rqUnderlying req" w] that(1) by simp
next
  case (trade b sources si w1 e)
  then show thesis using resolve_keeps [of "srcSignal sources" "rqUnderlying req" w]
      resolve_keeps [of "srcTrade sources" "rqUnderlying req" w1] that(1) by simp
next
  case (fetched b sources si w1 ti w2)
  let ?fetch = "fetchEngineInputs sv si ti (bsCandleInterval b) (rqFrom req) (rqTo req) w2"
  have w2: "rows w2 = rows w" "good w \<longrightarrow> good w2"
    using resolve_keeps [of "srcSignal sources" "rqUnderlying req" w]
      resolve_keeps [of "srcTrade sources" "rqUnderlying req" w1]
      resolve_good [of w "srcSignal sources" "rqUnderlying req"]
      resolve_good [of w1 "srcTrade sources" "rqUnderlying req"] fetched(2,3) by simp_all
  have w3: "rows (snd ?fetch) = rows w" using fetch_keeps w2(1) by simp
  show thesis
  proof (cases "(\<exists>e. out = Inl e) \<and> w' = snd ?fetch")
    case True
    with that(1) w3 show thesis by auto
  next
    case False
    with fetched(4) obtain inputs where r: "?fetch = (Inr inputs, snd ?fetch)"
      by (cases ?fetch; cases "fst ?fetch") auto
    obtain res where res: "createAndStartRun sv u si ti b req (snd ?fetch) = (res, w')"
      and out: "out = map_sum id (\<lambda>run. (run, \<lparr>jRun = run,
        jStrategy = engine_strategy b ti (rqUnderlying req), jInputs = inputs, jCfg = rqCfg req\<rparr>)) res"
      and n: "\<not> (MaxCandles (svLimits sv) \<noteq> NoCandleLimit \<and> MaxCandles (svLimits sv)
        < int (max (length (SignalCandles inputs)) (length (TradeCandles inputs))))"
      using fetched(4) False r by (auto split: if_splits sum.splits prod.splits)
    show thesis
      by (rule that(2) [OF fetched(1) w3 res out _ n]) (use w2(2) r in \<open>auto intro!: exI [of _ w2] simp: prod_eq_iff\<close>)
  qed
qed

lemma Submit_rows:
  assumes "Submit sv u req w = (out, w')"
  shows "(isl out \<and> rows w' = rows w) \<or>
    (\<exists>i x. rows w i = None \<and> rows w' = (rows w)(i \<mapsto> x) \<and> unfinished x \<and> erUserID x = Some u \<and>
       (case out of Inl e \<Rightarrow> erStatus x = BacktestPending
        | Inr (run, j) \<Rightarrow> erStatus x = BacktestRunning \<and> jRun j = run \<and> bID run = i \<and>
            bErrorMessage run = None))"
  using assms
proof (cases rule: Submit_steps)
  case (2 b sources si ti inputs w3 res)
  from create_rows [OF 2(3)] show ?thesis
  proof
    assume "isl res \<and> rows w' = rows w3"
    with 2(2,4) show ?thesis by (cases res) auto
  next
    assume "\<exists>i x. rows w3 i = None \<and> rows w' = (rows w3)(i \<mapsto> x) \<and> unfinished x \<and> erUserID x = Some u \<and>
       (case res of Inl e \<Rightarrow> erStatus x = BacktestPending
        | Inr run \<Rightarrow> erStatus x = BacktestRunning \<and>
            run = (new_run i u si ti b req)\<lparr>bStatus := BacktestRunning\<rparr>)"
    then obtain i x where ix: "rows w i = None" "rows w' = (rows w)(i \<mapsto> x)" "unfinished x"
      "erUserID x = Some u"
      "case res of Inl e \<Rightarrow> erStatus x = BacktestPending
        | Inr run \<Rightarrow> erStatus x = BacktestRunning \<and>
            run = (new_run i u si ti b req)\<lparr>bStatus := BacktestRunning\<rparr>"
      using 2(2) by auto
    then show ?thesis using 2(4)
      by (intro disjI2 exI [of _ i] exI [of _ x]) (cases res; auto simp: new_run_def)
  qed
qed simp

lemma failRun_rows:
  "rows (failRun sv run e w) = rows w \<or>
   (\<exists>q. rows (failRun sv run e w) = (rows w)(bID run := q) \<and> finishes run' (rows w (bID run)) q)"
proof -
  let ?run = "run\<lparr>bStatus := BacktestFailed, bErrorMessage := Some (safeErrorMessage e)\<rparr>"
  obtain r w' where u: "svUpdateResult sv ?run w = (r, w')" by fastforce
  show ?thesis
  proof (cases r)
    case (Inl err)
    with u result_err show ?thesis by (simp add: failRun_def)
  next
    case (Inr v)
    then obtain t tj where t: "rows w' = (rows w)(bID ?run :=
        map_option (result_row t (toBacktestEntity ?run) tj) (rows w (bID ?run)))"
      using result_ok u by blast
    have "failed_row (result_row t (toBacktestEntity ?run) tj x)"
      "erUserID (result_row t (toBacktestEntity ?run) tj x) = erUserID x" for x
      by (auto simp: failed_row_def result_row_def toBacktestEntity_def safe_messages_def
          safeErrorMessage_def)
    then have "finishes run' (rows w (bID run))
        (map_option (result_row t (toBacktestEntity ?run) tj) (rows w (bID run)))"
      by (auto simp: finishes_def split: option.split)
    with t u show ?thesis by (auto simp: failRun_def)
  qed
qed

lemma applyResult_rows:
  assumes "applyResult sv run r c w = Inr w'" "validateBacktestPnlIdentity (Some r) = None"
  shows "rows w' = rows w \<or>
    (\<exists>q. rows w' = (rows w)(bID run := q) \<and> finishes run (rows w (bID run)) q)"
proof -
  obtain stats chart where run2: "w' = snd (svUpdateResult sv
      ((stamp_result r run)\<lparr>bResultStats := Some stats, bChartData := Some chart\<rparr>) w)"
    using assms(1) by (auto simp: applyResult_def Let_def split: call.splits)
  let ?run = "(stamp_result r run)\<lparr>bResultStats := Some stats, bChartData := Some chart\<rparr>"
  obtain out where u: "svUpdateResult sv ?run w = (out, w')"
    using run2 by (metis prod.collapse)
  show ?thesis
  proof (cases out)
    case (Inl err)
    with u result_err show ?thesis by blast
  next
    case (Inr v)
    have id: "bID ?run = bID run" "bTrades ?run = rTrades r" by (simp_all add: stamp_result_def)
    obtain t tj where t: "rows w' = (rows w)(bID run :=
        map_option (result_row t (toBacktestEntity ?run) tj) (rows w (bID run)))"
      and tj: "if rTrades r = [] then tj = None
         else \<exists>j. encodeTradesJSON (rTrades r) = Inr j \<and> tj = Some j"
      using result_ok [OF u [unfolded Inr]] unfolding id by blast
    have "holds_result (result_row t (toBacktestEntity ?run) tj x) r" for x
      using tj assms(2)
      by (auto simp: holds_result_def result_row_def toBacktestEntity_def stamp_result_def
          split: if_splits)
    then have "bErrorMessage run = None \<Longrightarrow> completed_ok (result_row t (toBacktestEntity ?run) tj x)" for x
      by (auto simp: completed_ok_def result_row_def toBacktestEntity_def stamp_result_def)
    moreover have "erUserID (result_row t (toBacktestEntity ?run) tj x) = erUserID x" for x
      by (simp add: result_row_def)
    ultimately have "finishes run (rows w (bID run))
        (map_option (result_row t (toBacktestEntity ?run) tj) (rows w (bID run)))"
      by (auto simp: finishes_def split: option.split)
    with t show ?thesis by blast
  qed
qed

lemma executeRun_rows:
  "rows (executeRun sv j w) = rows w \<or>
   (\<exists>q. rows (executeRun sv j w) = (rows w)(bID (jRun j) := q) \<and>
        finishes (jRun j) (rows w (bID (jRun j))) q)"
proof (cases "svRunBacktest sv (jStrategy j) (jInputs j) (jCfg j)")
  case (Panic p)
  then show ?thesis using failRun_rows by (simp add: executeRun_def)
next
  case (Return out)
  note call = this
  show ?thesis
  proof (cases out)
    case (Inl e)
    with call show ?thesis using failRun_rows by (simp add: executeRun_def)
  next
    case (Inr result)
    show ?thesis
    proof (cases "validateBacktestPnlIdentity result")
      case (Some e)
      with call Inr show ?thesis using failRun_rows by (simp add: executeRun_def)
    next
      case None
      then obtain r where r: "result = Some r" "validateBacktestPnlIdentity (Some r) = None"
        by (cases result) (auto simp: validateBacktestPnlIdentity_def)
      show ?thesis
      proof (cases "applyResult sv (jRun j) r (InitialCapital (jCfg j)) w")
        case (Inl rp)
        then have "bID (fst rp) = bID (jRun j)"
          by (auto simp: applyResult_def stamp_result_def Let_def split: call.splits)
        with call Inr None r Inl failRun_rows [of "fst rp" _ w "jRun j"] show ?thesis
          by (cases rp) (simp add: executeRun_def)
      next
        case (Inr w')
        from applyResult_rows [OF Inr r(2)] show ?thesis
          using call \<open>out = Inr result\<close> None r Inr by (simp add: executeRun_def)
      qed
    qed
  qed
qed

end

section \<open>The store meets the contract\<close>

definition run_row :: "db \<Rightarrow> uuid \<Rightarrow> backtest_row option" where
  "run_row w i = find (\<lambda>r. erID r = i) (db_backtest_runs w)"

lemma run_row_faults [simp]: "run_row (w\<lparr>db_faults := fs\<rparr>) = run_row w"
  by (simp add: run_row_def fun_eq_iff)

lemma find_map_keyed:
  assumes "\<And>r. key (f r) = key r"
  shows "find (\<lambda>r. key r = i) (map (\<lambda>r. if key r = k then f r else r) rs)
    = (if i = k then map_option f (find (\<lambda>r. key r = i) rs) else find (\<lambda>r. key r = i) rs)"
  using assms by (induction rs) auto

lemma run_row_update:
  assumes "\<And>r. erID (f r) = erID r"
  shows "run_row (update_runs k f w) = (run_row w)(k := map_option f (run_row w k))"
  by (auto simp: run_row_def update_runs_def fun_eq_iff find_map_keyed [where key = erID, OF assms])

lemma run_row_insert:
  assumes "erID x \<notin> erID ` set (db_backtest_runs w)"
  shows "run_row w (erID x) = None"
    and "run_row (w\<lparr>db_backtest_runs := db_backtest_runs w @ [x]\<rparr>) = (run_row w)(erID x \<mapsto> x)"
proof -
  show none: "run_row w (erID x) = None"
    using assms by (auto simp: run_row_def find_None_iff image_iff)
  show "run_row (w\<lparr>db_backtest_runs := db_backtest_runs w @ [x]\<rparr>) = (run_row w)(erID x \<mapsto> x)"
  proof
    show "run_row (w\<lparr>db_backtest_runs := db_backtest_runs w @ [x]\<rparr>) i = ((run_row w)(erID x \<mapsto> x)) i" for i
      using none by (cases "i = erID x") (simp_all add: run_row_def find_append split: option.split)
  qed
qed

lemma run_sql_result:
  assumes "run_sql f w = (r, w')"
  obtains e where "r = Inl e" "w' = w\<lparr>db_faults := tl (db_faults w)\<rparr>"
  | "f (w\<lparr>db_faults := tl (db_faults w)\<rparr>) = (r, w')"
  using assms by (rule_tac run_sql_cases [of f w]) auto

lemma insert_run_Inl: "insert_run x w = (Inl e, w') \<Longrightarrow> w' = w"
  by (simp add: insert_run_def split: if_split_asm)

lemma insert_run_Inr:
  "insert_run x w = (Inr u, w') \<Longrightarrow> erID x \<notin> erID ` set (db_backtest_runs w) \<and>
     w' = w\<lparr>db_backtest_runs := db_backtest_runs w @ [x]\<rparr>"
  by (simp add: insert_run_def split: if_split_asm)

lemma toBacktestEntity_id [simp]: "erID (toBacktestEntity r) = bID r"
  by (simp add: toBacktestEntity_def)

interpretation stored: run_repository "the_service limits" run_row candles_ok
proof
  fix r :: backtest_run and w w' :: db
  note [simp] = the_service_def
  {
    fix e
    assume "svCreate (the_service limits) r w = (Inl e, w')"
    then obtain run v where v: "run_sql (\<lambda>v. insert_run (new_run_row (db_now v) (toBacktestEntity run)) v) v
        = (Inl e, w')" "run_row v = run_row w"
      by (auto simp: Backtest_Store.Create_def Let_def uuid_New_def run_row_def fun_eq_iff
          split: prod.splits sum.splits if_splits)
    from v(1) show "run_row w' = run_row w"
    proof (cases rule: run_sql_result)
      case 2
      then show ?thesis using v(2) insert_run_Inl by fastforce
    qed (simp add: v(2))
  next
    fix r'
    assume c: "svCreate (the_service limits) r w = (Inr r', w')" and "bID r \<noteq> uuid_nil"
    then have r': "r' = r" and s: "run_sql (\<lambda>v. insert_run (new_run_row (db_now v) (toBacktestEntity r)) v) w
        = (Inr (), w')"
      by (auto simp: Backtest_Store.Create_def split: prod.splits sum.splits)
    let ?x = "new_run_row (db_now w) (toBacktestEntity r)"
    let ?w = "w\<lparr>db_faults := tl (db_faults w)\<rparr>"
    from s have "insert_run ?x ?w = (Inr (), w')"
      by (cases rule: run_sql_result) simp_all
    then have ins: "erID ?x \<notin> erID ` set (db_backtest_runs ?w)"
      "w' = ?w\<lparr>db_backtest_runs := db_backtest_runs ?w @ [?x]\<rparr>"
      using insert_run_Inr by blast+
    have x: "erID ?x = bID r" "unfinished ?x" "erStatus ?x = bStatus r" "erUserID ?x = bUserID r"
      by (simp_all add: new_run_row_def toBacktestEntity_def unfinished_def)
    have "run_row w (bID r) = None" "run_row w' = (run_row w)(bID r \<mapsto> ?x)"
      using run_row_insert [OF ins(1)] ins(2) x(1) by simp_all
    with r' x show "r' = r \<and> run_row w (bID r) = None \<and>
      (\<exists>x. run_row w' = (run_row w)(bID r \<mapsto> x) \<and> unfinished x \<and> erStatus x = bStatus r \<and>
           erUserID x = bUserID r)" by blast
  next
    fix e
    assume "svUpdateStatus (the_service limits) r w = (Inl e, w')"
    then show "run_row w' = run_row w"
      by (auto simp: UpdateStatus_def elim: run_sql_result)
  next
    fix u
    assume "svUpdateStatus (the_service limits) r w = (Inr u, w')"
    then show "run_row w' = (run_row w)(bID r := map_option (\<lambda>x. x\<lparr>erStatus := bStatus r\<rparr>) (run_row w (bID r)))"
      by (auto simp: UpdateStatus_def run_row_update elim!: run_sql_result)
  next
    fix e
    assume "svUpdateResult (the_service limits) r w = (Inl e, w')"
    then show "run_row w' = run_row w"
      by (auto simp: UpdateResult_def Let_def elim!: run_sql_result split: sum.splits if_splits)
  next
    fix u
    assume "svUpdateResult (the_service limits) r w = (Inr u, w')"
    then obtain tj where tj: "(if bTrades r = [] then Inr None
          else map_sum id Some (encodeTradesJSON (bTrades r))) = Inr tj"
      and s: "run_sql (\<lambda>v. if \<not> counts_int4 (toBacktestEntity r) then (Inl int4_error, v)
            else (Inr (), update_runs (bID r) (result_row (db_now v) (toBacktestEntity r) tj) v)) w = (Inr u, w')"
      by (auto simp: UpdateResult_def Let_def split: sum.splits cong: if_cong)
    have "run_row w' = (run_row w)(bID r :=
        map_option (result_row (db_now w) (toBacktestEntity r) tj) (run_row w (bID r)))"
      using s by (cases rule: run_sql_result) (auto simp: run_row_update result_row_def split: if_splits)
    with tj show "\<exists>t tj. run_row w' = (run_row w)(bID r :=
          map_option (result_row t (toBacktestEntity r) tj) (run_row w (bID r))) \<and>
        (if bTrades r = [] then tj = None
         else \<exists>j. encodeTradesJSON (bTrades r) = Inr j \<and> tj = Some j)"
      by (auto simp: map_sum_Inr_conv split: if_splits)
  }
  show "run_row (snd (svQuery (the_service limits) f w)) = run_row w" for f
    by (simp add: Query_def run_sql_read)
  show "run_row (snd (svInstruments (the_service limits) g w)) = run_row w" for g
    by (simp add: InstrumentStore_List_def Let_def run_sql_read)
  show "run_row (snd (svNewID (the_service limits) w)) = run_row w"
    by (simp add: uuid_New_def run_row_def fun_eq_iff)
  show "fst (svNewID (the_service limits) w) \<noteq> uuid_nil"
    by (simp add: uuid_New_def uuid_nil_def)
  show "candles_ok (snd (svQuery (the_service limits) f w))" if "candles_ok w" for f
    using that by (simp add: Query_def run_sql_read candles_ok_def)
  show "candles_ok (snd (svInstruments (the_service limits) g w))" if "candles_ok w" for g
    using that by (simp add: InstrumentStore_List_def Let_def run_sql_read candles_ok_def)
  show "sorted_wrt (\<lambda>a b. cTimestamp a < cTimestamp b) cs"
    if "candles_ok w" "fst (svQuery (the_service limits) f w) = Inr cs" for f cs
    using that Query_sorted by simp
qed

section \<open>The server as a transition system\<close>

record system =
  sysDB :: db
  sysJobs :: "job list"

text \<open>
  A submission adds its job to those waiting in the background; any of them may run next; a
  crash loses them all; and whatever else happens to the database leaves the runs alone (only
  \<^verbatim>\<open>BacktestService\<close> writes them). A submission and an execution are each one step: the
  statements of one never touch the row of another.
\<close>

inductive bt_step :: "backtest_limits \<Rightarrow> system \<Rightarrow> system \<Rightarrow> bool" for limits where
  submit: "Submit (the_service limits) u req w = (Inr (run, j), w') \<Longrightarrow>
    bt_step limits \<lparr>sysDB = w, sysJobs = js\<rparr> \<lparr>sysDB = w', sysJobs = js @ [j]\<rparr>"
| reject: "Submit (the_service limits) u req w = (Inl e, w') \<Longrightarrow>
    bt_step limits \<lparr>sysDB = w, sysJobs = js\<rparr> \<lparr>sysDB = w', sysJobs = js\<rparr>"
| execute: "bt_step limits \<lparr>sysDB = w, sysJobs = js @ j # js'\<rparr>
    \<lparr>sysDB = executeRun (the_service limits) j w, sysJobs = js @ js'\<rparr>"
| crash: "bt_step limits \<lparr>sysDB = w, sysJobs = js\<rparr> \<lparr>sysDB = w, sysJobs = []\<rparr>"
| outside: "db_backtest_runs w' = db_backtest_runs w \<Longrightarrow>
    bt_step limits \<lparr>sysDB = w, sysJobs = js\<rparr> \<lparr>sysDB = w', sysJobs = js\<rparr>"

definition bt_initial :: "system \<Rightarrow> bool" where
  "bt_initial s \<longleftrightarrow> db_backtest_runs (sysDB s) = [] \<and> sysJobs s = []"

definition job_ids :: "system \<Rightarrow> uuid list" where
  "job_ids s = map (\<lambda>j. bID (jRun j)) (sysJobs s)"

definition sys_ok :: "system \<Rightarrow> bool" where
  "sys_ok s \<longleftrightarrow>
     (\<forall>i x. run_row (sysDB s) i = Some x \<longrightarrow> row_ok x) \<and> distinct (job_ids s) \<and>
     (\<forall>j \<in> set (sysJobs s). bErrorMessage (jRun j) = None \<and>
        (\<exists>x. run_row (sysDB s) (bID (jRun j)) = Some x \<and> erStatus x = BacktestRunning))"

lemma sys_ok_job:
  "sys_ok s \<Longrightarrow> i \<in> set (job_ids s) \<Longrightarrow> \<exists>x. run_row (sysDB s) i = Some x \<and> erStatus x = BacktestRunning"
  by (auto simp: sys_ok_def job_ids_def)

text \<open>The four ways the rows change in a step, with the status each gives the row it touches.\<close>

definition status_of :: "system \<Rightarrow> uuid \<rightharpoonup> string" where
  "status_of s i = map_option erStatus (run_row (sysDB s) i)"

definition touches :: "system \<Rightarrow> system \<Rightarrow> uuid \<Rightarrow> backtest_row \<Rightarrow> bool" where
  "touches s s' i y \<longleftrightarrow> run_row (sysDB s') = (run_row (sysDB s))(i \<mapsto> y) \<and> row_ok y"

lemma bt_step_rows:
  assumes "bt_step limits s s'" "sys_ok s"
  shows "(run_row (sysDB s') = run_row (sysDB s) \<and> set (sysJobs s') \<subseteq> set (sysJobs s) \<and>
            distinct (job_ids s')) \<or>
    (\<exists>i y. touches s s' i y \<and> run_row (sysDB s) i = None \<and>
       ((erStatus y = BacktestPending \<and> sysJobs s' = sysJobs s) \<or>
        (erStatus y = BacktestRunning \<and>
          (\<exists>j. sysJobs s' = sysJobs s @ [j] \<and> bID (jRun j) = i \<and> bErrorMessage (jRun j) = None)))) \<or>
    (\<exists>i x y. touches s s' i y \<and> run_row (sysDB s) i = Some x \<and> erStatus x = BacktestRunning \<and>
       terminal y \<and> set (sysJobs s') \<subseteq> set (sysJobs s) \<and> distinct (job_ids s') \<and>
       i \<notin> set (job_ids s'))"
  using assms
proof (cases rule: bt_step.cases)
  case (submit u req w run j w' js)
  from stored.Submit_rows [OF submit(3)] obtain i x where
    "run_row w i = None" "run_row w' = (run_row w)(i \<mapsto> x)" "unfinished x" "erStatus x = BacktestRunning"
    "jRun j = run" "bID run = i" "bErrorMessage run = None" by auto
  then show ?thesis using submit(1,2)
    by (intro disjI2 disjI1 exI [of _ i] exI [of _ x]) (auto simp: touches_def row_ok_def)
next
  case (reject u req w e w' js)
  from stored.Submit_rows [OF reject(3)] consider "run_row w' = run_row w"
    | i x where "run_row w i = None" "run_row w' = (run_row w)(i \<mapsto> x)" "unfinished x"
      "erStatus x = BacktestPending" by auto
  then show ?thesis
  proof cases
    case 1
    with reject(1,2) assms(2) show ?thesis by (simp add: sys_ok_def job_ids_def)
  next
    case (2 i x)
    with reject(1,2) show ?thesis
      by (intro disjI2 disjI1 exI [of _ i] exI [of _ x]) (auto simp: touches_def row_ok_def)
  qed
next
  case (execute w js j js')
  let ?w = "executeRun (the_service limits) j w"
  obtain x where x: "run_row w (bID (jRun j)) = Some x" "erStatus x = BacktestRunning"
    "bErrorMessage (jRun j) = None"
    using assms(2) execute(1) by (auto simp: sys_ok_def)
  have jobs: "distinct (job_ids s')" "bID (jRun j) \<notin> set (job_ids s')"
    "set (sysJobs s') \<subseteq> set (sysJobs s)"
    using assms(2) execute(1,2) by (auto simp: sys_ok_def job_ids_def)
  from stored.executeRun_rows [of limits j w] show ?thesis
  proof
    assume "run_row ?w = run_row w"
    with jobs execute(1,2) show ?thesis by simp
  next
    assume "\<exists>q. run_row ?w = (run_row w)(bID (jRun j) := q) \<and>
        finishes (jRun j) (run_row w (bID (jRun j))) q"
    then obtain y where y: "run_row ?w = (run_row w)(bID (jRun j) \<mapsto> y)" "failed_row y \<or> completed_ok y"
      using x by (auto simp: finishes_def)
    then have "row_ok y" "terminal y"
      by (auto simp: row_ok_def terminal_def failed_row_def completed_ok_def)
    with y(1) x jobs execute(1,2) show ?thesis
      by (intro disjI2 exI [of _ "bID (jRun j)"] exI [of _ x] exI [of _ y]) (simp add: touches_def)
  qed
next
  case (crash w js)
  then show ?thesis by (simp add: job_ids_def)
next
  case (outside w' w js)
  then have "run_row w' = run_row w" by (simp add: run_row_def fun_eq_iff)
  with outside(1,2) assms(2) show ?thesis by (simp add: sys_ok_def job_ids_def)
qed

lemma sys_ok_step:
  assumes "bt_step limits s s'" "sys_ok s"
  shows "sys_ok s'"
  using bt_step_rows [OF assms]
proof (elim disjE exE conjE)
  assume "run_row (sysDB s') = run_row (sysDB s)" "set (sysJobs s') \<subseteq> set (sysJobs s)" "distinct (job_ids s')"
  with assms(2) show "sys_ok s'" by (auto simp: sys_ok_def)
next
  fix i y
  assume "touches s s' i y" "run_row (sysDB s) i = None" "erStatus y = BacktestPending" "sysJobs s' = sysJobs s"
  with assms(2) show "sys_ok s'"
    by (fastforce simp: sys_ok_def touches_def job_ids_def)
next
  fix i y j
  assume *: "touches s s' i y" "run_row (sysDB s) i = None" "erStatus y = BacktestRunning"
    "sysJobs s' = sysJobs s @ [j]" "bID (jRun j) = i" "bErrorMessage (jRun j) = None"
  have "i \<notin> set (job_ids s)" using sys_ok_job [OF assms(2)] *(2) by fastforce
  with * assms(2) show "sys_ok s'"
    by (fastforce simp: sys_ok_def touches_def job_ids_def)
next
  fix i x y
  assume *: "touches s s' i y" "run_row (sysDB s) i = Some x" "terminal y"
    "set (sysJobs s') \<subseteq> set (sysJobs s)" "distinct (job_ids s')" "i \<notin> set (job_ids s')"
  then have "bID (jRun j) \<noteq> i" if "j \<in> set (sysJobs s')" for j
    using that by (auto simp: job_ids_def)
  with * assms(2) show "sys_ok s'"
    by (fastforce simp: sys_ok_def touches_def)
qed

lemma sys_ok_initial: "bt_initial s \<Longrightarrow> sys_ok s"
  by (simp add: bt_initial_def sys_ok_def run_row_def job_ids_def)

lemma sys_ok_reachable:
  assumes "(bt_step limits)\<^sup>*\<^sup>* s s'" "sys_ok s"
  shows "sys_ok s'"
  using assms by (induction rule: rtranclp_induct) (auto intro: sys_ok_step)

text \<open>C8. In every state the server can reach, whatever was submitted, executed, lost or went
  wrong, each stored run is in one of three shapes: pending or running with no outcome yet;
  failed, with one of the three messages that are safe to show; or completed without a message,
  with the metrics of a result that passed the profit identity and the document of exactly its
  trades. The waiting jobs are for distinct runs, each stored as running.\<close>

theorem runs_well_formed:
  assumes "bt_initial s\<^sub>0" and "(bt_step limits)\<^sup>*\<^sup>* s\<^sub>0 s"
  shows "(\<forall>i x. run_row (sysDB s) i = Some x \<longrightarrow>
       (erStatus x \<in> {BacktestPending, BacktestRunning} \<and> unfinished x) \<or> failed_row x \<or> completed_ok x) \<and>
    distinct (job_ids s) \<and>
    (\<forall>i \<in> set (job_ids s). status_of s i = Some BacktestRunning)"
  using sys_ok_reachable [OF assms(2) sys_ok_initial [OF assms(1)]] sys_ok_job
  by (fastforce simp: sys_ok_def row_ok_def status_of_def)

text \<open>C9. A finished run is final: once a run is stored as completed or failed, no later step of
  the server changes its row.\<close>

theorem finished_runs_final:
  assumes "bt_initial s\<^sub>0" and "(bt_step limits)\<^sup>*\<^sup>* s\<^sub>0 s" and "(bt_step limits)\<^sup>*\<^sup>* s s'"
    and "run_row (sysDB s) i = Some x" and "erStatus x \<in> {BacktestCompleted, BacktestFailed}"
  shows "run_row (sysDB s') i = Some x"
  using assms(3)
proof (induction rule: rtranclp_induct)
  case (step t t')
  have "sys_ok t"
    using sys_ok_reachable [OF _ sys_ok_initial [OF assms(1)]] assms(2) step.hyps(1)
    by (meson rtranclp_trans)
  from bt_step_rows [OF step.hyps(2) this] show ?case
    using step.IH assms(5) by (auto simp: touches_def)
qed (rule assms(4))

text \<open>What a client may see of a run's status, as a machine of its own.\<close>

inductive lifecycle :: "(uuid \<rightharpoonup> string) \<Rightarrow> (uuid \<rightharpoonup> string) \<Rightarrow> bool" where
  stay: "lifecycle m m"
| created: "m i = None \<Longrightarrow> lifecycle m (m(i \<mapsto> BacktestPending))"
| started: "m i = None \<Longrightarrow> lifecycle m (m(i \<mapsto> BacktestRunning))"
| completed: "m i = Some BacktestRunning \<Longrightarrow> lifecycle m (m(i \<mapsto> BacktestCompleted))"
| failed: "m i = Some BacktestRunning \<Longrightarrow> lifecycle m (m(i \<mapsto> BacktestFailed))"

text \<open>C1. The server refines the lifecycle of a run: every step from a reachable state either
  leaves all statuses as they are, or starts one new run, or moves one running run to completed
  or to failed.\<close>

theorem server_refines_lifecycle:
  assumes "bt_initial s\<^sub>0" and "(bt_step limits)\<^sup>*\<^sup>* s\<^sub>0 s" and "bt_step limits s s'"
  shows "lifecycle (status_of s) (status_of s')"
proof -
  have ok: "sys_ok s" by (rule sys_ok_reachable [OF assms(2) sys_ok_initial [OF assms(1)]])
  have upd: "status_of s' = (status_of s)(i \<mapsto> erStatus y)" if "touches s s' i y" for i y
    using that by (auto simp: touches_def status_of_def fun_eq_iff)
  from bt_step_rows [OF assms(3) ok] show ?thesis
  proof (elim disjE exE conjE)
    assume "run_row (sysDB s') = run_row (sysDB s)"
    then have "status_of s' = status_of s" by (simp add: status_of_def fun_eq_iff)
    then show ?thesis using lifecycle.stay by simp
  next
    fix i y
    assume "touches s s' i y" "run_row (sysDB s) i = None" "erStatus y = BacktestPending"
    then show ?thesis using upd lifecycle.created [of "status_of s" i] by (simp add: status_of_def)
  next
    fix i y j
    assume "touches s s' i y" "run_row (sysDB s) i = None" "erStatus y = BacktestRunning"
    then show ?thesis using upd lifecycle.started [of "status_of s" i] by (simp add: status_of_def)
  next
    fix i x y
    assume "touches s s' i y" "run_row (sysDB s) i = Some x" "erStatus x = BacktestRunning" "terminal y"
    then show ?thesis
      using upd lifecycle.completed [of "status_of s" i] lifecycle.failed [of "status_of s" i]
      by (auto simp: status_of_def terminal_def)
  qed
qed

section \<open>A run from start to end\<close>

text \<open>A small database: an index and its continuous future with one daily bar each, one user.\<close>

definition demo_limits :: backtest_limits where
  "demo_limits = \<lparr>BacktestsEnabled = True, MaxDays = 400, MaxCandles = 1000\<rparr>"

definition demo_row :: "uuid \<Rightarrow> string \<Rightarrow> string \<Rightarrow> instrument_row" where
  "demo_row i symbol ty = (instrument_of_model (sample_instrument symbol ty))\<lparr>eiID := i\<rparr>"

definition demo_db :: db where
  "demo_db = (empty_db 0)\<lparr>db_next := 10,
     db_users := [\<lparr>euID = 1, euEmail = ''a@b'', euFirebaseUID = ''f'', euDisplayName = None,
        euPhotoURL = None, euLastLoginAt = None, euCreatedAt = 0, euUpdatedAt = 0\<rparr>],
     db_instruments := [demo_row 1 ''NIFTY 50'' InstrumentTypeIndex,
        demo_row 2 ''NIFTY-FUTCONT'' InstrumentTypeFuturesIndexCont],
     db_candles := [candle_columns (sample_bar 0),
        candle_columns ((sample_bar 0)\<lparr>cInstrumentID := 2\<rparr>)]\<rparr>"

definition demo_request :: backtest_request where
  "demo_request = \<lparr>rqStrategySlug = slugMACrossover, rqUnderlying = UnderlyingNifty, rqFrom = 0,
     rqTo = oneDay, rqCfg = \<lparr>Lots = 1, InitialCapital = lit 200000 1, SlippagePct = 0\<rparr>\<rparr>"

definition demo_submitted :: "(backtest_run \<times> job) res \<times> db" where
  "demo_submitted = Submit (the_service demo_limits) 1 demo_request demo_db"

definition demo_job :: job where "demo_job = snd (projr (fst demo_submitted))"

definition demo_finished :: db where
  "demo_finished = executeRun (the_service demo_limits) demo_job (snd demo_submitted)"

lemma demo_accepted: "\<not> isl (fst demo_submitted)"
  by code_simp

lemma demo_completed: "map_option erStatus (run_row demo_finished 11) = Some BacktestCompleted"
  by code_simp

lemma demo_stored: "run_row (snd demo_submitted) 11 = run_row (snd demo_submitted) (bID (jRun demo_job))"
  by (rule arg_cong [where f = "run_row (snd demo_submitted)"]) code_simp

definition demo_s0 :: system where "demo_s0 = \<lparr>sysDB = demo_db, sysJobs = []\<rparr>"
definition demo_s1 :: system where "demo_s1 = \<lparr>sysDB = snd demo_submitted, sysJobs = [demo_job]\<rparr>"
definition demo_s2 :: system where "demo_s2 = \<lparr>sysDB = demo_finished, sysJobs = []\<rparr>"

lemma demo_submit:
  "Submit (the_service demo_limits) 1 demo_request demo_db
     = (Inr (fst (projr (fst demo_submitted)), demo_job), snd demo_submitted)"
  unfolding demo_submitted_def [symmetric]
  using demo_accepted by (cases "fst demo_submitted") (auto simp: demo_job_def prod_eq_iff)

lemma demo_steps:
  "bt_initial demo_s0" "bt_step demo_limits demo_s0 demo_s1" "bt_step demo_limits demo_s1 demo_s2"
proof -
  show "bt_initial demo_s0" by (simp add: bt_initial_def demo_s0_def demo_db_def empty_db_def)
  show "bt_step demo_limits demo_s0 demo_s1"
    using bt_step.submit [OF demo_submit, of "[]"] by (simp add: demo_s0_def demo_s1_def)
  show "bt_step demo_limits demo_s1 demo_s2"
    using bt_step.execute [of demo_limits "snd demo_submitted" "[]" demo_job "[]"]
    by (simp add: demo_s1_def demo_s2_def demo_finished_def)
qed

lemma demo_reach:
  "(bt_step demo_limits)\<^sup>*\<^sup>* demo_s0 demo_s1" "(bt_step demo_limits)\<^sup>*\<^sup>* demo_s0 demo_s2"
  using demo_steps by (meson rtranclp.rtrancl_into_rtrancl rtranclp.rtrancl_refl)+

lemma runs_well_formed_witness:
  "job_ids demo_s1 = [bID (jRun demo_job)] \<and> status_of demo_s1 (bID (jRun demo_job)) = Some BacktestRunning"
  using runs_well_formed [OF demo_steps(1) demo_reach(1)]
  by (simp add: job_ids_def demo_s1_def)

lemma finished_runs_final_witness:
  "\<exists>x. run_row (sysDB demo_s2) 11 = Some x \<and> erStatus x = BacktestCompleted \<and>
       run_row (sysDB \<lparr>sysDB = demo_finished\<lparr>db_now := 5\<rparr>, sysJobs = []\<rparr>) 11 = Some x"
proof -
  obtain x where x: "run_row (sysDB demo_s2) 11 = Some x" "erStatus x = BacktestCompleted"
    using demo_completed by (auto simp: demo_s2_def)
  have "bt_step demo_limits demo_s2 \<lparr>sysDB = demo_finished\<lparr>db_now := 5\<rparr>, sysJobs = []\<rparr>"
    unfolding demo_s2_def by (rule bt_step.outside) simp
  then have "(bt_step demo_limits)\<^sup>*\<^sup>* demo_s2 \<lparr>sysDB = demo_finished\<lparr>db_now := 5\<rparr>, sysJobs = []\<rparr>"
    by (rule r_into_rtranclp)
  from finished_runs_final [OF demo_steps(1) demo_reach(2) this x(1)] x show ?thesis by auto
qed

lemma server_refines_lifecycle_witness:
  "lifecycle (status_of demo_s1) (status_of demo_s2)"
  by (rule server_refines_lifecycle [OF demo_steps(1) demo_reach(1) demo_steps(3)])

section \<open>What an accepted submission guarantees\<close>

lemma builtin_cases:
  "svBuiltin (the_service limits) slug = Some b \<Longrightarrow> b = MACrossover \<or> b = VWAPCrossover"
proof -
  assume b: "svBuiltin (the_service limits) slug = Some b"
  then obtain r where r: "NewRegistry = Inr r" "registry_Get r slug = Some b"
    by (auto simp: the_service_def split: sum.splits)
  have "holds_exactly [MACrossover, VWAPCrossover] r"
    using register_all_spec [OF holds_exactly_empty, of "[MACrossover, VWAPCrossover]"] r(1)
    by (simp add: NewRegistry_def)
  with r(2) show ?thesis
    by (auto simp: holds_exactly_def registry_Get_def split: if_splits)
qed

lemma check_request_Inr:
  assumes "check_request sv req = Inr (b, sources)"
  shows "BacktestsEnabled (svLimits sv)" "svBuiltin sv (rqStrategySlug req) = Some b"
    "\<not> SlippagePct (rqCfg req) < 0 \<and> \<not> 1 < SlippagePct (rqCfg req)"
    "MaxDays (svLimits sv) \<noteq> NoDayLimit \<Longrightarrow>
       go_div (time_sub (rqTo req) (rqFrom req)) oneDay + 1 \<le> MaxDays (svLimits sv)"
    "underlyingOptions b \<noteq> [] \<Longrightarrow> rqUnderlying req \<in> set (underlyingOptions b)"
  using assms
  by (auto simp: check_request_def Let_def split: if_splits option.splits)

text \<open>C6. A submission the server accepts is within its limits, names one of the two built-in
  strategies and one of its underlyings, and its slippage is not outside 0 to 1; the stored
  run is new, running and the caller's; and the engine gets what it asks for: bars of the
  strategy's interval, at least one on either side and not more than allowed, in strictly
  increasing order of time. A rejected one stores nothing, or at worst a pending run.\<close>

theorem Submit_spec:
  assumes "candles_ok w"
  shows "case Submit (the_service limits) u req w of
      (Inl e, w') \<Rightarrow> run_row w' = run_row w \<or>
        (\<exists>i x. run_row w i = None \<and> run_row w' = (run_row w)(i \<mapsto> x) \<and>
          erStatus x = BacktestPending \<and> unfinished x)
    | (Inr (run, j), w') \<Rightarrow>
        BacktestsEnabled limits \<and>
        (MaxDays limits = NoDayLimit \<or>
           go_div (time_sub (rqTo req) (rqFrom req)) oneDay + 1 \<le> MaxDays limits) \<and>
        \<not> SlippagePct (rqCfg req) < 0 \<and> \<not> 1 < SlippagePct (rqCfg req) \<and>
        sEntryConditionType (jStrategy j) \<in> {EntryConditionMACrossover, EntryConditionVWAPCrossover} \<and>
        rqUnderlying req \<in> {UnderlyingNifty, UnderlyingBankNifty, UnderlyingFinNifty} \<and>
        run_row w (bID run) = None \<and>
        (\<exists>x. run_row w' = (run_row w)(bID run \<mapsto> x) \<and> erStatus x = BacktestRunning \<and>
             erUserID x = Some u \<and> unfinished x) \<and>
        jRun j = run \<and> jCfg j = rqCfg req \<and> Interval (jInputs j) = CandleInterval1D \<and>
        SignalCandles (jInputs j) \<noteq> [] \<and> TradeCandles (jInputs j) \<noteq> [] \<and>
        (MaxCandles limits = NoCandleLimit \<or>
           int (max (length (SignalCandles (jInputs j))) (length (TradeCandles (jInputs j)))) \<le> MaxCandles limits) \<and>
        sorted_wrt (\<lambda>a b. cTimestamp a < cTimestamp b) (SignalCandles (jInputs j)) \<and>
        sorted_wrt (\<lambda>a b. cTimestamp a < cTimestamp b) (TradeCandles (jInputs j))"
proof -
  obtain out w' where s: "Submit (the_service limits) u req w = (out, w')" by fastforce
  note rows = stored.Submit_rows [OF s]
  show ?thesis
  proof (cases out)
    case (Inl e)
    with s rows show ?thesis by auto
  next
    case (Inr rj)
    obtain run j where rj: "rj = (run, j)" by (cases rj)
    from s show ?thesis
    proof (cases rule: stored.Submit_steps)
      case (1 e)
      with Inr show ?thesis by simp
    next
      case (2 b sources si ti inputs w3 res)
      obtain w2 where w2: "candles_ok w2"
        "fst (fetchEngineInputs (the_service limits) si ti (bsCandleInterval b) (rqFrom req) (rqTo req) w2)
           = Inr inputs" using 2(5) assms by blast
      note inputs = stored.fetch_good [OF w2]
      note req = check_request_Inr [OF 2(1)]
      have b: "b = MACrossover \<or> b = VWAPCrossover" using builtin_cases [OF req(2)] .
      then have b': "bsCandleInterval b = CandleInterval1D"
        "bsEntryConditionType b \<in> {EntryConditionMACrossover, EntryConditionVWAPCrossover}"
        "underlyingOptions b = [UnderlyingNifty, UnderlyingBankNifty, UnderlyingFinNifty]"
        by (auto simp: MACrossover_def VWAPCrossover_def underlyingOptions_def builtin_inputs_def)
      have j: "jRun j = run" "jStrategy j = engine_strategy b ti (rqUnderlying req)"
        "jInputs j = inputs" "jCfg j = rqCfg req"
        using 2(4) Inr rj by (cases res; auto)+
      have lim: "svLimits (the_service limits) = limits" by (simp add: the_service_def)
      have new: "run_row w (bID run) = None"
        "\<exists>x. run_row w' = (run_row w)(bID run \<mapsto> x) \<and> erStatus x = BacktestRunning \<and>
             erUserID x = Some u \<and> unfinished x"
        using rows Inr rj by auto
      have ent: "sEntryConditionType (jStrategy j) \<in> {EntryConditionMACrossover, EntryConditionVWAPCrossover}"
        using b'(2) j(2) by (simp add: engine_strategy_def)
      have und: "rqUnderlying req \<in> {UnderlyingNifty, UnderlyingBankNifty, UnderlyingFinNifty}"
        using req(5) b'(3) by auto
      show ?thesis unfolding s Inr rj prod.case sum.case
        using req(1,3,4) 2(6) new ent und j(1,3,4) inputs b'(1)
        unfolding lim by (intro conjI) auto
    qed
  qed
qed

lemma Submit_spec_witness:
  "\<exists>x. run_row (snd demo_submitted) (bID (jRun demo_job)) = Some x \<and> erStatus x = BacktestRunning \<and>
       erUserID x = Some 1"
proof -
  have "candles_ok demo_db" by code_simp
  from Submit_spec [OF this, where limits = demo_limits and u = 1 and req = demo_request] show ?thesis
    unfolding demo_submit prod.case sum.case by auto
qed

end
