(* ===== verification/Backtest_Flow.thy ===== *)
theory Backtest_Flow
  imports Backtest_Lifecycle
begin

text \<open>
  The backtest end to end: the engine, the service and the store together. A submission the
  server accepted is run to completion, and what its owner then reads is what the engine
  computed.
\<close>

section \<open>The engine's results\<close>

lemma summarize_identity:
  "rNetPnL (summarize sp s) = rGrossPnL (summarize sp s) - rTotalCharges (summarize sp s)
     - rSlippage (summarize sp s)"
  by (simp add: summarize_def Let_def)

lemma RunBacktest_identity:
  assumes "RunBacktest charges strat inputs cfg = Inr r"
  shows "validateBacktestPnlIdentity (Some r) = None"
proof -
  have tol: "0 \<le> backtestPnlIdentityTolerance" by code_simp
  have "rNetPnL r = rGrossPnL r - rTotalCharges r - rSlippage r"
  proof (cases "SignalCandles inputs = [] \<or> TradeCandles inputs = []")
    case True
    with assms have "r = empty_result" by (auto simp: RunBacktest_def)
    moreover have "rNetPnL empty_result
        = rGrossPnL empty_result - rTotalCharges empty_result - rSlippage empty_result" by code_simp
    ultimately show ?thesis by simp
  next
    case False
    then obtain s where "r = summarize (SlippagePct cfg) s"
      using RunBacktest_Inr [OF assms] by metis
    then show ?thesis by (simp only: summarize_identity)
  qed
  then show ?thesis
    using abs_minus_self_not_greater [OF tol] by (simp add: validateBacktestPnlIdentity_def)
qed

lemma RunBacktest_counts:
  assumes "RunBacktest charges strat inputs cfg = Inr r"
  shows "rTotalTrades r = int (length (rTrades r))"
    "0 \<le> rWinCount r \<and> rWinCount r \<le> int (length (rTrades r))"
    "0 \<le> rLossCount r \<and> rLossCount r \<le> int (length (rTrades r))"
    "tr \<in> set (rTrades r) \<Longrightarrow> in64 (tQuantity tr)"
proof -
  have "rTotalTrades r = int (length (rTrades r)) \<and>
    0 \<le> rWinCount r \<and> rWinCount r \<le> int (length (rTrades r)) \<and>
    0 \<le> rLossCount r \<and> rLossCount r \<le> int (length (rTrades r)) \<and>
    (tr \<in> set (rTrades r) \<longrightarrow> in64 (tQuantity tr))"
  proof (cases "SignalCandles inputs = [] \<or> TradeCandles inputs = []")
    case True
    with assms have "r = empty_result" by (auto simp: RunBacktest_def)
    then show ?thesis by (simp add: empty_result_def)
  next
    case False
    then obtain sigs iv where r: "r = summarize (SlippagePct cfg)
        (close_at_end (make_env charges strat cfg) (TradeCandles inputs)
          (run_loop charges strat (TradeCandles inputs) cfg (scheduleSignals sigs (TradeCandles inputs) iv)))"
      using RunBacktest_Inr [OF assms] by metis
    have "tr \<in> set (rTrades r) \<longrightarrow> tQuantity tr = order_quantity strat cfg"
      using state_ok_run [of charges strat cfg "scheduleSignals sigs (TradeCandles inputs) iv" "TradeCandles inputs"] r
      by (auto simp: state_ok_def trade_ok_def opened_ok_def make_env_def)
    moreover have "in64 (order_quantity strat cfg)" by (simp add: order_quantity_def Let_def)
    moreover have "rTotalTrades r = int (length (rTrades r))" "0 \<le> rWinCount r \<and> rWinCount r \<le> int (length (rTrades r))"
      "0 \<le> rLossCount r \<and> rLossCount r \<le> int (length (rTrades r))"
      unfolding r by (simp_all add: summarize_def Let_def fold_add_totals empty_result_def)
    ultimately show ?thesis by auto
  qed
  then show "rTotalTrades r = int (length (rTrades r))"
    "0 \<le> rWinCount r \<and> rWinCount r \<le> int (length (rTrades r))"
    "0 \<le> rLossCount r \<and> rLossCount r \<le> int (length (rTrades r))"
    "tr \<in> set (rTrades r) \<Longrightarrow> in64 (tQuantity tr)"
    by blast+
qed

lemma RunBacktest_known:
  assumes "known_entry (sEntryConditionType strat)" "Interval inputs = CandleInterval1D"
  shows "\<exists>r. RunBacktest charges strat inputs cfg = Inr r"
  using assms
  by (auto simp: RunBacktest_def Evaluate_def known_entry_def intervalDuration_def Let_def)

section \<open>Storing and reading back\<close>

lemma decode_stored:
  assumes "encodeTradesJSON ts = Inr j" "\<forall>tr \<in> set ts. in64 (tQuantity tr)"
  shows "decodeTradesJSON (Some (jsonb j)) = Inr (map stored_trade ts)"
proof -
  have "j = JArr (map trade_doc ts)" using assms(1) by (simp add: encodeTradesJSON_eq split: if_splits)
  then have "jsonb j = JArr (map trade_doc (map stored_trade ts))"
    by (simp add: jsonb_trade_doc comp_def)
  then show ?thesis using decode_all_docs [of "map stored_trade ts"] assms(2) by simp
qed

lemma find_filter:
  "find P xs = Some x \<Longrightarrow> Q x \<Longrightarrow> \<exists>ys. filter (\<lambda>r. P r \<and> Q r) xs = x # ys"
  by (induction xs) (auto split: if_splits)

lemma read_with_trades:
  assumes "run_row w i = Some y" "erUserID y = Some u" "db_faults w = []"
  shows "fst (GetByIDWithTrades i u w) = with_trades (scanBacktestRunWithTrades y)"
proof -
  obtain ys where "filter (own_run i u) (db_backtest_runs w) = y # ys"
    using find_filter [where P = "\<lambda>r. erID r = i" and Q = "\<lambda>r. erUserID r = Some u"] assms(1,2)
    by (fastforce simp: run_row_def own_run_def [abs_def])
  with assms(3) show ?thesis by (simp add: GetByIDWithTrades_def run_sql_no_fault)
qed

text \<open>The run as \<^verbatim>\<open>applyResult\<close> hands it to the store.\<close>

definition completed_run :: "job \<Rightarrow> backtest_result \<Rightarrow> backtest_run" where
  "completed_run j r =
     (stamp_result r (jRun j))\<lparr>
       bResultStats := Some (ComputeTradeStats (rTrades r) (bFromTs (jRun j)) (bToTs (jRun j))),
       bChartData := Some (BuildChartData (rTrades r) (InitialCapital (jCfg j))
                       (bFromTs (jRun j)) (bToTs (jRun j)))\<rparr>"

lemma execute_stores:
  assumes "RunBacktest Compute (jStrategy j) (jInputs j) (jCfg j) = Inr r"
  shows "executeRun (the_service limits) j w = snd (UpdateResult (completed_run j r) w)"
  using assms RunBacktest_identity [OF assms]
  by (simp add: executeRun_def the_service_def applyResult_def Let_def completed_run_def stamp_result_def)

lemma UpdateResult_stores:
  assumes "db_faults w = []" "counts_int4 (toBacktestEntity run)" "list_all writable_trade (bTrades run)"
  shows "snd (UpdateResult run w) = update_runs (bID run)
    (result_row (db_now w) (toBacktestEntity run)
       (if bTrades run = [] then None else Some (JArr (map trade_doc (bTrades run))))) w"
  using assms
  by (simp add: UpdateResult_def run_sql_no_fault encodeTradesJSON_eq)

lemma fetch_interval:
  assumes "fst (fetchEngineInputs sv si ti i f t w) = Inr inputs"
  shows "Interval inputs = i"
proof -
  obtain r1 w1 where r1: "fetchCandles sv (iID si) i f t w = (r1, w1)" by fastforce
  obtain r2 w2 where r2: "fetchCandles sv (iID ti) i f t w1 = (r2, w2)" by fastforce
  from assms r1 r2 show ?thesis
    by (auto simp: fetchEngineInputs_def split: sum.splits if_splits)
qed

lemma accepted_job:
  assumes "Submit (the_service limits) u req w = (Inr (run, j), w')"
  shows "jRun j = run \<and>
    sEntryConditionType (jStrategy j) \<in> {EntryConditionMACrossover, EntryConditionVWAPCrossover} \<and>
    Interval (jInputs j) = CandleInterval1D"
  using assms
proof (cases rule: stored.Submit_steps)
  case (2 b sources si ti inputs w3 res)
  have "b = MACrossover \<or> b = VWAPCrossover"
    using builtin_cases [OF check_request_Inr(2) [OF 2(1)]] .
  then have b: "bsCandleInterval b = CandleInterval1D"
    "bsEntryConditionType b \<in> {EntryConditionMACrossover, EntryConditionVWAPCrossover}"
    by (auto simp: MACrossover_def VWAPCrossover_def)
  have i: "Interval inputs = bsCandleInterval b"
    using 2(5) by (elim exE conjE) (rule fetch_interval)
  have j: "jRun j = run" "jStrategy j = engine_strategy b ti (rqUnderlying req)" "jInputs j = inputs"
    using 2(4) by (cases res; simp)+
  show ?thesis
    using b i j by (simp_all add: engine_strategy_def)
qed simp_all

text \<open>A backtest that was accepted and whose execution meets no database fault completes: the
  engine has a result for it, and its owner then reads a completed run with exactly the
  engine's trades (up to the sign of a zero), its net profit and its trade count. The one
  condition is on the figures: no trade with a \<open>NaN\<close> or an infinity, which JSON cannot hold.\<close>

lemma accepted_run_completes:
  assumes "Submit (the_service limits) u req w = (Inr (run, j), w\<^sub>1)"
    and "run_row w\<^sub>2 (bID run) = Some x" and "erUserID x = Some u" and "db_faults w\<^sub>2 = []"
    and "\<And>r. RunBacktest Compute (jStrategy j) (jInputs j) (jCfg j) = Inr r \<Longrightarrow>
           list_all writable_trade (rTrades r) \<and> length (rTrades r) < 2 ^ 31"
  shows "\<exists>r run'. RunBacktest Compute (jStrategy j) (jInputs j) (jCfg j) = Inr r \<and>
    fst (BacktestService_GetByIDWithTrades (the_service limits) (bID run) u
           (executeRun (the_service limits) j w\<^sub>2)) = Inr run' \<and>
    bStatus run' = BacktestCompleted \<and> bTrades run' = map stored_trade (rTrades r) \<and>
    bNetPnl run' = Some (numeric (rNetPnL r)) \<and>
    bTotalTrades run' = Some (int (length (rTrades r)))"
proof -
  have j: "jRun j = run" "known_entry (sEntryConditionType (jStrategy j))"
    "Interval (jInputs j) = CandleInterval1D"
    using accepted_job [OF assms(1)] by (auto simp: known_entry_def)
  obtain r where r: "RunBacktest Compute (jStrategy j) (jInputs j) (jCfg j) = Inr r"
    using RunBacktest_known [OF j(2,3)] by blast
  note c = RunBacktest_counts [OF r]
  have w: "list_all writable_trade (rTrades r)" and l: "length (rTrades r) < 2 ^ 31"
    using assms(5) [OF r] by auto
  let ?run = "completed_run j r"
  have run: "bID ?run = bID run" "bTrades ?run = rTrades r" "bErrorMessage ?run = bErrorMessage run"
    using j(1) by (simp_all add: completed_run_def stamp_result_def)
  have "counts_int4 (toBacktestEntity ?run)"
    using c(1-3) l
    by (auto simp: counts_int4_def toBacktestEntity_def completed_run_def stamp_result_def int4_def)
  then have exec: "executeRun (the_service limits) j w\<^sub>2 = update_runs (bID run)
      (result_row (db_now w\<^sub>2) (toBacktestEntity ?run)
         (if rTrades r = [] then None else Some (JArr (map trade_doc (rTrades r))))) w\<^sub>2"
    using execute_stores [OF r] UpdateResult_stores [OF assms(4), of ?run] w run by simp
  let ?y = "result_row (db_now w\<^sub>2) (toBacktestEntity ?run)
      (if rTrades r = [] then None else Some (JArr (map trade_doc (rTrades r)))) x"
  have "run_row (executeRun (the_service limits) j w\<^sub>2) (bID run) = Some ?y"
    unfolding exec using assms(2) by (subst run_row_update) (simp_all add: result_row_def)
  moreover have "erUserID ?y = Some u" using assms(3) by (simp add: result_row_def)
  moreover have "db_faults (executeRun (the_service limits) j w\<^sub>2) = []"
    unfolding exec using assms(4) by (simp add: update_runs_def)
  ultimately have read: "fst (GetByIDWithTrades (bID run) u (executeRun (the_service limits) j w\<^sub>2))
      = with_trades (scanBacktestRunWithTrades ?y)"
    by (rule read_with_trades)
  have dec: "decodeTradesJSON (Some (jsonb (JArr (map trade_doc (rTrades r))))) = Inr (map stored_trade (rTrades r))"
    by (rule decode_stored) (use w c(4) in \<open>auto simp: encodeTradesJSON_eq\<close>)
  have "\<exists>run'. with_trades (scanBacktestRunWithTrades ?y) = Inr run' \<and>
    bStatus run' = BacktestCompleted \<and> bTrades run' = map stored_trade (rTrades r) \<and>
    bNetPnl run' = Some (numeric (rNetPnL r)) \<and>
    bTotalTrades run' = Some (int (length (rTrades r)))"
    using dec c(1)
    by (cases "rTrades r = []")
      (simp_all add: with_trades_def scanBacktestRunWithTrades_def result_row_def toBacktestEntity_def
        toBacktestModel_def completed_run_def stamp_result_def del: jsonb.simps)
  with r read show ?thesis
    by (simp add: BacktestService_GetByIDWithTrades_def the_service_def)
qed

lemma demo_job_trades:
  "(case RunBacktest Compute (jStrategy demo_job) (jInputs demo_job) (jCfg demo_job) of
      Inl e \<Rightarrow> True | Inr r \<Rightarrow> rTrades r = [])"
  by code_simp

lemma demo_job_row:
  "map_option erUserID (run_row (snd demo_submitted) (bID (fst (projr (fst demo_submitted)))))
     = Some (Some 1) \<and> db_faults (snd demo_submitted) = []"
  by code_simp

lemma demo_run_completes:
  "\<exists>run'. fst (BacktestService_GetByIDWithTrades (the_service demo_limits)
           (bID (fst (projr (fst demo_submitted)))) 1 demo_finished) = Inr run' \<and>
     bStatus run' = BacktestCompleted"
proof -
  obtain x where x: "run_row (snd demo_submitted) (bID (fst (projr (fst demo_submitted)))) = Some x"
    "erUserID x = Some 1"
    using demo_job_row by (auto simp del: One_nat_def)
  have "list_all writable_trade (rTrades r) \<and> length (rTrades r) < 2 ^ 31"
    if "RunBacktest Compute (jStrategy demo_job) (jInputs demo_job) (jCfg demo_job) = Inr r" for r
    using demo_job_trades that by simp
  from accepted_run_completes [OF demo_submit x conjunct2 [OF demo_job_row] this]
  show ?thesis unfolding demo_finished_def by blast
qed


text \<open>C39. A result the store cannot write is lost in silence: if some trade of the engine's result
  holds a \<open>NaN\<close>, an infinity or an unprintable date, the identity check lets it pass and
  the execution of the job changes nothing at all: the run keeps the status it had.\<close>

theorem unwritable_result_lost:
  assumes "RunBacktest Compute (jStrategy j) (jInputs j) (jCfg j) = Inr r"
    and "\<not> list_all writable_trade (rTrades r)"
  shows "validateBacktestPnlIdentity (Some r) = None \<and> executeRun (the_service limits) j w = w"
proof -
  have "rTrades r \<noteq> []" using assms(2) by auto
  then have "UpdateResult (completed_run j r) w
      = (Inl (Wrap ''encoding trades_json for backtest: '' json_error ''''), w)"
    using assms(2) by (simp add: UpdateResult_def completed_run_def stamp_result_def encodeTradesJSON_eq)
  then show ?thesis
    using execute_stores [OF assms(1), of limits w] RunBacktest_identity [OF assms(1)] by simp
qed

text \<open>A slippage that is not a number gives such a result; it is not outside 0 to 1 either.\<close>

definition nan_job :: job where
  "nan_job = \<lparr>jRun = blank_run, jStrategy = demo_strategy EntryConditionMomentum,
     jInputs = demo_inputs, jCfg = demo_cfg\<lparr>SlippagePct := FNaN\<rparr>\<rparr>"

lemma nan_job_result:
  "(case RunBacktest Compute (jStrategy nan_job) (jInputs nan_job) (jCfg nan_job) of
      Inl e \<Rightarrow> False | Inr r \<Rightarrow> \<not> list_all writable_trade (rTrades r))"
  by code_simp

lemma unwritable_result_lost_witness:
  "executeRun (the_service demo_limits) nan_job demo_db = demo_db"
proof -
  obtain r where "RunBacktest Compute (jStrategy nan_job) (jInputs nan_job) (jCfg nan_job) = Inr r"
    "\<not> list_all writable_trade (rTrades r)"
    using nan_job_result by (auto split: sum.splits)
  from unwritable_result_lost [OF this] show ?thesis by blast
qed

end
