(* ===== verification/GoStrings.thy ===== *)
theory GoStrings
  imports Errors "HOL-Library.Sublist"
begin

text \<open>
  The functions of \<^verbatim>\<open>strings\<close>, \<^verbatim>\<open>strconv\<close> and \<^verbatim>\<open>path/filepath\<close> the program calls, on byte
  strings.
\<close>

section \<open>strings\<close>

definition HasPrefix :: "string \<Rightarrow> string \<Rightarrow> bool" where
  "HasPrefix s p = prefix p s"

definition HasSuffix :: "string \<Rightarrow> string \<Rightarrow> bool" where
  "HasSuffix s p = suffix p s"

definition TrimPrefix :: "string \<Rightarrow> string \<Rightarrow> string" where
  "TrimPrefix s p = (if prefix p s then drop (length p) s else s)"

definition TrimSuffix :: "string \<Rightarrow> string \<Rightarrow> string" where
  "TrimSuffix s p = (if suffix p s then take (length s - length p) s else s)"

fun Contains :: "string \<Rightarrow> string \<Rightarrow> bool" where
  "Contains [] p \<longleftrightarrow> p = []"
| "Contains (c # s) p \<longleftrightarrow> prefix p (c # s) \<or> Contains s p"

text \<open>\<^verbatim>\<open>strings.Split\<close> on a one-byte separator.\<close>

fun Split :: "char \<Rightarrow> string \<Rightarrow> string list" where
  "Split sep [] = [[]]"
| "Split sep (c # s) =
     (if c = sep then [] # Split sep s
      else case Split sep s of [] \<Rightarrow> [[c]] | p # ps \<Rightarrow> (c # p) # ps)"

fun Join :: "string \<Rightarrow> string list \<Rightarrow> string" where
  "Join sep [] = []"
| "Join sep [s] = s"
| "Join sep (s # t # ss) = s @ sep @ Join sep (t # ss)"

definition ToUpper :: "string \<Rightarrow> string" where
  "ToUpper s = map (\<lambda>c. if char_between CHR ''a'' CHR ''z'' c
                       then char_of ((of_char c :: nat) - 32) else c) s"

definition IsAbs :: "string \<Rightarrow> bool" where
  "IsAbs p \<longleftrightarrow> prefix ''/'' p"

section \<open>strconv\<close>

definition digit :: "char \<Rightarrow> nat option" where
  "digit c = (if char_between CHR ''0'' CHR ''9'' c then Some ((of_char c :: nat) - 48) else None)"

fun digits_value :: "string \<Rightarrow> nat \<Rightarrow> nat option" where
  "digits_value [] n = Some n"
| "digits_value (c # s) n =
     (case digit c of None \<Rightarrow> None | Some d \<Rightarrow> digits_value s (10 * n + d))"

text \<open>A non-empty string of digits.\<close>

definition natural :: "string \<Rightarrow> nat option" where
  "natural s = (if s = [] then None else digits_value s 0)"

definition split_sign :: "string \<Rightarrow> bool \<times> string" where
  "split_sign s =
     (case s of c # r \<Rightarrow> (if c = CHR ''-'' then (True, r) else if c = CHR ''+'' then (False, r) else (False, s))
      | [] \<Rightarrow> (False, s))"

text \<open>\<^verbatim>\<open>Atoi\<close>, and \<^verbatim>\<open>ParseInt\<close> to base 10 and 64 bits; out of range is an error.\<close>

definition Atoi :: "string \<Rightarrow> goint option" where
  "Atoi s =
     (let (neg, r) = split_sign s
      in case natural r of
           None \<Rightarrow> None
         | Some n \<Rightarrow> (let i = (if neg then - int n else int n) in if in64 i then Some i else None))"

definition ParseBool :: "string \<Rightarrow> bool option" where
  "ParseBool s =
     (if s \<in> {''1'', ''t'', ''T'', ''true'', ''TRUE'', ''True''} then Some True
      else if s \<in> {''0'', ''f'', ''F'', ''false'', ''FALSE'', ''False''} then Some False
      else None)"

definition digit_char :: "nat \<Rightarrow> char" where
  "digit_char d = char_of (48 + d)"

fun nat_text :: "nat \<Rightarrow> string" where
  "nat_text n = (if n < 10 then [digit_char n] else nat_text (n div 10) @ [digit_char (n mod 10)])"

declare nat_text.simps [simp del]

text \<open>\<^verbatim>\<open>Itoa\<close>, the decimal text of an integer.\<close>

definition Itoa :: "goint \<Rightarrow> string" where
  "Itoa i = (if i < 0 then ''-'' @ nat_text (nat (- i)) else nat_text (nat i))"

section \<open>Lemmas\<close>

lemma Contains_sublist: "Contains s p \<longleftrightarrow> sublist p s"
  by (induction s p rule: Contains.induct) (auto simp: sublist_Cons_right)

lemma digit_digit_char: "d < 10 \<Longrightarrow> digit (digit_char d) = Some d"
  by (simp add: digit_def digit_char_def char_between_def of_char_of)

lemma digits_value_append:
  "digits_value (s @ t) n = (case digits_value s n of None \<Rightarrow> None | Some m \<Rightarrow> digits_value t m)"
  by (induction s arbitrary: n) (auto split: option.split)

lemma digits_value_nat_text: "digits_value (nat_text n) 0 = Some n"
proof (induction n rule: nat_text.induct)
  case (1 n)
  show ?case
  proof (cases "n < 10")
    case True
    then show ?thesis by (subst nat_text.simps) (simp add: digit_digit_char)
  next
    case False
    have "digits_value (nat_text (n div 10)) 0 = Some (n div 10)" by (rule 1) (use False in simp)
    with False show ?thesis
      by (subst nat_text.simps) (simp add: digits_value_append digit_digit_char)
  qed
qed

lemma nat_text_nonempty: "nat_text n \<noteq> []"
  by (subst nat_text.simps) auto

lemma nat_text_no_sign: "hd (nat_text n) \<noteq> CHR ''-'' \<and> hd (nat_text n) \<noteq> CHR ''+''"
proof -
  have "digit (hd (nat_text n)) \<noteq> None"
    using digits_value_nat_text [of n] nat_text_nonempty [of n]
    by (cases "nat_text n") (auto split: option.splits)
  then show ?thesis by (auto simp: digit_def char_between_def split: if_splits)
qed

lemma Atoi_Itoa: "in64 i \<Longrightarrow> Atoi (Itoa i) = Some i"
proof -
  assume i: "in64 i"
  have s: "split_sign (nat_text n) = (False, nat_text n)" for n
    using nat_text_no_sign [of n] nat_text_nonempty [of n]
    by (cases "nat_text n") (auto simp: split_sign_def)
  have v: "natural (nat_text n) = Some n" for n
    by (simp add: natural_def nat_text_nonempty digits_value_nat_text)
  have m: "split_sign (CHR ''-'' # r) = (True, r)" for r
    by (simp add: split_sign_def)
  show ?thesis using i
    by (cases "i < 0") (simp_all add: Atoi_def Itoa_def s v m Let_def)
qed

end
