(* ===== verification/Strconv.thy ===== *)
theory Strconv
  imports GoStrings
begin

text \<open>
  The two return a value beside the error, and some callers keep the value: a syntax error
  comes with zero, an integer out of range with the nearest limit, a float out of range
  with an infinity.
\<close>

definition ErrSyntax :: err where [err_const]: "ErrSyntax = Sentinel ''invalid syntax''"
definition ErrRange :: err where [err_const]: "ErrRange = Sentinel ''value out of range''"

definition num_error :: "string \<Rightarrow> string \<Rightarrow> err \<Rightarrow> err" where
  "num_error fn s e = Wrap (''strconv.'' @ fn @ '': parsing '' @ quoted s @ '': '') e ''''"

text \<open>The digits of an unsigned 64-bit number, from the left: the first digit that overflows
  ends the reading, whatever follows it.\<close>

fun uint_digits :: "string \<Rightarrow> int \<Rightarrow> int \<times> err option" where
  "uint_digits [] n = (n, None)"
| "uint_digits (c # s) n =
     (case digit c of
        None \<Rightarrow> (0, Some ErrSyntax)
      | Some d \<Rightarrow> (let m = 10 * n + int d
                  in if 2 ^ 64 \<le> m then (2 ^ 64 - 1, Some ErrRange) else uint_digits s m))"

definition ParseInt :: "string \<Rightarrow> goint \<times> err option" where
  "ParseInt s =
     (let (neg, r) = split_sign s;
          (un, e) = (if r = [] then (0, Some ErrSyntax) else uint_digits r 0)
      in if e = Some ErrSyntax then (0, Some (num_error ''ParseInt'' s ErrSyntax))
         else if \<not> neg \<and> 2 ^ 63 \<le> un then (2 ^ 63 - 1, Some (num_error ''ParseInt'' s ErrRange))
         else if neg \<and> 2 ^ 63 < un then (- (2 ^ 63), Some (num_error ''ParseInt'' s ErrRange))
         else (if neg then - un else un, None))"

definition break_at :: "(char \<Rightarrow> bool) \<Rightarrow> string \<Rightarrow> string \<times> string option" where
  "break_at p s =
     (let (a, b) = (takeWhile (\<lambda>c. \<not> p c) s, dropWhile (\<lambda>c. \<not> p c) s)
      in (a, case b of [] \<Rightarrow> None | c # r \<Rightarrow> Some r))"

text \<open>The spellings of the infinities and of NaN, in any case; only the former take a sign.\<close>

definition special_float :: "string \<Rightarrow> f64 option" where
  "special_float s =
     (let (neg, r) = split_sign s
      in if ToLower r = ''inf'' \<or> ToLower r = ''infinity'' then Some (FInf neg)
         else if ToLower s = ''nan'' then Some FNaN else None)"

text \<open>An underscore stands between digits, or between the base prefix and a digit. The last
  character is remembered as \<^verbatim>\<open>0\<close> for a digit, \<^verbatim>\<open>_\<close>, \<^verbatim>\<open>!\<close> for any other, \<^verbatim>\<open>^\<close> at the start.\<close>

definition hex_digit :: "char \<Rightarrow> nat option" where
  "hex_digit c =
     (if char_between CHR ''a'' CHR ''f'' (lower_char c) then Some ((of_char (lower_char c) :: nat) - 87)
      else digit c)"

fun underscores_ok :: "bool \<Rightarrow> char \<Rightarrow> string \<Rightarrow> bool" where
  "underscores_ok hex i [] \<longleftrightarrow> i \<noteq> CHR ''_''"
| "underscores_ok hex i (c # s) \<longleftrightarrow>
     (if (if hex then hex_digit c else digit c) \<noteq> None then underscores_ok hex CHR ''0'' s
      else if c = CHR ''_'' then i = CHR ''0'' \<and> underscores_ok hex CHR ''_'' s
      else i \<noteq> CHR ''_'' \<and> underscores_ok hex CHR ''!'' s)"

definition underscoreOK :: "string \<Rightarrow> bool" where
  "underscoreOK s =
     (let r = snd (split_sign s)
      in if 2 \<le> length r \<and> hd r = CHR ''0'' \<and> lower_char (r ! 1) \<in> {CHR ''b'', CHR ''o'', CHR ''x''}
         then underscores_ok (lower_char (r ! 1) = CHR ''x'') CHR ''0'' (drop 2 r)
         else underscores_ok False CHR ''^'' r)"

text \<open>The value of a string of digits.\<close>

fun digits_int :: "(char \<Rightarrow> nat option) \<Rightarrow> int \<Rightarrow> string \<Rightarrow> int \<Rightarrow> int option" where
  "digits_int dig base [] n = Some n"
| "digits_int dig base (c # s) n =
     (case dig c of None \<Rightarrow> None | Some d \<Rightarrow> digits_int dig base s (base * n + int d))"

text \<open>An exponent: a sign and at least one digit; it stops growing at 10000.\<close>

fun exponent_digits :: "string \<Rightarrow> int \<Rightarrow> int option" where
  "exponent_digits [] e = Some e"
| "exponent_digits (c # s) e =
     (case digit c of None \<Rightarrow> None
      | Some d \<Rightarrow> exponent_digits s (if e < 10000 then 10 * e + int d else e))"

definition exponent_value :: "string \<Rightarrow> int option" where
  "exponent_value s =
     (let (neg, r) = split_sign s
      in if r = [] then None
         else map_option (\<lambda>e. if neg then - e else e) (exponent_digits r 0))"

definition decimal :: "bool \<Rightarrow> int \<Rightarrow> int \<Rightarrow> f64" where
  "decimal neg n e =
     (if n = 0 then FNum neg 0 emin
      else round64 neg (n * 10 ^ nat e) (10 ^ nat (- e)) 0)"

definition binary :: "bool \<Rightarrow> int \<Rightarrow> int \<Rightarrow> f64" where
  "binary neg n e = (if n = 0 then FNum neg 0 emin else round64 neg n 1 e)"

text \<open>Sign, mantissa and exponent of a number without underscores, and its rounded value.\<close>

definition read_float :: "string \<Rightarrow> f64 option" where
  "read_float s =
     (let (neg, r) = split_sign s;
          hex = (2 < length r \<and> hd r = CHR ''0'' \<and> lower_char (r ! 1) = CHR ''x'');
          (mant, ex) = break_at (\<lambda>c. lower_char c = (if hex then CHR ''p'' else CHR ''e''))
                         (if hex then drop 2 r else r);
          (ip, fp) = break_at (\<lambda>c. c = CHR ''.'') mant;
          fraction = (case fp of None \<Rightarrow> [] | Some f \<Rightarrow> f);
          ds = ip @ fraction
      in if ds = [] then None
         else if hex then
           (case (digits_int hex_digit 16 ds 0, ex) of
              (Some n, Some x) \<Rightarrow>
                map_option (\<lambda>e. binary neg n (e - 4 * int (length fraction))) (exponent_value x)
            | _ \<Rightarrow> None)
         else
           (case (digits_int digit 10 ds 0, case ex of None \<Rightarrow> Some 0 | Some x \<Rightarrow> exponent_value x) of
              (Some n, Some e) \<Rightarrow> Some (decimal neg n (e - int (length fraction)))
            | _ \<Rightarrow> None))"

definition ParseFloat64 :: "string \<Rightarrow> f64 \<times> err option" where
  "ParseFloat64 s =
     (case special_float s of
        Some x \<Rightarrow> (x, None)
      | None \<Rightarrow>
          (if CHR ''_'' \<in> set s \<and> \<not> underscoreOK s
           then (0, Some (num_error ''ParseFloat'' s ErrSyntax))
           else case read_float (filter (\<lambda>c. c \<noteq> CHR ''_'') s) of
                  None \<Rightarrow> (0, Some (num_error ''ParseFloat'' s ErrSyntax))
                | Some (FInf n) \<Rightarrow> (FInf n, Some (num_error ''ParseFloat'' s ErrRange))
                | Some x \<Rightarrow> (x, None)))"

lemma digits_int_decimal: "digits_int digit 10 s (int n) = map_option int (digits_value s n)"
proof (induction s arbitrary: n)
  case (Cons c s)
  show ?case
  proof (cases "digit c")
    case (Some d)
    with Cons [of "10 * n + d"] show ?thesis by simp
  qed simp
qed simp

end
