(* ===== verification/Csv.thy ===== *)
theory Csv
  imports Strconv
begin

text \<open>
  The reader of \<^verbatim>\<open>encoding/csv\<close> as the NSE files are read with it: comma separated,
  \<^verbatim>\<open>TrimLeadingSpace\<close> set, no lazy quotes, no comment character, as many fields in every
  record as in the first. A byte stream is what it still delivers and the error it ends with,
  \<^verbatim>\<open>io.EOF\<close> at a regular end; it repeats that error for ever. The lines and columns in
  the texts of parse errors are not modelled.
\<close>

section \<open>Streams and lines\<close>

definition io_EOF :: err where [err_const]: "io_EOF = Sentinel ''EOF''"

record byte_stream =
  bsRest :: string
  bsEnd :: err

definition bytes_reader :: "string \<Rightarrow> byte_stream" where
  "bytes_reader s = \<lparr>bsRest = s, bsEnd = io_EOF\<rparr>"

definition newline :: char where "newline = CHR 0x0A"
definition carriage_return :: char where "carriage_return = CHR 0x0D"
definition quote :: char where "quote = CHR 0x22"
definition comma :: char where "comma = CHR '',''"

definition drop_cr :: "string \<Rightarrow> string" where
  "drop_cr s = (if s \<noteq> [] \<and> last s = carriage_return then butlast s else s)"

text \<open>\<^verbatim>\<open>readLine\<close>: up to and including the next newline, with a carriage return before it
  dropped; at the end of the stream what is left of it, and the error only with nothing left
  or when it is not the regular end.\<close>

definition readLine :: "byte_stream \<Rightarrow> (string \<times> err option) \<times> byte_stream" where
  "readLine b =
     (let line = takeWhile (\<lambda>c. c \<noteq> newline) (bsRest b)
      in case dropWhile (\<lambda>c. c \<noteq> newline) (bsRest b) of
           c # rest \<Rightarrow> ((drop_cr line @ [newline], None), b\<lparr>bsRest := rest\<rparr>)
         | [] \<Rightarrow> ((if line \<noteq> [] \<and> bsEnd b = io_EOF then (drop_cr line, None)
                  else (line, Some (bsEnd b))), b\<lparr>bsRest := []\<rparr>))"

definition lengthNL :: "string \<Rightarrow> nat" where
  "lengthNL s = (if s \<noteq> [] \<and> last s = newline then 1 else 0)"

lemma readLine_length:
  assumes "readLine b = ((line, e), b')"
  shows "length line + length (bsRest b') \<le> length (bsRest b)"
    and "e = None \<Longrightarrow> length (bsRest b') < length (bsRest b)"
    and "bsEnd b' = bsEnd b"
    and "e \<noteq> None \<Longrightarrow> e = Some (bsEnd b) \<and> bsRest b' = []"
proof -
  define a where "a = takeWhile (\<lambda>c. c \<noteq> newline) (bsRest b)"
  define d where "d = dropWhile (\<lambda>c. c \<noteq> newline) (bsRest b)"
  have l: "length (bsRest b) = length a + length d"
    unfolding a_def d_def by (metis length_append takeWhile_dropWhile_id)
  have c: "length (drop_cr s) \<le> length s" for s by (simp add: drop_cr_def)
  have r: "readLine b = (case d of
      c # rest \<Rightarrow> ((drop_cr a @ [newline], None), b\<lparr>bsRest := rest\<rparr>)
    | [] \<Rightarrow> ((if a \<noteq> [] \<and> bsEnd b = io_EOF then (drop_cr a, None) else (a, Some (bsEnd b))),
            b\<lparr>bsRest := []\<rparr>))"
    unfolding readLine_def Let_def a_def d_def by (rule refl)
  show "length line + length (bsRest b') \<le> length (bsRest b)"
    and "e = None \<Longrightarrow> length (bsRest b') < length (bsRest b)"
    and "bsEnd b' = bsEnd b"
    and "e \<noteq> None \<Longrightarrow> e = Some (bsEnd b) \<and> bsRest b' = []"
    using assms r c [of a] l by (auto split: list.splits if_splits)
qed

lemma readLine_shorter:
  "snd (fst (readLine b)) = None \<Longrightarrow> length (bsRest (snd (readLine b))) < length (bsRest b)"
  using readLine_length(2) [of b "fst (fst (readLine b))" None "snd (readLine b)"]
  by (metis prod.collapse)

lemma readLine_total:
  "length (fst (fst (readLine b))) + length (bsRest (snd (readLine b))) \<le> length (bsRest b)"
  using readLine_length(1) [of b "fst (fst (readLine b))" "snd (fst (readLine b))" "snd (readLine b)"]
  by simp

lemma dropWhile_shorter: "dropWhile P xs = y # ys \<Longrightarrow> length ys < length xs"
  by (metis Suc_le_lessD length_Cons length_dropWhile_le)

section \<open>Records\<close>

definition ErrBareQuote :: err where
  [err_const]: "ErrBareQuote = Sentinel (''bare '' @ [quote] @ '' in non-quoted field'')"
definition ErrQuote :: err where
  [err_const]: "ErrQuote = Sentinel (''extraneous or missing '' @ [quote] @ '' in quoted-field'')"
definition ErrFieldCount :: err where
  [err_const]: "ErrFieldCount = Sentinel ''wrong number of fields''"

definition parse_error :: "err \<Rightarrow> err" where
  "parse_error e = Wrap ''parse error: '' e ''''"

text \<open>\<^verbatim>\<open>FieldsPerRecord\<close> is zero until the first record has been read.\<close>

record csv_reader =
  crStream :: byte_stream
  crFieldsPerRecord :: nat

definition NewReader :: "byte_stream \<Rightarrow> csv_reader" where
  "NewReader b = \<lparr>crStream = b, crFieldsPerRecord = 0\<rparr>"

text \<open>The first line that is not empty.\<close>

function next_line :: "byte_stream \<Rightarrow> (string \<times> err option) \<times> byte_stream" where
  "next_line b =
     (let p = readLine b; line = fst (fst p)
      in if snd (fst p) = None \<and> length line = lengthNL line then next_line (snd p) else p)"
  by pat_completeness auto
termination
  by (relation "measure (\<lambda>b. length (bsRest b))") (simp_all add: readLine_shorter)

declare next_line.simps [simp del]

text \<open>
  The fields of a record. The mode is \<open>None\<close> at the start of a field and \<open>Some buf\<close> inside
  quotes, with what the field holds so far; \<open>e\<close> is \<^verbatim>\<open>errRead\<close>. The result is the fs, the
  parse error, the final \<^verbatim>\<open>errRead\<close> and the rest of the stream. A quoted field may run over
  several lines.
\<close>

function csv_fields ::
  "string option \<Rightarrow> string list \<Rightarrow> string \<Rightarrow> err option \<Rightarrow> byte_stream \<Rightarrow>
    string list \<times> err option \<times> err option \<times> byte_stream" where
  "csv_fields None fs line e b =
     (case dropWhile is_space line of
        c # s \<Rightarrow>
          (if c = quote then csv_fields (Some []) fs s e b
           else let field = takeWhile (\<lambda>c. c \<noteq> comma) (c # s)
                in case dropWhile (\<lambda>c. c \<noteq> comma) (c # s) of
                     _ # rest \<Rightarrow>
                       (if quote \<in> set field then (fs, Some (parse_error ErrBareQuote), e, b)
                        else csv_fields None (fs @ [field]) rest e b)
                   | [] \<Rightarrow>
                       (let field = take (length field - lengthNL field) field
                        in if quote \<in> set field then (fs, Some (parse_error ErrBareQuote), e, b)
                           else (fs @ [field], None, e, b)))
      | [] \<Rightarrow> (fs @ [[]], None, e, b))"
| "csv_fields (Some buf) fs line e b =
     (case dropWhile (\<lambda>c. c \<noteq> quote) line of
        _ # rest \<Rightarrow>
          (let buf = buf @ takeWhile (\<lambda>c. c \<noteq> quote) line
           in if rest \<noteq> [] \<and> hd rest = quote then csv_fields (Some (buf @ [quote])) fs (tl rest) e b
              else if rest \<noteq> [] \<and> hd rest = comma then csv_fields None (fs @ [buf]) (tl rest) e b
              else if lengthNL rest = length rest then (fs @ [buf], None, e, b)
              else (fs, Some (parse_error ErrQuote), e, b))
      | [] \<Rightarrow>
          (if line \<noteq> [] then
             (if e \<noteq> None then (fs, None, e, b)
              else let p = readLine b; e' = snd (fst p)
                   in csv_fields (Some (buf @ line)) fs (fst (fst p))
                        (if e' = Some io_EOF then None else e') (snd p))
           else if e = None then (fs, Some (parse_error ErrQuote), e, b)
           else (fs @ [buf], None, e, b)))"
  by pat_completeness auto
termination
  by (relation "measure (\<lambda>(m, fs, line, e, b). length line + length (bsRest b))")
    (auto dest!: dropWhile_shorter intro: le_less_trans [OF readLine_total] split: if_splits)

declare csv_fields.simps [simp del]

text \<open>\<^verbatim>\<open>Read\<close>: the record, with the error of the parser, of the stream, or about the number of
  fields.\<close>

definition Read :: "csv_reader \<Rightarrow> (string list \<times> err option) \<times> csv_reader" where
  "Read r =
     (let ((line, e), b) = next_line (crStream r)
      in if e = Some io_EOF then (([], Some io_EOF), r\<lparr>crStream := b\<rparr>)
         else let (fs, perr, e', b') = csv_fields None [] line e b;
                  err = (if perr = None then e' else perr);
                  expected = crFieldsPerRecord r
              in if 0 < expected
                 then ((fs, if length fs \<noteq> expected \<and> err = None
                                then Some (parse_error ErrFieldCount) else err), r\<lparr>crStream := b'\<rparr>)
                 else ((fs, err), r\<lparr>crStream := b', crFieldsPerRecord := length fs\<rparr>))"


section \<open>Reading a file record by record\<close>

text \<open>
  The loop the parsers share: a record that cannot be read is skipped, one that \<open>f\<close> refuses
  as well, and only \<^verbatim>\<open>io.EOF\<close> ends it. On a stream that ends with another error it does not
  return, which is the value \<open>None\<close>.
\<close>

partial_function (option) read_loop ::
  "(string list \<Rightarrow> 'r option) \<Rightarrow> csv_reader \<Rightarrow> 'r list \<Rightarrow> 'r list option" where
  "read_loop f r rows =
     (let p = Read r; rec = fst (fst p); e = snd (fst p)
      in if e = Some io_EOF then Some rows
         else if e \<noteq> None then read_loop f (snd p) rows
         else case f rec of
                None \<Rightarrow> read_loop f (snd p) rows
              | Some row \<Rightarrow> read_loop f (snd p) (rows @ [row]))"

subsection \<open>Progress\<close>

lemma next_line_progress:
  assumes "next_line b = ((line, e), b')"
  shows "bsEnd b' = bsEnd b \<and> length (bsRest b') \<le> length (bsRest b) \<and>
    (e = None \<longrightarrow> length (bsRest b') < length (bsRest b)) \<and> (e = None \<or> e = Some (bsEnd b))"
  using assms
proof (induction b rule: next_line.induct)
  case (1 b)
  obtain l x c where r: "readLine b = ((l, x), c)" by (metis prod.collapse)
  note facts = readLine_length [OF r]
  show ?case
  proof (cases "x = None \<and> length l = lengthNL l")
    case True
    then have "next_line c = ((line, e), b')"
      using 1(2) by (subst (asm) next_line.simps) (simp add: r)
    with 1(1) [of "readLine b"] True facts show ?thesis by (force simp: r)
  next
    case False
    then have "l = line" "x = e" "c = b'"
      using 1(2) by (subst (asm) next_line.simps, auto simp: r)+
    with facts show ?thesis by (cases "e = None") auto
  qed
qed

lemma csv_fields_quote:
  assumes "dropWhile (\<lambda>c. c \<noteq> quote) line = d # rest"
  shows "csv_fields (Some buf) fs line e b =
    (let buf = buf @ takeWhile (\<lambda>c. c \<noteq> quote) line
     in if rest \<noteq> [] \<and> hd rest = quote then csv_fields (Some (buf @ [quote])) fs (tl rest) e b
        else if rest \<noteq> [] \<and> hd rest = comma then csv_fields None (fs @ [buf]) (tl rest) e b
        else if lengthNL rest = length rest then (fs @ [buf], None, e, b)
        else (fs, Some (parse_error ErrQuote), e, b))"
  by (subst csv_fields.simps) (simp only: assms list.case)

lemma csv_fields_progress:
  assumes "csv_fields m fs line e b = (fs', perr, e', b')"
  shows "bsEnd b' = bsEnd b \<and> length (bsRest b') \<le> length (bsRest b) \<and>
    (perr = None \<or> perr = Some (parse_error ErrQuote) \<or> perr = Some (parse_error ErrBareQuote)) \<and>
    (e' = e \<or> e' = None \<or> e' = Some (bsEnd b) \<and> bsEnd b \<noteq> io_EOF)"
  using assms
proof (induction m fs line e b rule: csv_fields.induct)
  case (1 fs line e b)
  from 1(3) show ?case
    by (subst (asm) csv_fields.simps)
      (auto simp: Let_def split: list.splits if_splits dest: 1(1) 1(2))
next
  case (2 buf fs line e b)
  show ?case
  proof (cases "dropWhile (\<lambda>c. c \<noteq> quote) line")
    case Nil
    show ?thesis
    proof (cases "line \<noteq> [] \<and> e = None")
      case True
      obtain l x c where r: "readLine b = ((l, x), c)" by (metis prod.collapse)
      note facts = readLine_length [OF r]
      have "csv_fields (Some (buf @ line)) fs l (if x = Some io_EOF then None else x) c =
          (fs', perr, e', b')"
        using 2(4) Nil True by (subst (asm) csv_fields.simps) (simp add: r)
      from 2(1) [OF Nil _ _ refl refl, unfolded r fst_conv snd_conv, OF _ _ this] True facts
      show ?thesis by (cases x) (auto split: if_splits)
    next
      case False
      with 2(4) Nil show ?thesis by (subst (asm) csv_fields.simps) (auto split: if_splits)
    qed
  next
    case (Cons d rest)
    define buf' where "buf' = buf @ takeWhile (\<lambda>c. c \<noteq> quote) line"
    have eq: "(if rest \<noteq> [] \<and> hd rest = quote then csv_fields (Some (buf' @ [quote])) fs (tl rest) e b
        else if rest \<noteq> [] \<and> hd rest = comma then csv_fields None (fs @ [buf']) (tl rest) e b
        else if lengthNL rest = length rest then (fs @ [buf'], None, e, b)
        else (fs, Some (parse_error ErrQuote), e, b)) = (fs', perr, e', b')"
      using 2(4) csv_fields_quote [OF Cons, of buf fs e b] by (simp only: buf'_def Let_def)
    show ?thesis
      using eq 2(2) [OF Cons buf'_def] 2(3) [OF Cons buf'_def] by (auto split: if_splits)
  qed
qed

lemma parse_error_not_EOF [simp]: "parse_error e \<noteq> io_EOF" "io_EOF \<noteq> parse_error e"
  by (simp_all add: parse_error_def io_EOF_def)

lemma Read_progress:
  assumes "Read r = ((rec, err), r')"
  shows "bsEnd (crStream r') = bsEnd (crStream r)"
    and "bsEnd (crStream r) = io_EOF \<Longrightarrow> err \<noteq> Some io_EOF \<Longrightarrow>
      length (bsRest (crStream r')) < length (bsRest (crStream r))"
    and "bsEnd (crStream r) \<noteq> io_EOF \<Longrightarrow> err \<noteq> Some io_EOF"
proof -
  obtain line e b where n: "next_line (crStream r) = ((line, e), b)" by (metis prod.collapse)
  obtain fs perr e' b' where c: "csv_fields None [] line e b = (fs, perr, e', b')"
    by (metis prod.collapse)
  have R: "Read r = (if e = Some io_EOF then (([], Some io_EOF), r\<lparr>crStream := b\<rparr>)
      else let err = (if perr = None then e' else perr); expected = crFieldsPerRecord r
           in if 0 < expected
              then ((fs, if length fs \<noteq> expected \<and> err = None
                         then Some (parse_error ErrFieldCount) else err), r\<lparr>crStream := b'\<rparr>)
              else ((fs, err), r\<lparr>crStream := b', crFieldsPerRecord := length fs\<rparr>))"
    by (simp add: Read_def n c)
  note facts = next_line_progress [OF n] csv_fields_progress [OF c]
  show "bsEnd (crStream r') = bsEnd (crStream r)"
    using assms facts by (auto simp: R Let_def split: if_splits)
  show "length (bsRest (crStream r')) < length (bsRest (crStream r))"
    if "bsEnd (crStream r) = io_EOF" "err \<noteq> Some io_EOF"
    using assms facts that by (auto simp: R Let_def split: if_splits)
  show "err \<noteq> Some io_EOF" if "bsEnd (crStream r) \<noteq> io_EOF"
    using assms facts that by (auto simp: R Let_def split: if_splits)
qed

subsection \<open>The records of a file\<close>

text \<open>The records that can be read, one after the other, from a stream that ends.\<close>

function records :: "csv_reader \<Rightarrow> string list list" where
  "records r =
     (let p = Read r; e = snd (fst p)
      in if bsEnd (crStream r) \<noteq> io_EOF \<or> e = Some io_EOF then []
         else if e \<noteq> None then records (snd p)
         else fst (fst p) # records (snd p))"
  by pat_completeness auto
termination
proof (relation "measure (\<lambda>r. length (bsRest (crStream r)))", goal_cases)
  case 1
  show ?case by simp
next
  case (2 r p e)
  then show ?case
    by (metis Read_progress(2) in_measure prod.collapse)
next
  case (3 r p e)
  then show ?case
    by (metis Read_progress(2) in_measure prod.collapse)
qed

declare records.simps [simp del]

lemma read_loop_records:
  "bsEnd (crStream r) = io_EOF \<Longrightarrow> read_loop f r rows = Some (rows @ List.map_filter f (records r))"
proof (induction r arbitrary: rows rule: records.induct)
  case (1 r)
  obtain rec e r' where p: "Read r = ((rec, e), r')" by (metis prod.collapse)
  have e: "bsEnd (crStream r') = io_EOF" using Read_progress(1) [OF p] 1(3) by simp
  show ?case
  proof (cases e)
    case None
    then have "read_loop f r' rows' = Some (rows' @ List.map_filter f (records r'))" for rows'
      using 1(2) [of "Read r" e] 1(3) e by (simp add: p)
    with None show ?thesis
      by (subst read_loop.simps, subst records.simps)
        (simp add: p 1(3) List.map_filter_simps split: option.split)
  next
    case (Some x)
    show ?thesis
    proof (cases "x = io_EOF")
      case True
      with Some show ?thesis
        by (subst read_loop.simps, subst records.simps) (simp add: p List.map_filter_simps)
    next
      case False
      then have "read_loop f r' rows = Some (rows @ List.map_filter f (records r'))"
        using 1(1) [of "Read r" e] 1(3) e Some by (simp add: p)
      with False Some show ?thesis
        by (subst read_loop.simps, subst records.simps) (simp add: p 1(3))
    qed
  qed
qed

text \<open>Where the loop has a value, the stream ended regularly.\<close>

lemma read_loop_ends:
  assumes "read_loop f r rows = Some y"
  shows "bsEnd (crStream r) = io_EOF"
proof (rule read_loop.raw_induct [OF _ assms])
  fix loop :: "(string list \<Rightarrow> 'a option) \<Rightarrow> csv_reader \<Rightarrow> 'a list \<Rightarrow> 'a list option"
    and f r rows y
  assume IH: "\<And>f r rows y. loop f r rows = Some y \<Longrightarrow> bsEnd (crStream r) = io_EOF"
    and eq: "(let p = Read r; rec = fst (fst p); e = snd (fst p)
      in if e = Some io_EOF then Some rows
         else if e \<noteq> None then loop f (snd p) rows
         else case f rec of
                None \<Rightarrow> loop f (snd p) rows
              | Some row \<Rightarrow> loop f (snd p) (rows @ [row])) = Some y"
  obtain rec e r' where p: "Read r = ((rec, e), r')" by (metis prod.collapse)
  note facts = Read_progress(1,3) [OF p]
  show "bsEnd (crStream r) = io_EOF"
  proof (cases "e = Some io_EOF")
    case True
    with facts show ?thesis by blast
  next
    case False
    with eq have "\<exists>rows'. loop f r' rows' = Some y"
      by (auto simp: p Let_def split: if_splits option.splits)
    with IH facts show ?thesis by metis
  qed
qed

lemma read_loop_returns: "read_loop f r rows \<noteq> None \<longleftrightarrow> bsEnd (crStream r) = io_EOF"
  using read_loop_records [of r f rows] read_loop_ends [of f r rows] by auto

subsection \<open>A file of plain fields\<close>

text \<open>A field that needs no quotes: no delimiter, quote or line end in it, and no space it
  would lose. A line holds one record; the one line a reader skips is the empty one.\<close>

definition plain_field :: "string \<Rightarrow> bool" where
  "plain_field s \<longleftrightarrow>
     {comma, quote, newline, carriage_return} \<inter> set s = {} \<and> (s \<noteq> [] \<longrightarrow> \<not> is_space (hd s))"

definition plain_record :: "string list \<Rightarrow> bool" where
  "plain_record fs \<longleftrightarrow> fs \<noteq> [] \<and> list_all plain_field fs \<and> fs \<noteq> [[]]"

definition csv_text :: "string list list \<Rightarrow> string" where
  "csv_text rows = concat (map (\<lambda>fs. Join [comma] fs @ [newline]) rows)"

lemma csv_chars [simp]:
  "comma \<noteq> newline" "newline \<noteq> comma" "comma \<noteq> quote" "quote \<noteq> comma" "newline \<noteq> quote"
  "quote \<noteq> newline" "comma \<noteq> carriage_return" "carriage_return \<noteq> comma"
  "carriage_return \<noteq> newline" "newline \<noteq> carriage_return"
  "is_space newline" "\<not> is_space comma"
  by (simp_all add: comma_def newline_def quote_def carriage_return_def is_space_def char_between_def)

lemma plain_fieldD:
  assumes "plain_field s"
  shows "comma \<notin> set s" "quote \<notin> set s" "newline \<notin> set s" "carriage_return \<notin> set s"
    "c # r = s \<Longrightarrow> \<not> is_space c" "c # r = s \<Longrightarrow> c \<noteq> quote"
  using assms by (auto simp: plain_field_def)

lemma takeWhile_avoids: "x \<notin> set xs \<Longrightarrow> takeWhile (\<lambda>c. c \<noteq> x) (xs @ x # ys) = xs"
  "x \<notin> set xs \<Longrightarrow> dropWhile (\<lambda>c. c \<noteq> x) (xs @ x # ys) = x # ys"
  "x \<notin> set xs \<Longrightarrow> takeWhile (\<lambda>c. c \<noteq> x) xs = xs"
  "x \<notin> set xs \<Longrightarrow> dropWhile (\<lambda>c. c \<noteq> x) xs = []"
  by (induction xs) auto

lemma csv_fields_last:
  assumes s: "plain_field s"
  shows "csv_fields None fs (s @ [newline]) None b = (fs @ [s], None, None, b)"
proof (cases s)
  case Nil
  then show ?thesis by (subst csv_fields.simps) simp
next
  case (Cons c r)
  note d = plain_fieldD [OF s]
  have l: "dropWhile is_space (s @ [newline]) = c # r @ [newline]"
    using d(5) [of c r] Cons by simp
  have t: "takeWhile (\<lambda>c. c \<noteq> comma) (c # r @ [newline]) = s @ [newline]"
    "dropWhile (\<lambda>c. c \<noteq> comma) (c # r @ [newline]) = []"
    using d(1) Cons takeWhile_avoids(3,4) [of comma "s @ [newline]"] by auto
  have q: "c \<noteq> quote" using d(6) [of c r] Cons by simp
  show ?thesis
    by (subst csv_fields.simps) (simp only: l list.case t Let_def, simp add: lengthNL_def q d(2))
qed

lemma csv_fields_next:
  assumes s: "plain_field s"
  shows "csv_fields None fs (s @ comma # rest) None b = csv_fields None (fs @ [s]) rest None b"
proof -
  note d = plain_fieldD [OF s]
  obtain c r where cr: "s @ comma # rest = c # r" by (cases s) auto
  have q: "c \<noteq> quote" and l: "dropWhile is_space (s @ comma # rest) = c # r"
    using cr d(5,6) by (cases s; auto)+
  have t: "takeWhile (\<lambda>c. c \<noteq> comma) (c # r) = s" "dropWhile (\<lambda>c. c \<noteq> comma) (c # r) = comma # rest"
    by (simp_all only: cr [symmetric] takeWhile_avoids(1,2) [OF d(1)])
  show ?thesis
    by (subst csv_fields.simps) (simp only: l list.case t Let_def, simp add: q d(2))
qed

lemma csv_fields_plain:
  "fs \<noteq> [] \<Longrightarrow> list_all plain_field fs \<Longrightarrow>
    csv_fields None done (Join [comma] fs @ [newline]) None b = (done @ fs, None, None, b)"
proof (induction fs arbitrary: "done")
  case (Cons s fs)
  show ?case
  proof (cases fs)
    case Nil
    with Cons show ?thesis by (simp add: csv_fields_last)
  next
    case (Cons t ts)
    with Cons.prems Cons.IH [of "done @ [s]"] show ?thesis by (simp add: csv_fields_next)
  qed
qed simp

lemma Join_plain:
  assumes "list_all plain_field fs"
  shows "newline \<notin> set (Join [comma] fs)" "carriage_return \<notin> set (Join [comma] fs)"
  using assms by (induction "[comma]" fs rule: Join.induct) (auto dest: plain_fieldD)

lemma next_line_plain:
  assumes "plain_record fs"
  shows "next_line (bytes_reader (Join [comma] fs @ [newline] @ rest)) =
    ((Join [comma] fs @ [newline], None), bytes_reader rest)"
proof -
  have p: "list_all plain_field fs" and ne: "Join [comma] fs \<noteq> []"
    using assms by (auto simp: plain_record_def elim: Join.elims)
  note j = Join_plain [OF p]
  have "drop_cr (Join [comma] fs) = Join [comma] fs"
    using j(2) last_in_set [OF ne] by (metis drop_cr_def)
  then have "readLine (bytes_reader (Join [comma] fs @ [newline] @ rest)) =
      ((Join [comma] fs @ [newline], None), bytes_reader rest)"
    using takeWhile_avoids(1,2) [OF j(1), of rest]
    by (simp add: readLine_def bytes_reader_def)
  with ne show ?thesis by (subst next_line.simps) (simp add: lengthNL_def)
qed

text \<open>Reading back a file of plain records: those as long as the first are delivered, the
  others skipped.\<close>

definition reader_at :: "nat \<Rightarrow> string \<Rightarrow> csv_reader" where
  "reader_at n s = \<lparr>crStream = bytes_reader s, crFieldsPerRecord = n\<rparr>"

lemma reader_at_end [simp]: "bsEnd (crStream (reader_at n s)) = io_EOF"
  by (simp add: reader_at_def bytes_reader_def)

lemma Read_plain:
  assumes "plain_record fs"
  shows "Read (reader_at n (csv_text (fs # rows))) =
    ((fs, if n = 0 \<or> n = length fs then None else Some (parse_error ErrFieldCount)),
     reader_at (if n = 0 then length fs else n) (csv_text rows))"
  using assms next_line_plain [OF assms, of "csv_text rows"]
    csv_fields_plain [of fs "[]" "bytes_reader (csv_text rows)"]
  by (auto simp: Read_def reader_at_def csv_text_def plain_record_def)

lemma Read_end: "Read (reader_at n (csv_text [])) = (([], Some io_EOF), reader_at n (csv_text []))"
  by (subst Read_def, subst next_line.simps)
    (simp add: readLine_def reader_at_def csv_text_def bytes_reader_def)

lemma records_plain:
  assumes "list_all plain_record rows" "0 < n"
  shows "records (reader_at n (csv_text rows)) = filter (\<lambda>fs. length fs = n) rows"
  using assms
proof (induction rows)
  case Nil
  show ?case by (subst records.simps) (simp add: Read_end)
next
  case (Cons fs rows)
  then have "Read (reader_at n (csv_text (fs # rows))) =
      ((fs, if n = length fs then None else Some (parse_error ErrFieldCount)),
       reader_at n (csv_text rows))"
    by (simp add: Read_plain)
  with Cons show ?case by (subst records.simps) auto
qed

end
