(* ===== verification/GoTime.thy ===== *)
theory GoTime
  imports Strconv
begin

text \<open>
  The calendar of the package \<^verbatim>\<open>time\<close> (proleptic Gregorian), and its parsing and formatting
  for the elements the layouts of the program consist of: \<^verbatim>\<open>2006\<close>, \<^verbatim>\<open>Jan\<close>, \<^verbatim>\<open>01\<close>, \<^verbatim>\<open>02\<close> and
  literal text. A time with a location is an instant and the location's offset from UTC in
  seconds.
\<close>

section \<open>The calendar\<close>

definition day_length :: duration where "day_length = 24 * hour"

definition leap :: "int \<Rightarrow> bool" where
  "leap y \<longleftrightarrow> y mod 4 = 0 \<and> (y mod 100 \<noteq> 0 \<or> y mod 400 = 0)"

definition days_before_year :: "int \<Rightarrow> int" where
  "days_before_year y = 365 * (y - 1) + (y - 1) div 4 - (y - 1) div 100 + (y - 1) div 400"

definition days_before_month :: "bool \<Rightarrow> int \<Rightarrow> int" where
  "days_before_month lp m =
     [0, 31, 59, 90, 120, 151, 181, 212, 243, 273, 304, 334, 365] ! nat (m - 1) +
     (if lp \<and> 2 < m then 1 else 0)"

definition days_in :: "int \<Rightarrow> int \<Rightarrow> int" where
  "days_in m y = days_before_month (leap y) (m + 1) - days_before_month (leap y) m"

text \<open>The number of a day, counted from the first of January of year 1. A day outside its
  month counts on from there, as in \<^verbatim>\<open>time.Date\<close>.\<close>

definition day_number :: "int \<Rightarrow> int \<Rightarrow> int \<Rightarrow> int" where
  "day_number y m d = days_before_year y + days_before_month (leap y) m + d - 1"

text \<open>The date of a day number, through the cycles of 400, 100, 4 and 1 years.\<close>

definition year_and_day :: "int \<Rightarrow> int \<times> int" where
  "year_and_day n =
     (let n400 = n div 146097; r = n mod 146097;
          n100 = min 3 (r div 36524); r = r - 36524 * n100;
          n4 = r div 1461; r = r mod 1461;
          n1 = min 3 (r div 365)
      in (400 * n400 + 100 * n100 + 4 * n4 + n1 + 1, r - 365 * n1))"

definition month_of :: "bool \<Rightarrow> int \<Rightarrow> int" where
  "month_of lp yday = int (length (filter (\<lambda>m. days_before_month lp m \<le> yday) [1..12]))"

definition civil :: "int \<Rightarrow> int \<times> int \<times> int" where
  "civil n =
     (let (y, yday) = year_and_day n; m = month_of (leap y) yday
      in (y, m, yday - days_before_month (leap y) m + 1))"

definition valid_date :: "int \<Rightarrow> int \<Rightarrow> int \<Rightarrow> bool" where
  "valid_date y m d \<longleftrightarrow> 1 \<le> m \<and> m \<le> 12 \<and> 1 \<le> d \<and> d \<le> days_in m y"

record ztime =
  zInstant :: time
  zOffset :: int

definition utc :: "time \<Rightarrow> ztime" where "utc t = \<lparr>zInstant = t, zOffset = 0\<rparr>"

definition local_day :: "ztime \<Rightarrow> int" where
  "local_day z = (zInstant z + zOffset z * second - zero_time) div day_length"

definition local_clock :: "ztime \<Rightarrow> duration" where
  "local_clock z = (zInstant z + zOffset z * second - zero_time) mod day_length"

text \<open>\<^verbatim>\<open>Weekday\<close>: Sunday is 0.\<close>

definition Weekday :: "ztime \<Rightarrow> int" where
  "Weekday z = (local_day z + 1) mod 7"

text \<open>\<^verbatim>\<open>AddDate(0, 0, n)\<close>: the same clock time \<open>n\<close> days later, in the same location.\<close>

definition AddDays :: "ztime \<Rightarrow> int \<Rightarrow> ztime" where
  "AddDays z n =
     (let (y, m, d) = civil (local_day z)
      in z\<lparr>zInstant := zero_time + day_number y m (d + n) * day_length + local_clock z
                       - zOffset z * second\<rparr>)"

text \<open>\<^verbatim>\<open>Truncate(24 * time.Hour)\<close> works on the instant, whatever the location.\<close>

definition TruncateDay :: "ztime \<Rightarrow> ztime" where
  "TruncateDay z =
     z\<lparr>zInstant := zInstant z - (zInstant z - zero_time) mod day_length\<rparr>"

section \<open>Layouts\<close>

datatype layout_item = Year4 | MonthName | Month2 | Day2 | Literal char

fun layout_items :: "string \<Rightarrow> layout_item list" where
  "layout_items [] = []"
| "layout_items (c # s) =
     (if prefix ''2006'' (c # s) then Year4 # layout_items (drop 3 s)
      else if prefix ''Jan'' (c # s) then MonthName # layout_items (drop 2 s)
      else if prefix ''01'' (c # s) then Month2 # layout_items (drop 1 s)
      else if prefix ''02'' (c # s) then Day2 # layout_items (drop 1 s)
      else Literal c # layout_items s)"

definition shortMonthNames :: "string list" where
  "shortMonthNames = [''Jan'', ''Feb'', ''Mar'', ''Apr'', ''May'', ''Jun'', ''Jul'', ''Aug'',
     ''Sep'', ''Oct'', ''Nov'', ''Dec'']"

section \<open>Parsing\<close>

text \<open>\<^verbatim>\<open>getnum\<close> with a fixed width of two digits.\<close>

definition getnum2 :: "string \<Rightarrow> (int \<times> string) option" where
  "getnum2 s =
     (case s of
        a # b # r \<Rightarrow>
          (case (digit a, digit b) of (Some x, Some y) \<Rightarrow> Some (int (10 * x + y), r) | _ \<Rightarrow> None)
      | _ \<Rightarrow> None)"

definition getyear :: "string \<Rightarrow> (int \<times> string) option" where
  "getyear s =
     (if length s < 4 then None
      else map_option (\<lambda>n. (n, drop 4 s)) (digits_int digit 10 (take 4 s) 0))"

text \<open>The first name that begins the text, in any case; months count from 1.\<close>

definition lookup_month :: "string \<Rightarrow> (int \<times> string) option" where
  "lookup_month s =
     (case filter (\<lambda>i. prefix (ToLower (shortMonthNames ! nat (i - 1))) (ToLower s)) [1..12] of
        i # _ \<Rightarrow> Some (i, drop 3 s)
      | [] \<Rightarrow> None)"

record date_parts =
  dpYear :: int
  dpMonth :: "int option"
  dpDay :: "int option"

fun parse_items :: "layout_item list \<Rightarrow> string \<Rightarrow> date_parts \<Rightarrow> date_parts option" where
  "parse_items [] s p = (if s = [] then Some p else None)"
| "parse_items (Literal c # items) s p =
     (case s of d # r \<Rightarrow> (if d = c then parse_items items r p else None) | [] \<Rightarrow> None)"
| "parse_items (Year4 # items) s p =
     (case getyear s of None \<Rightarrow> None | Some (y, r) \<Rightarrow> parse_items items r (p\<lparr>dpYear := y\<rparr>))"
| "parse_items (MonthName # items) s p =
     (case lookup_month s of None \<Rightarrow> None
      | Some (m, r) \<Rightarrow> parse_items items r (p\<lparr>dpMonth := Some m\<rparr>))"
| "parse_items (Month2 # items) s p =
     (case getnum2 s of None \<Rightarrow> None
      | Some (m, r) \<Rightarrow>
          (if m \<le> 0 \<or> 12 < m then None else parse_items items r (p\<lparr>dpMonth := Some m\<rparr>)))"
| "parse_items (Day2 # items) s p =
     (case getnum2 s of None \<Rightarrow> None
      | Some (d, r) \<Rightarrow> parse_items items r (p\<lparr>dpDay := Some d\<rparr>))"

text \<open>\<^verbatim>\<open>time.Date(y, m, d, 0, 0, 0, 0, time.UTC)\<close>.\<close>

definition time_Date :: "int \<Rightarrow> int \<Rightarrow> int \<Rightarrow> time" where
  "time_Date y m d = zero_time + day_number y m d * day_length"

definition time_Parse :: "string \<Rightarrow> string \<Rightarrow> time option" where
  "time_Parse layout s =
     (case parse_items (layout_items layout) s \<lparr>dpYear = 0, dpMonth = None, dpDay = None\<rparr> of
        None \<Rightarrow> None
      | Some p \<Rightarrow>
          (let m = (case dpMonth p of None \<Rightarrow> 1 | Some m \<Rightarrow> m);
               d = (case dpDay p of None \<Rightarrow> 1 | Some d \<Rightarrow> d)
           in if d < 1 \<or> days_in m (dpYear p) < d then None
              else Some (time_Date (dpYear p) m d)))"

section \<open>Formatting\<close>

text \<open>\<^verbatim>\<open>appendInt\<close>: zeros up to the width.\<close>

definition append_int :: "int \<Rightarrow> nat \<Rightarrow> string" where
  "append_int i w =
     (let s = nat_text (nat \<bar>i\<bar>)
      in (if i < 0 then ''-'' else '''') @ replicate (w - length s) CHR ''0'' @ s)"

fun format_item :: "int \<Rightarrow> int \<Rightarrow> int \<Rightarrow> layout_item \<Rightarrow> string" where
  "format_item y m d Year4 = append_int y 4"
| "format_item y m d MonthName = shortMonthNames ! nat (m - 1)"
| "format_item y m d Month2 = append_int m 2"
| "format_item y m d Day2 = append_int d 2"
| "format_item y m d (Literal c) = [c]"

definition time_Format :: "string \<Rightarrow> ztime \<Rightarrow> string" where
  "time_Format layout z =
     (let (y, m, d) = civil (local_day z)
      in concat (map (format_item y m d) (layout_items layout)))"

section \<open>Lemmas\<close>

lemma cycles:
  fixes a b c e :: int
  assumes "0 \<le> b" "b \<le> 3" "0 \<le> c" "c \<le> 24" "0 \<le> e" "e \<le> 3"
  defines "p \<equiv> 400 * a + 100 * b + 4 * c + e"
  shows "p div 4 = 100 * a + 25 * b + c" "p div 100 = 4 * a + b" "p div 400 = a"
proof -
  show "p div 4 = 100 * a + 25 * b + c"
    by (rule int_div_pos_eq [where r = e]) (use assms in simp_all)
  show "p div 100 = 4 * a + b"
    by (rule int_div_pos_eq [where r = "4 * c + e"]) (use assms in simp_all)
  show "p div 400 = a"
    by (rule int_div_pos_eq [where r = "100 * b + 4 * c + e"]) (use assms in simp_all)
qed

lemma days_before_cycles:
  assumes "0 \<le> b" "b \<le> 3" "0 \<le> c" "c \<le> 24" "0 \<le> e" "e \<le> 3"
  shows "days_before_year (400 * a + 100 * b + 4 * c + e + 1) =
    146097 * a + 36524 * b + 1461 * c + 365 * e"
  using cycles [OF assms, of a] by (simp add: days_before_year_def)

lemma multiple_in_window:
  fixes k r n :: int
  assumes "0 < r" "r \<le> n"
  shows "(n * k + r) mod n = 0 \<longleftrightarrow> r = n"
proof (cases "r = n")
  case False
  then have "(n * k + r) mod n = r" using assms by simp
  with assms False show ?thesis by simp
qed simp

lemma leap_cycles:
  assumes "0 \<le> b" "b \<le> 3" "0 \<le> c" "c \<le> 24" "0 \<le> e" "e \<le> 3"
  shows "leap (400 * a + 100 * b + 4 * c + e + 1) \<longleftrightarrow> e = 3 \<and> (c \<noteq> 24 \<or> b = 3)"
proof -
  define y where "y = 400 * a + 100 * b + 4 * c + e + 1"
  have y: "y = 4 * (100 * a + 25 * b + c) + (e + 1)" "y = 100 * (4 * a + b) + (4 * c + e + 1)"
    "y = 400 * a + (100 * b + 4 * c + e + 1)" by (simp_all add: y_def)
  have "y mod 4 = 0 \<longleftrightarrow> e + 1 = 4"
    unfolding y(1) by (rule multiple_in_window) (use assms in simp_all)
  moreover have "y mod 100 = 0 \<longleftrightarrow> 4 * c + e + 1 = 100"
    unfolding y(2) by (rule multiple_in_window) (use assms in simp_all)
  moreover have "y mod 400 = 0 \<longleftrightarrow> 100 * b + 4 * c + e + 1 = 400"
    unfolding y(3) by (rule multiple_in_window) (use assms in simp_all)
  ultimately have "leap y \<longleftrightarrow> e = 3 \<and> (4 * c + e + 1 \<noteq> 100 \<or> 100 * b + 4 * c + e + 1 = 400)"
    by (auto simp: leap_def)
  also have "\<dots> \<longleftrightarrow> e = 3 \<and> (c \<noteq> 24 \<or> b = 3)" using assms by auto
  finally show ?thesis by (simp add: y_def)
qed

text \<open>The day of the year starts at 0 and ends before the length of the year.\<close>

definition year_length :: "int \<Rightarrow> int" where
  "year_length y = 365 + (if leap y then 1 else 0)"

lemma year_cycles:
  obtains a b c e where "y = 400 * a + 100 * b + 4 * c + e + 1"
    "0 \<le> b" "b \<le> 3" "0 \<le> c" "c \<le> 24" "0 \<le> e" "e \<le> (3::int)"
proof -
  define q where "q = (y - 1) mod 400"
  define s where "s = q mod 100"
  have "0 \<le> q" "q < 400" "0 \<le> s" "s < 100" by (simp_all add: q_def s_def)
  moreover have "y - 1 = 400 * ((y - 1) div 400) + q" "q = 100 * (q div 100) + s"
    "s = 4 * (s div 4) + s mod 4" by (simp_all add: q_def s_def)
  ultimately show thesis
    by (intro that [of "(y - 1) div 400" "q div 100" "s div 4" "s mod 4"]) linarith+
qed

lemma year_and_day:
  assumes "0 \<le> yday" "yday < year_length y"
  shows "year_and_day (days_before_year y + yday) = (y, yday)"
proof -
  obtain a b c e where y: "y = 400 * a + 100 * b + 4 * c + e + 1"
    and r: "0 \<le> b" "b \<le> 3" "0 \<le> c" "c \<le> 24" "0 \<le> e" "e \<le> 3" by (rule year_cycles)
  define n where "n = days_before_year y + yday"
  define u where "u = 365 * e + yday"
  define v where "v = 1461 * c + u"
  define w where "w = 36524 * b + v"
  have n: "n = 146097 * a + w"
    using days_before_cycles [OF r, of a] by (simp add: n_def y u_def v_def w_def)
  have l: "yday < 365 \<or> yday = 365 \<and> e = 3 \<and> (c \<noteq> 24 \<or> b = 3)"
    using assms(2) leap_cycles [OF r, of a] by (auto simp: year_length_def y split: if_splits)
  have u: "0 \<le> u" "u < 1461" using l r assms(1) by (auto simp: u_def)
  have v: "0 \<le> v" "v < 36524 \<or> v = 36524 \<and> b = 3"
    using l r u by (auto simp: v_def u_def)
  have w: "0 \<le> w" "w < 146097" using v r by (auto simp: w_def)
  have 1: "n div 146097 = a" "n mod 146097 = w"
    using int_div_pos_eq [OF n w] int_mod_pos_eq [OF n w] by simp_all
  have 2: "min 3 (w div 36524) = b"
    using v(2)
  proof
    assume "v < 36524"
    with v(1) int_div_pos_eq [OF w_def] r show ?thesis by simp
  qed (simp add: w_def)
  have 3: "v div 1461 = c" "v mod 1461 = u"
    using int_div_pos_eq [OF v_def u] int_mod_pos_eq [OF v_def u] by simp_all
  have 4: "min 3 (u div 365) = e"
  proof (cases "yday < 365")
    case True
    with int_div_pos_eq [OF u_def assms(1)] r show ?thesis by simp
  qed (use l in \<open>simp add: u_def\<close>)
  have 5: "w - 36524 * b = v" "u - 365 * e = yday" by (simp_all add: w_def u_def)
  have "year_and_day n = (y, yday)"
    by (simp only: year_and_day_def Let_def 1 2 5 3 4) (simp add: y)
  then show ?thesis by (simp only: n_def)
qed

lemma year_and_day_ex:
  obtains y yday where "n = days_before_year y + yday" "0 \<le> yday" "yday < year_length y"
proof -
  define a w where "a = n div 146097" and "w = n mod 146097"
  define b where "b = min 3 (w div 36524)"
  define v where "v = w - 36524 * b"
  define c u where "c = v div 1461" and "u = v mod 1461"
  define e where "e = min 3 (u div 365)"
  define yday where "yday = u - 365 * e"
  have n: "n = 146097 * a + w" and w: "0 \<le> w" "w < 146097" by (simp_all add: a_def w_def)
  have w': "w = 36524 * (w div 36524) + w mod 36524" "0 \<le> w mod 36524" "w mod 36524 < 36524"
    by simp_all
  have b: "0 \<le> b" "b \<le> 3" using w by (simp_all add: b_def pos_imp_zdiv_nonneg_iff)
  have v: "0 \<le> v" "v < 36524 \<or> v = 36524 \<and> b = 3"
    using w w' by (auto simp: v_def b_def min_def)
  have u: "0 \<le> u" "u < 1461" "v = 1461 * c + u" by (simp_all add: c_def u_def)
  have c: "0 \<le> c" "c \<le> 24" using v u by linarith+
  have u': "u = 365 * (u div 365) + u mod 365" "0 \<le> u mod 365" "u mod 365 < 365" by simp_all
  have e: "0 \<le> e" "e \<le> 3" using u by (simp_all add: e_def pos_imp_zdiv_nonneg_iff)
  have y: "0 \<le> yday" "yday < 365 \<or> yday = 365 \<and> e = 3"
    using u u' by (auto simp: yday_def e_def min_def)
  have "\<not> (yday = 365 \<and> e = 3 \<and> c = 24 \<and> b \<noteq> 3)" using v u yday_def by auto
  then have "yday < year_length (400 * a + 100 * b + 4 * c + e + 1)"
    using y leap_cycles [OF b c e, of a] by (auto simp: year_length_def)
  moreover have "n = days_before_year (400 * a + 100 * b + 4 * c + e + 1) + yday"
    using days_before_cycles [OF b c e, of a] n u(3) by (simp add: v_def yday_def)
  ultimately show thesis using y(1) that by blast
qed

text \<open>The twelve months, checked day by day.\<close>

definition month_ok :: "bool \<Rightarrow> int \<Rightarrow> int \<Rightarrow> bool" where
  "month_ok lp m d \<longleftrightarrow>
     (d \<le> days_before_month lp (m + 1) - days_before_month lp m \<longrightarrow>
      month_of lp (days_before_month lp m + d - 1) = m \<and>
      0 \<le> days_before_month lp m + d - 1 \<and>
      days_before_month lp m + d - 1 < (if lp then 366 else 365))"

definition day_ok :: "bool \<Rightarrow> int \<Rightarrow> bool" where
  "day_ok lp k \<longleftrightarrow>
     (let m = month_of lp k; d = k - days_before_month lp m + 1
      in 1 \<le> m \<and> m \<le> 12 \<and> 1 \<le> d \<and> d \<le> days_before_month lp (m + 1) - days_before_month lp m)"

lemma months_checked:
  "list_all (\<lambda>lp. list_all (\<lambda>m. list_all (month_ok lp m) [1..31]) [1..12]) [False, True]"
  by code_simp

lemma days_checked: "list_all (day_ok False) [0..364]" "list_all (day_ok True) [0..365]"
  by code_simp+

lemma month_cases:
  assumes "1 \<le> m" "m \<le> (12::int)"
  obtains "m = 1" | "m = 2" | "m = 3" | "m = 4" | "m = 5" | "m = 6" | "m = 7" | "m = 8" | "m = 9"
  | "m = 10" | "m = 11" | "m = 12"
proof -
  have "m = 1 \<or> m = 2 \<or> m = 3 \<or> m = 4 \<or> m = 5 \<or> m = 6 \<or> m = 7 \<or> m = 8 \<or> m = 9 \<or> m = 10 \<or>
      m = 11 \<or> m = 12" using assms by presburger
  then show thesis using that by blast
qed

lemma valid_date_month:
  assumes "valid_date y m d"
  shows "month_of (leap y) (days_before_month (leap y) m + d - 1) = m"
    and "0 \<le> days_before_month (leap y) m + d - 1"
    and "days_before_month (leap y) m + d - 1 < year_length y"
proof -
  have m: "m \<in> set [1..12]" using assms by (simp add: valid_date_def)
  have "1 \<le> m" "m \<le> 12" using assms by (simp_all add: valid_date_def)
  then have "days_in m y \<le> 31"
    by (cases rule: month_cases) (simp_all add: days_in_def days_before_month_def)
  then have d: "d \<in> set [1..31]" using assms by (simp add: valid_date_def)
  have "leap y \<in> set [False, True]" by simp
  then have "month_ok (leap y) m d" using months_checked m d unfolding list_all_iff by blast
  with assms show "month_of (leap y) (days_before_month (leap y) m + d - 1) = m"
    "0 \<le> days_before_month (leap y) m + d - 1"
    "days_before_month (leap y) m + d - 1 < year_length y"
    by (auto simp: month_ok_def valid_date_def days_in_def year_length_def)
qed

lemma civil_day_number:
  assumes "valid_date y m d"
  shows "civil (day_number y m d) = (y, m, d)"
  using year_and_day [OF valid_date_month(2,3) [OF assms]] valid_date_month(1) [OF assms]
  by (simp add: civil_def day_number_def algebra_simps)

lemma day_number_civil:
  assumes "civil n = (y, m, d)"
  shows "day_number y m d = n" "valid_date y m d"
proof -
  obtain y' yday where n: "n = days_before_year y' + yday" and r: "0 \<le> yday" "yday < year_length y'"
    by (rule year_and_day_ex)
  have c: "y = y'" "m = month_of (leap y) yday" "d = yday - days_before_month (leap y) m + 1"
    using assms year_and_day [OF r] by (auto simp: civil_def n Let_def)
  have "day_ok (leap y) yday"
  proof (cases "leap y")
    case True
    then have "yday \<in> set [0..365]" using r c by (simp add: year_length_def)
    with days_checked(2) True show ?thesis unfolding list_all_iff by simp
  next
    case False
    then have "yday \<in> set [0..364]" using r c by (simp add: year_length_def)
    with days_checked(1) False show ?thesis unfolding list_all_iff by simp
  qed
  then show "valid_date y m d" using c by (simp add: day_ok_def Let_def valid_date_def days_in_def)
  show "day_number y m d = n" using c by (simp add: day_number_def n)
qed

lemma AddDays_instant: "zInstant (AddDays z n) = zInstant z + n * day_length"
proof -
  obtain y m d where c: "civil (local_day z) = (y, m, d)" by (metis prod.collapse)
  have "day_number y m (d + n) = local_day z + n"
    using day_number_civil(1) [OF c] by (simp add: day_number_def)
  moreover have "local_day z * day_length + local_clock z = zInstant z + zOffset z * second - zero_time"
    by (simp add: local_day_def local_clock_def)
  ultimately show ?thesis by (simp add: AddDays_def c algebra_simps)
qed

lemma AddDays_offset [simp]: "zOffset (AddDays z n) = zOffset z"
  by (simp add: AddDays_def split: prod.split)

lemma AddDays_day: "local_day (AddDays z n) = local_day z + n"
proof -
  have "day_length \<noteq> 0" by (simp add: day_length_def hour_def minute_def second_def)
  then have "(a + n * day_length) div day_length = a div day_length + n" for a by simp
  from this [of "zInstant z + zOffset z * second - zero_time"] show ?thesis
    by (simp add: local_day_def AddDays_instant algebra_simps)
qed

section \<open>What is written is read\<close>

lemma nat_text_two: "n < 100 \<Longrightarrow> 10 \<le> n \<Longrightarrow> nat_text n = [digit_char (n div 10), digit_char (n mod 10)]"
  by (subst nat_text.simps, subst nat_text.simps) simp

lemma append_int_two:
  assumes "0 \<le> i" "i < 100"
  shows "append_int i 2 = [digit_char (nat i div 10), digit_char (nat i mod 10)]"
proof (cases "i < 10")
  case True
  then have "nat i < 10" by simp
  moreover have "digit_char 0 = CHR ''0''" by code_simp
  ultimately show ?thesis using assms
    by (simp add: append_int_def nat_text.simps [of "nat i"] numeral_2_eq_2)
next
  case False
  with assms show ?thesis by (simp add: append_int_def nat_text_two)
qed

lemma getnum2_append_int:
  assumes "0 \<le> i" "i < 100"
  shows "getnum2 (append_int i 2 @ r) = Some (i, r)"
  using assms by (simp add: append_int_two getnum2_def digit_digit_char zdiv_int)

lemma length_nat_text: "n < 10 ^ k \<Longrightarrow> 0 < k \<Longrightarrow> length (nat_text n) \<le> k"
proof (induction n arbitrary: k rule: nat_text.induct)
  case (1 n)
  show ?case
  proof (cases "n < 10")
    case True
    with 1 show ?thesis by (subst nat_text.simps) simp
  next
    case False
    obtain j where k: "k = Suc j" using 1(3) by (cases k) auto
    then have j: "0 < j" using False 1(2) by (cases j) auto
    have "length (nat_text (n div 10)) \<le> j" by (rule 1(1)) (use False 1(2) k j in auto)
    with False k show ?thesis by (subst nat_text.simps) simp
  qed
qed

lemma digits_value_zeros: "digits_value (replicate k CHR ''0'' @ s) 0 = digits_value s 0"
  by (induction k) (simp_all add: digit_def char_between_def)

lemma getyear_append_int:
  assumes "0 \<le> i" "i < 10000"
  shows "getyear (append_int i 4 @ r) = Some (i, r)"
proof -
  have "length (nat_text (nat i)) \<le> 4"
    by (rule length_nat_text) (use assms in \<open>simp_all add: nat_less_iff\<close>)
  then have l: "length (append_int i 4) = 4" using assms by (simp add: append_int_def Let_def)
  have "digits_value (append_int i 4) 0 = Some (nat i)"
    using assms by (simp add: append_int_def digits_value_zeros digits_value_nat_text Let_def)
  then have "digits_int digit 10 (append_int i 4) 0 = Some i"
    using digits_int_decimal [of "append_int i 4" 0] assms by simp
  with l assms show ?thesis by (simp add: getyear_def)
qed

lemma prefix_same_length: "length a = length b \<Longrightarrow> prefix a (b @ c) \<longleftrightarrow> a = b"
  by (auto simp: prefix_def)

definition same_letters :: "string \<Rightarrow> string \<Rightarrow> bool" where
  "same_letters s t \<longleftrightarrow> ToLower s = ToLower t"

definition lower_month :: "int \<Rightarrow> string" where
  "lower_month j = [''jan'', ''feb'', ''mar'', ''apr'', ''may'', ''jun'', ''jul'', ''aug'',
     ''sep'', ''oct'', ''nov'', ''dec''] ! nat (j - 1)"

lemma lower_months:
  "list_all (\<lambda>j. ToLower (shortMonthNames ! nat (j - 1)) = lower_month j) [1..12]"
  by code_simp

lemma months_differ:
  "list_all (\<lambda>i. filter (\<lambda>j. prefix (lower_month j) (lower_month i)) [1..12] = [i]) [1..12]"
  by code_simp

lemma lookup_month_name:
  assumes "1 \<le> m" "m \<le> 12" "same_letters name (shortMonthNames ! nat (m - 1))"
  shows "lookup_month (name @ r) = Some (m, r)"
proof -
  have len: "length (shortMonthNames ! nat (j - 1)) = 3" if "j \<in> set [1..12]" for j
  proof -
    have "1 \<le> j" "j \<le> 12" using that by simp_all
    then show ?thesis by (cases rule: month_cases) (simp_all add: shortMonthNames_def)
  qed
  have n: "ToLower name = ToLower (shortMonthNames ! nat (m - 1))"
    using assms(3) by (simp add: same_letters_def)
  then have l: "length name = 3" using len [of m] assms(1,2)
    by (metis ToLower_def atLeastAtMost_iff length_map set_upto)
  have lm: "ToLower (shortMonthNames ! nat (j - 1)) = lower_month j" if "j \<in> set [1..12]" for j
    using lower_months that unfolding list_all_iff by blast
  have "prefix (ToLower (shortMonthNames ! nat (j - 1))) (ToLower (name @ r)) \<longleftrightarrow>
      prefix (ToLower (shortMonthNames ! nat (j - 1))) (ToLower (shortMonthNames ! nat (m - 1)))"
    if "j \<in> set [1..12]" for j
    using len [OF that] l prefix_same_length [of "ToLower (shortMonthNames ! nat (j - 1))" "ToLower name"]
      prefix_same_length [of "ToLower (shortMonthNames ! nat (j - 1))" "ToLower name" "[]"]
    by (simp add: n [symmetric]) (simp add: ToLower_def)
  then have "filter (\<lambda>j. prefix (ToLower (shortMonthNames ! nat (j - 1))) (ToLower (name @ r))) [1..12] =
      filter (\<lambda>j. prefix (lower_month j) (lower_month m)) [1..12]"
    using lm lm [of m] assms(1,2) by (intro filter_cong) simp_all
  also have "\<dots> = [m]"
    using months_differ assms(1,2) unfolding list_all_iff by (metis atLeastAtMost_iff set_upto)
  finally show ?thesis using l by (simp add: lookup_month_def)
qed

lemma digits_all: "digits_value s n \<noteq> None \<Longrightarrow> list_all (\<lambda>c. digit c \<noteq> None) s"
  by (induction s arbitrary: n) (auto split: option.splits)

lemma append_int_two_digits:
  assumes "0 \<le> i" "i < 100"
  obtains a b where "append_int i 2 = [a, b]" "digit a \<noteq> None" "digit b \<noteq> None"
proof (rule that [OF append_int_two [OF assms]])
  have "nat i div 10 < 10" using assms by (simp add: div_less_iff_less_mult nat_less_iff)
  then show "digit (digit_char (nat i div 10)) \<noteq> None" by (simp add: digit_digit_char)
qed (simp add: digit_digit_char)

lemma append_int_four_digits:
  assumes "0 \<le> i" "i < 10000"
  obtains a b c d where "append_int i 4 = [a, b, c, d]"
    "digit a \<noteq> None" "digit b \<noteq> None" "digit c \<noteq> None" "digit d \<noteq> None"
proof -
  have "getyear (append_int i 4) = Some (i, [])" using getyear_append_int [OF assms, of "[]"] by simp
  then have l: "length (append_int i 4) = 4" and v: "digits_value (append_int i 4) 0 \<noteq> None"
    using digits_int_decimal [of "append_int i 4" 0] by (auto simp: getyear_def split: if_splits)
  have "\<exists>a b c d. append_int i 4 = [a, b, c, d]"
    using l by (auto simp: length_Suc_conv numeral_eq_Suc)
  with digits_all [OF v] that show thesis by auto
qed

end
