(* ===== verification/Nse_Files.thy ===== *)
theory Nse_Files
  imports Csv GoTime Stores
begin

text \<open>
  What the NSE publishes and how \<^verbatim>\<open>internal/providers/nse\<close> reads it: the trading calendar and
  the date formats (\<^verbatim>\<open>eod_util.go\<close>), the numbers of \<^verbatim>\<open>internal/csvutil\<close>, and the parsers of
  the three files, futures and options (\<^verbatim>\<open>eod_fo.go\<close>), equities (\<^verbatim>\<open>eod_cm.go\<close>) and indices
  (\<^verbatim>\<open>eod_index.go\<close>). A parser is given a byte stream; its value is \<open>None\<close> when it does not
  return.
\<close>

section \<open>The trading calendar\<close>

definition istOffsetSeconds :: int where [go_const]: "istOffsetSeconds = 5 * 60 * 60 + 30 * 60"

definition nseDateFmtDMY :: string where [go_const]: "nseDateFmtDMY = ''02-Jan-2006''"
definition nseDateFmtISO :: string where [go_const]: "nseDateFmtISO = ''2006-01-02''"
definition nseDateFmtDMYUpper :: string where [go_const]: "nseDateFmtDMYUpper = ''02-JAN-2006''"
definition nseDateFmtSlashMDY :: string where [go_const]: "nseDateFmtSlashMDY = ''01/02/2006''"
definition nseDateFmtCompact :: string where [go_const]: "nseDateFmtCompact = ''20060102''"
definition nseDateFmtDDMMYYYY :: string where [go_const]: "nseDateFmtDDMMYYYY = ''02-01-2006''"

definition ist :: "time \<Rightarrow> ztime" where "ist t = \<lparr>zInstant = t, zOffset = istOffsetSeconds\<rparr>"

definition prevTradingDayOrToday :: "ztime \<Rightarrow> ztime" where
  "prevTradingDayOrToday t =
     (if Weekday t = 0 then AddDays t (- 2)
      else if Weekday t = 6 then AddDays t (- 1)
      else t)"

definition prevTradingDay :: "ztime \<Rightarrow> ztime" where
  "prevTradingDay t = prevTradingDayOrToday (AddDays t (- 1))"

definition latestTradingDate :: "time \<Rightarrow> ztime" where
  "latestTradingDate now = prevTradingDayOrToday (TruncateDay (ist now))"

section \<open>Fields\<close>

fun col :: "(string \<rightharpoonup> int) \<Rightarrow> string list \<Rightarrow> int" where
  "col idx [] = - 1"
| "col idx (name # names) = (case idx name of Some i \<Rightarrow> i | None \<Rightarrow> col idx names)"

text \<open>The columns of a header; of two equal names the later one counts.\<close>

definition header_index :: "string list \<Rightarrow> (string \<rightharpoonup> int)" where
  "header_index header =
     foldl (\<lambda>idx (i, h). idx(TrimSpace h \<mapsto> int i)) Map.empty (enumerate 0 header)"

definition get_field :: "string list \<Rightarrow> int \<Rightarrow> string" where
  "get_field rec i = (if i < 0 \<or> int (length rec) \<le> i then '''' else TrimSpace (rec ! nat i))"

fun first_parsed :: "string list \<Rightarrow> string \<Rightarrow> time option" where
  "first_parsed [] s = None"
| "first_parsed (f # fmts) s =
     (case time_Parse f s of Some t \<Rightarrow> Some t | None \<Rightarrow> first_parsed fmts s)"

definition parseExpiry :: "string \<Rightarrow> time" where
  "parseExpiry s =
     (if s = '''' \<or> s = ''-'' then zero_time
      else case first_parsed [nseDateFmtDMY, nseDateFmtISO, nseDateFmtDMYUpper, nseDateFmtSlashMDY] s of
             Some t \<Rightarrow> t
           | None \<Rightarrow> zero_time)"

definition parseDate :: "string \<Rightarrow> time res" where
  "parseDate s =
     (case first_parsed [nseDateFmtDMY, nseDateFmtISO, nseDateFmtCompact, nseDateFmtSlashMDY,
                         nseDateFmtDDMMYYYY] s of
        Some t \<Rightarrow> Inr t
      | None \<Rightarrow> Inl (Plain (''unrecognized date: '' @ s)))"

definition csvutil_ParseFloat :: "string \<Rightarrow> f64 \<times> err option" where
  "csvutil_ParseFloat s =
     (if s = '''' \<or> s = ''-'' then (0, Some (Plain ''empty or missing value'')) else ParseFloat64 s)"

definition csvutil_ParseInt64 :: "string \<Rightarrow> goint \<times> err option" where
  "csvutil_ParseInt64 s = (if s = '''' \<or> s = ''-'' then (0, None) else ParseInt s)"

text \<open>A number that must be there.\<close>

definition need_float :: "string \<Rightarrow> f64 res" where
  "need_float s = (case csvutil_ParseFloat s of (x, None) \<Rightarrow> Inr x | (_, Some e) \<Rightarrow> Inl e)"

text \<open>The date of a row: what its column says, or the date the file was fetched for.\<close>

definition row_date :: "string \<Rightarrow> time \<Rightarrow> time" where
  "row_date ts fallbackDate =
     (if ts \<noteq> '''' then (case parseDate ts of Inr t \<Rightarrow> t | Inl _ \<Rightarrow> fallbackDate) else fallbackDate)"

text \<open>How \<^verbatim>\<open>%v\<close> prints a slice of strings.\<close>

definition print_strings :: "string list \<Rightarrow> string" where
  "print_strings ss = ''['' @ Join '' '' ss @ '']''"

section \<open>Futures and options\<close>

record bhavRow =
  brInstrumentType :: string
  brSymbol :: string
  brUnderlying :: string
  brExpiry :: time
  brStrike :: f64
  brOptionType :: string
  brOpen :: f64
  brHigh :: f64
  brLow :: f64
  brClose :: f64
  brVolume :: goint
  brLotSize :: goint
  brDate :: time

record colMap =
  cmInstrType :: int
  cmSymbol :: int
  cmUnderlying :: int
  cmExpiry :: int
  cmStrike :: int
  cmOptType :: int
  cmOpen :: int
  cmHigh :: int
  cmLow :: int
  cmClose :: int
  cmVol :: int
  cmTs :: int
  cmLotSize :: int

definition csvColInstrumentName :: string where [go_const]: "csvColInstrumentName = ''FinInstrmNm''"

definition fo_columns :: "(string \<rightharpoonup> int) \<Rightarrow> colMap" where
  "fo_columns idx =
     \<lparr>cmInstrType = col idx [''FinInstrmTp'', ''INSTRUMENT''],
      cmSymbol = col idx [csvColInstrumentName],
      cmUnderlying = col idx [''TckrSymb''],
      cmExpiry = col idx [''XpryDt'', ''EXPIRY_DT''],
      cmStrike = col idx [''StrkPric'', ''STRIKE_PR''],
      cmOptType = col idx [''OptnTp'', ''OPTION_TYP''],
      cmOpen = col idx [''OpnPric'', ''OPEN''],
      cmHigh = col idx [''HghPric'', ''HIGH''],
      cmLow = col idx [''LwPric'', ''LOW''],
      cmClose = col idx [''ClsPric'', ''CLOSE''],
      cmVol = col idx [''TtlTradgVol'', ''CONTRACTS''],
      cmTs = col idx [''TmStmp'', ''TIMESTAMP''],
      cmLotSize = col idx [''NewBrdLotQty'']\<rparr>"

definition parseRow :: "string list \<Rightarrow> colMap \<Rightarrow> time \<Rightarrow> bhavRow res" where
  "parseRow rec cols fallbackDate =
     (let get = get_field rec; symbol = get (cmSymbol cols)
      in if symbol = '''' then Inl (Plain ''empty symbol'')
         else case need_float (get (cmOpen cols)) of
                Inl e \<Rightarrow> Inl (Wrap ''open: '' e '''')
              | Inr open_ \<Rightarrow>
         (case need_float (get (cmHigh cols)) of
                Inl e \<Rightarrow> Inl (Wrap ''high: '' e '''')
              | Inr high \<Rightarrow>
         (case need_float (get (cmLow cols)) of
                Inl e \<Rightarrow> Inl (Wrap ''low: '' e '''')
              | Inr low \<Rightarrow>
         (case need_float (get (cmClose cols)) of
                Inl e \<Rightarrow> Inl (Wrap ''close: '' e '''')
              | Inr close \<Rightarrow>
                  Inr \<lparr>brInstrumentType = get (cmInstrType cols),
                       brSymbol = symbol,
                       brUnderlying = get (cmUnderlying cols),
                       brExpiry = parseExpiry (get (cmExpiry cols)),
                       brStrike = fst (csvutil_ParseFloat (get (cmStrike cols))),
                       brOptionType = get (cmOptType cols),
                       brOpen = open_, brHigh = high, brLow = low, brClose = close,
                       brVolume = fst (csvutil_ParseInt64 (get (cmVol cols))),
                       brLotSize = fst (csvutil_ParseInt64 (get (cmLotSize cols))),
                       brDate = row_date (get (cmTs cols)) fallbackDate\<rparr>))))"

definition succeeded :: "'a res \<Rightarrow> 'a option" where
  "succeeded r = (case r of Inr x \<Rightarrow> Some x | Inl _ \<Rightarrow> None)"

text \<open>The header, or why there is none.\<close>

definition read_header :: "byte_stream \<Rightarrow> (string list \<times> csv_reader) res" where
  "read_header b =
     (case Read (NewReader b) of
        ((_, Some e), _) \<Rightarrow> Inl (Wrap ''read header: '' e '''')
      | ((header, None), r) \<Rightarrow> Inr (header, r))"

definition parseBhavCSV :: "byte_stream \<Rightarrow> time \<Rightarrow> bhavRow list res option" where
  "parseBhavCSV b fetched =
     (case read_header b of
        Inl e \<Rightarrow> Some (Inl e)
      | Inr (header, r) \<Rightarrow>
          (let cols = fo_columns (header_index header)
           in if cmSymbol cols < 0
              then Some (Inl (Plain (''required column '' @ csvColInstrumentName @
                     '' not found in CSV header: '' @ print_strings header)))
              else map_option Inr (read_loop (\<lambda>rec. succeeded (parseRow rec cols fetched)) r [])))"

definition continuousFuturesType :: "string \<Rightarrow> string option" where
  "continuousFuturesType t =
     (if t = InstrumentTypeFuturesIndex then Some InstrumentTypeFuturesIndexCont
      else if t = InstrumentTypeFuturesStock then Some InstrumentTypeFuturesStockCont
      else None)"

definition foVendorToInstrumentType :: "string \<Rightarrow> string option" where
  "foVendorToInstrumentType code =
     (if code \<in> {''IDF'', ''FUTIDX''} then Some InstrumentTypeFuturesIndex
      else if code \<in> {''STF'', ''FUTSTK''} then Some InstrumentTypeFuturesStock
      else if code \<in> {''IDO'', ''OPTIDX''} then Some InstrumentTypeOptionsIndex
      else if code \<in> {''STO'', ''OPTSTK''} then Some InstrumentTypeOptionsStock
      else None)"

definition ExchangeNFO :: string where [go_const]: "ExchangeNFO = ''NFO''"
definition ExchangeNSE :: string where [go_const]: "ExchangeNSE = ''NSE''"
definition ContinuousFuturesSuffix :: string where
  [go_const]: "ContinuousFuturesSuffix = ''-FUTCONT''"

text \<open>A \<^verbatim>\<open>models.Instrument\<close> with the fields a provider leaves at their zero value.\<close>

definition new_instrument :: "string \<Rightarrow> string \<Rightarrow> string \<Rightarrow> goint \<Rightarrow> instrument" where
  "new_instrument symbol exchange itype lots =
     \<lparr>iID = uuid_nil, iSymbol = symbol, iName = symbol, iExchange = exchange,
      iInstrumentType = itype, iUnderlying = None, iExpiry = None, iStrike = None,
      iOptionType = None, iLotSize = lots, iCreatedAt = zero_time, iUpdatedAt = zero_time\<rparr>"

definition bhavRowToInstrument :: "bhavRow \<Rightarrow> instrument option" where
  "bhavRowToInstrument row =
     (case foVendorToInstrumentType (brInstrumentType row) of
        None \<Rightarrow> None
      | Some instrType \<Rightarrow>
          Some ((new_instrument (brSymbol row) ExchangeNFO instrType
                   (if brLotSize row \<le> 0 then 1 else brLotSize row))
            \<lparr>iUnderlying := if brUnderlying row \<noteq> '''' then Some (brUnderlying row) else None,
             iExpiry := if brExpiry row \<noteq> zero_time then Some (brExpiry row) else None,
             iStrike := if 0 < brStrike row then Some (brStrike row) else None,
             iOptionType := if brOptionType row \<noteq> '''' \<and> brOptionType row \<noteq> ''-''
                            then Some (brOptionType row) else None\<rparr>))"

section \<open>Equities and indices\<close>

record cmRow =
  crSymbol :: string
  crOpen :: f64
  crHigh :: f64
  crLow :: f64
  crClose :: f64
  crVolume :: goint
  crDate :: time

record indexRow =
  irSymbol :: string
  irOpen :: f64
  irHigh :: f64
  irLow :: f64
  irClose :: f64
  irVolume :: goint
  irDate :: time

text \<open>The four prices of a record, when all are there.\<close>

definition ohlc :: "string list \<Rightarrow> int \<Rightarrow> int \<Rightarrow> int \<Rightarrow> int \<Rightarrow> (f64 \<times> f64 \<times> f64 \<times> f64) option" where
  "ohlc rec o_i h_i l_i c_i =
     (case (need_float (get_field rec o_i), need_float (get_field rec h_i),
            need_float (get_field rec l_i), need_float (get_field rec c_i)) of
        (Inr a, Inr b, Inr c, Inr d) \<Rightarrow> Some (a, b, c, d) | _ \<Rightarrow> None)"

definition cmSeriesEQ :: string where [go_const]: "cmSeriesEQ = ''EQ''"

definition cm_record :: "(string \<rightharpoonup> int) \<Rightarrow> time \<Rightarrow> string list \<Rightarrow> cmRow option" where
  "cm_record idx fallbackDate rec =
     (let get = get_field rec; symbol = get (col idx [''SYMBOL''])
      in if get (col idx [''SERIES'']) \<noteq> cmSeriesEQ then None
         else if symbol = '''' then None
         else case ohlc rec (col idx [''OPEN_PRICE'']) (col idx [''HIGH_PRICE''])
                     (col idx [''LOW_PRICE'']) (col idx [''CLOSE_PRICE'']) of
                None \<Rightarrow> None
              | Some (open_, high, low, close) \<Rightarrow>
                  Some \<lparr>crSymbol = symbol, crOpen = open_, crHigh = high, crLow = low,
                        crClose = close,
                        crVolume = fst (csvutil_ParseInt64 (get (col idx [''TTL_TRD_QNTY'']))),
                        crDate = row_date (get (col idx [''DATE1''])) fallbackDate\<rparr>)"

definition parseCMCSV :: "byte_stream \<Rightarrow> time \<Rightarrow> cmRow list res option" where
  "parseCMCSV b fallbackDate =
     (case read_header b of
        Inl e \<Rightarrow> Some (Inl e)
      | Inr (header, r) \<Rightarrow>
          (let idx = header_index header
           in if col idx [''SYMBOL''] < 0
              then Some (Inl (Plain (''required column '' @ quoted ''SYMBOL'' @
                     '' not found in CM CSV header: '' @ print_strings header)))
              else map_option Inr (read_loop (cm_record idx fallbackDate) r [])))"

definition equityLotSize :: goint where [go_const]: "equityLotSize = 1"
definition indexLotSize :: goint where [go_const]: "indexLotSize = 1"

definition cmRowToInstrument :: "cmRow \<Rightarrow> instrument" where
  "cmRowToInstrument row =
     (new_instrument (crSymbol row) ExchangeNSE InstrumentTypeEquity equityLotSize)
       \<lparr>iUnderlying := Some (crSymbol row)\<rparr>"


definition nseIndexNameMap :: "string \<rightharpoonup> string" where
  "nseIndexNameMap =
     [''Nifty 50'' \<mapsto> UnderlyingNifty, ''Nifty Bank'' \<mapsto> UnderlyingBankNifty,
      ''Nifty Financial Services'' \<mapsto> UnderlyingFinNifty]"

definition index_record :: "(string \<rightharpoonup> int) \<Rightarrow> time \<Rightarrow> string list \<Rightarrow> indexRow option" where
  "index_record idx fallbackDate rec =
     (let get = get_field rec
      in case nseIndexNameMap (get (col idx [''Index Name''])) of
           None \<Rightarrow> None
         | Some symbol \<Rightarrow>
         (case ohlc rec (col idx [''Open Index Value'']) (col idx [''High Index Value''])
                (col idx [''Low Index Value'']) (col idx [''Closing Index Value'']) of
            None \<Rightarrow> None
          | Some (open_, high, low, close) \<Rightarrow>
              Some \<lparr>irSymbol = symbol, irOpen = open_, irHigh = high, irLow = low, irClose = close,
                    irVolume = fst (csvutil_ParseInt64 (get (col idx [''Volume'']))),
                    irDate = row_date (get (col idx [''Index Date''])) fallbackDate\<rparr>))"

definition parseIndicesCSV :: "byte_stream \<Rightarrow> time \<Rightarrow> indexRow list res option" where
  "parseIndicesCSV b fallbackDate =
     (case read_header b of
        Inl e \<Rightarrow> Some (Inl e)
      | Inr (header, r) \<Rightarrow>
          (let idx = header_index header
           in if col idx [''Index Name''] < 0
              then Some (Inl (Plain (''required column '' @ quoted ''Index Name'' @
                     '' not found in indices CSV header: '' @ print_strings header)))
              else map_option Inr (read_loop (index_record idx fallbackDate) r [])))"

definition indexRowToInstrument :: "indexRow \<Rightarrow> instrument" where
  "indexRowToInstrument row =
     (new_instrument (irSymbol row) ExchangeNSE InstrumentTypeIndex indexLotSize)
       \<lparr>iUnderlying := Some (irSymbol row)\<rparr>"

section \<open>Headers and columns\<close>

lemma header_index_snoc:
  "header_index (hs @ [h]) = (header_index hs)(TrimSpace h \<mapsto> int (length hs))"
  by (simp add: header_index_def enumerate_append_eq)

lemma header_index_None: "header_index header name = None \<longleftrightarrow> name \<notin> TrimSpace ` set header"
proof (induction header rule: rev_induct)
  case Nil
  show ?case by (simp add: header_index_def)
next
  case (snoc h hs)
  then show ?case by (auto simp: header_index_snoc)
qed

lemma header_index_Some:
  assumes "header_index header name = Some i"
  shows "0 \<le> i \<and> i < int (length header) \<and> TrimSpace (header ! nat i) = name"
  using assms
proof (induction header rule: rev_induct)
  case Nil
  then show ?case by (simp add: header_index_def)
next
  case (snoc h hs)
  show ?case
  proof (cases "TrimSpace h = name")
    case True
    with snoc show ?thesis by (auto simp: header_index_snoc)
  next
    case False
    with snoc show ?thesis by (auto simp: header_index_snoc nth_append)
  qed
qed

lemma col_cases:
  obtains "col (header_index header) names = - 1"
      "\<And>n. n \<in> set names \<Longrightarrow> n \<notin> TrimSpace ` set header"
  | n where "n \<in> set names" "header_index header n = Some (col (header_index header) names)"
proof (induction names arbitrary: thesis)
  case (Cons name names)
  show ?case
  proof (cases "header_index header name")
    case None
    with Cons header_index_None [of header name] show ?thesis by (metis col.simps(2) list.set_intros(2) option.simps(4) set_ConsD)
  next
    case (Some i)
    with Cons(3) [of name] show ?thesis by simp
  qed
qed simp

lemma col_negative:
  "col (header_index header) names < 0 \<longleftrightarrow> set names \<inter> TrimSpace ` set header = {}"
proof (cases rule: col_cases [of header names])
  case 1
  then show ?thesis by auto
next
  case (2 n)
  have "n \<in> TrimSpace ` set header" using 2(2) header_index_None [of header n] by fastforce
  with 2(1) header_index_Some [OF 2(2)] show ?thesis by auto
qed

section \<open>When the parsers return\<close>

lemma read_header_end:
  assumes "read_header b = Inr (header, r)"
  shows "bsEnd (crStream r) = bsEnd b"
proof -
  obtain e where "Read (NewReader b) = ((header, e), r)"
    using assms by (auto simp: read_header_def split: prod.splits option.splits)
  from Read_progress(1) [OF this] show ?thesis by (simp add: NewReader_def)
qed

lemma parse_loop_returns:
  assumes "read_header b = Inr (header, r)"
  shows "read_loop f r [] = None \<longleftrightarrow> bsEnd b \<noteq> io_EOF"
  using read_loop_returns [of f r "[]"] read_header_end [OF assms] by metis

lemma parseCMCSV_returns: "parseCMCSV (bytes_reader s) d \<noteq> None"
proof (cases "read_header (bytes_reader s)")
  case (Inr p)
  obtain header r where p: "p = (header, r)" by (metis prod.collapse)
  with Inr show ?thesis
    by (simp add: parseCMCSV_def Let_def parse_loop_returns [of "bytes_reader s" header r]
        bytes_reader_def del: not_None_eq)
qed (simp add: parseCMCSV_def)

lemma parseIndicesCSV_returns: "parseIndicesCSV (bytes_reader s) d \<noteq> None"
proof (cases "read_header (bytes_reader s)")
  case (Inr p)
  obtain header r where p: "p = (header, r)" by (metis prod.collapse)
  with Inr show ?thesis
    by (simp add: parseIndicesCSV_def Let_def parse_loop_returns [of "bytes_reader s" header r]
        bytes_reader_def del: not_None_eq)
qed (simp add: parseIndicesCSV_def)

text \<open>C22. When a parser returns. Files that are in memory as a whole (equities, indices) are always
  parsed to an end. The futures and options file is parsed from the decompressing reader, and
  on it the parser returns unless the header was read, has the contract column, and the reader
  then breaks with an error of its own (a checksum that does not match, a truncated archive):
  then it never does.\<close>

theorem parsers_return:
  "parseCMCSV (bytes_reader s) d \<noteq> None \<and> parseIndicesCSV (bytes_reader s) d \<noteq> None \<and>
   (parseBhavCSV b d = None \<longleftrightarrow> bsEnd b \<noteq> io_EOF \<and>
     (\<exists>header r. read_header b = Inr (header, r) \<and>
        csvColInstrumentName \<in> TrimSpace ` set header))"
proof -
  have "parseBhavCSV b d = None \<longleftrightarrow> bsEnd b \<noteq> io_EOF \<and>
     (\<exists>header r. read_header b = Inr (header, r) \<and> csvColInstrumentName \<in> TrimSpace ` set header)"
  proof (cases "read_header b")
    case (Inr p)
    obtain header r where p: "p = (header, r)" by (metis prod.collapse)
    with Inr show ?thesis
      using col_negative [of header "[csvColInstrumentName]"]
      by (auto simp: parseBhavCSV_def Let_def fo_columns_def parse_loop_returns [of b header r]
          simp del: not_None_eq)
  qed (simp add: parseBhavCSV_def)
  then show ?thesis using parseCMCSV_returns parseIndicesCSV_returns by blast
qed

section \<open>Files of plain fields\<close>

definition file_of :: "string list \<Rightarrow> string list list \<Rightarrow> byte_stream" where
  "file_of header recs = bytes_reader (csv_text (header # recs))"

lemma read_header_plain:
  assumes "plain_record header"
  shows "read_header (file_of header recs) = Inr (header, reader_at (length header) (csv_text recs))"
  using Read_plain [OF assms, of 0 recs]
  by (simp add: read_header_def file_of_def NewReader_def reader_at_def)

lemma read_loop_plain:
  assumes "plain_record header" "list_all plain_record recs"
  shows "read_loop f (reader_at (length header) (csv_text recs)) [] =
    Some (List.map_filter f (filter (\<lambda>r. length r = length header) recs))"
proof -
  have "0 < length header" using assms(1) by (simp add: plain_record_def)
  then show ?thesis
    using records_plain [OF assms(2), of "length header"] by (simp add: read_loop_records)
qed

text \<open>The same columns in another order.\<close>

definition permute :: "nat list \<Rightarrow> 'a list \<Rightarrow> 'a list" where
  "permute p xs = map (\<lambda>i. xs ! i) p"

definition permutes_to :: "nat list \<Rightarrow> nat \<Rightarrow> bool" where
  "permutes_to p n \<longleftrightarrow> length p = n \<and> set p = {0..<n}"

lemma set_permute: "permutes_to p (length xs) \<Longrightarrow> set (permute p xs) = set xs"
  using nth_image [of "length xs" xs] by (simp add: permutes_to_def permute_def)

lemma length_permute: "permutes_to p n \<Longrightarrow> length (permute p xs) = n"
  by (simp add: permutes_to_def permute_def)

lemma plain_permute:
  assumes "permutes_to p (length xs)" "plain_record xs"
  shows "plain_record (permute p xs)"
proof -
  have l: "length (permute p xs) = length xs" using length_permute [OF assms(1)] .
  have "permute p xs \<noteq> [[]]"
  proof
    assume e: "permute p xs = [[]]"
    with l obtain x where "xs = [x]" by (cases xs) auto
    with set_permute [OF assms(1)] e assms(2) show False by (simp add: plain_record_def)
  qed
  with l assms set_permute [OF assms(1)] show ?thesis
    by (auto simp: plain_record_def list_all_iff)
qed

text \<open>What a parser reads of a record: the first of some columns the header has.\<close>

lemma get_field_permute:
  assumes p: "permutes_to p (length header)" and d: "distinct (map TrimSpace header)"
    and l: "length rec = length header"
  shows "get_field (permute p rec) (col (header_index (permute p header)) names) =
    get_field rec (col (header_index header) names)"
proof (induction names)
  case Nil
  show ?case by (simp add: get_field_def)
next
  case (Cons name names)
  let ?i = "header_index header name" and ?j = "header_index (permute p header) name"
  have n: "?j = None \<longleftrightarrow> ?i = None" by (simp add: header_index_None set_permute [OF p])
  show ?case
  proof (cases "?i")
    case None
    with n Cons show ?thesis by simp
  next
    case (Some i)
    with n obtain j where j: "?j = Some j" by (cases "?j") auto
    have lp: "length p = length header" using p by (simp add: permutes_to_def)
    have jj: "0 \<le> j" "nat j < length header" "TrimSpace (header ! (p ! nat j)) = name"
      using header_index_Some [OF j] length_permute [OF p, of header] lp
      by (auto simp: permute_def)
    have ii: "0 \<le> i" "nat i < length header" "TrimSpace (header ! nat i) = name"
      using header_index_Some [OF Some] by auto
    have "p ! nat j < length header"
      using p jj(2) lp nth_mem [of "nat j" p] by (auto simp: permutes_to_def)
    then have "p ! nat j = nat i"
      using d jj ii by (metis length_map nth_eq_iff_index_eq nth_map)
    moreover have "\<not> int (length header) \<le> i" "\<not> int (length header) \<le> j" using ii jj by linarith+
    ultimately show ?thesis
      using Some j ii jj l lp by (simp add: get_field_def permute_def)
  qed
qed

lemma parse_permute:
  assumes "permutes_to p (length header)" "distinct (map TrimSpace header)"
    "length rec = length header"
  shows "parseRow (permute p rec) (fo_columns (header_index (permute p header))) d =
      parseRow rec (fo_columns (header_index header)) d"
    and "cm_record (header_index (permute p header)) d (permute p rec) =
      cm_record (header_index header) d rec"
    and "index_record (header_index (permute p header)) d (permute p rec) =
      index_record (header_index header) d rec"
  by (simp_all only: parseRow_def fo_columns_def colMap.simps cm_record_def index_record_def ohlc_def
      Let_def get_field_permute [OF assms])

definition plain_file :: "string list \<Rightarrow> string list list \<Rightarrow> bool" where
  "plain_file header recs \<longleftrightarrow>
     plain_record header \<and> distinct (map TrimSpace header) \<and>
     list_all (\<lambda>r. plain_record r \<and> length r = length header) recs"

lemma map_filter_map: "List.map_filter f (map g xs) = List.map_filter (f \<circ> g) xs"
  by (induction xs) (simp_all add: List.map_filter_simps split: option.split)

lemma map_filter_cong2: "(\<And>x. x \<in> set xs \<Longrightarrow> f x = g x) \<Longrightarrow> List.map_filter f xs = List.map_filter g xs"
  by (induction xs) (auto simp: List.map_filter_simps split: option.splits)

text \<open>The three parsers at once: a parser is given by its required column, its error and what it
  makes of a record.\<close>

definition parse_file ::
  "string \<Rightarrow> (string list \<Rightarrow> err) \<Rightarrow> ((string \<rightharpoonup> int) \<Rightarrow> string list \<Rightarrow> 'r option) \<Rightarrow>
    byte_stream \<Rightarrow> 'r list res option" where
  "parse_file required missing row b =
     (case read_header b of
        Inl e \<Rightarrow> Some (Inl e)
      | Inr (header, r) \<Rightarrow>
          (if col (header_index header) [required] < 0 then Some (Inl (missing header))
           else map_option Inr (read_loop (row (header_index header)) r [])))"

lemma parse_file_plain:
  assumes "plain_record header" "list_all plain_record recs"
  shows "parse_file required missing row (file_of header recs) =
    Some (if required \<in> TrimSpace ` set header
          then Inr (List.map_filter (row (header_index header))
                      (filter (\<lambda>r. length r = length header) recs))
          else Inl (missing header))"
  using col_negative [of header "[required]"]
  by (simp add: parse_file_def read_header_plain [OF assms(1)] read_loop_plain [OF assms]
      del: col.simps)

lemma parse_file_permute:
  assumes f: "plain_file header recs" and p: "permutes_to p (length header)"
    and row: "\<And>rec. length rec = length header \<Longrightarrow>
      row (header_index (permute p header)) (permute p rec) = row (header_index header) rec"
  shows "map_option succeeded (parse_file required missing row
      (file_of (permute p header) (map (permute p) recs))) =
    map_option succeeded (parse_file required missing row (file_of header recs))"
proof -
  have h: "plain_record header" "plain_record (permute p header)"
    "length (permute p header) = length header" "set (permute p header) = set header"
    using f p plain_permute [OF p] length_permute [OF p, of header] set_permute [OF p]
    by (auto simp: plain_file_def)
  have r: "\<And>rec. rec \<in> set recs \<Longrightarrow> length rec = length header \<and> plain_record rec \<and>
      plain_record (permute p rec) \<and> length (permute p rec) = length header"
    using f p plain_permute length_permute [OF p] by (fastforce simp: plain_file_def list_all_iff)
  have "List.map_filter (row (header_index (permute p header))) (map (permute p) recs) =
      List.map_filter (row (header_index header)) recs"
    using row r by (auto simp: map_filter_map intro!: map_filter_cong2)
  moreover have "filter (\<lambda>r. length r = length header) recs = recs"
    "filter (\<lambda>r. length r = length header) (map (permute p) recs) = map (permute p) recs"
    using r by (auto simp: filter_id_conv)
  moreover have "list_all plain_record recs" "list_all plain_record (map (permute p) recs)"
    using r by (auto simp: list_all_iff)
  ultimately show ?thesis
    using h by (simp add: parse_file_plain succeeded_def)
qed

lemma parsers_are_parse_file:
  "parseBhavCSV b d = parse_file csvColInstrumentName
     (\<lambda>header. Plain (''required column '' @ csvColInstrumentName @
        '' not found in CSV header: '' @ print_strings header))
     (\<lambda>idx rec. succeeded (parseRow rec (fo_columns idx) d)) b"
  "parseCMCSV b d = parse_file ''SYMBOL''
     (\<lambda>header. Plain (''required column '' @ quoted ''SYMBOL'' @
        '' not found in CM CSV header: '' @ print_strings header)) (\<lambda>idx. cm_record idx d) b"
  "parseIndicesCSV b d = parse_file ''Index Name''
     (\<lambda>header. Plain (''required column '' @ quoted ''Index Name'' @
        '' not found in indices CSV header: '' @ print_strings header)) (\<lambda>idx. index_record idx d) b"
  by (simp_all only: parse_file_def parseBhavCSV_def parseCMCSV_def parseIndicesCSV_def Let_def
      fo_columns_def colMap.simps)

text \<open>C24. The order of the columns does not matter: a file whose columns are rearranged, header
  and records alike, gives the same rows, in all three parsers.\<close>

theorem column_order:
  assumes "plain_file header recs" "permutes_to p (length header)"
  defines "f \<equiv> file_of header recs" and "g \<equiv> file_of (permute p header) (map (permute p) recs)"
  shows "map_option succeeded (parseBhavCSV g d) = map_option succeeded (parseBhavCSV f d) \<and>
    map_option succeeded (parseCMCSV g d) = map_option succeeded (parseCMCSV f d) \<and>
    map_option succeeded (parseIndicesCSV g d) = map_option succeeded (parseIndicesCSV f d)"
proof -
  have d: "distinct (map TrimSpace header)" using assms(1) by (simp add: plain_file_def)
  show ?thesis unfolding f_def g_def parsers_are_parse_file
    by (intro conjI parse_file_permute [OF assms(1,2)])
      (simp_all add: parse_permute [OF assms(2) d])
qed

end
