(* ===== verification/Nse_Dates.thy ===== *)
theory Nse_Dates
  imports Nse_Files
begin

text \<open>
  What the date handling of the NSE files guarantees: a date is read back from every format the
  exchange has used, and the trading calendar never names a weekend.
\<close>

section \<open>Formats\<close>

lemma nse_layouts:
  "layout_items nseDateFmtDMY = [Day2, Literal CHR ''-'', MonthName, Literal CHR ''-'', Year4]"
  "layout_items nseDateFmtISO = [Year4, Literal CHR ''-'', Month2, Literal CHR ''-'', Day2]"
  "layout_items nseDateFmtDMYUpper = [Day2, Literal CHR ''-'', Literal CHR ''J'', Literal CHR ''A'',
     Literal CHR ''N'', Literal CHR ''-'', Year4]"
  "layout_items nseDateFmtSlashMDY = [Month2, Literal CHR ''/'', Day2, Literal CHR ''/'', Year4]"
  "layout_items nseDateFmtCompact = [Year4, Month2, Day2]"
  "layout_items nseDateFmtDDMMYYYY = [Day2, Literal CHR ''-'', Month2, Literal CHR ''-'', Year4]"
  by code_simp+

lemma not_digits: "digit CHR ''-'' = None" "digit CHR ''/'' = None"
  by code_simp+

lemma digit_char_cases: "digit c \<noteq> None \<Longrightarrow> c \<noteq> CHR ''-'' \<and> c \<noteq> CHR ''/''"
  using not_digits by auto

lemma month_initials: "list_all (\<lambda>j. digit (hd (lower_month j)) = None \<and> lower_month j \<noteq> []) [1..12]"
  by code_simp

lemma lower_digit: "digit c \<noteq> None \<Longrightarrow> lower_char c = c"
  by (auto simp: digit_def lower_char_def char_between_def split: if_splits)

lemma lookup_month_digit:
  assumes "digit c \<noteq> None"
  shows "lookup_month (c # r) = None"
proof -
  have "\<not> prefix (ToLower (shortMonthNames ! nat (j - 1))) (ToLower (c # r))" if j: "j \<in> set [1..12]" for j
  proof -
    have "ToLower (shortMonthNames ! nat (j - 1)) = lower_month j"
      using lower_months j unfolding list_all_iff by blast
    moreover have "digit (hd (lower_month j)) = None" "lower_month j \<noteq> []"
      using month_initials j unfolding list_all_iff by blast+
    ultimately show ?thesis using assms
      by (cases "lower_month j") (auto simp: ToLower_def lower_digit)
  qed
  then have "filter (\<lambda>j. prefix (ToLower (shortMonthNames ! nat (j - 1))) (ToLower (c # r))) [1..12] = []"
    unfolding filter_empty_conv by blast
  then show ?thesis by (simp add: lookup_month_def)
qed

text \<open>The texts of a date.\<close>

definition dmy_text :: "int \<Rightarrow> string \<Rightarrow> int \<Rightarrow> string" where
  "dmy_text d name y = append_int d 2 @ ''-'' @ name @ ''-'' @ append_int y 4"

lemma civil_time_Date:
  assumes "valid_date y m d"
  shows "civil (local_day (utc (time_Date y m d))) = (y, m, d)"
proof -
  have "local_day (utc (time_Date y m d)) = day_number y m d"
    by (simp add: local_day_def utc_def time_Date_def day_length_def hour_def minute_def second_def)
  with civil_day_number [OF assms] show ?thesis by simp
qed

lemma valid_date_range:
  assumes "valid_date y m d"
  shows "0 \<le> m" "m < 100" "0 \<le> d" "d < 100" "\<not> m \<le> 0" "\<not> 12 < m" "\<not> d < 1" "\<not> days_in m y < d"
proof -
  have m: "1 \<le> m" "m \<le> 12" using assms by (simp_all add: valid_date_def)
  then have "days_in m y \<le> 31"
    by (cases rule: month_cases) (simp_all add: days_in_def days_before_month_def)
  with assms show "0 \<le> m" "m < 100" "0 \<le> d" "d < 100" "\<not> m \<le> 0" "\<not> 12 < m" "\<not> d < 1" "\<not> days_in m y < d"
    by (simp_all add: valid_date_def)
qed

lemma format_texts:
  assumes "valid_date y m d"
  shows "time_Format nseDateFmtDMY (utc (time_Date y m d)) = dmy_text d (shortMonthNames ! nat (m - 1)) y"
    and "time_Format nseDateFmtISO (utc (time_Date y m d)) =
      append_int y 4 @ CHR ''-'' # append_int m 2 @ CHR ''-'' # append_int d 2"
    and "time_Format nseDateFmtSlashMDY (utc (time_Date y m d)) =
      append_int m 2 @ CHR ''/'' # append_int d 2 @ CHR ''/'' # append_int y 4"
    and "time_Format nseDateFmtCompact (utc (time_Date y m d)) =
      append_int y 4 @ append_int m 2 @ append_int d 2"
    and "time_Format nseDateFmtDDMMYYYY (utc (time_Date y m d)) =
      append_int d 2 @ CHR ''-'' # append_int m 2 @ CHR ''-'' # append_int y 4"
  by (simp_all add: time_Format_def civil_time_Date [OF assms] nse_layouts dmy_text_def)

text \<open>Each layout reads its own text.\<close>

lemma parse_own:
  assumes v: "valid_date y m d" and y: "0 \<le> y" "y < 10000"
  shows "same_letters name (shortMonthNames ! nat (m - 1)) \<Longrightarrow>
      time_Parse nseDateFmtDMY (dmy_text d name y) = Some (time_Date y m d)"
    and "time_Parse nseDateFmtISO (append_int y 4 @ CHR ''-'' # append_int m 2 @ CHR ''-'' # append_int d 2) =
      Some (time_Date y m d)"
    and "time_Parse nseDateFmtSlashMDY (append_int m 2 @ CHR ''/'' # append_int d 2 @ CHR ''/'' # append_int y 4) =
      Some (time_Date y m d)"
    and "time_Parse nseDateFmtCompact (append_int y 4 @ append_int m 2 @ append_int d 2) =
      Some (time_Date y m d)"
    and "time_Parse nseDateFmtDDMMYYYY (append_int d 2 @ CHR ''-'' # append_int m 2 @ CHR ''-'' # append_int y 4) =
      Some (time_Date y m d)"
proof -
  note r = valid_date_range [OF v]
  note n = getnum2_append_int [OF r(1,2)] getnum2_append_int [OF r(3,4)] getyear_append_int [OF y]
    getnum2_append_int [OF r(3,4), of "[]"] getyear_append_int [OF y, of "[]"]
  have m: "1 \<le> m" "m \<le> 12" using v by (simp_all add: valid_date_def)
  show "same_letters name (shortMonthNames ! nat (m - 1)) \<Longrightarrow>
      time_Parse nseDateFmtDMY (dmy_text d name y) = Some (time_Date y m d)"
    using n r by (simp add: time_Parse_def nse_layouts dmy_text_def lookup_month_name [OF m])
  show "time_Parse nseDateFmtISO (append_int y 4 @ CHR ''-'' # append_int m 2 @ CHR ''-'' # append_int d 2) =
      Some (time_Date y m d)"
    "time_Parse nseDateFmtSlashMDY (append_int m 2 @ CHR ''/'' # append_int d 2 @ CHR ''/'' # append_int y 4) =
      Some (time_Date y m d)"
    "time_Parse nseDateFmtCompact (append_int y 4 @ append_int m 2 @ append_int d 2) =
      Some (time_Date y m d)"
    "time_Parse nseDateFmtDDMMYYYY (append_int d 2 @ CHR ''-'' # append_int m 2 @ CHR ''-'' # append_int y 4) =
      Some (time_Date y m d)"
    using n r by (simp_all add: time_Parse_def nse_layouts)
qed

lemma time_Parse_None:
  "parse_items (layout_items f) s \<lparr>dpYear = 0, dpMonth = None, dpDay = None\<rparr> = None \<Longrightarrow>
    time_Parse f s = None"
  by (simp add: time_Parse_def)

text \<open>No earlier layout of the lists takes the text of a later one.\<close>

lemma parse_other:
  assumes v: "valid_date y m d" and y: "0 \<le> y" "y < 10000"
  shows "time_Parse nseDateFmtDMY (append_int y 4 @ CHR ''-'' # append_int m 2 @ CHR ''-'' # append_int d 2) = None"
    and "time_Parse nseDateFmtDMY (append_int y 4 @ append_int m 2 @ append_int d 2) = None"
    and "time_Parse nseDateFmtISO (append_int y 4 @ append_int m 2 @ append_int d 2) = None"
    and "f \<in> {nseDateFmtDMY, nseDateFmtISO, nseDateFmtDMYUpper, nseDateFmtCompact} \<Longrightarrow>
      time_Parse f (append_int m 2 @ CHR ''/'' # append_int d 2 @ CHR ''/'' # append_int y 4) = None"
    and "f \<in> {nseDateFmtDMY, nseDateFmtISO, nseDateFmtCompact, nseDateFmtSlashMDY} \<Longrightarrow>
      time_Parse f (append_int d 2 @ CHR ''-'' # append_int m 2 @ CHR ''-'' # append_int y 4) = None"
proof -
  note r = valid_date_range [OF v]
  obtain d1 d2 where d: "append_int d 2 = [d1, d2]" "digit d1 \<noteq> None" "digit d2 \<noteq> None"
    by (rule append_int_two_digits [OF r(3,4)])
  obtain m1 m2 where m: "append_int m 2 = [m1, m2]" "digit m1 \<noteq> None" "digit m2 \<noteq> None"
    by (rule append_int_two_digits [OF r(1,2)])
  obtain y1 y2 y3 y4 where yy: "append_int y 4 = [y1, y2, y3, y4]" "digit y1 \<noteq> None"
    "digit y2 \<noteq> None" "digit y3 \<noteq> None" "digit y4 \<noteq> None"
    by (rule append_int_four_digits [OF y])
  note ds = d m yy
  note c = d(2,3)[THEN digit_char_cases] m(2,3)[THEN digit_char_cases] yy(2-)[THEN digit_char_cases]
  show "time_Parse nseDateFmtDMY (append_int y 4 @ CHR ''-'' # append_int m 2 @ CHR ''-'' # append_int d 2) = None"
    "time_Parse nseDateFmtDMY (append_int y 4 @ append_int m 2 @ append_int d 2) = None"
    "time_Parse nseDateFmtISO (append_int y 4 @ append_int m 2 @ append_int d 2) = None"
    using ds c by (auto intro!: time_Parse_None simp: nse_layouts getnum2_def getyear_def)
  show "time_Parse f (append_int m 2 @ CHR ''/'' # append_int d 2 @ CHR ''/'' # append_int y 4) = None"
    if "f \<in> {nseDateFmtDMY, nseDateFmtISO, nseDateFmtDMYUpper, nseDateFmtCompact}"
    using that ds c by (auto intro!: time_Parse_None simp: nse_layouts getnum2_def getyear_def not_digits)
  show "time_Parse f (append_int d 2 @ CHR ''-'' # append_int m 2 @ CHR ''-'' # append_int y 4) = None"
    if "f \<in> {nseDateFmtDMY, nseDateFmtISO, nseDateFmtCompact, nseDateFmtSlashMDY}"
    using that ds c
    by (auto intro!: time_Parse_None
        simp: nse_layouts getnum2_def getyear_def not_digits lookup_month_digit)
qed

text \<open>C23. A date is read back from every format the files use, whatever other formats are tried
  before: the five of a file's date column, and the three of an expiry. The month's name may
  be in any case of letters.\<close>

theorem dates_read_back:
  assumes "valid_date y m d" "0 \<le> y" "y < 10000"
  shows "(\<forall>f \<in> {nseDateFmtDMY, nseDateFmtISO, nseDateFmtCompact, nseDateFmtSlashMDY, nseDateFmtDDMMYYYY}.
      parseDate (time_Format f (utc (time_Date y m d))) = Inr (time_Date y m d)) \<and>
    (\<forall>f \<in> {nseDateFmtDMY, nseDateFmtISO, nseDateFmtSlashMDY}.
      parseExpiry (time_Format f (utc (time_Date y m d))) = time_Date y m d) \<and>
    (\<forall>name. same_letters name (shortMonthNames ! nat (m - 1)) \<longrightarrow>
      parseDate (dmy_text d name y) = Inr (time_Date y m d) \<and>
      parseExpiry (dmy_text d name y) = time_Date y m d)"
proof -
  note own = parse_own [OF assms] and other = parse_other [OF assms]
  note f = format_texts [OF assms(1)]
  note r = valid_date_range [OF assms(1)]
  obtain a b where "append_int d 2 = [a, b]" by (rule append_int_two_digits [OF r(3,4)])
  then have "dmy_text d name y \<noteq> [] \<and> dmy_text d name y \<noteq> ''-''" for name
    by (simp add: dmy_text_def)
  then show ?thesis
    by (simp add: parseDate_def parseExpiry_def f own other same_letters_def)
qed

lemma dates_read_back_witness:
  "parseDate (time_Format nseDateFmtDDMMYYYY (utc (time_Date 2026 4 28))) = Inr (time_Date 2026 4 28) \<and>
   parseExpiry (dmy_text 28 ''APR'' 2026) = time_Date 2026 4 28"
proof -
  have v: "valid_date 2026 4 28" by code_simp
  have l: "same_letters ''APR'' (shortMonthNames ! nat (4 - 1))" by code_simp
  show ?thesis using dates_read_back [OF v] l by simp
qed

text \<open>The layout \<^verbatim>\<open>02-JAN-2006\<close> is no upper-case variant: its month is literal text. What it takes,
  the first layout of the list takes as well, with the same result.\<close>

lemma upper_layout_redundant:
  assumes "time_Parse nseDateFmtDMYUpper s = Some t"
  shows "time_Parse nseDateFmtDMY s = Some t"
proof -
  have "same_letters ''JAN'' (shortMonthNames ! nat (1 - 1))" by code_simp
  then have l: "lookup_month (CHR ''J'' # CHR ''A'' # CHR ''N'' # r) = Some (1, r)" for r
    using lookup_month_name [of 1 "''JAN''" r] by simp
  show ?thesis using assms
    by (auto simp: time_Parse_def nse_layouts Let_def l split: option.splits list.splits if_splits)
qed

section \<open>The trading calendar\<close>

definition is_weekday :: "int \<Rightarrow> bool" where
  "is_weekday n \<longleftrightarrow> (n + 1) mod 7 \<notin> {0, 6}"

lemma rolls_back:
  "local_day (prevTradingDayOrToday t) =
     (if (local_day t + 1) mod 7 = 0 then local_day t - 2
      else if (local_day t + 1) mod 7 = 6 then local_day t - 1 else local_day t)"
  by (simp add: prevTradingDayOrToday_def Weekday_def AddDays_day)

lemma rolls_back_weekday:
  "is_weekday (local_day (prevTradingDayOrToday t))"
  "local_day (prevTradingDayOrToday t) \<le> local_day t"
  "n \<le> local_day t \<Longrightarrow> is_weekday n \<Longrightarrow> n \<le> local_day (prevTradingDayOrToday t)"
  "local_day t - 2 \<le> local_day (prevTradingDayOrToday t)"
  unfolding rolls_back is_weekday_def by (auto; presburger)+

lemma prevTradingDay_day:
  "is_weekday (local_day (prevTradingDay t))"
  "local_day (prevTradingDay t) < local_day t"
  "n < local_day t \<Longrightarrow> is_weekday n \<Longrightarrow> n \<le> local_day (prevTradingDay t)"
  "local_day t - 3 \<le> local_day (prevTradingDay t)"
  using rolls_back_weekday [where t = "AddDays t (- 1)"]
  by (auto simp: prevTradingDay_def AddDays_day)

text \<open>The dates a fetch tries, the latest first.\<close>

primrec tried_dates :: "nat \<Rightarrow> ztime \<Rightarrow> ztime list" where
  "tried_dates 0 t = []"
| "tried_dates (Suc k) t = t # tried_dates k (prevTradingDay t)"

lemma tried_dates_days:
  assumes "is_weekday (local_day t)" "0 < k"
  shows "local_day ` set (tried_dates k t) =
      {n. is_weekday n \<and> local_day (last (tried_dates k t)) \<le> n \<and> n \<le> local_day t} \<and>
    sorted_wrt (>) (map local_day (tried_dates k t)) \<and>
    local_day t - 3 * int (k - 1) \<le> local_day (last (tried_dates k t)) \<and>
    local_day (last (tried_dates k t)) \<le> local_day t"
  using assms
proof (induction k arbitrary: t)
  case (Suc k)
  show ?case
  proof (cases "k = 0")
    case True
    with Suc.prems show ?thesis by auto
  next
    case False
    let ?p = "prevTradingDay t" and ?ts = "tried_dates k (prevTradingDay t)"
    note p = prevTradingDay_day [where t = t]
    have IH: "local_day ` set ?ts = {n. is_weekday n \<and> local_day (last ?ts) \<le> n \<and> n \<le> local_day ?p}"
      "sorted_wrt (>) (map local_day ?ts)" "local_day ?p - 3 * int (k - 1) \<le> local_day (last ?ts)"
      "local_day (last ?ts) \<le> local_day ?p"
      using Suc.IH [of ?p] p(1) False by blast+
    have l: "last (tried_dates (Suc k) t) = last ?ts" using False by (cases k) simp_all
    have "local_day ` set (tried_dates (Suc k) t) =
        {n. is_weekday n \<and> local_day (last ?ts) \<le> n \<and> n \<le> local_day t}"
    proof -
      have "n \<in> insert (local_day t) {n. is_weekday n \<and> local_day (last ?ts) \<le> n \<and> n \<le> local_day ?p} \<longleftrightarrow>
          is_weekday n \<and> local_day (last ?ts) \<le> n \<and> n \<le> local_day t" for n
      proof (cases "n = local_day t")
        case False
        then have "n \<le> local_day t \<and> is_weekday n \<longrightarrow> n \<le> local_day ?p" using p(3) [of n] by linarith
        with False p(2) show ?thesis by auto
      qed (use Suc.prems(1) IH(4) p(2) in auto)
      then show ?thesis by (simp add: IH(1)) blast
    qed
    moreover have "sorted_wrt (>) (map local_day (tried_dates (Suc k) t))"
      using IH(1,2) p(2) by auto
    moreover have "local_day t - 3 * int k \<le> local_day (last ?ts)"
      using IH(3) p(4) False by (simp add: of_nat_diff)
    moreover have "local_day (last ?ts) \<le> local_day t" using IH(4) p(2) by simp
    ultimately show ?thesis unfolding l by simp
  qed
qed simp

lemma day_length_pos: "0 < day_length"
  by (simp add: day_length_def hour_def minute_def second_def)

lemma TruncateDay_local:
  "local_day (TruncateDay (ist now)) =
     local_day (ist now) - (if local_clock (ist now) < istOffsetSeconds * second then 1 else 0)"
proof -
  define a where "a = now - zero_time"
  define o' where "o' = istOffsetSeconds * second"
  have o: "0 < o'" "o' < day_length"
    by (simp_all add: o'_def istOffsetSeconds_def second_def day_length_def hour_def minute_def)
  have t: "local_day (TruncateDay (ist now)) = (a - a mod day_length + o') div day_length"
    "local_day (ist now) = (a + o') div day_length" "local_clock (ist now) = (a + o') mod day_length"
    by (simp_all add: local_day_def TruncateDay_def ist_def a_def o'_def local_clock_def algebra_simps)
  define q r where "q = a div day_length" and "r = a mod day_length"
  have a: "a = day_length * q + r" "0 \<le> r" "r < day_length"
    using day_length_pos by (simp_all add: q_def r_def)
  have "(a - r + o') div day_length = q"
    by (rule int_div_pos_eq [where r = o']) (use o a in simp_all)
  moreover have "if (a + o') mod day_length < o' then (a + o') div day_length = q + 1
      else (a + o') div day_length = q"
  proof (cases "r + o' < day_length")
    case True
    have "(a + o') div day_length = q" "(a + o') mod day_length = r + o'"
      by (rule int_div_pos_eq, use a o True in simp_all)
        (rule int_mod_pos_eq [where q = q], use a o True in simp_all)
    with a show ?thesis by simp
  next
    case False
    have e: "a + o' = day_length * (q + 1) + (r + o' - day_length)" using a by (simp add: algebra_simps)
    have b: "0 \<le> r + o' - day_length" "r + o' - day_length < day_length" using False a o by simp_all
    have "(a + o') div day_length = q + 1" "(a + o') mod day_length = r + o' - day_length"
      using int_div_pos_eq [OF e b] int_mod_pos_eq [OF e b] by simp_all
    with a show ?thesis by simp
  qed
  ultimately show ?thesis unfolding t r_def [symmetric] o'_def [symmetric] by (auto split: if_splits)
qed

text \<open>The dates a fetch goes through, starting from a clock reading: they are the seven latest
  weekdays up to the anchor day, each once, from the latest back, within twenty days. The
  anchor day is the Indian date, but for the first five and a half hours of it the day before,
  because the clock is truncated in UTC.\<close>

lemma dates_tried:
  fixes now :: time
  defines "ts \<equiv> tried_dates 7 (latestTradingDate now)"
    and "today \<equiv> local_day (ist now) -
      (if local_clock (ist now) < istOffsetSeconds * second then 1 else 0)"
  shows "local_day ` set ts = {n. is_weekday n \<and> local_day (last ts) \<le> n \<and> n \<le> today} \<and>
    sorted_wrt (>) (map local_day ts) \<and> length ts = 7 \<and> today - 20 \<le> local_day (last ts)"
proof -
  let ?t = "latestTradingDate now"
  have a: "is_weekday (local_day ?t)" "local_day ?t \<le> today" "today - 2 \<le> local_day ?t"
    "\<And>n. n \<le> today \<Longrightarrow> is_weekday n \<Longrightarrow> n \<le> local_day ?t"
    using rolls_back_weekday [where t = "TruncateDay (ist now)"]
    unfolding latestTradingDate_def TruncateDay_local today_def by auto
  have l: "length (tried_dates k t) = k" for k t by (induction k arbitrary: t) simp_all
  show ?thesis
    using tried_dates_days [OF a(1), of 7] a(2-) l unfolding ts_def by force
qed

end
