(* ===== verification/Nse_Provider.thy ===== *)
theory Nse_Provider
  imports Nse_Dates "HOL-Library.AList"
begin

text \<open>
  The provider of \<^verbatim>\<open>internal/providers/nse/eod.go\<close> and the downloads of its three files. What
  is outside the program is a record of functions: the clock, the HTTP exchange, the archive
  format, and the order in which Go iterates over a map; each sees the number of the call, so
  that no two calls need to agree. Every operation has the value \<open>None\<close> when it does not
  return. The requests the code builds have fixed, well-formed URLs but for the digits of a
  date, so building one does not fail.
\<close>

section \<open>Requests and the outside\<close>

record http_request =
  rqMethod :: string
  rqURL :: string
  rqHeaders :: "(string \<times> string) list"

record http_reply =
  rpStatus :: int
  rpBody :: byte_stream

text \<open>A file of an archive: its name, and its reader or why it has none.\<close>

record zip_file =
  zfName :: string
  zfOpen :: "byte_stream res"

record nse_outside =
  noClock :: "nat \<Rightarrow> time"
  noDo :: "nat \<Rightarrow> http_request \<Rightarrow> http_reply res"
  noUnzip :: "string \<Rightarrow> zip_file list res"
  noRange :: "nat \<Rightarrow> string list \<Rightarrow> string list"

section \<open>The provider\<close>

definition nseMainURL :: string where [go_const]: "nseMainURL = ''https://www.nseindia.com''"
definition eodInterval :: string where [go_const]: "eodInterval = ''1d''"
definition ProviderName :: string where [go_const]: "ProviderName = ''nse_eod''"
definition maxBhavSize :: int where [go_const]: "maxBhavSize = 50 * 2 ^ 20"

text \<open>What is fixed when the provider is built, and the rows it remembers. A nil slice is
  \<open>None\<close>.\<close>

record nse_config =
  ncTargetDate :: ztime
  ncUserAgent :: string
  ncAcceptHTML :: string

record nse_cache =
  nvRows :: "bhavRow list option"
  nvDate :: time
  nvIndexRows :: "indexRow list option"
  nvIndexDate :: time
  nvCMRows :: "cmRow list option"
  nvCMDate :: time

record nse_world =
  nwTick :: nat
  nwCache :: nse_cache
  nwDB :: db

type_synonym 'a nse = "nse_world \<Rightarrow> ('a res \<times> nse_world) option"

definition WithTargetDate :: "ztime \<Rightarrow> nse_config \<Rightarrow> nse_config" where
  "WithTargetDate day p = p\<lparr>ncTargetDate := day\<rparr>"

definition WithUserAgent :: "string \<Rightarrow> nse_config \<Rightarrow> nse_config" where
  "WithUserAgent ua p = p\<lparr>ncUserAgent := ua\<rparr>"

definition WithAcceptHTML :: "string \<Rightarrow> nse_config \<Rightarrow> nse_config" where
  "WithAcceptHTML accept p = p\<lparr>ncAcceptHTML := accept\<rparr>"

definition NewEODProvider :: "(nse_config \<Rightarrow> nse_config) list \<Rightarrow> nse_config \<times> nse_cache" where
  "NewEODProvider opts =
     (fold (\<lambda>opt. opt) opts
        \<lparr>ncTargetDate = utc zero_time, ncUserAgent = [], ncAcceptHTML = []\<rparr>,
      \<lparr>nvRows = None, nvDate = zero_time, nvIndexRows = None, nvIndexDate = zero_time,
       nvCMRows = None, nvCMDate = zero_time\<rparr>)"

definition has_target :: "nse_config \<Rightarrow> bool" where
  "has_target cfg \<longleftrightarrow> zInstant (ncTargetDate cfg) \<noteq> zero_time"

definition EODProvider_Name :: string where [go_const]: "EODProvider_Name = ProviderName"

definition CapEODHistory :: string where [go_const]: "CapEODHistory = ''eod_history''"

definition EODProvider_Capabilities :: "string list" where "EODProvider_Capabilities = [CapEODHistory]"

section \<open>Requests\<close>

definition http_do :: "nse_outside \<Rightarrow> http_request \<Rightarrow> nse_world \<Rightarrow> http_reply res \<times> nse_world" where
  "http_do out req w = (noDo out (nwTick w) req, w\<lparr>nwTick := Suc (nwTick w)\<rparr>)"

text \<open>The date a fetch is about: the target, or the latest trading date by the clock, which is
  read on every fetch.\<close>

definition anchor_of :: "nse_outside \<Rightarrow> nse_config \<Rightarrow> nse_world \<Rightarrow> ztime" where
  "anchor_of out cfg w =
     (if has_target cfg then ncTargetDate cfg else latestTradingDate (noClock out (nwTick w)))"

definition clock_read :: "nse_world \<Rightarrow> nse_world" where
  "clock_read w = w\<lparr>nwTick := Suc (nwTick w)\<rparr>"

definition warmSession :: "nse_outside \<Rightarrow> nse_config \<Rightarrow> nse_world \<Rightarrow> nse_world" where
  "warmSession out cfg w =
     snd (http_do out \<lparr>rqMethod = ''GET'', rqURL = nseMainURL,
            rqHeaders = [(''User-Agent'', ncUserAgent cfg), (''Accept'', ncAcceptHTML cfg),
                         (''Accept-Language'', ''en-US,en;q=0.9'')]\<rparr> w)"

definition EODProvider_Healthy :: "nse_outside \<Rightarrow> nse_config \<Rightarrow> nse_world \<Rightarrow> bool \<times> nse_world" where
  "EODProvider_Healthy out cfg w =
     (case http_do out \<lparr>rqMethod = ''HEAD'', rqURL = ''https://nsearchives.nseindia.com'',
             rqHeaders = [(''User-Agent'', ncUserAgent cfg)]\<rparr> w of
        (Inl _, w') \<Rightarrow> (False, w')
      | (Inr resp, w') \<Rightarrow> (rpStatus resp < 500, w'))"

text \<open>\<^verbatim>\<open>io.ReadAll\<close> of the body cut off at the limit.\<close>

definition read_limited :: "byte_stream \<Rightarrow> string res" where
  "read_limited b =
     (if maxBhavSize \<le> int (length (bsRest b)) then Inr (take (nat maxBhavSize) (bsRest b))
      else if bsEnd b = io_EOF then Inr (bsRest b) else Inl (bsEnd b))"

text \<open>The part the three downloads have in common: the request with the headers NSE wants, the
  status, the body.\<close>

definition download_body :: "nse_outside \<Rightarrow> nse_config \<Rightarrow> string \<Rightarrow> nse_world \<Rightarrow> string res \<times> nse_world" where
  "download_body out cfg url w =
     (case http_do out \<lparr>rqMethod = ''GET'', rqURL = url,
             rqHeaders = [(''User-Agent'', ncUserAgent cfg), (''Accept'', ''*/*''),
                          (''Accept-Language'', ''en-US,en;q=0.9''), (''Referer'', nseMainURL @ ''/'')]\<rparr> w of
        (Inl e, w') \<Rightarrow> (Inl e, w')
      | (Inr resp, w') \<Rightarrow>
          (if rpStatus resp \<noteq> 200
           then (Inl (Plain (''HTTP '' @ Itoa (rpStatus resp) @ '' for '' @ url)), w')
           else (read_limited (rpBody resp), w')))"

definition bhav_url :: "ztime \<Rightarrow> string" where
  "bhav_url day = ''https://nsearchives.nseindia.com/content/fo/BhavCopy_NSE_FO_0_0_0_'' @
     time_Format ''20060102'' day @ ''_F_0000.csv.zip''"

definition downloadBhavcopy :: "nse_outside \<Rightarrow> nse_config \<Rightarrow> ztime \<Rightarrow> bhavRow list nse" where
  "downloadBhavcopy out cfg day w =
     (case download_body out cfg (bhav_url day) w of
        (Inl e, w') \<Rightarrow> Some (Inl e, w')
      | (Inr body, w') \<Rightarrow>
     (case noUnzip out body of
        Inl e \<Rightarrow> Some (Inl (Wrap ''unzip: '' e []), w')
      | Inr files \<Rightarrow>
     (case find (\<lambda>f. HasSuffix (ToLower (zfName f)) ''.csv'') files of
        None \<Rightarrow> Some (Inl (Plain ''no CSV found in zip''), w')
      | Some f \<Rightarrow>
     (case zfOpen f of
        Inl e \<Rightarrow> Some (Inl e, w')
      | Inr rc \<Rightarrow> map_option (\<lambda>r. (r, w')) (parseBhavCSV rc (zInstant day))))))"

definition cm_url :: "ztime \<Rightarrow> string" where
  "cm_url day = ''https://nsearchives.nseindia.com/products/content/sec_bhavdata_full_'' @
     time_Format ''02012006'' day @ ''.csv''"

definition downloadCMBhavcopy :: "nse_outside \<Rightarrow> nse_config \<Rightarrow> ztime \<Rightarrow> cmRow list nse" where
  "downloadCMBhavcopy out cfg day w =
     (case download_body out cfg (cm_url day) w of
        (Inl e, w') \<Rightarrow> Some (Inl e, w')
      | (Inr body, w') \<Rightarrow>
          map_option (\<lambda>r. (r, w')) (parseCMCSV (bytes_reader body) (zInstant day)))"

definition indices_url :: "ztime \<Rightarrow> string" where
  "indices_url day = ''https://nsearchives.nseindia.com/content/indices/ind_close_all_'' @
     time_Format ''02012006'' day @ ''.csv''"

definition downloadIndicesBhavcopy :: "nse_outside \<Rightarrow> nse_config \<Rightarrow> ztime \<Rightarrow> indexRow list nse" where
  "downloadIndicesBhavcopy out cfg day w =
     (case download_body out cfg (indices_url day) w of
        (Inl e, w') \<Rightarrow> Some (Inl e, w')
      | (Inr body, w') \<Rightarrow>
          map_option (\<lambda>r. (r, w')) (parseIndicesCSV (bytes_reader body) (zInstant day)))"

section \<open>The latest file\<close>

text \<open>One date after the other, at most \<open>k\<close>; \<open>None\<close> as a result when all failed.\<close>

primrec try_dates ::
  "nat \<Rightarrow> (ztime \<Rightarrow> 'r list nse) \<Rightarrow> ztime \<Rightarrow> nse_world \<Rightarrow> ('r list option \<times> nse_world) option" where
  "try_dates 0 download day w = Some (None, w)"
| "try_dates (Suc k) download day w =
     (case download day w of
        None \<Rightarrow> None
      | Some (Inr rows, w') \<Rightarrow> Some (Some rows, w')
      | Some (Inl _, w') \<Rightarrow> try_dates k download (prevTradingDay day) w')"

text \<open>The body the three fetches share: a cache of one file, keyed on the anchor date.\<close>

definition fetch_latest ::
  "string \<Rightarrow> (nse_cache \<Rightarrow> 'r list option \<times> time) \<Rightarrow> ('r list \<Rightarrow> time \<Rightarrow> nse_cache \<Rightarrow> nse_cache) \<Rightarrow>
    (ztime \<Rightarrow> 'r list nse) \<Rightarrow> nse_outside \<Rightarrow> nse_config \<Rightarrow> 'r list nse" where
  "fetch_latest label cached remember download out cfg w =
     (let target = ncTargetDate cfg;
          anchor = anchor_of out cfg w;
          w1 = clock_read w;
          keep = (\<lambda>rows w. w\<lparr>nwCache := remember rows (zInstant anchor) (nwCache w)\<rparr>)
      in if fst (cached (nwCache w1)) \<noteq> None \<and> snd (cached (nwCache w1)) = zInstant anchor
         then Some (Inr (the (fst (cached (nwCache w1)))), w1)
         else let w2 = warmSession out cfg w1
              in if has_target cfg
                 then (case download target w2 of
                         None \<Rightarrow> None
                       | Some (Inl e, w3) \<Rightarrow>
                           Some (Inl (Wrap (label @ '' for '' @ time_Format ''2006-01-02'' target @ '': '') e []), w3)
                       | Some (Inr rows, w3) \<Rightarrow> Some (Inr rows, keep rows w3))
                 else (case try_dates 7 download anchor w2 of
                         None \<Rightarrow> None
                       | Some (None, w3) \<Rightarrow>
                           Some (Inl (Plain (''no '' @ label @ '' available in the last 7 trading days'')), w3)
                       | Some (Some rows, w3) \<Rightarrow> Some (Inr rows, keep rows w3)))"

text \<open>The parser of the futures and options file returns a nil slice for a file without rows.\<close>

definition fetchLatestBhavcopy :: "nse_outside \<Rightarrow> nse_config \<Rightarrow> bhavRow list nse" where
  "fetchLatestBhavcopy out cfg =
     fetch_latest ''bhavcopy'' (\<lambda>p. (nvRows p, nvDate p))
       (\<lambda>rows d p. p\<lparr>nvRows := if rows = [] then None else Some rows, nvDate := d\<rparr>)
       (downloadBhavcopy out cfg) out cfg"

definition fetchLatestIndicesBhavcopy :: "nse_outside \<Rightarrow> nse_config \<Rightarrow> indexRow list nse" where
  "fetchLatestIndicesBhavcopy out cfg =
     fetch_latest ''indices bhavcopy'' (\<lambda>p. (nvIndexRows p, nvIndexDate p))
       (\<lambda>rows d p. p\<lparr>nvIndexRows := Some rows, nvIndexDate := d\<rparr>)
       (downloadIndicesBhavcopy out cfg) out cfg"

definition fetchLatestCMBhavcopy :: "nse_outside \<Rightarrow> nse_config \<Rightarrow> cmRow list nse" where
  "fetchLatestCMBhavcopy out cfg =
     fetch_latest ''CM bhavcopy'' (\<lambda>p. (nvCMRows p, nvCMDate p))
       (\<lambda>rows d p. p\<lparr>nvCMRows := Some rows, nvCMDate := d\<rparr>)
       (downloadCMBhavcopy out cfg) out cfg"

section \<open>Syncing instruments\<close>

text \<open>The rows of a file that may be missing: an error counts only when a date was asked for.\<close>

definition optional_rows :: "nse_config \<Rightarrow> string \<Rightarrow> 'r list nse \<Rightarrow> 'r list nse" where
  "optional_rows cfg what fetch w =
     (case fetch w of
        None \<Rightarrow> None
      | Some (Inl e, w') \<Rightarrow>
          (if has_target cfg then Some (Inl (Wrap (''fetch '' @ what @ '': '') e []), w')
           else Some (Inr [], w'))
      | Some (Inr rows, w') \<Rightarrow> Some (Inr rows, w'))"

text \<open>The loop over the rows: instruments, the set of underlyings, and for each underlying of a
  future the continuous type and the lot size of its first row. The last is a Go map, here an
  association list.\<close>

record instrument_scan =
  scInstruments :: "instrument list"
  scUnderlyings :: "string list"
  scFutures :: "(string \<times> string \<times> goint) list"

definition scan_row :: "bhavRow \<Rightarrow> instrument_scan \<Rightarrow> instrument_scan" where
  "scan_row row s =
     (case bhavRowToInstrument row of
        None \<Rightarrow> s
      | Some inst \<Rightarrow>
          (let u = brUnderlying row;
               s1 = s\<lparr>scInstruments := scInstruments s @ [inst],
                      scUnderlyings := if u \<noteq> [] then List.insert u (scUnderlyings s)
                                       else scUnderlyings s\<rparr>
           in case continuousFuturesType (iInstrumentType inst) of
                None \<Rightarrow> s1
              | Some contType \<Rightarrow>
                  (if map_of (scFutures s1) u = None \<and> u \<noteq> []
                   then s1\<lparr>scFutures := scFutures s1 @ [(u, contType, iLotSize inst)]\<rparr>
                   else s1)))"

definition scan_rows :: "bhavRow list \<Rightarrow> instrument_scan" where
  "scan_rows rows = fold scan_row rows \<lparr>scInstruments = [], scUnderlyings = [], scFutures = []\<rparr>"

definition continuous_instrument :: "string \<Rightarrow> string \<times> goint \<Rightarrow> instrument" where
  "continuous_instrument underlying info =
     (new_instrument (underlying @ ContinuousFuturesSuffix) ExchangeNFO (fst info) (snd info))
       \<lparr>iUnderlying := Some underlying\<rparr>"

text \<open>Iteration over a map with the given keys, in the order of this occasion.\<close>

definition range_keys :: "nse_outside \<Rightarrow> string list \<Rightarrow> nse_world \<Rightarrow> string list \<times> nse_world" where
  "range_keys out keys w = (noRange out (nwTick w) keys, w\<lparr>nwTick := Suc (nwTick w)\<rparr>)"

text \<open>A call of the store.\<close>

definition on_nse_db :: "(db \<Rightarrow> 'a res \<times> db) \<Rightarrow> nse_world \<Rightarrow> 'a res \<times> nse_world" where
  "on_nse_db f w = (let (r, d) = f (nwDB w) in (r, w\<lparr>nwDB := d\<rparr>))"

definition SyncInstruments :: "nse_outside \<Rightarrow> nse_config \<Rightarrow> goint nse" where
  "SyncInstruments out cfg w =
     (case fetchLatestBhavcopy out cfg w of
        None \<Rightarrow> None
      | Some (Inl e, w1) \<Rightarrow> Some (Inl (Wrap ''fetch bhavcopy: '' e []), w1)
      | Some (Inr rows, w1) \<Rightarrow>
          (let s = scan_rows rows;
               (keys, w2) = range_keys out (map fst (scFutures s)) w1;
               continuous = map (\<lambda>u. continuous_instrument u (the (map_of (scFutures s) u))) keys
           in case optional_rows cfg ''indices bhavcopy'' (fetchLatestIndicesBhavcopy out cfg) w2 of
                None \<Rightarrow> None
              | Some (Inl e, w3) \<Rightarrow> Some (Inl e, w3)
              | Some (Inr indexRows, w3) \<Rightarrow>
           (case optional_rows cfg ''CM bhavcopy'' (fetchLatestCMBhavcopy out cfg) w3 of
                None \<Rightarrow> None
              | Some (Inl e, w4) \<Rightarrow> Some (Inl e, w4)
              | Some (Inr cmRows, w4) \<Rightarrow>
                  (let instruments = scInstruments s @ continuous @ map indexRowToInstrument indexRows @
                         map cmRowToInstrument
                           (filter (\<lambda>r. crSymbol r \<in> set (scUnderlyings s)) cmRows)
                   in case on_nse_db (UpsertBatch instruments) w4 of
                        (Inl e, w5) \<Rightarrow> Some (Inl (Wrap ''upsert instruments: '' e []), w5)
                      | (Inr _, w5) \<Rightarrow> Some (Inr (int (length instruments)), w5)))))"

section \<open>Syncing candles\<close>

definition eod_candle ::
  "uuid \<Rightarrow> time \<Rightarrow> f64 \<Rightarrow> f64 \<Rightarrow> f64 \<Rightarrow> f64 \<Rightarrow> goint \<Rightarrow> candle" where
  "eod_candle i ts op h l c v =
     \<lparr>cInstrumentID = i, cTimestamp = ts, cInterval = eodInterval, cOpen = op, cHigh = h,
      cLow = l, cClose = c, cVolume = v, cProvider = EODProvider_Name\<rparr>"

definition bhav_candle :: "uuid \<Rightarrow> bhavRow \<Rightarrow> candle" where
  "bhav_candle i row =
     eod_candle i (brDate row) (brOpen row) (brHigh row) (brLow row) (brClose row) (brVolume row)"

definition index_candle :: "uuid \<Rightarrow> indexRow \<Rightarrow> candle" where
  "index_candle i row =
     eod_candle i (irDate row) (irOpen row) (irHigh row) (irLow row) (irClose row) (irVolume row)"

definition cm_candle :: "uuid \<Rightarrow> cmRow \<Rightarrow> candle" where
  "cm_candle i row =
     eod_candle i (crDate row) (crOpen row) (crHigh row) (crLow row) (crClose row) (crVolume row)"

text \<open>The look-up of instruments by symbol and exchange; the last of two equal keys counts.\<close>

type_synonym instrument_map = "(string \<times> string) \<rightharpoonup> uuid"

definition instrument_map :: "instrument list \<Rightarrow> instrument_map" where
  "instrument_map is = fold (\<lambda>i m. m((iSymbol i, iExchange i) \<mapsto> iID i)) is Map.empty"

definition nfo_underlyings :: "instrument list \<Rightarrow> string list" where
  "nfo_underlyings is =
     List.map_filter (\<lambda>i. if iExchange i = ExchangeNFO then iUnderlying i else None) is"

text \<open>The candidates for the continuous contracts: underlying, expiry, candle.\<close>

record candle_scan =
  csCandles :: "candle list"
  csNearMonth :: "(string \<times> time \<times> candle) list"

definition is_future_row :: "bhavRow \<Rightarrow> bool" where
  "is_future_row row \<longleftrightarrow>
     (case foVendorToInstrumentType (brInstrumentType row) of
        None \<Rightarrow> False
      | Some t \<Rightarrow> brUnderlying row \<noteq> [] \<and> brExpiry row \<noteq> zero_time \<and>
                  continuousFuturesType t \<noteq> None \<and> brDate row \<le> brExpiry row)"

definition candle_step :: "instrument_map \<Rightarrow> bhavRow \<Rightarrow> candle_scan \<Rightarrow> candle_scan" where
  "candle_step instrMap row s =
     (case instrMap (brSymbol row, ExchangeNFO) of
        None \<Rightarrow> s
      | Some i \<Rightarrow>
          (let s1 = s\<lparr>csCandles := csCandles s @ [bhav_candle i row]\<rparr>; u = brUnderlying row
           in if \<not> is_future_row row then s1
              else if (case map_of (csNearMonth s) u of
                         None \<Rightarrow> True | Some (expiry, _) \<Rightarrow> brExpiry row < expiry)
              then (case instrMap (u @ ContinuousFuturesSuffix, ExchangeNFO) of
                      None \<Rightarrow> s1
                    | Some contID \<Rightarrow>
                        s1\<lparr>csNearMonth := AList.update u (brExpiry row, bhav_candle contID row)
                                            (csNearMonth s1)\<rparr>)
              else s1))"

definition candle_rows :: "instrument_map \<Rightarrow> bhavRow list \<Rightarrow> candle_scan" where
  "candle_rows instrMap rows = fold (candle_step instrMap) rows \<lparr>csCandles = [], csNearMonth = []\<rparr>"

definition index_candles :: "instrument_map \<Rightarrow> indexRow list \<Rightarrow> candle list" where
  "index_candles instrMap rows =
     List.map_filter (\<lambda>row. map_option (\<lambda>i. index_candle i row) (instrMap (irSymbol row, ExchangeNSE))) rows"

definition cm_candles :: "instrument_map \<Rightarrow> string list \<Rightarrow> cmRow list \<Rightarrow> candle list" where
  "cm_candles instrMap underlyings rows =
     List.map_filter (\<lambda>row. map_option (\<lambda>i. cm_candle i row) (instrMap (crSymbol row, ExchangeNSE)))
       (filter (\<lambda>row. crSymbol row \<in> set underlyings) rows)"

definition no_filter :: instrument_filter where
  "no_filter = \<lparr>ifExchange = None, ifInstrumentType = None, ifUnderlying = None\<rparr>"

definition SyncCandles :: "nse_outside \<Rightarrow> nse_config \<Rightarrow> goint nse" where
  "SyncCandles out cfg w =
     (case on_nse_db (InstrumentStore_List no_filter) w of
        (Inl e, w1) \<Rightarrow> Some (Inl (Wrap ''list instruments: '' e []), w1)
      | (Inr allInstr, w1) \<Rightarrow>
     (case fetchLatestBhavcopy out cfg w1 of
        None \<Rightarrow> None
      | Some (Inl e, w2) \<Rightarrow> Some (Inl (Wrap ''fetch bhavcopy: '' e []), w2)
      | Some (Inr rows, w2) \<Rightarrow>
          (let instrMap = instrument_map allInstr;
               s = candle_rows instrMap rows;
               (keys, w3) = range_keys out (map fst (csNearMonth s)) w2;
               nearMonth = map (\<lambda>u. snd (the (map_of (csNearMonth s) u))) keys
           in case optional_rows cfg ''indices bhavcopy'' (fetchLatestIndicesBhavcopy out cfg) w3 of
                None \<Rightarrow> None
              | Some (Inl e, w4) \<Rightarrow> Some (Inl e, w4)
              | Some (Inr indexRows, w4) \<Rightarrow>
           (case optional_rows cfg ''CM bhavcopy'' (fetchLatestCMBhavcopy out cfg) w4 of
                None \<Rightarrow> None
              | Some (Inl e, w5) \<Rightarrow> Some (Inl e, w5)
              | Some (Inr cmRows, w5) \<Rightarrow>
                  (let candles = csCandles s @ nearMonth @ index_candles instrMap indexRows @
                         cm_candles instrMap (nfo_underlyings allInstr) cmRows
                   in if candles = [] then Some (Inr 0, w5)
                      else case on_nse_db (InsertBatchIgnoreDuplicates candles) w5 of
                             (Inl e, w6) \<Rightarrow> Some (Inl (Wrap ''insert candles: '' e []), w6)
                           | (Inr count, w6) \<Rightarrow> Some (Inr count, w6))))))"

end
