(* ===== verification/Nse_Sync.thy ===== *)
theory Nse_Sync
  imports Nse_Provider
begin

text \<open>
  What the provider's operations guarantee: the choice of the near-month contract, the file a
  fetch ends up with, and the cycle of \<^verbatim>\<open>SyncInstruments\<close> followed by \<^verbatim>\<open>SyncCandles\<close>.
\<close>

section \<open>The near-month contract\<close>

text \<open>A row that can stand for the continuous contract of its underlying: its own contract and
  the continuous one are known, it is a future by either vendor code of an index or a stock future,
  it names its underlying and its expiry, and it had not expired on the day of the file.\<close>

definition eligible :: "instrument_map \<Rightarrow> string \<Rightarrow> bhavRow \<Rightarrow> bool" where
  "eligible m u row \<longleftrightarrow>
     m (brSymbol row, ExchangeNFO) \<noteq> None \<and> m (u @ ContinuousFuturesSuffix, ExchangeNFO) \<noteq> None \<and>
     brInstrumentType row \<in> {''IDF'', ''FUTIDX'', ''STF'', ''FUTSTK''} \<and>
     brUnderlying row = u \<and> u \<noteq> [] \<and> brExpiry row \<noteq> zero_time \<and> brDate row \<le> brExpiry row"

lemma is_future_row_iff:
  "is_future_row row \<longleftrightarrow> brInstrumentType row \<in> {''IDF'', ''FUTIDX'', ''STF'', ''FUTSTK''} \<and>
     brUnderlying row \<noteq> [] \<and> brExpiry row \<noteq> zero_time \<and> brDate row \<le> brExpiry row"
  by (simp add: is_future_row_def foVendorToInstrumentType_def continuousFuturesType_def go_const)

lemma eligible_iff:
  "eligible m u row \<longleftrightarrow>
     m (brSymbol row, ExchangeNFO) \<noteq> None \<and> is_future_row row \<and> brUnderlying row = u \<and>
     m (u @ ContinuousFuturesSuffix, ExchangeNFO) \<noteq> None"
  by (auto simp: eligible_def is_future_row_iff)

text \<open>The first row of a list none of which expires earlier.\<close>

definition nearest :: "bhavRow list \<Rightarrow> bhavRow option" where
  "nearest es = find (\<lambda>r. list_all (\<lambda>r'. brExpiry r \<le> brExpiry r') es) es"

lemma nearest_Some:
  assumes "es \<noteq> []"
  obtains b where "nearest es = Some b" "b \<in> set es" "\<And>r. r \<in> set es \<Longrightarrow> brExpiry b \<le> brExpiry r"
proof (cases "nearest es")
  case None
  have "finite (brExpiry ` set es)" "brExpiry ` set es \<noteq> {}" using assms by auto
  from Min_in [OF this] Min_le [OF this(1)] obtain b where
    "b \<in> set es" "\<forall>r \<in> set es. brExpiry b \<le> brExpiry r" by (metis (mono_tags) image_eqI image_iff)
  with None show thesis by (auto simp: nearest_def find_None_iff list_all_iff)
next
  case (Some b)
  then have "b \<in> set es \<and> (\<forall>r \<in> set es. brExpiry b \<le> brExpiry r)"
    by (auto simp: nearest_def find_Some_iff list_all_iff)
  with Some show thesis using that by blast
qed

lemma nearest_snoc:
  "nearest (es @ [r]) = (case nearest es of
     None \<Rightarrow> Some r
   | Some b \<Rightarrow> Some (if brExpiry r < brExpiry b then r else b))"
proof (cases "es = []")
  case True
  then show ?thesis by (simp add: nearest_def)
next
  case False
  obtain b where b: "nearest es = Some b" "b \<in> set es" "\<And>x. x \<in> set es \<Longrightarrow> brExpiry b \<le> brExpiry x"
    by (rule nearest_Some [OF False]) blast
  show ?thesis
  proof (cases "brExpiry r < brExpiry b")
    case True
    have "find (\<lambda>x. list_all (\<lambda>r'. brExpiry x \<le> brExpiry r') (es @ [r])) es = None"
      using True b(3) by (force simp: find_None_iff)
    moreover have "list_all (\<lambda>r'. brExpiry r \<le> brExpiry r') (es @ [r])"
      using True b(3) by (fastforce simp: list_all_iff)
    ultimately show ?thesis using True b(1) by (simp add: nearest_def find_append)
  next
    case False
    have "find (\<lambda>x. list_all (\<lambda>r'. brExpiry x \<le> brExpiry r') (es @ [r])) es =
        find (\<lambda>x. list_all (\<lambda>r'. brExpiry x \<le> brExpiry r') es) es"
      using False b(2) by (intro find_cong) (force simp: list_all_iff)+
    with False b(1) show ?thesis by (simp add: nearest_def find_append)
  qed
qed

lemma candle_rows_snoc: "candle_rows m (rows @ [row]) = candle_step m row (candle_rows m rows)"
  by (simp add: candle_rows_def)

lemma near_month_candidates:
  "map_of (csNearMonth (candle_rows m rows)) u =
     map_option (\<lambda>r. (brExpiry r, bhav_candle (the (m (u @ ContinuousFuturesSuffix, ExchangeNFO))) r))
       (nearest (filter (eligible m u) rows))"
proof (induction rows rule: rev_induct)
  case Nil
  show ?case by (simp add: candle_rows_def nearest_def)
next
  case (snoc row rows)
  let ?s = "candle_rows m rows"
  show ?case
  proof (cases "eligible m u row")
    case True
    then obtain i c where "m (brSymbol row, ExchangeNFO) = Some i" "brUnderlying row = u"
      "m (u @ ContinuousFuturesSuffix, ExchangeNFO) = Some c" "is_future_row row"
      by (auto simp: eligible_iff)
    with snoc True show ?thesis
      by (auto simp: candle_rows_snoc candle_step_def nearest_snoc update_conv' split: option.splits)
  next
    case False
    then have "map_of (csNearMonth (candle_step m row ?s)) u = map_of (csNearMonth ?s) u"
      by (auto simp: candle_step_def eligible_iff Let_def update_conv' split: option.splits)
    with snoc False show ?thesis by (simp add: candle_rows_snoc)
  qed
qed

lemma map_filter_snoc:
  "List.map_filter f (xs @ [x]) =
     List.map_filter f xs @ (case f x of None \<Rightarrow> [] | Some y \<Rightarrow> [y])"
  by (induction xs) (simp_all add: List.map_filter_simps split: option.split)

lemma csCandles_rows:
  "csCandles (candle_rows m rows) =
     List.map_filter (\<lambda>row. map_option (\<lambda>i. bhav_candle i row) (m (brSymbol row, ExchangeNFO))) rows"
proof (induction rows rule: rev_induct)
  case Nil
  show ?case by (simp add: candle_rows_def List.map_filter_simps)
next
  case (snoc row rows)
  then show ?case
    by (auto simp: candle_rows_snoc candle_step_def Let_def map_filter_snoc
        split: option.splits)
qed

lemma distinct_near_month: "distinct (map fst (csNearMonth (candle_rows m rows)))"
proof (induction rows rule: rev_induct)
  case Nil
  show ?case by (simp add: candle_rows_def)
next
  case (snoc row rows)
  then show ?case
    by (auto simp: candle_rows_snoc candle_step_def Let_def intro: distinct_update split: option.splits)
qed

text \<open>C20. The loop over the futures and options file gives a candle to every row whose contract is
  known, in the order of the file, and for the continuous contract of an underlying picks the
  first of the eligible rows with the earliest expiry, whatever the order of the rows.\<close>

theorem near_month:
  "csCandles (candle_rows m rows) =
     List.map_filter (\<lambda>row. map_option (\<lambda>i. bhav_candle i row) (m (brSymbol row, ExchangeNFO))) rows \<and>
   distinct (map fst (csNearMonth (candle_rows m rows))) \<and>
   (\<forall>u. map_of (csNearMonth (candle_rows m rows)) u =
     map_option (\<lambda>r. (brExpiry r, bhav_candle (the (m (u @ ContinuousFuturesSuffix, ExchangeNFO))) r))
       (nearest (filter (eligible m u) rows)))"
  using csCandles_rows distinct_near_month near_month_candidates by blast

section \<open>What a fetch leaves alone\<close>

text \<open>The contract of a download: it always returns, and only the number of calls advances. It is
  the part of a fetch the cache relies on; the futures and options file meets it but for
  returning.\<close>

locale download_contract =
  fixes download :: "ztime \<Rightarrow> nse_world \<Rightarrow> ('r list res \<times> nse_world) option"
  assumes one_call: "download day w = Some (r, w') \<Longrightarrow> w' = w\<lparr>nwTick := Suc (nwTick w)\<rparr>"
begin

lemma try_dates_frame:
  "try_dates k download day w = Some (r, w') \<Longrightarrow> \<exists>t. w' = w\<lparr>nwTick := t\<rparr>"
proof (induction k arbitrary: day w)
  case 0
  then have "w' = w\<lparr>nwTick := nwTick w\<rparr>" by simp
  then show ?case by blast
next
  case (Suc k)
  show ?case
  proof (cases "download day w")
    case None
    with Suc show ?thesis by simp
  next
    case (Some p)
    obtain r1 w1 where p: "download day w = Some (r1, w1)" using Some by (metis prod.collapse)
    from one_call [OF p] have w1: "w1 = w\<lparr>nwTick := Suc (nwTick w)\<rparr>" .
    show ?thesis
    proof (cases r1)
      case (Inl e)
      with Suc.prems p have "try_dates k download (prevTradingDay day) w1 = Some (r, w')" by simp
      from Suc.IH [OF this] w1 show ?thesis by auto
    next
      case (Inr rows)
      with Suc.prems p w1 show ?thesis by auto
    qed
  qed
qed

text \<open>The rows are those of the latest date whose download succeeds.\<close>

lemma try_dates_latest:
  assumes "try_dates k download day w = Some (r, w')"
  shows "case r of
      Some rows \<Rightarrow> \<exists>i < k. download (tried_dates k day ! i) (w\<lparr>nwTick := nwTick w + i\<rparr>) =
          Some (Inr rows, w') \<and>
        (\<forall>j < i. \<exists>e v. download (tried_dates k day ! j) (w\<lparr>nwTick := nwTick w + j\<rparr>) = Some (Inl e, v))
    | None \<Rightarrow> \<forall>j < k. \<exists>e v. download (tried_dates k day ! j) (w\<lparr>nwTick := nwTick w + j\<rparr>) =
        Some (Inl e, v)"
  using assms
proof (induction k arbitrary: day w)
  case 0
  then show ?case by simp
next
  case (Suc k)
  show ?case
  proof (cases "download day w")
    case None
    with Suc show ?thesis by simp
  next
    case (Some p)
    obtain r1 w1 where p: "download day w = Some (r1, w1)" using Some by (metis prod.collapse)
    from one_call [OF p] have w1: "w1 = w\<lparr>nwTick := Suc (nwTick w)\<rparr>" .
    show ?thesis
    proof (cases r1)
      case (Inl e)
      with Suc.prems p have t: "try_dates k download (prevTradingDay day) w1 = Some (r, w')" by simp
      have first: "\<exists>e v. download (tried_dates (Suc k) day ! 0) (w\<lparr>nwTick := nwTick w + 0\<rparr>) = Some (Inl e, v)"
        using p Inl by simp
      show ?thesis
      proof (cases r)
        case None
        with Suc.IH [OF t] w1 have "\<forall>j < k. \<exists>e v. download (tried_dates (Suc k) day ! Suc j)
            (w\<lparr>nwTick := nwTick w + Suc j\<rparr>) = Some (Inl e, v)" by simp
        with None first show ?thesis by (auto simp: less_Suc_eq_0_disj)
      next
        case (Some rows)
        with Suc.IH [OF t] w1 obtain i where i: "i < k"
          "download (tried_dates k (prevTradingDay day) ! i) (w\<lparr>nwTick := Suc (nwTick w) + i\<rparr>) =
            Some (Inr rows, w')"
          "\<forall>j < i. \<exists>e v. download (tried_dates k (prevTradingDay day) ! j)
            (w\<lparr>nwTick := Suc (nwTick w) + j\<rparr>) = Some (Inl e, v)" by auto
        then have "\<exists>i < Suc k. download (tried_dates (Suc k) day ! i) (w\<lparr>nwTick := nwTick w + i\<rparr>) =
            Some (Inr rows, w') \<and>
          (\<forall>j < i. \<exists>e v. download (tried_dates (Suc k) day ! j) (w\<lparr>nwTick := nwTick w + j\<rparr>) = Some (Inl e, v))"
          using first by (intro exI [of _ "Suc i"]) (auto simp: less_Suc_eq_0_disj)
        with Some show ?thesis by simp
      qed
    next
      case (Inr rows)
      with Suc.prems p have "r = Some rows" "w' = w1" by simp_all
      with p Inr show ?thesis by (auto intro!: exI [of _ 0])
    qed
  qed
qed

text \<open>A fetch answers from the cache, fails, or remembers what it returns; it leaves the rest of
  the cache and the database alone.\<close>

lemma fetch_cases:
  assumes "fetch_latest label cached remember download out cfg w = Some (r, w')"
  obtains rows where "cached (nwCache w) = (Some rows, zInstant (anchor_of out cfg w))"
      "r = Inr rows" "w' = w\<lparr>nwTick := Suc (nwTick w)\<rparr>"
  | e t where "r = Inl e" "w' = w\<lparr>nwTick := t\<rparr>"
  | rows t where "r = Inr rows"
      "w' = w\<lparr>nwTick := t, nwCache := remember rows (zInstant (anchor_of out cfg w)) (nwCache w)\<rparr>"
proof -
  define w2 where "w2 = warmSession out cfg (clock_read w)"
  have w2: "w2 = w\<lparr>nwTick := Suc (Suc (nwTick w))\<rparr>"
    by (simp add: warmSession_def http_do_def w2_def clock_read_def)
  define a where "a = anchor_of out cfg w"
  obtain c d where c: "cached (nwCache w) = (c, d)" by (metis prod.collapse)
  have n: "nwCache (clock_read w) = nwCache w" by (simp add: clock_read_def)
  have eq: "(if c \<noteq> None \<and> d = zInstant a then Some (Inr (the c), clock_read w)
      else if has_target cfg
      then (case download (ncTargetDate cfg) w2 of
              None \<Rightarrow> None
            | Some (Inl e, w3) \<Rightarrow> Some (Inl (Wrap (label @ '' for '' @
                time_Format ''2006-01-02'' (ncTargetDate cfg) @ '': '') e []), w3)
            | Some (Inr rows, w3) \<Rightarrow>
                Some (Inr rows, w3\<lparr>nwCache := remember rows (zInstant a) (nwCache w3)\<rparr>))
      else (case try_dates 7 download a w2 of
              None \<Rightarrow> None
            | Some (None, w3) \<Rightarrow>
                Some (Inl (Plain (''no '' @ label @ '' available in the last 7 trading days'')), w3)
            | Some (Some rows, w3) \<Rightarrow>
                Some (Inr rows, w3\<lparr>nwCache := remember rows (zInstant a) (nwCache w3)\<rparr>))) = Some (r, w')"
    using assms
    unfolding fetch_latest_def Let_def a_def w2_def n c fst_conv snd_conv .
  show thesis
  proof (cases "c \<noteq> None \<and> d = zInstant a")
    case True
    with eq c that(1) show thesis by (auto simp: a_def clock_read_def)
  next
    case miss: False
    show thesis
    proof (cases "has_target cfg")
      case True
      then obtain r3 w3 where p: "download (ncTargetDate cfg) w2 = Some (r3, w3)"
        using eq miss by (auto split: option.splits)
      from one_call [OF p] have "w3 = w\<lparr>nwTick := Suc (Suc (Suc (nwTick w)))\<rparr>" by (simp add: w2)
      with p eq miss True that(2,3) show thesis by (cases r3) (auto simp: a_def)
    next
      case False
      then obtain r3 w3 where p: "try_dates 7 download a w2 = Some (r3, w3)"
        using eq miss by (auto split: option.splits)
      from try_dates_frame [OF p] obtain t where "w3 = w\<lparr>nwTick := t\<rparr>" by (auto simp: w2)
      with p eq miss False that(2,3) show thesis by (cases r3) (auto simp: a_def)
    qed
  qed
qed

end

lemma downloads_one_call:
  "downloadBhavcopy out cfg day w = Some (r, w') \<Longrightarrow> w' = w\<lparr>nwTick := Suc (nwTick w)\<rparr>"
  "downloadCMBhavcopy out cfg day w = Some (r2, w') \<Longrightarrow> w' = w\<lparr>nwTick := Suc (nwTick w)\<rparr>"
  "downloadIndicesBhavcopy out cfg day w = Some (r3, w') \<Longrightarrow> w' = w\<lparr>nwTick := Suc (nwTick w)\<rparr>"
  by (auto simp: downloadBhavcopy_def downloadCMBhavcopy_def downloadIndicesBhavcopy_def
      download_body_def http_do_def split: sum.splits option.splits if_splits)

interpretation fo: download_contract "downloadBhavcopy out cfg" for out cfg
  by unfold_locales (rule downloads_one_call(1))

interpretation cm: download_contract "downloadCMBhavcopy out cfg" for out cfg
  by unfold_locales (rule downloads_one_call(2))

interpretation idx: download_contract "downloadIndicesBhavcopy out cfg" for out cfg
  by unfold_locales (rule downloads_one_call(3))

section \<open>The file a fetch returns\<close>

lemma fetch_miss:
  assumes "\<not> has_target cfg"
    and "fst (cached (nwCache w)) = None \<or> snd (cached (nwCache w)) \<noteq> zInstant (anchor_of out cfg w)"
  shows "fetch_latest label cached remember download out cfg w =
    (case try_dates 7 download (anchor_of out cfg w) (w\<lparr>nwTick := nwTick w + 2\<rparr>) of
       None \<Rightarrow> None
     | Some (None, w3) \<Rightarrow>
         Some (Inl (Plain (''no '' @ label @ '' available in the last 7 trading days'')), w3)
     | Some (Some rows, w3) \<Rightarrow>
         Some (Inr rows, w3\<lparr>nwCache := remember rows (zInstant (anchor_of out cfg w)) (nwCache w3)\<rparr>))"
proof -
  have "warmSession out cfg (clock_read w) = w\<lparr>nwTick := nwTick w + 2\<rparr>"
    "nwCache (clock_read w) = nwCache w"
    by (simp_all add: warmSession_def http_do_def clock_read_def)
  with assms show ?thesis by (auto simp: fetch_latest_def Let_def)
qed

text \<open>C21. Without a target date and with nothing cached for the anchor date, a fetch of the futures
  and options file goes through the seven dates from the anchor back (the calls of the outside
  are numbered: the clock, the warm-up, then one per date). It returns the rows of the first
  date whose download succeeds, after all later dates failed; it fails only when all seven
  failed.\<close>

theorem fetch_latest_file:
  assumes "\<not> has_target cfg"
    and "nvRows (nwCache w) = None \<or> nvDate (nwCache w) \<noteq> zInstant (anchor_of out cfg w)"
  defines "ts \<equiv> tried_dates 7 (latestTradingDate (noClock out (nwTick w)))"
    and "attempt \<equiv> \<lambda>t i. downloadBhavcopy out cfg t (w\<lparr>nwTick := nwTick w + 2 + i\<rparr>)"
  shows "case fetchLatestBhavcopy out cfg w of
      None \<Rightarrow> True
    | Some (Inr rows, w') \<Rightarrow>
        \<exists>i < 7. \<exists>v. attempt (ts ! i) i = Some (Inr rows, v) \<and>
          (\<forall>j < i. \<exists>e v. attempt (ts ! j) j = Some (Inl e, v))
    | Some (Inl e, w') \<Rightarrow> \<forall>j < 7. \<exists>e v. attempt (ts ! j) j = Some (Inl e, v)"
proof -
  have a: "anchor_of out cfg w = latestTradingDate (noClock out (nwTick w))"
    using assms(1) by (simp add: anchor_of_def)
  have eq: "fetchLatestBhavcopy out cfg w =
    (case try_dates 7 (downloadBhavcopy out cfg) (latestTradingDate (noClock out (nwTick w)))
        (w\<lparr>nwTick := nwTick w + 2\<rparr>) of
       None \<Rightarrow> None
     | Some (None, w3) \<Rightarrow>
         Some (Inl (Plain (''no '' @ ''bhavcopy'' @ '' available in the last 7 trading days'')), w3)
     | Some (Some rows, w3) \<Rightarrow>
         Some (Inr rows, w3\<lparr>nwCache := (nwCache w3)\<lparr>nvRows := if rows = [] then None else Some rows,
           nvDate := zInstant (latestTradingDate (noClock out (nwTick w)))\<rparr>\<rparr>))"
    unfolding fetchLatestBhavcopy_def a [symmetric]
    by (rule fetch_miss) (use assms(1,2) in simp_all)
  show ?thesis
  proof (cases "try_dates 7 (downloadBhavcopy out cfg) (latestTradingDate (noClock out (nwTick w)))
        (w\<lparr>nwTick := nwTick w + 2\<rparr>)")
    case None
    then show ?thesis by (simp add: eq)
  next
    case (Some p)
    obtain r w3 where p: "p = (r, w3)" by (metis prod.collapse)
    show ?thesis
      using fo.try_dates_latest [OF Some [unfolded p]] Some p
      by (cases r) (auto simp: eq attempt_def ts_def)
  qed
qed

end
