(* ===== verification/Nse_Cycle.thy ===== *)
theory Nse_Cycle
  imports Nse_Sync
begin

text \<open>
  \<^verbatim>\<open>SyncInstruments\<close> followed by \<^verbatim>\<open>SyncCandles\<close>, as \<^verbatim>\<open>services.SyncService\<close> runs them: what the
  first leaves in the table and in the cache is what the second needs.
\<close>

section \<open>Instruments and their look-up\<close>

lemma instrument_map_None:
  "instrument_map ins k = None \<longleftrightarrow> k \<notin> (\<lambda>i. (iSymbol i, iExchange i)) ` set ins"
  unfolding instrument_map_def by (induction ins rule: rev_induct) auto

lemma instrument_map_Some:
  "instrument_map ins k = Some x \<Longrightarrow> \<exists>i \<in> set ins. (iSymbol i, iExchange i) = k \<and> iID i = x"
  unfolding instrument_map_def by (induction ins rule: rev_induct) (auto split: if_splits)

text \<open>The instruments the store lists, without a fault.\<close>

lemma list_all_instruments:
  assumes "db_faults d = []"
  obtains ins where "InstrumentStore_List no_filter d = (Inr ins, d)"
    "set ins = toInstrumentModel ` set (db_instruments d)"
  using assms that
  by (auto simp: InstrumentStore_List_def run_sql_no_fault no_filter_def instrument_conds_def
      isFutures_def by_symbol_def scanInstrumentRow_def)

lemma map_of_listed:
  assumes "set ins = toInstrumentModel ` set (db_instruments d)"
  shows "instrument_map ins k \<noteq> None \<longleftrightarrow> k \<in> instrument_key ` set (db_instruments d)"
    and "instrument_map ins k = Some x \<Longrightarrow>
      \<exists>r \<in> set (db_instruments d). instrument_key r = k \<and> eiID r = x"
proof -
  have "(\<lambda>i. (iSymbol i, iExchange i)) ` set ins = instrument_key ` set (db_instruments d)"
    unfolding assms image_image by (simp add: toInstrumentModel_def instrument_key_def)
  then show "instrument_map ins k \<noteq> None \<longleftrightarrow> k \<in> instrument_key ` set (db_instruments d)"
    by (simp add: instrument_map_None del: not_None_eq)
  show "\<exists>r \<in> set (db_instruments d). instrument_key r = k \<and> eiID r = x" if "instrument_map ins k = Some x"
    using instrument_map_Some [OF that] assms
    by (auto simp: toInstrumentModel_def instrument_key_def)
qed

section \<open>Candles without a fault\<close>

lemma insert_new_keys:
  "candle_key ` set (fold insert_new rows table) = candle_key ` set table \<union> candle_key ` set rows"
  by (induction rows arbitrary: table) (auto simp: insert_new_def)

lemma insert_new_extends: "\<exists>new. fold insert_new rows table = table @ new \<and> set new \<subseteq> set rows"
proof (induction rows arbitrary: table)
  case (Cons r rows)
  obtain new where "fold insert_new rows (insert_new r table) = insert_new r table @ new"
    "set new \<subseteq> set rows" using Cons by blast
  moreover obtain x where "insert_new r table = table @ x" "set x \<subseteq> {r}"
    by (cases "candle_key r \<in> candle_key ` set table") (auto simp: insert_new_def)
  ultimately show ?case by (intro exI [of _ "x @ new"]) auto
qed simp

lemma insert_candles_ok:
  assumes f: "db_faults d = []" and c: "cs \<noteq> []"
    and k: "\<And>c. c \<in> set cs \<Longrightarrow> cInstrumentID c \<in> eiID ` set (db_instruments d)"
  shows "\<exists>n d'. InsertBatchIgnoreDuplicates cs d = (Inr n, d') \<and> db_instruments d' = db_instruments d \<and>
    (\<forall>c \<in> set cs. candle_key (stored_candle c) \<in> candle_key ` set (db_candles d'))"
proof -
  define table where "table = fold insert_new (map stored_candle cs) (db_candles d)"
  have no: "no_op d = (Inr (), d)" using f by (simp add: no_op_def run_sql_no_fault)
  obtain new where n: "table = db_candles d @ new" "set new \<subseteq> stored_candle ` set cs"
    using insert_new_extends [of "map stored_candle cs" "db_candles d"] by (auto simp: table_def)
  then have kn: "known_instruments (drop (length (db_candles d)) table) d"
    using k by (auto simp: known_instruments_def list_all_iff)
  have "run_sql (insert_from_staging (map stage_columns cs)) d =
      (Inr (int (length table - length (db_candles d))), d\<lparr>db_candles := table\<rparr>)"
    using f kn by (simp add: run_sql_no_fault insert_from_staging_stored table_def [symmetric])
  moreover have "no_op (d\<lparr>db_candles := table\<rparr>) = (Inr (), d\<lparr>db_candles := table\<rparr>)"
    using f by (simp add: no_op_def run_sql_no_fault)
  ultimately have "InsertBatchIgnoreDuplicates cs d =
      (Inr (int (length table - length (db_candles d))), d\<lparr>db_candles := table\<rparr>)"
    using c no by (simp add: InsertBatchIgnoreDuplicates_def)
  moreover have "\<forall>c \<in> set cs. candle_key (stored_candle c) \<in> candle_key ` set table"
    by (auto simp: table_def insert_new_keys simp del: stored_candle_key)
  ultimately show ?thesis by auto
qed

section \<open>What SyncInstruments leaves\<close>

lemma scan_row_instruments:
  "scInstruments (scan_row row s) =
     scInstruments s @ (case bhavRowToInstrument row of None \<Rightarrow> [] | Some i \<Rightarrow> [i])"
  by (auto simp: scan_row_def Let_def split: option.splits)

lemma scan_rows_instruments: "scInstruments (scan_rows rows) = List.map_filter bhavRowToInstrument rows"
proof (induction rows rule: rev_induct)
  case (snoc row rows)
  then show ?case
    by (simp add: scan_rows_def scan_row_instruments map_filter_snoc)
qed (simp add: scan_rows_def List.map_filter_simps)

lemma scan_row_futures:
  "fst ` set (scFutures s) \<subseteq> fst ` set (scFutures (scan_row row s))"
  "bhavRowToInstrument row = Some i \<Longrightarrow> continuousFuturesType (iInstrumentType i) \<noteq> None \<Longrightarrow>
    brUnderlying row \<noteq> [] \<Longrightarrow> brUnderlying row \<in> fst ` set (scFutures (scan_row row s))"
  by (auto simp: scan_row_def Let_def map_of_eq_None_iff split: option.splits)

lemma scan_rows_futures:
  assumes "row \<in> set rows" "is_future_row row"
  shows "brUnderlying row \<in> fst ` set (scFutures (scan_rows rows))"
proof -
  obtain i where i: "bhavRowToInstrument row = Some i" "continuousFuturesType (iInstrumentType i) \<noteq> None"
    "brUnderlying row \<noteq> []"
    using assms(2)
    by (auto simp: is_future_row_def bhavRowToInstrument_def new_instrument_def split: option.splits)
  show ?thesis using assms(1)
  proof (induction rows rule: rev_induct)
    case (snoc x rows)
    show ?case
    proof (cases "row = x")
      case True
      with scan_row_futures(2) [OF i] show ?thesis by (simp add: scan_rows_def)
    next
      case False
      with snoc scan_row_futures(1) [of "scan_rows rows" x] show ?thesis by (auto simp: scan_rows_def)
    qed
  qed simp
qed

lemma recognised_instrument:
  assumes "foVendorToInstrumentType (brInstrumentType row) \<noteq> None"
  obtains i where "bhavRowToInstrument row = Some i" "iSymbol i = brSymbol row" "iExchange i = ExchangeNFO"
  using assms that by (auto simp: bhavRowToInstrument_def new_instrument_def)

lemma set_map_filter: "set (List.map_filter f xs) = {y. \<exists>x \<in> set xs. f x = Some y}"
  by (induction xs) (auto simp: List.map_filter_simps split: option.splits)

lemma UpsertBatch_keys:
  assumes "UpsertBatch ins d = (Inr u, d')"
  shows "(\<lambda>i. (iSymbol i, iExchange i)) ` set ins \<subseteq> instrument_key ` set (db_instruments d')"
proof (cases "ins = []")
  case False
  obtain rows d1 where q: "queue_upserts ins d = (rows, d1)" by (metis prod.collapse)
  have x: "exec_batch upsert_instrument rows d1 = (Inr (), d')"
    using assms False by (auto simp: UpsertBatch_def q split: prod.splits sum.splits)
  have "instrument_key r = (iSymbol i, iExchange i)" if "r = (instrument_of_model i)\<lparr>eiID := k\<rparr>" for r i k
    using that by (simp add: instrument_key_def instrument_of_model_def)
  then have "list_all2 (\<lambda>i r. instrument_key r = (iSymbol i, iExchange i)) ins rows"
    using queue_upserts_keeps(4) [OF q] by (auto elim!: list_all2_mono)
  then have "(\<lambda>i. (iSymbol i, iExchange i)) ` set ins = instrument_key ` set rows"
    by (induction rule: list_all2_induct) auto
  then show ?thesis using batch_carries(1) [OF x] by auto
qed simp

section \<open>The fetches of one cycle\<close>

text \<open>The equity and index downloads also return.\<close>

locale returning_download = download_contract +
  assumes returns: "download day w \<noteq> None"
begin

lemma try_dates_returns: "try_dates k download day w \<noteq> None"
proof (induction k arbitrary: day w)
  case (Suc k)
  obtain r w1 where "download day w = Some (r, w1)" using returns [of day w] by auto
  with Suc show ?case by (cases r) auto
qed simp

lemma fetch_returns: "fetch_latest label cached remember download out cfg w \<noteq> None"
proof -
  obtain r v where "download (ncTargetDate cfg) (warmSession out cfg (clock_read w)) = Some (r, v)"
    using returns by (metis not_Some_eq prod.collapse)
  moreover obtain r2 v2 where
    "try_dates 7 download (anchor_of out cfg w) (warmSession out cfg (clock_read w)) = Some (r2, v2)"
    using try_dates_returns by (metis not_Some_eq prod.collapse)
  ultimately show ?thesis
    by (cases r; cases r2) (simp_all add: fetch_latest_def Let_def)
qed

end

interpretation cm: returning_download "downloadCMBhavcopy out cfg" for out cfg
  using parseCMCSV_returns
  by unfold_locales (auto simp: downloadCMBhavcopy_def split: prod.splits sum.splits)

interpretation idx: returning_download "downloadIndicesBhavcopy out cfg" for out cfg
  using parseIndicesCSV_returns
  by unfold_locales (auto simp: downloadIndicesBhavcopy_def split: prod.splits sum.splits)

lemma fo_fetch:
  assumes "fetchLatestBhavcopy out cfg w = Some (r, w')"
  shows "nwDB w' = nwDB w"
    and "r = Inr rows \<Longrightarrow> rows \<noteq> [] \<Longrightarrow> nvRows (nwCache w') = Some rows \<and>
      nvDate (nwCache w') = zInstant (anchor_of out cfg w)"
  using assms unfolding fetchLatestBhavcopy_def
  by (cases rule: fo.fetch_cases; force split: if_splits)+

lemma idx_fetch:
  assumes "fetchLatestIndicesBhavcopy out cfg w = Some (r, w')"
  shows "nwDB w' = nwDB w"
    and "nvRows (nwCache w') = nvRows (nwCache w)" "nvDate (nwCache w') = nvDate (nwCache w)"
    and "r = Inr rows \<Longrightarrow> nvIndexRows (nwCache w') = Some rows \<and>
      nvIndexDate (nwCache w') = zInstant (anchor_of out cfg w)"
  using assms unfolding fetchLatestIndicesBhavcopy_def
  by (cases rule: idx.fetch_cases; force)+

lemma idx_fetch_cm:
  assumes "fetchLatestIndicesBhavcopy out cfg w = Some (r, w')"
  shows "nvCMRows (nwCache w') = nvCMRows (nwCache w)" "nvCMDate (nwCache w') = nvCMDate (nwCache w)"
  using assms unfolding fetchLatestIndicesBhavcopy_def
  by (cases rule: idx.fetch_cases; force)+

lemma cm_fetch:
  assumes "fetchLatestCMBhavcopy out cfg w = Some (r, w')"
  shows "nwDB w' = nwDB w"
    and "nvRows (nwCache w') = nvRows (nwCache w)" "nvDate (nwCache w') = nvDate (nwCache w)"
    "nvIndexRows (nwCache w') = nvIndexRows (nwCache w)"
    "nvIndexDate (nwCache w') = nvIndexDate (nwCache w)"
    and "r = Inr rows \<Longrightarrow> nvCMRows (nwCache w') = Some rows \<and>
      nvCMDate (nwCache w') = zInstant (anchor_of out cfg w)"
  using assms unfolding fetchLatestCMBhavcopy_def
  by (cases rule: cm.fetch_cases; force)+

lemma fetch_hit:
  assumes "cached (nwCache w) = (Some rows, zInstant (anchor_of out cfg w))"
  shows "fetch_latest label cached remember download out cfg w = Some (Inr rows, clock_read w)"
proof -
  have "nwCache (clock_read w) = nwCache w" by (simp add: clock_read_def)
  with assms show ?thesis by (simp add: fetch_latest_def Let_def)
qed

lemma fetch_hit_ok:
  assumes "fetch_latest label cached remember download out cfg w = Some (r, w')"
    and "fst (cached (nwCache w)) \<noteq> None" "snd (cached (nwCache w)) = zInstant (anchor_of out cfg w)"
  shows "\<exists>rows. r = Inr rows"
proof -
  obtain rows where "cached (nwCache w) = (Some rows, zInstant (anchor_of out cfg w))"
    using assms(2,3) by (metis option.exhaust prod.collapse)
  from fetch_hit [where cached = cached, OF this, of label remember download] assms(1)
  show ?thesis by simp
qed

text \<open>A file that may be missing: an error remains an error only with a target date.\<close>

lemma optional_Inr:
  assumes "optional_rows cfg what fetch w = Some (Inr rows, w')"
  shows "\<exists>r. fetch w = Some (r, w') \<and> (r = Inr rows \<or> \<not> has_target cfg)"
  using assms by (auto simp: optional_rows_def split: option.splits sum.splits if_splits)

lemma optional_ok:
  assumes "fetch w = Some (r, w')" "\<not> has_target cfg \<or> (\<exists>rows. r = Inr rows)"
  shows "\<exists>rows. optional_rows cfg what fetch w = Some (Inr rows, w')"
  using assms by (cases r) (auto simp: optional_rows_def)

text \<open>What is cached and stored after \<^verbatim>\<open>SyncInstruments\<close>.\<close>

definition ready :: "nse_outside \<Rightarrow> nse_config \<Rightarrow> time \<Rightarrow> bhavRow list \<Rightarrow> nse_world \<Rightarrow> bool" where
  "ready out cfg anchor rows w \<longleftrightarrow>
     nvRows (nwCache w) = Some rows \<and> nvDate (nwCache w) = anchor \<and>
     (has_target cfg \<longrightarrow> nvIndexRows (nwCache w) \<noteq> None \<and> nvIndexDate (nwCache w) = anchor \<and>
        nvCMRows (nwCache w) \<noteq> None \<and> nvCMDate (nwCache w) = anchor) \<and>
     (\<forall>row \<in> set rows.
        (foVendorToInstrumentType (brInstrumentType row) \<noteq> None \<longrightarrow>
           (brSymbol row, ExchangeNFO) \<in> instrument_key ` set (db_instruments (nwDB w))) \<and>
        (is_future_row row \<longrightarrow>
           (brUnderlying row @ ContinuousFuturesSuffix, ExchangeNFO)
             \<in> instrument_key ` set (db_instruments (nwDB w))))"

text \<open>What \<^verbatim>\<open>SyncInstruments\<close> stores once everything is read, and what is in it.\<close>

definition instrument_batch ::
  "bhavRow list \<Rightarrow> string list \<Rightarrow> indexRow list \<Rightarrow> cmRow list \<Rightarrow> instrument list" where
  "instrument_batch rows keys irows crows = scInstruments (scan_rows rows) @
     map (\<lambda>u. continuous_instrument u (the (map_of (scFutures (scan_rows rows)) u))) keys @
     map indexRowToInstrument irows @
     map cmRowToInstrument (filter (\<lambda>r. crSymbol r \<in> set (scUnderlyings (scan_rows rows))) crows)"

lemma batch_instruments:
  assumes "row \<in> set rows"
  shows "foVendorToInstrumentType (brInstrumentType row) \<noteq> None \<Longrightarrow>
      (brSymbol row, ExchangeNFO)
        \<in> (\<lambda>i. (iSymbol i, iExchange i)) ` set (instrument_batch rows keys irows crows)"
    and "\<lbrakk>is_future_row row; set keys = fst ` set (scFutures (scan_rows rows))\<rbrakk> \<Longrightarrow>
      (brUnderlying row @ ContinuousFuturesSuffix, ExchangeNFO)
        \<in> (\<lambda>i. (iSymbol i, iExchange i)) ` set (instrument_batch rows keys irows crows)"
proof -
  assume a: "foVendorToInstrumentType (brInstrumentType row) \<noteq> None"
  obtain i where i: "bhavRowToInstrument row = Some i" "iSymbol i = brSymbol row"
    "iExchange i = ExchangeNFO" by (rule recognised_instrument [OF a])
  then have "i \<in> set (instrument_batch rows keys irows crows)"
    using assms by (auto simp: instrument_batch_def scan_rows_instruments set_map_filter)
  with i show "(brSymbol row, ExchangeNFO)
      \<in> (\<lambda>i. (iSymbol i, iExchange i)) ` set (instrument_batch rows keys irows crows)"
    by (metis (no_types, lifting) image_eqI)
next
  assume "is_future_row row" "set keys = fst ` set (scFutures (scan_rows rows))"
  then have "brUnderlying row \<in> set keys" using scan_rows_futures [OF assms] by simp
  then have "continuous_instrument (brUnderlying row)
      (the (map_of (scFutures (scan_rows rows)) (brUnderlying row)))
      \<in> set (instrument_batch rows keys irows crows)" by (simp add: instrument_batch_def)
  then show "(brUnderlying row @ ContinuousFuturesSuffix, ExchangeNFO)
      \<in> (\<lambda>i. (iSymbol i, iExchange i)) ` set (instrument_batch rows keys irows crows)"
    by (rule rev_image_eqI) (simp add: continuous_instrument_def new_instrument_def)
qed

lemma SyncInstruments_ready:
  assumes s: "SyncInstruments out cfg w = Some (Inr n, w1)"
    and f: "fetchLatestBhavcopy out cfg w = Some (Inr rows, w0)" and ne: "rows \<noteq> []"
    and range: "\<And>n ks. set (noRange out n ks) = set ks"
  shows "ready out cfg (zInstant (anchor_of out cfg w)) rows w1"
proof -
  obtain keys v2 where k: "range_keys out (map fst (scFutures (scan_rows rows))) w0 = (keys, v2)"
    by (metis prod.collapse)
  have kv: "keys = noRange out (nwTick w0) (map fst (scFutures (scan_rows rows)))"
    "v2 = w0\<lparr>nwTick := Suc (nwTick w0)\<rparr>" using k by (simp_all add: range_keys_def)
  then have v2: "nwCache v2 = nwCache w0" "set keys = fst ` set (scFutures (scan_rows rows))"
    by (simp_all add: range)
  obtain irows v3 where i: "optional_rows cfg ''indices bhavcopy''
      (fetchLatestIndicesBhavcopy out cfg) v2 = Some (Inr irows, v3)"
    using s k by (auto simp: SyncInstruments_def f Let_def split: option.splits sum.splits)
  obtain crows v4 where c: "optional_rows cfg ''CM bhavcopy''
      (fetchLatestCMBhavcopy out cfg) v3 = Some (Inr crows, v4)"
    using s k i by (auto simp: SyncInstruments_def f Let_def split: option.splits sum.splits)
  obtain u where "on_nse_db (UpsertBatch (instrument_batch rows keys irows crows)) v4 = (Inr u, w1)"
    using s k i c by (auto simp: SyncInstruments_def f Let_def instrument_batch_def
        split: prod.splits sum.splits)
  then obtain d where d: "UpsertBatch (instrument_batch rows keys irows crows) (nwDB v4) = (Inr u, d)"
    "w1 = v4\<lparr>nwDB := d\<rparr>" by (auto simp: on_nse_db_def split: prod.splits)
  have "(\<lambda>i. (iSymbol i, iExchange i)) ` set (instrument_batch rows keys irows crows)
      \<subseteq> instrument_key ` set (db_instruments (nwDB w1))"
    using UpsertBatch_keys [OF d(1)] d(2) by simp
  note stored = batch_instruments [THEN subsetD [OF this]]
  obtain ri where ri: "fetchLatestIndicesBhavcopy out cfg v2 = Some (ri, v3)"
    "ri = Inr irows \<or> \<not> has_target cfg" using optional_Inr [OF i] by blast
  obtain rc where rc: "fetchLatestCMBhavcopy out cfg v3 = Some (rc, v4)"
    "rc = Inr crows \<or> \<not> has_target cfg" using optional_Inr [OF c] by blast
  have t: "anchor_of out cfg v = ncTargetDate cfg" if "has_target cfg" for v
    using that by (simp add: anchor_of_def)
  have "nvRows (nwCache w1) = Some rows" "nvDate (nwCache w1) = zInstant (anchor_of out cfg w)"
    using fo_fetch(2) [OF f refl ne] v2(1) idx_fetch(2,3) [OF ri(1)] cm_fetch(2,3) [OF rc(1)] d(2)
    by simp_all
  moreover have "nvIndexRows (nwCache w1) \<noteq> None \<and>
      nvIndexDate (nwCache w1) = zInstant (anchor_of out cfg w) \<and>
      nvCMRows (nwCache w1) \<noteq> None \<and> nvCMDate (nwCache w1) = zInstant (anchor_of out cfg w)"
    if h: "has_target cfg"
    using idx_fetch(4) [OF ri(1), of irows] cm_fetch(4-6) [OF rc(1)] ri(2) rc(2) h t [OF h] d(2)
    by auto
  ultimately show ?thesis using stored v2(2) by (simp add: ready_def)
qed

section \<open>SyncCandles after it\<close>

definition has_candle :: "db \<Rightarrow> string \<Rightarrow> string \<Rightarrow> time \<Rightarrow> bool" where
  "has_candle d symbol exchange t \<longleftrightarrow>
     (\<exists>i \<in> set (db_instruments d). instrument_key i = (symbol, exchange) \<and>
        (eiID i, timestamptz t, eodInterval) \<in> candle_key ` set (db_candles d))"

lemma eligible_future:
  assumes "\<And>row. row \<in> set rows \<Longrightarrow> is_future_row row \<Longrightarrow>
      m (brSymbol row, ExchangeNFO) \<noteq> None \<and>
      m (brUnderlying row @ ContinuousFuturesSuffix, ExchangeNFO) \<noteq> None"
  shows "filter (eligible m u) rows = filter (\<lambda>r. is_future_row r \<and> brUnderlying r = u) rows"
  using assms by (intro filter_cong) (auto simp: eligible_iff)

lemma future_recognised: "is_future_row row \<Longrightarrow> foVendorToInstrumentType (brInstrumentType row) \<noteq> None"
  by (auto simp: is_future_row_def split: option.splits)

lemma nearest_mem: "nearest es = Some r \<Longrightarrow> r \<in> set es"
  by (auto simp: nearest_def find_Some_iff)

lemma near_month_id:
  assumes "x \<in> snd ` set (csNearMonth (candle_rows m rows))"
  shows "\<exists>k. m k = Some (cInstrumentID (snd x))"
proof -
  obtain u where "(u, x) \<in> set (csNearMonth (candle_rows m rows))" using assms by auto
  then have "map_of (csNearMonth (candle_rows m rows)) u = Some x"
    by (simp add: map_of_eq_Some_iff distinct_near_month)
  then obtain r where "nearest (filter (eligible m u) rows) = Some r"
    "x = (brExpiry r, bhav_candle (the (m (u @ ContinuousFuturesSuffix, ExchangeNFO))) r)"
    by (auto simp: near_month_candidates)
  moreover from this(1) have "r \<in> set (filter (eligible m u) rows)" by (rule nearest_mem)
  ultimately show ?thesis
    by (intro exI [of _ "(u @ ContinuousFuturesSuffix, ExchangeNFO)"])
      (auto simp: eligible_iff bhav_candle_def eod_candle_def)
qed

text \<open>What \<^verbatim>\<open>SyncCandles\<close> stores once everything is read: the candles of the contracts, the near-month
  candle of each underlying in the order of Go's range, then those of the two optional files.\<close>

definition cycle_batch ::
  "instrument_map \<Rightarrow> bhavRow list \<Rightarrow> string list \<Rightarrow> indexRow list \<Rightarrow> string list \<Rightarrow> cmRow list \<Rightarrow> candle list"
  where
  "cycle_batch m rows keys irows us crows = csCandles (candle_rows m rows) @
     map (\<lambda>u. snd (the (map_of (csNearMonth (candle_rows m rows)) u))) keys @
     index_candles m irows @ cm_candles m us crows"

lemma bhav_candle_key:
  "candle_key (stored_candle (bhav_candle k row)) = (k, timestamptz (brDate row), eodInterval)"
  "cInstrumentID (bhav_candle k row) = k" "cTimestamp (bhav_candle k row) = brDate row"
  "cInterval (bhav_candle k row) = eodInterval"
  by (simp_all add: bhav_candle_def eod_candle_def)

lemma near_month_map:
  "(u, x) \<in> set (csNearMonth (candle_rows m rows)) \<Longrightarrow> map_of (csNearMonth (candle_rows m rows)) u = Some x"
  by (simp add: map_of_eq_Some_iff distinct_near_month)

lemma batch_contract:
  "\<lbrakk>row \<in> set rows; m (brSymbol row, ExchangeNFO) = Some k\<rbrakk> \<Longrightarrow>
   bhav_candle k row \<in> set (cycle_batch m rows keys irows us crows)"
  by (auto simp: cycle_batch_def csCandles_rows set_map_filter)

lemma batch_near_month:
  assumes "(u, x) \<in> set (csNearMonth (candle_rows m rows))"
    and "set keys = fst ` set (csNearMonth (candle_rows m rows))"
  shows "snd x \<in> set (cycle_batch m rows keys irows us crows)"
proof -
  have "u \<in> set keys" using assms by force
  then show ?thesis using near_month_map [OF assms(1)] by (force simp: cycle_batch_def)
qed

lemma batch_ids:
  assumes "c \<in> set (cycle_batch m rows keys irows us crows)"
    and keys: "set keys = fst ` set (csNearMonth (candle_rows m rows))"
  shows "\<exists>k. m k = Some (cInstrumentID c)"
proof -
  let ?near = "map (\<lambda>u. snd (the (map_of (csNearMonth (candle_rows m rows)) u))) keys"
  consider "c \<in> set (csCandles (candle_rows m rows))" | "c \<in> set ?near"
    | "c \<in> set (index_candles m irows)" | "c \<in> set (cm_candles m us crows)"
    using assms(1) by (auto simp: cycle_batch_def)
  then show ?thesis
  proof cases
    case 2
    then obtain u x where "(u, x) \<in> set (csNearMonth (candle_rows m rows))" "c = snd x"
      using keys near_month_map by (force simp del: split_paired_Ex)
    then show ?thesis using near_month_id [of x m rows] by (force simp del: split_paired_Ex)
  qed (clarsimp simp: csCandles_rows set_map_filter index_candles_def cm_candles_def
      bhav_candle_def index_candle_def cm_candle_def eod_candle_def simp del: split_paired_Ex, blast)+
qed

text \<open>With what \<^const>\<open>ready\<close> promises every fetch is answered, and the run is the insertion of that batch.\<close>

lemma SyncCandles_fetched:
  assumes r: "ready out cfg (zInstant (anchor_of out cfg w)) rows w"
    and f: "db_faults (nwDB w) = []" and range: "\<And>n ks. set (noRange out n ks) = set ks"
  obtains ins keys irows crows cs w5 where
    "set ins = toInstrumentModel ` set (db_instruments (nwDB w))"
    "set keys = fst ` set (csNearMonth (candle_rows (instrument_map ins) rows))"
    "cs = cycle_batch (instrument_map ins) rows keys irows (nfo_underlyings ins) crows"
    "nwDB w5 = nwDB w"
    "SyncCandles out cfg w = (if cs = [] then Some (Inr 0, w5)
      else case on_nse_db (InsertBatchIgnoreDuplicates cs) w5 of
             (Inl e, w6) \<Rightarrow> Some (Inl (Wrap ''insert candles: '' e []), w6)
           | (Inr count, w6) \<Rightarrow> Some (Inr count, w6))"
proof -
  obtain ins where l: "InstrumentStore_List no_filter (nwDB w) = (Inr ins, nwDB w)"
    "set ins = toInstrumentModel ` set (db_instruments (nwDB w))"
    by (rule list_all_instruments [OF f])
  have l': "on_nse_db (InstrumentStore_List no_filter) w = (Inr ins, w)"
    by (simp add: on_nse_db_def l)
  have fo: "fetchLatestBhavcopy out cfg w = Some (Inr rows, clock_read w)"
    unfolding fetchLatestBhavcopy_def by (rule fetch_hit) (use r in \<open>simp add: ready_def\<close>)
  let ?near = "csNearMonth (candle_rows (instrument_map ins) rows)"
  obtain keys w3 where k: "range_keys out (map fst ?near) (clock_read w) = (keys, w3)"
    by (metis prod.collapse)
  then have kw: "keys = noRange out (nwTick (clock_read w)) (map fst ?near)"
    "w3 = (clock_read w)\<lparr>nwTick := Suc (nwTick (clock_read w))\<rparr>"
    by (simp_all add: range_keys_def)
  have keys: "set keys = set (map fst ?near)" by (simp only: kw range)
  have w3: "nwCache w3 = nwCache w" "nwDB w3 = nwDB w" by (simp_all add: kw(2) clock_read_def)
  have t: "anchor_of out cfg v = ncTargetDate cfg" if "has_target cfg" for v
    using that by (simp add: anchor_of_def)
  obtain ri w4 where i: "fetchLatestIndicesBhavcopy out cfg w3 = Some (ri, w4)"
    unfolding fetchLatestIndicesBhavcopy_def using idx.fetch_returns by fastforce
  have "\<exists>x. ri = Inr x" if h: "has_target cfg"
    using i unfolding fetchLatestIndicesBhavcopy_def
    by (rule fetch_hit_ok) (use r h w3 t [OF h] in \<open>auto simp: ready_def\<close>)
  then obtain irows where i': "optional_rows cfg ''indices bhavcopy''
      (fetchLatestIndicesBhavcopy out cfg) w3 = Some (Inr irows, w4)"
    using optional_ok [where fetch = "fetchLatestIndicesBhavcopy out cfg", OF i] by blast
  have c4: "nvCMRows (nwCache w4) = nvCMRows (nwCache w)" "nvCMDate (nwCache w4) = nvCMDate (nwCache w)"
    using idx_fetch_cm [OF i] w3(1) by simp_all
  obtain rc w5 where c: "fetchLatestCMBhavcopy out cfg w4 = Some (rc, w5)"
    unfolding fetchLatestCMBhavcopy_def using cm.fetch_returns by fastforce
  have "\<exists>x. rc = Inr x" if h: "has_target cfg"
    using c unfolding fetchLatestCMBhavcopy_def
    by (rule fetch_hit_ok) (use r h c4 t [OF h] in \<open>auto simp: ready_def\<close>)
  then obtain crows where c': "optional_rows cfg ''CM bhavcopy''
      (fetchLatestCMBhavcopy out cfg) w4 = Some (Inr crows, w5)"
    using optional_ok [where fetch = "fetchLatestCMBhavcopy out cfg", OF c] by blast
  have "nwDB w5 = nwDB w" using cm_fetch(1) [OF c] idx_fetch(1) [OF i] w3 by simp
  with l(2) keys [unfolded set_map] refl show thesis
    by (rule that [where irows = irows and crows = crows]) (simp add: SyncCandles_def l' fo k i' c' Let_def cycle_batch_def)
qed

lemma SyncCandles_stores:
  assumes "ready out cfg (zInstant (anchor_of out cfg w)) rows w"
    and f: "db_faults (nwDB w) = []" and "\<And>n ks. set (noRange out n ks) = set ks"
  obtains m keys cs n w' where
    "\<forall>k \<in> instrument_key ` set (db_instruments (nwDB w)). m k \<noteq> None"
    "set keys = fst ` set (csNearMonth (candle_rows m rows))"
    "\<exists>irows us crows. cs = cycle_batch m rows keys irows us crows"
    "SyncCandles out cfg w = Some (Inr n, w')"
    "\<forall>k. \<forall>c \<in> set cs. m k = Some (cInstrumentID c) \<longrightarrow>
       (\<exists>i \<in> set (db_instruments (nwDB w')). instrument_key i = k \<and> eiID i = cInstrumentID c \<and>
         candle_key (stored_candle c) \<in> candle_key ` set (db_candles (nwDB w')))"
proof -
  obtain ins keys irows crows cs w5 where
    l: "set ins = toInstrumentModel ` set (db_instruments (nwDB w))" and
    k: "set keys = fst ` set (csNearMonth (candle_rows (instrument_map ins) rows))" and
    cs: "cs = cycle_batch (instrument_map ins) rows keys irows (nfo_underlyings ins) crows" and
    w5: "nwDB w5 = nwDB w" and
    sync: "SyncCandles out cfg w = (if cs = [] then Some (Inr 0, w5)
      else case on_nse_db (InsertBatchIgnoreDuplicates cs) w5 of
             (Inl e, w6) \<Rightarrow> Some (Inl (Wrap ''insert candles: '' e []), w6)
           | (Inr count, w6) \<Rightarrow> Some (Inr count, w6))"
    by (rule SyncCandles_fetched [OF assms])
  note m = map_of_listed [OF l]
  have known: "cInstrumentID c \<in> eiID ` set (db_instruments (nwDB w5))" if "c \<in> set cs" for c
    using batch_ids [OF that [unfolded cs] k] m(2) w5 by (force simp del: split_paired_Ex)
  have "\<exists>n w'. SyncCandles out cfg w = Some (Inr n, w') \<and>
      db_instruments (nwDB w') = db_instruments (nwDB w) \<and>
      (\<forall>c \<in> set cs. candle_key (stored_candle c) \<in> candle_key ` set (db_candles (nwDB w')))"
  proof (cases "cs = []")
    case False
    have "db_faults (nwDB w5) = []" using f w5 by simp
    then obtain n d' where "InsertBatchIgnoreDuplicates cs (nwDB w5) = (Inr n, d')"
      "db_instruments d' = db_instruments (nwDB w5)"
      "\<forall>c \<in> set cs. candle_key (stored_candle c) \<in> candle_key ` set (db_candles d')"
      using insert_candles_ok [OF _ False known] by blast
    then show ?thesis using sync False w5 by (simp add: on_nse_db_def)
  qed (use sync w5 in auto)
  then obtain n w' where w': "SyncCandles out cfg w = Some (Inr n, w')"
    "db_instruments (nwDB w') = db_instruments (nwDB w)"
    "\<And>c. c \<in> set cs \<Longrightarrow> candle_key (stored_candle c) \<in> candle_key ` set (db_candles (nwDB w'))"
    by blast
  have "\<exists>i \<in> set (db_instruments (nwDB w')). instrument_key i = q \<and> eiID i = cInstrumentID c \<and>
      candle_key (stored_candle c) \<in> candle_key ` set (db_candles (nwDB w'))"
    if "c \<in> set cs" "instrument_map ins q = Some (cInstrumentID c)" for q c
    using m(2) [OF that(2)] w'(2) w'(3) [OF that(1)] by auto
  with m(1) k cs w'(1) show thesis
    by (intro that [of "instrument_map ins"]) (blast | force simp del: not_None_eq)+
qed

lemma SyncCandles_ready:
  assumes r: "ready out cfg (zInstant (anchor_of out cfg w)) rows w"
    and f: "db_faults (nwDB w) = []" and range: "\<And>n ks. set (noRange out n ks) = set ks"
  shows "\<exists>k w'. SyncCandles out cfg w = Some (Inr k, w') \<and>
    (\<forall>row \<in> set rows. foVendorToInstrumentType (brInstrumentType row) \<noteq> None \<longrightarrow>
       has_candle (nwDB w') (brSymbol row) ExchangeNFO (brDate row)) \<and>
    (\<forall>u row. nearest (filter (\<lambda>r. is_future_row r \<and> brUnderlying r = u) rows) = Some row \<longrightarrow>
       has_candle (nwDB w') (u @ ContinuousFuturesSuffix) ExchangeNFO (brDate row))"
proof -
  obtain m keys cs n w' where
    m: "\<forall>k \<in> instrument_key ` set (db_instruments (nwDB w)). m k \<noteq> None" and
    keys: "set keys = fst ` set (csNearMonth (candle_rows m rows))" and
    cs: "\<exists>irows us crows. cs = cycle_batch m rows keys irows us crows" and
    run: "SyncCandles out cfg w = Some (Inr n, w')" and
    kept: "\<forall>k. \<forall>c \<in> set cs. m k = Some (cInstrumentID c) \<longrightarrow>
       (\<exists>i \<in> set (db_instruments (nwDB w')). instrument_key i = k \<and> eiID i = cInstrumentID c \<and>
         candle_key (stored_candle c) \<in> candle_key ` set (db_candles (nwDB w')))"
    by (rule SyncCandles_stores [OF assms])
  have stored: "has_candle (nwDB w') symbol ExchangeNFO (brDate row)"
    if "m (symbol, ExchangeNFO) = Some x" "bhav_candle x row \<in> set cs" for symbol x row
    using kept [rule_format, OF that(2), of "(symbol, ExchangeNFO)"] that(1)
    by (auto simp: has_candle_def bhav_candle_key)
  have known: "m (brSymbol row, ExchangeNFO) \<noteq> None"
    if "row \<in> set rows" "foVendorToInstrumentType (brInstrumentType row) \<noteq> None" for row
    using m r that unfolding ready_def by blast
  have cont: "m (brUnderlying row @ ContinuousFuturesSuffix, ExchangeNFO) \<noteq> None"
    if "row \<in> set rows" "is_future_row row" for row
    using m r that unfolding ready_def by blast
  have el: "filter (eligible m u) rows = filter (\<lambda>r. is_future_row r \<and> brUnderlying r = u) rows" for u
    using known cont future_recognised by (intro eligible_future) blast
  have "has_candle (nwDB w') (brSymbol row) ExchangeNFO (brDate row)"
    if a: "row \<in> set rows" "foVendorToInstrumentType (brInstrumentType row) \<noteq> None" for row
    using known [OF a] cs a(1) stored batch_contract by blast
  moreover have "has_candle (nwDB w') (u @ ContinuousFuturesSuffix) ExchangeNFO (brDate row)"
    if n: "nearest (filter (\<lambda>r. is_future_row r \<and> brUnderlying r = u) rows) = Some row" for u row
  proof -
    have mem: "row \<in> set rows" "is_future_row row" "brUnderlying row = u"
      using nearest_mem [OF n] by auto
    obtain x where x: "m (u @ ContinuousFuturesSuffix, ExchangeNFO) = Some x"
      using cont [OF mem(1,2)] mem(3) by blast
    have "map_of (csNearMonth (candle_rows m rows)) u = Some (brExpiry row, bhav_candle x row)"
      by (simp add: near_month_candidates el n x)
    then have "bhav_candle x row \<in> set cs" using batch_near_month keys cs map_of_SomeD by fastforce
    with x show ?thesis by (rule stored)
  qed
  ultimately show ?thesis using run by blast
qed

text \<open>C17. A cycle without further faults. After \<^verbatim>\<open>SyncInstruments\<close> succeeded on a futures and options
  file that has rows, \<^verbatim>\<open>SyncCandles\<close> with the same anchor date and a database that answers
  succeeds, whatever the outside does: every row of a known instrument type has a candle under
  its contract, and the continuous contract of every underlying with a live future has a candle
  of the date of the near-month row, in whatever order Go iterates over its maps.\<close>

theorem sync_cycle:
  assumes "SyncInstruments out cfg w = Some (Inr n, w1)"
    and "fetchLatestBhavcopy out cfg w = Some (Inr rows, w0)" and "rows \<noteq> []"
    and "zInstant (anchor_of out cfg w1) = zInstant (anchor_of out cfg w)"
    and "db_faults (nwDB w1) = []" and "\<And>n ks. set (noRange out n ks) = set ks"
  shows "\<exists>k w2. SyncCandles out cfg w1 = Some (Inr k, w2) \<and>
    (\<forall>row \<in> set rows. foVendorToInstrumentType (brInstrumentType row) \<noteq> None \<longrightarrow>
       has_candle (nwDB w2) (brSymbol row) ExchangeNFO (brDate row)) \<and>
    (\<forall>u row. nearest (filter (\<lambda>r. is_future_row r \<and> brUnderlying r = u) rows) = Some row \<longrightarrow>
       has_candle (nwDB w2) (u @ ContinuousFuturesSuffix) ExchangeNFO (brDate row))"
  using SyncCandles_ready [of out cfg w1 rows] SyncInstruments_ready [OF assms(1-3,6)] assms(4-6)
  by simp

section \<open>A cycle on a small file\<close>

text \<open>One index future; the other two files are missing. The columns are in no usual order.\<close>

definition demo_header :: "string list" where
  "demo_header = [''XpryDt'', ''ClsPric'', ''FinInstrmNm'', ''OpnPric'', ''TckrSymb'', ''HghPric'', ''LwPric'',
     ''FinInstrmTp'']"

definition demo_record :: "string list" where
  "demo_record = [''28-APR-2026'', ''5'', ''NF'', ''5'', ''N'', ''6'', ''4'', ''IDF'']"

definition demo_out :: nse_outside where
  "demo_out = \<lparr>noClock = \<lambda>_. time_Date 2026 4 10 + 12 * hour,
     noDo = \<lambda>_ req. Inr \<lparr>rpStatus = 200, rpBody = bytes_reader []\<rparr>,
     noUnzip = \<lambda>_. Inr [\<lparr>zfName = ''fo.CSV'', zfOpen = Inr (file_of demo_header [demo_record])\<rparr>],
     noRange = \<lambda>_ ks. ks\<rparr>"

definition demo_nse :: nse_config where "demo_nse = fst (NewEODProvider [])"

definition demo_nse_world :: nse_world where
  "demo_nse_world = \<lparr>nwTick = 0, nwCache = snd (NewEODProvider []), nwDB = empty_db 0\<rparr>"

definition demo_row :: bhavRow where
  "demo_row = \<lparr>brInstrumentType = ''IDF'', brSymbol = ''NF'', brUnderlying = ''N'',
     brExpiry = time_Date 2026 4 28, brStrike = 0, brOptionType = [], brOpen = f_of_int 5,
     brHigh = f_of_int 6, brLow = f_of_int 4, brClose = f_of_int 5, brVolume = 0, brLotSize = 0,
     brDate = time_Date 2026 4 10\<rparr>"

lemma demo_plain: "plain_file demo_header [demo_record]" by code_simp

lemma demo_parse_row:
  "parseRow demo_record (fo_columns (header_index demo_header)) (time_Date 2026 4 10) = Inr demo_row"
  by code_simp

lemma demo_anchor:
  "latestTradingDate (time_Date 2026 4 10 + 12 * hour) = ist (time_Date 2026 4 10)"
  by code_simp

lemma demo_parsed: "parseBhavCSV (file_of demo_header [demo_record]) (time_Date 2026 4 10) = Some (Inr [demo_row])"
proof -
  have "csvColInstrumentName \<in> TrimSpace ` set demo_header" by code_simp
  moreover have "plain_record demo_header" "list_all plain_record [demo_record]"
    "length demo_record = length demo_header" by code_simp+
  ultimately show ?thesis
    unfolding parsers_are_parse_file
    by (subst parse_file_plain) (simp_all add: demo_parse_row succeeded_def List.map_filter_simps)
qed

lemma demo_no_target: "\<not> has_target demo_nse"
  by (simp add: has_target_def demo_nse_def NewEODProvider_def utc_def)

lemma demo_anchor_of: "anchor_of demo_out demo_nse w = ist (time_Date 2026 4 10)"
  using demo_anchor by (simp add: anchor_of_def demo_no_target demo_out_def)

lemma demo_download_body:
  "download_body demo_out cfg url w = (Inr [], w\<lparr>nwTick := Suc (nwTick w)\<rparr>)"
  by (simp add: download_body_def http_do_def demo_out_def read_limited_def bytes_reader_def maxBhavSize_def)

lemma demo_download: "downloadBhavcopy demo_out demo_nse (ist (time_Date 2026 4 10)) w =
    Some (Inr [demo_row], w\<lparr>nwTick := Suc (nwTick w)\<rparr>)"
proof -
  have "HasSuffix (ToLower ''fo.CSV'') ''.csv''" by code_simp
  then show ?thesis
    by (simp add: downloadBhavcopy_def demo_download_body)
      (simp add: demo_out_def demo_parsed ist_def)
qed

lemma demo_fetch: "fetchLatestBhavcopy demo_out demo_nse demo_nse_world =
    Some (Inr [demo_row], \<lparr>nwTick = 3, nwCache = \<lparr>nvRows = Some [demo_row],
      nvDate = time_Date 2026 4 10, nvIndexRows = None, nvIndexDate = zero_time,
      nvCMRows = None, nvCMDate = zero_time\<rparr>, nwDB = empty_db 0\<rparr>)"
proof -
  have "zInstant (ist t) = t" for t by (simp add: ist_def)
  then show ?thesis unfolding fetchLatestBhavcopy_def
    by (subst fetch_miss)
      (simp_all add: demo_no_target demo_anchor_of demo_nse_world_def NewEODProvider_def
        numeral_eq_Suc demo_download)
qed

lemma empty_header: "read_header (bytes_reader []) = Inl (Wrap ''read header: '' io_EOF [])"
  using Read_end [of 0]
  by (simp add: read_header_def NewReader_def reader_at_def csv_text_def)

lemma demo_missing:
  "downloadIndicesBhavcopy demo_out cfg day w = Some (Inl (Wrap ''read header: '' io_EOF []), w\<lparr>nwTick := Suc (nwTick w)\<rparr>)"
  "downloadCMBhavcopy demo_out cfg day w = Some (Inl (Wrap ''read header: '' io_EOF []), w\<lparr>nwTick := Suc (nwTick w)\<rparr>)"
  by (simp_all add: downloadIndicesBhavcopy_def downloadCMBhavcopy_def demo_download_body
      parseIndicesCSV_def parseCMCSV_def empty_header)

lemma all_missing:
  assumes "\<And>day w. download day w = Some (Inl e, w\<lparr>nwTick := Suc (nwTick w)\<rparr>)"
  shows "try_dates k download day w = Some (None, w\<lparr>nwTick := nwTick w + k\<rparr>)"
  by (induction k arbitrary: day w) (simp_all add: assms)

lemma demo_optional:
  "nvIndexRows (nwCache w) = None \<Longrightarrow> optional_rows demo_nse what (fetchLatestIndicesBhavcopy demo_out demo_nse) w =
     Some (Inr [], w\<lparr>nwTick := nwTick w + 9\<rparr>)"
  "nvCMRows (nwCache w) = None \<Longrightarrow> optional_rows demo_nse what (fetchLatestCMBhavcopy demo_out demo_nse) w =
     Some (Inr [], w\<lparr>nwTick := nwTick w + 9\<rparr>)"
  by (simp_all add: optional_rows_def fetchLatestIndicesBhavcopy_def fetchLatestCMBhavcopy_def
      fetch_miss demo_no_target demo_missing all_missing)

definition demo_instruments :: "instrument list" where
  "demo_instruments = scInstruments (scan_rows [demo_row]) @
     [continuous_instrument ''N'' (InstrumentTypeFuturesIndexCont, 1)]"

lemma demo_upsert: "fst (UpsertBatch demo_instruments (empty_db 0)) = Inr ()"
  and demo_upsert_faults: "db_faults (snd (UpsertBatch demo_instruments (empty_db 0))) = []"
  and demo_scan: "scFutures (scan_rows [demo_row]) = [(''N'', InstrumentTypeFuturesIndexCont, 1)]"
  by code_simp+

lemma demo_range: "noRange demo_out n ks = ks" by (simp add: demo_out_def)

lemma demo_sync: "\<exists>w1. SyncInstruments demo_out demo_nse demo_nse_world = Some (Inr 2, w1) \<and>
    db_faults (nwDB w1) = []"
proof -
  have l: "length (scInstruments (scan_rows [demo_row])) = 1" by code_simp
  show ?thesis
    using demo_upsert demo_upsert_faults l
    by (cases "UpsertBatch demo_instruments (empty_db 0)")
      (simp add: SyncInstruments_def demo_fetch demo_scan range_keys_def demo_optional on_nse_db_def
        demo_instruments_def demo_range Let_def)
qed

lemma sync_cycle_witness:
  "\<exists>w1 k w2. SyncInstruments demo_out demo_nse demo_nse_world = Some (Inr 2, w1) \<and>
    SyncCandles demo_out demo_nse w1 = Some (Inr k, w2) \<and>
    has_candle (nwDB w2) ''NF'' ''NFO'' (time_Date 2026 4 10) \<and>
    has_candle (nwDB w2) ''N-FUTCONT'' ''NFO'' (time_Date 2026 4 10)"
proof -
  obtain w1 where w1: "SyncInstruments demo_out demo_nse demo_nse_world = Some (Inr 2, w1)"
    "db_faults (nwDB w1) = []" using demo_sync by blast
  have "set (noRange demo_out n ks) = set ks" for n ks by (simp add: demo_range)
  with sync_cycle [OF w1(1) demo_fetch] w1(2) obtain k w2 where
    s: "SyncCandles demo_out demo_nse w1 = Some (Inr k, w2)"
    and a: "\<forall>row \<in> set [demo_row]. foVendorToInstrumentType (brInstrumentType row) \<noteq> None \<longrightarrow>
       has_candle (nwDB w2) (brSymbol row) ExchangeNFO (brDate row)"
    and b: "\<forall>u row. nearest (filter (\<lambda>r. is_future_row r \<and> brUnderlying r = u) [demo_row]) = Some row \<longrightarrow>
       has_candle (nwDB w2) (u @ ContinuousFuturesSuffix) ExchangeNFO (brDate row)"
    by (auto simp: demo_anchor_of)
  have "foVendorToInstrumentType (brInstrumentType demo_row) \<noteq> None"
    "nearest (filter (\<lambda>r. is_future_row r \<and> brUnderlying r = ''N'') [demo_row]) = Some demo_row"
    by code_simp+
  with a b have "has_candle (nwDB w2) ''NF'' ''NFO'' (time_Date 2026 4 10)"
    "has_candle (nwDB w2) (''N'' @ ContinuousFuturesSuffix) ''NFO'' (time_Date 2026 4 10)"
    by (fastforce simp: demo_row_def ExchangeNFO_def)+
  with w1 s show ?thesis by (auto simp: ContinuousFuturesSuffix_def)
qed

lemma fetch_latest_file_witness:
  "\<exists>i < 7. \<exists>v. downloadBhavcopy demo_out demo_nse (tried_dates 7 (ist (time_Date 2026 4 10)) ! i)
     (demo_nse_world\<lparr>nwTick := nwTick demo_nse_world + 2 + i\<rparr>) = Some (Inr [demo_row], v)"
proof -
  have "latestTradingDate (noClock demo_out (nwTick demo_nse_world)) = ist (time_Date 2026 4 10)"
    using demo_anchor by (simp add: demo_out_def)
  moreover have "nvRows (nwCache demo_nse_world) = None"
    by (simp add: demo_nse_world_def NewEODProvider_def)
  ultimately show ?thesis
    using fetch_latest_file [of demo_nse demo_nse_world demo_out] demo_no_target
    by (simp add: demo_fetch) blast
qed

lemma column_order_witness:
  "map_option succeeded (parseBhavCSV (file_of (permute [2, 0, 1, 3, 4, 7, 6, 5] demo_header)
     [permute [2, 0, 1, 3, 4, 7, 6, 5] demo_record]) (time_Date 2026 4 10)) = Some (Some [demo_row])"
proof -
  have "permutes_to [2, 0, 1, 3, 4, 7, 6, 5] (length demo_header)" by code_simp
  from column_order [OF demo_plain this] show ?thesis by (simp add: demo_parsed succeeded_def)
qed

end
