(* ===== verification/Sync_Service.thy ===== *)
theory Sync_Service
  imports Nse_Cycle
begin

text \<open>
  Providers of market data behind their interface (\<^verbatim>\<open>internal/models/provider.go\<close>), their registry,
  the vendor stub, and the sync service, which runs a provider and records how it went. A
  provider is a record of its methods over the world of the NSE provider: its remembered rows,
  the database and the number of calls made.
\<close>

section \<open>The interface\<close>

record market_data_provider =
  mpName :: string
  mpCapabilities :: "string list"
  mpSyncInstruments :: "goint nse"
  mpSyncCandles :: "goint nse"
  mpHealthy :: "nse_world \<Rightarrow> bool \<times> nse_world"

definition CapIntradayActive :: string where [go_const]: "CapIntradayActive = ''intraday_active''"
definition CapIntradayExpiredFO :: string where
  [go_const]: "CapIntradayExpiredFO = ''intraday_expired_fo''"
definition CapLiveTicks :: string where [go_const]: "CapLiveTicks = ''live_ticks''"

record provider_status =
  psName :: string
  psCapabilities :: "string list"
  psHealthy :: bool

definition HasCapability :: "market_data_provider \<Rightarrow> string \<Rightarrow> bool" where
  "HasCapability p capability \<longleftrightarrow> capability \<in> set (mpCapabilities p)"

definition nse_provider :: "nse_outside \<Rightarrow> nse_config \<Rightarrow> market_data_provider" where
  "nse_provider out cfg =
     \<lparr>mpName = EODProvider_Name, mpCapabilities = EODProvider_Capabilities,
      mpSyncInstruments = SyncInstruments out cfg, mpSyncCandles = SyncCandles out cfg,
      mpHealthy = EODProvider_Healthy out cfg\<rparr>"

definition stub_error :: err where "stub_error = Plain ''vendor provider not implemented''"

definition vendor_stub :: market_data_provider where
  "vendor_stub =
     \<lparr>mpName = ''vendor'',
      mpCapabilities = [CapIntradayActive, CapIntradayExpiredFO, CapLiveTicks],
      mpSyncInstruments = (\<lambda>w. Some (Inl stub_error, w)),
      mpSyncCandles = (\<lambda>w. Some (Inl stub_error, w)), mpHealthy = (\<lambda>w. (False, w))\<rparr>"

section \<open>The registry\<close>

text \<open>A Go map from names to providers, as an association list without equal keys. Go visits a
  map in an order of its own: \<open>order\<close> is the one of the occasion.\<close>

type_synonym provider_registry = "(string \<times> market_data_provider) list"

definition NewProviderRegistry :: provider_registry where "NewProviderRegistry = []"

definition Registry_Register :: "provider_registry \<Rightarrow> market_data_provider \<Rightarrow> provider_registry" where
  "Registry_Register r p = AList.update (mpName p) p r"

definition Registry_Get :: "provider_registry \<Rightarrow> string \<Rightarrow> market_data_provider option" where
  "Registry_Get r name = map_of r name"

definition Registry_All :: "(string list \<Rightarrow> string list) \<Rightarrow> provider_registry \<Rightarrow> market_data_provider list" where
  "Registry_All order r = map (\<lambda>name. the (map_of r name)) (order (map fst r))"

definition GetWithCapability ::
  "(string list \<Rightarrow> string list) \<Rightarrow> provider_registry \<Rightarrow> string \<Rightarrow> market_data_provider res" where
  "GetWithCapability order r capability =
     (case find (\<lambda>p. HasCapability p capability) (Registry_All order r) of
        Some p \<Rightarrow> Inr p
      | None \<Rightarrow> Inl (Plain (''no provider with capability '' @ quoted capability)))"

primrec statuses_of :: "market_data_provider list \<Rightarrow> nse_world \<Rightarrow> provider_status list \<times> nse_world" where
  "statuses_of [] w = ([], w)"
| "statuses_of (p # ps) w =
     (let (healthy, w1) = mpHealthy p w;
          (rest, w2) = statuses_of ps w1
      in (\<lparr>psName = mpName p, psCapabilities = mpCapabilities p, psHealthy = healthy\<rparr> # rest, w2))"

definition Registry_Statuses ::
  "(string list \<Rightarrow> string list) \<Rightarrow> provider_registry \<Rightarrow> nse_world \<Rightarrow> provider_status list \<times> nse_world" where
  "Registry_Statuses order r = statuses_of (Registry_All order r)"

section \<open>The market service\<close>

definition ListInstruments :: "instrument_filter \<Rightarrow> db \<Rightarrow> instrument list res \<times> db" where
  "ListInstruments f = InstrumentStore_List f"

definition GetInstrument :: "uuid \<Rightarrow> db \<Rightarrow> instrument res \<times> db" where
  "GetInstrument i = InstrumentStore_GetByID i"

definition GetCandles :: "candle_filter \<Rightarrow> db \<Rightarrow> candle list res \<times> db" where
  "GetCandles f = Query f"

definition ProviderStatuses ::
  "(string list \<Rightarrow> string list) \<Rightarrow> provider_registry \<Rightarrow> nse_world \<Rightarrow> provider_status list \<times> nse_world" where
  "ProviderStatuses order r = Registry_Statuses order r"

section \<open>The sync service\<close>

text \<open>The result of \<^verbatim>\<open>SyncProvider\<close> is a pair of Go values, the run or nil and the error or nil; both
  are there when the provider failed.\<close>

type_synonym sync_result = "sync_run option \<times> err option"

definition completeSyncRun ::
  "sync_run \<Rightarrow> goint \<Rightarrow> err option \<Rightarrow> nse_world \<Rightarrow> sync_result \<times> nse_world" where
  "completeSyncRun run n syncErr w =
     (let status = (if syncErr = None then SyncRunCompleted else SyncRunFailed);
          errMsg = map_option err_msg syncErr
      in case on_nse_db (Complete (syID run) status n errMsg) w of
           (Inl _, w') \<Rightarrow> ((None, Some (Plain ''failed to update sync run'')), w')
         | (Inr _, w') \<Rightarrow>
             ((Some (run\<lparr>syStatus := status, syRecordsProcessed := n, syErrorMessage := errMsg\<rparr>),
               syncErr), w'))"

definition new_sync_run :: "uuid \<Rightarrow> string \<Rightarrow> sync_run" where
  "new_sync_run i name =
     \<lparr>syID = i, syProvider = name, sySyncType = SyncTypeFull, syStatus = SyncRunRunning,
      syRecordsProcessed = 0, syErrorMessage = None, syStartedAt = zero_time, syCompletedAt = None\<rparr>"

definition SyncProvider :: "provider_registry \<Rightarrow> string \<Rightarrow> nse_world \<Rightarrow> (sync_result \<times> nse_world) option" where
  "SyncProvider reg name w =
     (case Registry_Get reg name of
        None \<Rightarrow> Some ((None, Some (Plain (''provider not found: '' @ name))), w)
      | Some p \<Rightarrow>
          (let (i, d) = uuid_New (nwDB w); run = new_sync_run i name
           in case on_nse_db (SyncRunStore_Create run) (w\<lparr>nwDB := d\<rparr>) of
                (Inl _, w1) \<Rightarrow> Some ((None, Some (Plain ''failed to create sync run'')), w1)
              | (Inr run, w1) \<Rightarrow>
           (case mpSyncInstruments p w1 of
              None \<Rightarrow> None
            | Some (Inl instErr, w2) \<Rightarrow> Some (completeSyncRun run 0 (Some instErr) w2)
            | Some (Inr instCount, w2) \<Rightarrow>
           (case mpSyncCandles p w2 of
              None \<Rightarrow> None
            | Some (Inl candleErr, w3) \<Rightarrow> Some (completeSyncRun run instCount (Some candleErr) w3)
            | Some (Inr candleCount, w3) \<Rightarrow>
                Some (completeSyncRun run (wrap64 (instCount + candleCount)) None w3)))))"

section \<open>What syncing leaves alone\<close>

text \<open>A provider writes instruments and candles; every other table stays as it is.\<close>

definition market_frame :: "db \<Rightarrow> db \<Rightarrow> bool" where
  "market_frame d d' \<longleftrightarrow>
     db_sync_runs d' = db_sync_runs d \<and> db_backtest_runs d' = db_backtest_runs d \<and>
     db_strategies d' = db_strategies d \<and> db_users d' = db_users d \<and>
     db_refresh_tokens d' = db_refresh_tokens d \<and> db_identity d' = db_identity d \<and>
     db_migrations d' = db_migrations d \<and> db_now d' = db_now d \<and> db_next d \<le> db_next d'"

lemma market_frame_refl [simp]: "market_frame d d"
  by (simp add: market_frame_def)

lemma market_frame_trans: "market_frame d d1 \<Longrightarrow> market_frame d1 d2 \<Longrightarrow> market_frame d d2"
  by (auto simp: market_frame_def)

lemma market_frame_faults [simp]: "market_frame d (d\<lparr>db_faults := fs\<rparr>)"
  by (simp add: market_frame_def)

lemma market_frame_rollback: "market_frame d d' \<Longrightarrow> market_frame d (rollback d d')"
  by (simp add: market_frame_def rollback_def)

interpretation market_upserts: batch_step upsert_instrument market_frame
proof
  show "market_frame d (snd (upsert_instrument r d))" for r d
  proof (cases "upsert_instrument r d")
    case (Pair a b)
    then show ?thesis by (cases rule: upsert_cases) (simp_all add: Pair market_frame_def)
  qed
qed (auto intro: market_frame_trans)

lemma queue_frame: "market_frame d (snd (queue_upserts ins d))"
proof (induction ins arbitrary: d)
  case (Cons i ins)
  have "market_frame d (snd (fresh_instrument_id (instrument_of_model i) d))"
    by (simp add: fresh_instrument_id_def uuid_New_def market_frame_def)
  moreover obtain row d1 where f: "fresh_instrument_id (instrument_of_model i) d = (row, d1)" by fastforce
  moreover obtain rows d2 where q: "queue_upserts ins d1 = (rows, d2)" by fastforce
  ultimately have "market_frame d d1" "market_frame d1 d2" using Cons.IH [of d1] by simp_all
  then have "market_frame d d2" by (rule market_frame_trans)
  then show ?case by (simp add: f q)
qed simp

lemma UpsertBatch_frame: "market_frame d (snd (UpsertBatch ins d))"
proof -
  obtain rows d1 where q: "queue_upserts ins d = (rows, d1)" by fastforce
  have d1: "market_frame d d1" using queue_frame [of d ins] q by simp
  obtain r d2 where x: "exec_batch upsert_instrument rows d1 = (r, d2)" by fastforce
  have "market_frame d1 d2" using market_upserts.keeps_batch [of d1 rows] x by simp
  then have "market_frame d d2" using d1 by (blast intro: market_frame_trans)
  then show ?thesis
    by (auto simp: UpsertBatch_def q x market_frame_rollback split: sum.split)
qed

lemma read_frame: "(\<And>d. snd (f d) = d) \<Longrightarrow> market_frame d (snd (run_sql f d))"
  by (rule run_sql_cases [of f d]) simp_all

lemma InstrumentStore_List_frame: "market_frame d (snd (InstrumentStore_List f d))"
  unfolding InstrumentStore_List_def by (rule read_frame) (simp add: Let_def)

lemma insert_staging_frame: "market_frame d (snd (run_sql (insert_from_staging rows) d))"
  by (rule run_sql_cases [of "insert_from_staging rows" d])
    (simp_all add: insert_from_staging_def Let_def market_frame_def)

lemma InsertBatch_frame: "market_frame d (snd (InsertBatchIgnoreDuplicates cs d))"
proof -
  have n: "no_op v = (r, v') \<Longrightarrow> market_frame v v'" for v v' :: db and r
    by (auto dest: no_op_keeps)
  have i: "run_sql (insert_from_staging (map stage_columns cs)) v = (r, v') \<Longrightarrow> market_frame v v'" for v v' r
    using insert_staging_frame [of v "map stage_columns cs"] by simp
  show ?thesis
    by (auto simp: InsertBatchIgnoreDuplicates_def split: prod.split sum.split dest!: n i)
      (meson market_frame_trans market_frame_rollback)+
qed

lemma on_nse_db_frame:
  assumes "on_nse_db f w = (r, w')" "market_frame (nwDB w) (snd (f (nwDB w)))"
  shows "market_frame (nwDB w) (nwDB w')"
  using assms by (auto simp: on_nse_db_def split: prod.splits)

lemma optional_frame:
  assumes "optional_rows cfg what fetch w = Some (r, w')"
    and "\<And>r v. fetch w = Some (r, v) \<Longrightarrow> nwDB v = nwDB w"
  shows "nwDB w' = nwDB w"
  using assms by (auto simp: optional_rows_def split: option.splits sum.splits if_splits)

lemma range_keys_db: "range_keys out keys w = (ks, w') \<Longrightarrow> nwDB w' = nwDB w"
  by (auto simp: range_keys_def)

lemma SyncInstruments_frame:
  assumes "SyncInstruments out cfg w = Some (r, w')"
  shows "market_frame (nwDB w) (nwDB w')"
proof -
  obtain r1 w1 where f: "fetchLatestBhavcopy out cfg w = Some (r1, w1)"
    using assms by (cases "fetchLatestBhavcopy out cfg w") (auto simp: SyncInstruments_def)
  note d1 = fo_fetch(1) [OF f]
  show ?thesis
  proof (cases r1)
    case (Inr rows)
    obtain keys w2 where k: "range_keys out (map fst (scFutures (scan_rows rows))) w1 = (keys, w2)" by fastforce
    note d2 = range_keys_db [OF k]
    obtain r3 w3 where i: "optional_rows cfg ''indices bhavcopy'' (fetchLatestIndicesBhavcopy out cfg) w2 = Some (r3, w3)"
      using assms by (cases "optional_rows cfg ''indices bhavcopy'' (fetchLatestIndicesBhavcopy out cfg) w2")
        (auto simp: SyncInstruments_def f Inr k Let_def)
    have d3: "nwDB w3 = nwDB w2" using i by (rule optional_frame) (rule idx_fetch(1))
    show ?thesis
    proof (cases r3)
      case (Inl e)
      then show ?thesis using assms d1 d2 d3 by (simp add: SyncInstruments_def f Inr k i Let_def)
    next
      case r3: (Inr irows)
      obtain r4 w4 where c: "optional_rows cfg ''CM bhavcopy'' (fetchLatestCMBhavcopy out cfg) w3 = Some (r4, w4)"
        using assms by (cases "optional_rows cfg ''CM bhavcopy'' (fetchLatestCMBhavcopy out cfg) w3")
          (auto simp: SyncInstruments_def f Inr k i r3 Let_def)
      have d4: "nwDB w4 = nwDB w3" using c by (rule optional_frame) (rule cm_fetch(1))
      have db: "nwDB w4 = nwDB w" using d1 d2 d3 d4 by simp
      show ?thesis
      proof (cases r4)
        case (Inl e)
        then show ?thesis using assms db by (simp add: SyncInstruments_def f Inr k i r3 c Let_def)
      next
        case r4: (Inr crows)
        have "market_frame (nwDB w) (nwDB v)" if "on_nse_db (UpsertBatch ins) w4 = (a, v)" for ins a v
          using on_nse_db_frame [OF that UpsertBatch_frame] db by simp
        then show ?thesis using assms
          by (simp add: SyncInstruments_def f Inr k i r3 c r4 Let_def split: prod.splits sum.splits)
      qed
    qed
  qed (use assms d1 in \<open>simp add: SyncInstruments_def f\<close>)
qed

lemma SyncCandles_frame:
  assumes "SyncCandles out cfg w = Some (r, w')"
  shows "market_frame (nwDB w) (nwDB w')"
proof -
  obtain r0 w0 where l: "on_nse_db (InstrumentStore_List no_filter) w = (r0, w0)" by fastforce
  have d0: "market_frame (nwDB w) (nwDB w0)" by (rule on_nse_db_frame [OF l InstrumentStore_List_frame])
  show ?thesis
  proof (cases r0)
    case (Inl e)
    then show ?thesis using assms d0 by (simp add: SyncCandles_def l)
  next
    case r0: (Inr ins)
    obtain r1 w1 where f: "fetchLatestBhavcopy out cfg w0 = Some (r1, w1)"
      using assms by (cases "fetchLatestBhavcopy out cfg w0") (auto simp: SyncCandles_def l r0)
    note d1 = fo_fetch(1) [OF f]
    show ?thesis
    proof (cases r1)
      case (Inl e)
      then show ?thesis using assms d0 d1 by (simp add: SyncCandles_def l r0 f)
    next
      case r1: (Inr rows)
      obtain keys w2 where k: "range_keys out (map fst (csNearMonth (candle_rows (instrument_map ins) rows))) w1 = (keys, w2)"
        by fastforce
      note d2 = range_keys_db [OF k]
      obtain r3 w3 where i: "optional_rows cfg ''indices bhavcopy'' (fetchLatestIndicesBhavcopy out cfg) w2 = Some (r3, w3)"
        using assms by (cases "optional_rows cfg ''indices bhavcopy'' (fetchLatestIndicesBhavcopy out cfg) w2")
          (auto simp: SyncCandles_def l r0 f r1 k Let_def)
      have d3: "nwDB w3 = nwDB w2" using i by (rule optional_frame) (rule idx_fetch(1))
      show ?thesis
      proof (cases r3)
        case (Inl e)
        then show ?thesis using assms d0 d1 d2 d3 by (simp add: SyncCandles_def l r0 f r1 k i Let_def)
      next
        case r3: (Inr irows)
        obtain r4 w4 where c: "optional_rows cfg ''CM bhavcopy'' (fetchLatestCMBhavcopy out cfg) w3 = Some (r4, w4)"
          using assms by (cases "optional_rows cfg ''CM bhavcopy'' (fetchLatestCMBhavcopy out cfg) w3")
            (auto simp: SyncCandles_def l r0 f r1 k i r3 Let_def)
        have d4: "nwDB w4 = nwDB w3" using c by (rule optional_frame) (rule cm_fetch(1))
        have db: "nwDB w4 = nwDB w0" using d1 d2 d3 d4 by simp
        show ?thesis
        proof (cases r4)
          case (Inl e)
          then show ?thesis using assms db d0 by (simp add: SyncCandles_def l r0 f r1 k i r3 c Let_def)
        next
          case r4: (Inr crows)
          have "market_frame (nwDB w) (nwDB v)" if "on_nse_db (InsertBatchIgnoreDuplicates cs) w4 = (a, v)" for cs a v
            using on_nse_db_frame [OF that InsertBatch_frame] db d0 by (auto intro: market_frame_trans)
          then show ?thesis using assms db d0
            by (simp add: SyncCandles_def l r0 f r1 k i r3 c r4 Let_def split: prod.splits sum.splits if_splits)
        qed
      qed
    qed
  qed
qed

section \<open>The record of a sync\<close>

text \<open>What the row of a run says, compared with what the caller got.\<close>

definition sync_record :: "string \<Rightarrow> sync_run option \<Rightarrow> err option \<Rightarrow> sync_run \<Rightarrow> bool" where
  "sync_record name run e r \<longleftrightarrow>
     syProvider r = name \<and> sySyncType r = SyncTypeFull \<and>
     (if syStatus r = SyncRunRunning
      then run = None \<and> e = Some (Plain ''failed to update sync run'') \<and>
        syCompletedAt r = None \<and> syErrorMessage r = None
      else syStatus r = (if e = None then SyncRunCompleted else SyncRunFailed) \<and>
        syErrorMessage r = map_option err_msg e \<and> syCompletedAt r \<noteq> None \<and>
        (\<exists>run'. run = Some run' \<and> syID run' = syID r \<and> syStatus run' = syStatus r \<and>
           syRecordsProcessed run' = syRecordsProcessed r \<and> syErrorMessage run' = syErrorMessage r))"

text \<open>The tables a sync has no business with.\<close>

definition other_tables :: "db \<Rightarrow> db \<Rightarrow> bool" where
  "other_tables d d' \<longleftrightarrow> market_frame (d\<lparr>db_sync_runs := []\<rparr>) (d'\<lparr>db_sync_runs := []\<rparr>)"

lemma other_tables_market: "market_frame d d' \<Longrightarrow> other_tables d d'"
  by (simp add: other_tables_def market_frame_def)

lemma other_tables_trans: "other_tables d d1 \<Longrightarrow> other_tables d1 d2 \<Longrightarrow> other_tables d d2"
  unfolding other_tables_def by (rule market_frame_trans)

lemma statuses_distinct [simp]:
  "SyncRunRunning \<noteq> SyncRunCompleted" "SyncRunRunning \<noteq> SyncRunFailed"
  "SyncRunCompleted \<noteq> SyncRunRunning" "SyncRunFailed \<noteq> SyncRunRunning"
  by (simp_all add: SyncRunRunning_def SyncRunCompleted_def SyncRunFailed_def)

lemma Complete_frame: "other_tables d (snd (Complete i status n msg d))"
  unfolding Complete_def
  by (rule run_sql_keeps) (auto simp: other_tables_def market_frame_def split: if_splits)

text \<open>The row a new run starts with.\<close>

lemma create_row:
  assumes "on_nse_db (SyncRunStore_Create (new_sync_run (Suc k) name)) w = (r, w')"
  obtains e where "r = Inl e" "db_sync_runs (nwDB w') = db_sync_runs (nwDB w)" "other_tables (nwDB w) (nwDB w')"
  | row where "r = Inr (new_sync_run (Suc k) name)" "db_sync_runs (nwDB w') = db_sync_runs (nwDB w) @ [row]"
      "row = (new_sync_run (Suc k) name)\<lparr>syStartedAt := timestamptz (db_now (nwDB w))\<rparr>"
      "other_tables (nwDB w) (nwDB w')"
proof -
  let ?run = "new_sync_run (Suc k) name"
  have nn: "syID ?run \<noteq> uuid_nil" "syErrorMessage ?run = None" "syCompletedAt ?run = None"
    by (simp_all add: new_sync_run_def uuid_nil_def)
  let ?d = "nwDB w" let ?d1 = "?d\<lparr>db_faults := tl (db_faults ?d)\<rparr>"
  have f: "other_tables ?d ?d1" by (simp add: other_tables_def market_frame_def)
  show thesis
  proof (rule run_sql_cases [of "insert_sync_run ?run" ?d])
    fix e assume e: "run_sql (insert_sync_run ?run) ?d = (Inl e, ?d1)"
    with assms nn f show thesis by (intro that(1) [of e]) (auto simp: on_nse_db_def SyncRunStore_Create_def)
  next
    assume e: "run_sql (insert_sync_run ?run) ?d = insert_sync_run ?run ?d1"
    show thesis
    proof (cases "insert_sync_run ?run ?d1")
      case (Pair a d2)
      show thesis
      proof (cases a)
        case (Inl x)
        then have "d2 = ?d1" using Pair by (auto simp: insert_sync_run_def split: if_splits)
        with Inl Pair e assms nn f show thesis
          by (intro that(1) [of x]) (auto simp: on_nse_db_def SyncRunStore_Create_def)
      next
        case (Inr x)
        then have "d2 = ?d1\<lparr>db_sync_runs := db_sync_runs ?d @
            [?run\<lparr>syStartedAt := timestamptz (db_now ?d)\<rparr>]\<rparr>"
          using Pair nn by (auto simp: insert_sync_run_def split: if_splits)
        with Inr Pair e assms nn show thesis
          by (intro that(2)) (auto simp: on_nse_db_def SyncRunStore_Create_def other_tables_def market_frame_def)
      qed
    qed
  qed
qed

lemma Complete_cases:
  assumes "Complete i status n msg d = (c, d')"
  obtains e where "c = Inl e" "db_sync_runs d' = db_sync_runs d"
  | "c = Inr ()" "db_sync_runs d' = map (\<lambda>r. if syID r = i
        then r\<lparr>syStatus := status, syRecordsProcessed := n, syErrorMessage := msg,
               syCompletedAt := Some (timestamptz (db_now d))\<rparr> else r) (db_sync_runs d)"
  using assms by (auto simp: Complete_def run_sql_def Let_def split: list.splits option.splits if_splits)

lemma complete_row:
  assumes "completeSyncRun run n e w = ((res, e'), w')"
    and "db_sync_runs (nwDB w) = rs @ [row]" "syID row = syID run" "\<forall>r \<in> set rs. syID r \<noteq> syID run"
    and "syProvider row = name" "sySyncType row = SyncTypeFull" "syStatus row = SyncRunRunning"
    and "syCompletedAt row = None" "syErrorMessage row = None"
  shows "\<exists>r. db_sync_runs (nwDB w') = rs @ [r] \<and> sync_record name res e' r \<and> other_tables (nwDB w) (nwDB w')"
proof -
  define status where "status = (if e = None then SyncRunCompleted else SyncRunFailed)"
  define msg where "msg = map_option err_msg e"
  obtain c d where c: "Complete (syID run) status n msg (nwDB w) = (c, d)" by fastforce
  have fr: "other_tables (nwDB w) d"
    using Complete_frame [of "nwDB w" "syID run" status n msg] c by simp
  from c show ?thesis
  proof (cases rule: Complete_cases)
    case (1 x)
    have "res = None \<and> e' = Some (Plain ''failed to update sync run'') \<and> w' = w\<lparr>nwDB := d\<rparr>"
      using assms(1) c 1 by (simp add: completeSyncRun_def on_nse_db_def status_def msg_def)
    then show ?thesis
      using assms(2,5-9) fr 1(2) by (intro exI [of _ row]) (simp add: sync_record_def)
  next
    case 2
    define r where "r = row\<lparr>syStatus := status, syRecordsProcessed := n, syErrorMessage := msg,
        syCompletedAt := Some (timestamptz (db_now (nwDB w)))\<rparr>"
    have "db_sync_runs d = rs @ [r]"
      using assms(2-4) 2(2) by (auto simp: r_def intro: map_idI)
    moreover have "res = Some (run\<lparr>syStatus := status, syRecordsProcessed := n, syErrorMessage := msg\<rparr>)"
      "e' = e" "w' = w\<lparr>nwDB := d\<rparr>"
      using assms(1) c 2(1) by (auto simp: completeSyncRun_def on_nse_db_def status_def msg_def)
    moreover have "status \<noteq> SyncRunRunning" by (simp add: status_def)
    ultimately show ?thesis
      using assms(3,5,6) fr
      by (intro exI [of _ r]) (simp add: sync_record_def r_def, simp add: status_def msg_def)
  qed
qed

text \<open>The contract of the interface the sync service relies on.\<close>

locale market_data =
  fixes p :: market_data_provider
  assumes instruments_frame: "mpSyncInstruments p w = Some (r, w') \<Longrightarrow> market_frame (nwDB w) (nwDB w')"
    and candles_frame: "mpSyncCandles p w = Some (r, w') \<Longrightarrow> market_frame (nwDB w) (nwDB w')"

context market_data
begin

lemma sync_recorded:
  assumes "Registry_Get reg name = Some p" "SyncProvider reg name w = Some ((run, e), w')"
    and "\<forall>r \<in> set (db_sync_runs (nwDB w)). syID r \<le> db_next (nwDB w)"
  shows "other_tables (nwDB w) (nwDB w') \<and>
    (db_sync_runs (nwDB w') = db_sync_runs (nwDB w) \<and> run = None \<and>
       e = Some (Plain ''failed to create sync run'') \<or>
     (\<exists>r. db_sync_runs (nwDB w') = db_sync_runs (nwDB w) @ [r] \<and> sync_record name run e r))"
proof -
  let ?run = "new_sync_run (Suc (db_next (nwDB w))) name"
  define w0 where "w0 = w\<lparr>nwDB := (nwDB w)\<lparr>db_next := Suc (db_next (nwDB w))\<rparr>\<rparr>"
  have o0: "other_tables (nwDB w) (nwDB w0)" by (simp add: w0_def other_tables_def market_frame_def)
  obtain a w1 where cr: "on_nse_db (SyncRunStore_Create ?run) w0 = (a, w1)" by fastforce
  have eq: "SyncProvider reg name w =
    (case (a, w1) of
       (Inl _, w1) \<Rightarrow> Some ((None, Some (Plain ''failed to create sync run'')), w1)
     | (Inr run, w1) \<Rightarrow>
        (case mpSyncInstruments p w1 of
           None \<Rightarrow> None
         | Some (Inl instErr, w2) \<Rightarrow> Some (completeSyncRun run 0 (Some instErr) w2)
         | Some (Inr instCount, w2) \<Rightarrow>
        (case mpSyncCandles p w2 of
           None \<Rightarrow> None
         | Some (Inl candleErr, w3) \<Rightarrow> Some (completeSyncRun run instCount (Some candleErr) w3)
         | Some (Inr candleCount, w3) \<Rightarrow>
             Some (completeSyncRun run (wrap64 (instCount + candleCount)) None w3))))"
    by (simp only: SyncProvider_def assms(1) option.case Let_def uuid_New_def prod.case
        w0_def [symmetric] cr)
  from cr show ?thesis
  proof (cases rule: create_row)
    case (1 x)
    with eq assms(2) o0 show ?thesis by (auto simp: w0_def intro: other_tables_trans)
  next
    case (2 row)
    have finish: ?thesis if m: "market_frame (nwDB w1) (nwDB v)"
      and c: "completeSyncRun ?run n x v = ((run, e), w')" for n x v
    proof -
      have rows: "db_sync_runs (nwDB v) = db_sync_runs (nwDB w) @ [row]"
        using m 2(2) by (simp add: market_frame_def w0_def)
      have "\<exists>r. db_sync_runs (nwDB w') = db_sync_runs (nwDB w) @ [r] \<and> sync_record name run e r \<and>
          other_tables (nwDB v) (nwDB w')"
        using assms(3) by (intro complete_row [OF c rows]) (auto simp: 2(3) new_sync_run_def)
      moreover have "other_tables (nwDB w) (nwDB v)"
        using o0 2(4) other_tables_market [OF m] by (blast intro: other_tables_trans)
      ultimately show ?thesis by (blast intro: other_tables_trans)
    qed
    obtain b w2 where i: "mpSyncInstruments p w1 = Some (b, w2)"
      using eq assms(2) 2(1) by (cases "mpSyncInstruments p w1") auto
    note f2 = instruments_frame [OF i]
    show ?thesis
    proof (cases b)
      case (Inl x)
      with eq assms(2) 2(1) i finish [OF f2] show ?thesis by simp
    next
      case b: (Inr n)
      obtain c w3 where k: "mpSyncCandles p w2 = Some (c, w3)"
        using eq assms(2) 2(1) i b by (cases "mpSyncCandles p w2") auto
      have f3: "market_frame (nwDB w1) (nwDB w3)" by (rule market_frame_trans [OF f2 candles_frame [OF k]])
      with eq assms(2) 2(1) i b k finish [OF f3] show ?thesis by (cases c) simp_all
    qed
  qed
qed

end

interpretation nse: market_data "nse_provider out cfg" for out cfg
  by unfold_locales (auto simp: nse_provider_def dest: SyncInstruments_frame SyncCandles_frame)

interpretation stub: market_data vendor_stub
  by unfold_locales (auto simp: vendor_stub_def)

text \<open>C18. A sync is on record. Of the providers the program has, whatever the outside and the
  database do: if \<^verbatim>\<open>SyncProvider\<close> returns, either no run was started, or exactly one row was added
  to the sync runs, for this provider; it says COMPLETED just when no error is returned and
  FAILED with the text of the error otherwise, and equals the run the caller gets, unless the
  final update itself failed, which the caller is told: then the row stays RUNNING. No other
  table but instruments and candles is touched.\<close>

theorem sync_is_recorded:
  assumes "SyncProvider reg name w = Some ((run, e), w')"
    and "\<forall>(n, p) \<in> set reg. p = vendor_stub \<or> (\<exists>out cfg. p = nse_provider out cfg)"
    and "\<forall>r \<in> set (db_sync_runs (nwDB w)). syID r \<le> db_next (nwDB w)"
  shows "other_tables (nwDB w) (nwDB w') \<and>
    (db_sync_runs (nwDB w') = db_sync_runs (nwDB w) \<and> run = None \<and> e \<noteq> None \<or>
     (\<exists>r. db_sync_runs (nwDB w') = db_sync_runs (nwDB w) @ [r] \<and> sync_record name run e r))"
proof (cases "Registry_Get reg name")
  case None
  with assms(1) show ?thesis by (auto simp: SyncProvider_def other_tables_def)
next
  case (Some p)
  then have "(name, p) \<in> set reg" by (simp add: Registry_Get_def map_of_SomeD)
  with assms(2) consider "p = vendor_stub" | out cfg where "p = nse_provider out cfg" by fastforce
  then show ?thesis
    using stub.sync_recorded [OF _ assms(1,3)] nse.sync_recorded [OF _ assms(1,3)] Some
    by cases auto
qed

text \<open>A sync of the vendor stub: the failure is on record.\<close>

lemma sync_is_recorded_witness:
  "\<exists>run w' r. SyncProvider [(''vendor'', vendor_stub)] ''vendor'' demo_nse_world =
       Some ((run, Some stub_error), w') \<and>
     db_sync_runs (nwDB w') = [r] \<and> syStatus r = SyncRunFailed \<and>
     syErrorMessage r = Some ''vendor provider not implemented''"
proof -
  let ?reg = "[(''vendor'', vendor_stub)]"
  have d: "nwDB demo_nse_world = empty_db 0" by (simp add: demo_nse_world_def)
  obtain run w' where s: "SyncProvider ?reg ''vendor'' demo_nse_world = Some ((run, Some stub_error), w')"
    by (simp add: SyncProvider_def Registry_Get_def uuid_New_def on_nse_db_def SyncRunStore_Create_def
        new_sync_run_def uuid_nil_def d empty_db_def run_sql_no_fault insert_sync_run_def int4_def
        vendor_stub_def completeSyncRun_def Complete_def Let_def)
  have rows: "db_sync_runs (nwDB demo_nse_world) = []" by (simp add: d empty_db_def)
  have "stub_error \<noteq> Plain ''failed to update sync run''" by (simp add: stub_error_def)
  moreover have "db_sync_runs (nwDB w') \<noteq> []"
    using s by (auto simp: SyncProvider_def Registry_Get_def uuid_New_def on_nse_db_def SyncRunStore_Create_def
        new_sync_run_def uuid_nil_def d empty_db_def run_sql_no_fault insert_sync_run_def int4_def
        vendor_stub_def completeSyncRun_def Complete_def Let_def)
  ultimately obtain r where "db_sync_runs (nwDB w') = [r]" "sync_record ''vendor'' run (Some stub_error) r"
    using sync_is_recorded [OF s] rows by auto
  with s \<open>stub_error \<noteq> _\<close> show ?thesis
    by (auto simp: sync_record_def stub_error_def split: if_splits)
qed

end
