(* ===== verification/Config.thy ===== *)
theory Config
  imports GoStrings
begin

text \<open>
  \<^verbatim>\<open>internal/config/config.go\<close>: the configuration read from the environment, and the checks
  that keep a production server off a staging database and the reverse. The environment is
  a lookup function; \<^verbatim>\<open>url.Parse\<close> and the readability of a file are parameters, the parts of
  the operating system and of the URL syntax the program only asks for their answer.
\<close>

section \<open>Constants\<close>

definition EnvProduction :: string where [go_const]: "EnvProduction = ''production''"
definition EnvStaging :: string where [go_const]: "EnvStaging = ''staging''"
definition EnvDevelopment :: string where [go_const]: "EnvDevelopment = ''development''"
definition EnvTest :: string where [go_const]: "EnvTest = ''test''"

definition envVarAppEnv :: string where "envVarAppEnv = ''APP_ENV''"
definition envVarAutoMigrate :: string where "envVarAutoMigrate = ''AUTO_MIGRATE''"
definition envVarDatabaseURL :: string where "envVarDatabaseURL = ''DATABASE_URL''"
definition envVarPort :: string where "envVarPort = ''PORT''"
definition envVarDBHost :: string where "envVarDBHost = ''DB_HOST''"
definition envVarDBPort :: string where "envVarDBPort = ''DB_PORT''"
definition envVarDBUser :: string where "envVarDBUser = ''DB_USER''"
definition envVarDBPassword :: string where "envVarDBPassword = ''DB_PASSWORD''"
definition envVarDBName :: string where "envVarDBName = ''DB_NAME''"
definition envVarJWTSecret :: string where "envVarJWTSecret = ''JWT_SECRET''"
definition envVarMigrationsPath :: string where "envVarMigrationsPath = ''MIGRATIONS_PATH''"
definition envVarNSEUserAgent :: string where "envVarNSEUserAgent = ''NSE_USER_AGENT''"
definition envVarNSEAcceptHTML :: string where "envVarNSEAcceptHTML = ''NSE_ACCEPT_HTML''"
definition envVarTrustedProxies :: string where "envVarTrustedProxies = ''TRUSTED_PROXIES''"
definition envVarBacktestEnabled :: string where "envVarBacktestEnabled = ''BACKTEST_ENABLED''"
definition envVarBacktestMaxDays :: string where "envVarBacktestMaxDays = ''BACKTEST_MAX_DAYS''"
definition envVarBacktestMaxCandles :: string where
  "envVarBacktestMaxCandles = ''BACKTEST_MAX_CANDLES''"
definition envVarSyncEnabled :: string where "envVarSyncEnabled = ''SYNC_ENABLED''"
definition envVarDBSSLRequired :: string where "envVarDBSSLRequired = ''DB_SSL_REQUIRED''"
definition envVarFirebaseProjectID :: string where "envVarFirebaseProjectID = ''FIREBASE_PROJECT_ID''"
definition envVarFirebaseCredentialsFile :: string where
  "envVarFirebaseCredentialsFile = ''FIREBASE_CREDENTIALS_FILE''"
definition envVarFirebaseWebAPIKey :: string where "envVarFirebaseWebAPIKey = ''FIREBASE_WEB_API_KEY''"
definition envVarAllowedFirebaseUIDs :: string where
  "envVarAllowedFirebaseUIDs = ''ALLOWED_FIREBASE_UIDS''"

definition defaultPort :: string where "defaultPort = ''8080''"
definition defaultDBHost :: string where "defaultDBHost = ''localhost''"
definition defaultDBPort :: string where "defaultDBPort = ''5432''"
definition defaultMigrationsPath :: string where "defaultMigrationsPath = ''file://migrations''"
definition defaultNSEUserAgent :: string where
  "defaultNSEUserAgent = ''Mozilla/5.0 (Windows NT 10.0; Win64; x64) AppleWebKit/537.36''"
definition defaultNSEAcceptHTML :: string where
  "defaultNSEAcceptHTML = ''text/html,application/xhtml+xml,application/xml;q=0.9,*/*;q=0.8''"
definition defaultBacktestEnabled :: bool where "defaultBacktestEnabled = True"
definition defaultBacktestMaxDays :: goint where "defaultBacktestMaxDays = 1825"
definition defaultBacktestMaxCandles :: goint where "defaultBacktestMaxCandles = 0"
definition defaultSyncEnabled :: bool where "defaultSyncEnabled = True"
definition defaultDBSSLRequired :: bool where "defaultDBSSLRequired = True"

record config =
  Port :: string
  DatabaseURL :: string
  DBHost :: string
  DBPort :: string
  DBUser :: string
  DBPass :: string
  DBName :: string
  JWTSecret :: string
  Env :: string
  MigrationsPath :: string
  AutoMigrate :: bool
  NSEUserAgent :: string
  NSEAcceptHTML :: string
  TrustedProxies :: "string list"
  cfgBacktestEnabled :: bool
  BacktestMaxDays :: goint
  BacktestMaxCandles :: goint
  SyncEnabled :: bool
  DBSSLRequired :: bool
  FirebaseProjectID :: string
  FirebaseCredentialsFile :: string
  FirebaseWebAPIKey :: string
  AllowedFirebaseUIDs :: "string list"

text \<open>The parts of a parsed URL; the user with its password, where one is given.\<close>

record url =
  uScheme :: string
  uHostname :: string
  uPort :: string
  uUser :: "(string \<times> string option) option"
  uHost :: string
  uPath :: string

type_synonym url_parser = "string \<Rightarrow> url option"
type_synonym lookup_env = "string \<Rightarrow> string option"

section \<open>Reading the environment\<close>

definition blank :: "string \<Rightarrow> bool" where "blank v \<longleftrightarrow> TrimSpace v = []"

definition requireEnvFrom :: "lookup_env \<Rightarrow> string \<Rightarrow> string res" where
  "requireEnvFrom lookup key =
     (case lookup key of
        None \<Rightarrow> Inl (Plain (key @ '' is required''))
      | Some v \<Rightarrow> if blank v then Inl (Plain (key @ '' is required'')) else Inr v)"

definition getBoolEnvFrom :: "lookup_env \<Rightarrow> string \<Rightarrow> bool \<Rightarrow> bool res" where
  "getBoolEnvFrom lookup key fallback =
     (case lookup key of
        None \<Rightarrow> Inr fallback
      | Some v \<Rightarrow>
         (if blank v then Inr fallback
          else case ParseBool v of
            None \<Rightarrow> Inl (Plain (key @ '' must be a boolean''))
          | Some b \<Rightarrow> Inr b))"

definition getIntEnvFrom :: "lookup_env \<Rightarrow> string \<Rightarrow> goint \<Rightarrow> goint res" where
  "getIntEnvFrom lookup key fallback =
     (case lookup key of
        None \<Rightarrow> Inr fallback
      | Some v \<Rightarrow>
         (if blank v then Inr fallback
          else case Atoi (TrimSpace v) of
            None \<Rightarrow> Inl (Plain (key @ '' must be a non-negative integer''))
          | Some i \<Rightarrow> (if i < 0 then Inl (Plain (key @ '' must be a non-negative integer'')) else Inr i)))"

definition getEnvFrom :: "lookup_env \<Rightarrow> string \<Rightarrow> string \<Rightarrow> string" where
  "getEnvFrom lookup key fallback =
     (case lookup key of Some v \<Rightarrow> (if v \<noteq> [] then v else fallback) | None \<Rightarrow> fallback)"

definition getCSVEnvFrom :: "lookup_env \<Rightarrow> string \<Rightarrow> string list" where
  "getCSVEnvFrom lookup key =
     (case lookup key of
        None \<Rightarrow> []
      | Some v \<Rightarrow> (if blank v then []
                  else filter (\<lambda>p. p \<noteq> []) (map TrimSpace (Split CHR '','' v))))"

definition parseEnvironment :: "string \<Rightarrow> string res" where
  "parseEnvironment raw =
     (let env = TrimSpace raw
      in if env \<in> {EnvProduction, EnvStaging, EnvDevelopment, EnvTest} then Inr env
         else Inl (Plain (''APP_ENV '' @ quoted raw @
                '' is not valid: use one of production, staging, development, test'')))"

definition defaultAutoMigrate :: "string \<Rightarrow> bool" where
  "defaultAutoMigrate env \<longleftrightarrow> env = EnvDevelopment \<or> env = EnvTest"

definition applyDatabaseURL :: "url_parser \<Rightarrow> config \<Rightarrow> config res" where
  "applyDatabaseURL parse cfg =
     (case parse (DatabaseURL cfg) of
        None \<Rightarrow> Inl (Plain ''DATABASE_URL is invalid'')
      | Some u \<Rightarrow>
         (if uScheme u \<noteq> ''postgres'' \<and> uScheme u \<noteq> ''postgresql''
          then Inl (Plain ''DATABASE_URL must use postgres or postgresql scheme'')
          else
            let cfg1 = (if uHostname u \<noteq> [] then cfg\<lparr>DBHost := uHostname u\<rparr> else cfg);
                cfg2 = (if uPort u \<noteq> [] then cfg1\<lparr>DBPort := uPort u\<rparr> else cfg1);
                cfg3 = (case uUser u of
                          None \<Rightarrow> cfg2
                        | Some (name, pass) \<Rightarrow>
                           (case pass of
                              None \<Rightarrow> cfg2\<lparr>DBUser := name\<rparr>
                            | Some p \<Rightarrow> cfg2\<lparr>DBUser := name, DBPass := p\<rparr>));
                name = TrimPrefix (uPath u) ''/''
            in Inr (if name \<noteq> [] then cfg3\<lparr>DBName := name\<rparr> else cfg3)))"

definition require_db_identity :: "config \<Rightarrow> config res" where
  "require_db_identity cfg =
     (if blank (DBUser cfg) then Inl (Plain (envVarDBUser @ '' is required (or supply DATABASE_URL)''))
      else if blank (DBPass cfg)
      then Inl (Plain (envVarDBPassword @ '' is required (or supply DATABASE_URL)''))
      else if blank (DBName cfg)
      then Inl (Plain (envVarDBName @ '' is required (or supply DATABASE_URL)''))
      else Inr cfg)"

definition env_config ::
  "lookup_env \<Rightarrow> string \<Rightarrow> bool \<Rightarrow> string \<Rightarrow> bool \<Rightarrow> goint \<Rightarrow> goint \<Rightarrow> bool \<Rightarrow> bool \<Rightarrow> config" where
  "env_config lookup env autoMigrate jwtSecret backtestEnabled backtestMaxDays backtestMaxCandles
       syncEnabled dbSSLRequired =
     \<lparr>Port = getEnvFrom lookup envVarPort defaultPort,
      DatabaseURL = getEnvFrom lookup envVarDatabaseURL [],
      DBHost = getEnvFrom lookup envVarDBHost defaultDBHost,
      DBPort = getEnvFrom lookup envVarDBPort defaultDBPort,
      DBUser = getEnvFrom lookup envVarDBUser [],
      DBPass = getEnvFrom lookup envVarDBPassword [],
      DBName = getEnvFrom lookup envVarDBName [],
      JWTSecret = jwtSecret, Env = env,
      MigrationsPath = getEnvFrom lookup envVarMigrationsPath defaultMigrationsPath,
      AutoMigrate = autoMigrate,
      NSEUserAgent = getEnvFrom lookup envVarNSEUserAgent defaultNSEUserAgent,
      NSEAcceptHTML = getEnvFrom lookup envVarNSEAcceptHTML defaultNSEAcceptHTML,
      TrustedProxies = getCSVEnvFrom lookup envVarTrustedProxies,
      cfgBacktestEnabled = backtestEnabled, BacktestMaxDays = backtestMaxDays,
      BacktestMaxCandles = backtestMaxCandles, SyncEnabled = syncEnabled,
      DBSSLRequired = dbSSLRequired,
      FirebaseProjectID = getEnvFrom lookup envVarFirebaseProjectID [],
      FirebaseCredentialsFile = getEnvFrom lookup envVarFirebaseCredentialsFile [],
      FirebaseWebAPIKey = getEnvFrom lookup envVarFirebaseWebAPIKey [],
      AllowedFirebaseUIDs = getCSVEnvFrom lookup envVarAllowedFirebaseUIDs\<rparr>"

definition newFromEnv :: "url_parser \<Rightarrow> lookup_env \<Rightarrow> config res" where
  "newFromEnv parse lookup =
     (case requireEnvFrom lookup envVarAppEnv of Inl e \<Rightarrow> Inl e | Inr rawEnv \<Rightarrow>
      (case parseEnvironment rawEnv of Inl e \<Rightarrow> Inl e | Inr env \<Rightarrow>
      (case getBoolEnvFrom lookup envVarAutoMigrate (defaultAutoMigrate env) of Inl e \<Rightarrow> Inl e | Inr autoMigrate \<Rightarrow>
      (case requireEnvFrom lookup envVarJWTSecret of Inl e \<Rightarrow> Inl e | Inr jwtSecret \<Rightarrow>
      (case getBoolEnvFrom lookup envVarBacktestEnabled defaultBacktestEnabled of Inl e \<Rightarrow> Inl e | Inr backtestEnabled \<Rightarrow>
      (case getIntEnvFrom lookup envVarBacktestMaxDays defaultBacktestMaxDays of Inl e \<Rightarrow> Inl e | Inr backtestMaxDays \<Rightarrow>
      (case getIntEnvFrom lookup envVarBacktestMaxCandles defaultBacktestMaxCandles of Inl e \<Rightarrow> Inl e | Inr backtestMaxCandles \<Rightarrow>
      (case getBoolEnvFrom lookup envVarSyncEnabled defaultSyncEnabled of Inl e \<Rightarrow> Inl e | Inr syncEnabled \<Rightarrow>
      (case getBoolEnvFrom lookup envVarDBSSLRequired defaultDBSSLRequired of Inl e \<Rightarrow> Inl e | Inr dbSSLRequired \<Rightarrow>
      (let cfg = env_config lookup env autoMigrate jwtSecret backtestEnabled backtestMaxDays
                   backtestMaxCandles syncEnabled dbSSLRequired
       in if DatabaseURL cfg \<noteq> []
          then case applyDatabaseURL parse cfg of Inl e \<Rightarrow> Inl e | Inr cfg' \<Rightarrow> require_db_identity cfg'
          else require_db_identity cfg))))))))))"

section \<open>Identity checks\<close>

definition nonProductionIdentityMarkers :: "string list" where
  "nonProductionIdentityMarkers =
     [''staging'', ''stage'', ''development'', ''dev'', ''test'', ''testing'']"

definition productionIdentityMarkers :: "string list" where
  "productionIdentityMarkers = [''production'', ''prod'']"

definition stagingIdentityMarkers :: "string list" where
  "stagingIdentityMarkers = [''staging'', ''stage'']"

definition containsAnyMarker :: "string \<Rightarrow> string list \<Rightarrow> bool" where
  "containsAnyMarker part markers =
     (let normalized = ToLower (TrimSpace part)
      in if normalized = [] then False else list_ex (Contains normalized) markers)"

definition matchesAnyIdentityPart :: "string list \<Rightarrow> string list \<Rightarrow> bool" where
  "matchesAnyIdentityPart parts markers = list_ex (\<lambda>p. containsAnyMarker p markers) parts"

definition isAbsoluteMigrationsPath :: "url_parser \<Rightarrow> string \<Rightarrow> bool" where
  "isAbsoluteMigrationsPath parse path =
     (if HasPrefix path ''file://''
      then case parse path of None \<Rightarrow> False | Some u \<Rightarrow> uHost u = [] \<and> IsAbs (uPath u)
      else IsAbs path)"

definition validateProductionIdentity :: "url_parser \<Rightarrow> config \<Rightarrow> err option" where
  "validateProductionIdentity parse cfg =
     (if JWTSecret cfg = [] then Some (Plain ''production JWT_SECRET must be set'')
      else if matchesAnyIdentityPart [DBName cfg, DBUser cfg, DBHost cfg] nonProductionIdentityMarkers
      then Some (Plain ''production database identity must not match staging, development, or test'')
      else if \<not> containsAnyMarker (DBName cfg) productionIdentityMarkers
      then Some (Plain ''production DB_NAME must contain a production marker (prod or production)'')
      else if \<not> containsAnyMarker (DBUser cfg) productionIdentityMarkers
      then Some (Plain ''production DB_USER must contain a production marker (prod or production)'')
      else if AutoMigrate cfg then Some (Plain ''production AUTO_MIGRATE must be disabled'')
      else if MigrationsPath cfg = [] \<or> \<not> isAbsoluteMigrationsPath parse (MigrationsPath cfg)
      then Some (Plain ''production MIGRATIONS_PATH must be a non-empty absolute path'')
      else None)"

definition validateStagingIdentity :: "config \<Rightarrow> err option" where
  "validateStagingIdentity cfg =
     (if JWTSecret cfg = [] then Some (Plain ''staging JWT_SECRET must be set'')
      else if matchesAnyIdentityPart [DBName cfg, DBUser cfg, DBHost cfg] productionIdentityMarkers
      then Some (Plain ''staging database identity must not match production'')
      else if \<not> containsAnyMarker (DBName cfg) stagingIdentityMarkers
      then Some (Plain ''staging DB_NAME must contain a staging marker (staging or stage)'')
      else if \<not> containsAnyMarker (DBUser cfg) stagingIdentityMarkers
      then Some (Plain ''staging DB_USER must contain a staging marker (staging or stage)'')
      else None)"

definition ValidateStartupIdentity :: "url_parser \<Rightarrow> config option \<Rightarrow> err option" where
  "ValidateStartupIdentity parse c =
     (case c of
        None \<Rightarrow> Some (Plain ''config is required'')
      | Some cfg \<Rightarrow>
         (if Env cfg = EnvProduction then validateProductionIdentity parse cfg
          else if Env cfg = EnvStaging then validateStagingIdentity cfg
          else if Env cfg = EnvDevelopment \<or> Env cfg = EnvTest then None
          else Some (Plain (''unsupported environment '' @ quoted (Env cfg)))))"

definition ShouldRunMigrations :: "config option \<Rightarrow> bool" where
  "ShouldRunMigrations c =
     (case c of None \<Rightarrow> False | Some cfg \<Rightarrow> Env cfg \<noteq> EnvProduction \<and> AutoMigrate cfg)"

text \<open>\<open>readable\<close> is the error of opening a file, if any.\<close>

definition ValidateFirebaseAuthConfig :: "(string \<Rightarrow> err option) \<Rightarrow> config option \<Rightarrow> err option" where
  "ValidateFirebaseAuthConfig readable c =
     (case c of
        None \<Rightarrow> Some (Plain ''config is required'')
      | Some cfg \<Rightarrow>
         (if FirebaseCredentialsFile cfg \<noteq> [] \<and> FirebaseProjectID cfg = []
          then Some (Plain (envVarFirebaseProjectID @ '' is required when '' @
                 envVarFirebaseCredentialsFile @ '' is set''))
          else case (if FirebaseCredentialsFile cfg \<noteq> [] then readable (FirebaseCredentialsFile cfg) else None) of
            Some e \<Rightarrow> Some (Wrap (envVarFirebaseCredentialsFile @ '' is not readable: '') e [])
          | None \<Rightarrow>
             (if Env cfg = EnvProduction \<or> Env cfg = EnvStaging
              then if FirebaseCredentialsFile cfg = []
                   then Some (Plain (envVarFirebaseCredentialsFile @ '' is required in '' @ Env cfg @ '' environment''))
                   else if FirebaseWebAPIKey cfg = []
                   then Some (Plain (envVarFirebaseWebAPIKey @ '' is required in '' @ Env cfg @ '' environment''))
                   else if AllowedFirebaseUIDs cfg = []
                   then Some (Plain (envVarAllowedFirebaseUIDs @ '' must be non-empty in '' @ Env cfg @ '' environment''))
                   else None
              else None)))"

section \<open>What a loaded configuration guarantees\<close>

lemma getIntEnvFrom_bounds:
  "getIntEnvFrom lookup key d = Inr i \<Longrightarrow> 0 \<le> d \<Longrightarrow> in64 d \<Longrightarrow> 0 \<le> i \<and> in64 i"
  by (auto simp: getIntEnvFrom_def Atoi_def Let_def split: option.splits if_splits prod.splits)

lemma requireEnvFrom_Inr: "requireEnvFrom lookup key = Inr v \<Longrightarrow> \<not> blank v"
  by (auto simp: requireEnvFrom_def split: option.splits if_splits)

lemma parseEnvironment_Inr:
  "parseEnvironment raw = Inr env \<Longrightarrow> env \<in> {EnvProduction, EnvStaging, EnvDevelopment, EnvTest}"
  by (auto simp: parseEnvironment_def Let_def split: if_splits)

lemma getCSVEnvFrom_trimmed:
  "p \<in> set (getCSVEnvFrom lookup key) \<Longrightarrow> p \<noteq> [] \<and> TrimSpace p = p"
  by (auto simp: getCSVEnvFrom_def split: option.splits if_splits)

lemma applyDatabaseURL_keeps:
  assumes "applyDatabaseURL parse cfg = Inr cfg'"
  shows "Env cfg' = Env cfg" "JWTSecret cfg' = JWTSecret cfg" "BacktestMaxDays cfg' = BacktestMaxDays cfg"
    "BacktestMaxCandles cfg' = BacktestMaxCandles cfg" "TrustedProxies cfg' = TrustedProxies cfg"
    "AllowedFirebaseUIDs cfg' = AllowedFirebaseUIDs cfg"
  using assms by (auto simp: applyDatabaseURL_def Let_def split: option.splits if_splits)

lemma require_db_identity_Inr:
  "require_db_identity cfg = Inr cfg' \<longleftrightarrow>
     cfg' = cfg \<and> \<not> blank (DBUser cfg) \<and> \<not> blank (DBPass cfg) \<and> \<not> blank (DBName cfg)"
  by (auto simp: require_db_identity_def)

lemma newFromEnv_Inr:
  assumes "newFromEnv parse lookup = Inr cfg"
  obtains cfg0 rawEnv where
    "requireEnvFrom lookup envVarAppEnv = Inr rawEnv" "parseEnvironment rawEnv = Inr (Env cfg0)"
    "requireEnvFrom lookup envVarJWTSecret = Inr (JWTSecret cfg0)"
    "getIntEnvFrom lookup envVarBacktestMaxDays defaultBacktestMaxDays = Inr (BacktestMaxDays cfg0)"
    "getIntEnvFrom lookup envVarBacktestMaxCandles defaultBacktestMaxCandles = Inr (BacktestMaxCandles cfg0)"
    "TrustedProxies cfg0 = getCSVEnvFrom lookup envVarTrustedProxies"
    "AllowedFirebaseUIDs cfg0 = getCSVEnvFrom lookup envVarAllowedFirebaseUIDs"
    "applyDatabaseURL parse cfg0 = Inr cfg \<or> cfg = cfg0"
    "require_db_identity cfg = Inr cfg"
proof -
  obtain rawEnv where raw: "requireEnvFrom lookup envVarAppEnv = Inr rawEnv"
    using assms by (cases "requireEnvFrom lookup envVarAppEnv") (simp_all add: newFromEnv_def)
  obtain env where env: "parseEnvironment rawEnv = Inr env"
    using assms raw by (cases "parseEnvironment rawEnv") (simp_all add: newFromEnv_def)
  obtain am where am: "getBoolEnvFrom lookup envVarAutoMigrate (defaultAutoMigrate env) = Inr am"
    using assms raw env by (cases "getBoolEnvFrom lookup envVarAutoMigrate (defaultAutoMigrate env)")
      (simp_all add: newFromEnv_def)
  obtain jwt where jwt: "requireEnvFrom lookup envVarJWTSecret = Inr jwt"
    using assms raw env am by (cases "requireEnvFrom lookup envVarJWTSecret") (simp_all add: newFromEnv_def)
  obtain be where be: "getBoolEnvFrom lookup envVarBacktestEnabled defaultBacktestEnabled = Inr be"
    using assms raw env am jwt
    by (cases "getBoolEnvFrom lookup envVarBacktestEnabled defaultBacktestEnabled") (simp_all add: newFromEnv_def)
  obtain md where md: "getIntEnvFrom lookup envVarBacktestMaxDays defaultBacktestMaxDays = Inr md"
    using assms raw env am jwt be
    by (cases "getIntEnvFrom lookup envVarBacktestMaxDays defaultBacktestMaxDays") (simp_all add: newFromEnv_def)
  obtain mc where mc: "getIntEnvFrom lookup envVarBacktestMaxCandles defaultBacktestMaxCandles = Inr mc"
    using assms raw env am jwt be md
    by (cases "getIntEnvFrom lookup envVarBacktestMaxCandles defaultBacktestMaxCandles") (simp_all add: newFromEnv_def)
  obtain se where se: "getBoolEnvFrom lookup envVarSyncEnabled defaultSyncEnabled = Inr se"
    using assms raw env am jwt be md mc
    by (cases "getBoolEnvFrom lookup envVarSyncEnabled defaultSyncEnabled") (simp_all add: newFromEnv_def)
  obtain ssl where ssl: "getBoolEnvFrom lookup envVarDBSSLRequired defaultDBSSLRequired = Inr ssl"
    using assms raw env am jwt be md mc se
    by (cases "getBoolEnvFrom lookup envVarDBSSLRequired defaultDBSSLRequired") (simp_all add: newFromEnv_def)
  let ?c = "env_config lookup env am jwt be md mc se ssl"
  have fields: "Env ?c = env" "JWTSecret ?c = jwt" "BacktestMaxDays ?c = md" "BacktestMaxCandles ?c = mc"
    "TrustedProxies ?c = getCSVEnvFrom lookup envVarTrustedProxies"
    "AllowedFirebaseUIDs ?c = getCSVEnvFrom lookup envVarAllowedFirebaseUIDs"
    by (simp_all add: env_config_def)
  have fin: "(if DatabaseURL ?c \<noteq> []
       then case applyDatabaseURL parse ?c of Inl e \<Rightarrow> Inl e | Inr cfg' \<Rightarrow> require_db_identity cfg'
       else require_db_identity ?c) = Inr cfg"
    using assms raw env am jwt be md mc se ssl by (simp add: newFromEnv_def Let_def)
  have "(applyDatabaseURL parse ?c = Inr cfg \<or> cfg = ?c) \<and> require_db_identity cfg = Inr cfg"
  proof (cases "applyDatabaseURL parse ?c")
    case (Inl e)
    with fin show ?thesis by (auto simp: require_db_identity_Inr split: if_splits)
  next
    case (Inr d)
    with fin show ?thesis by (auto simp: require_db_identity_Inr split: if_splits)
  qed
  then show thesis using that [of rawEnv ?c] raw env jwt md mc fields by simp
qed

text \<open>C37. A configuration that loads is well formed: the environment is one of the four known
  ones, the JWT secret and the database identity are not blank, the backtest limits are
  non-negative 64-bit integers, and the entries of the comma-separated lists are non-empty
  and trimmed.\<close>

theorem newFromEnv_wf:
  assumes "newFromEnv parse lookup = Inr cfg"
  shows "Env cfg \<in> {EnvProduction, EnvStaging, EnvDevelopment, EnvTest} \<and>
    \<not> blank (JWTSecret cfg) \<and> \<not> blank (DBUser cfg) \<and> \<not> blank (DBPass cfg) \<and> \<not> blank (DBName cfg) \<and>
    0 \<le> BacktestMaxDays cfg \<and> in64 (BacktestMaxDays cfg) \<and>
    0 \<le> BacktestMaxCandles cfg \<and> in64 (BacktestMaxCandles cfg) \<and>
    list_all (\<lambda>p. p \<noteq> [] \<and> TrimSpace p = p) (TrustedProxies cfg @ AllowedFirebaseUIDs cfg)"
  using assms
proof (cases rule: newFromEnv_Inr)
  case (1 cfg0 rawEnv)
  have same: "Env cfg = Env cfg0" "JWTSecret cfg = JWTSecret cfg0"
    "BacktestMaxDays cfg = BacktestMaxDays cfg0" "BacktestMaxCandles cfg = BacktestMaxCandles cfg0"
    "TrustedProxies cfg = TrustedProxies cfg0" "AllowedFirebaseUIDs cfg = AllowedFirebaseUIDs cfg0"
    using 1(8) applyDatabaseURL_keeps by auto
  have b: "0 \<le> defaultBacktestMaxDays" "in64 defaultBacktestMaxDays"
    "0 \<le> defaultBacktestMaxCandles" "in64 defaultBacktestMaxCandles"
    by (simp_all add: defaultBacktestMaxDays_def defaultBacktestMaxCandles_def in64_def)
  show ?thesis
    unfolding same(1-4)
    using parseEnvironment_Inr [OF 1(2)] requireEnvFrom_Inr [OF 1(3)]
      getIntEnvFrom_bounds [OF 1(4) b(1,2)] getIntEnvFrom_bounds [OF 1(5) b(3,4)]
      1(9) getCSVEnvFrom_trimmed same(5,6) 1(6,7)
    by (simp add: require_db_identity_Inr list_all_iff) blast
qed

definition demo_env :: lookup_env where
  "demo_env = map_of [(envVarAppEnv, '' staging ''), (envVarJWTSecret, ''secret''),
     (envVarDatabaseURL, ''u''), (envVarTrustedProxies, ''10.0.0.1, ,10.0.0.2''),
     (envVarBacktestMaxDays, '' 30 '')]"

definition demo_url :: url_parser where
  "demo_url s = Some \<lparr>uScheme = ''postgres'', uHostname = ''db'', uPort = [],
     uUser = Some (''algo_staging'', Some ''pw''), uHost = ''db'', uPath = ''/algo_staging''\<rparr>"

lemma newFromEnv_wf_witness:
  "\<exists>cfg. newFromEnv demo_url demo_env = Inr cfg \<and> Env cfg = EnvStaging \<and> BacktestMaxDays cfg = 30 \<and>
     TrustedProxies cfg = [''10.0.0.1'', ''10.0.0.2''] \<and> \<not> blank (JWTSecret cfg)"
proof -
  have "case newFromEnv demo_url demo_env of Inl e \<Rightarrow> False
    | Inr cfg \<Rightarrow> Env cfg = EnvStaging \<and> BacktestMaxDays cfg = 30 \<and>
        TrustedProxies cfg = [''10.0.0.1'', ''10.0.0.2'']" by code_simp
  then obtain cfg where "newFromEnv demo_url demo_env = Inr cfg" "Env cfg = EnvStaging"
    "BacktestMaxDays cfg = 30" "TrustedProxies cfg = [''10.0.0.1'', ''10.0.0.2'']"
    by (auto split: sum.splits)
  with newFromEnv_wf [OF this(1)] show ?thesis by blast
qed

section \<open>Production and staging do not meet\<close>

definition identity_form :: "string \<Rightarrow> string" where
  "identity_form s = ToLower (TrimSpace s)"

lemma containsAnyMarker_form:
  "identity_form s = identity_form t \<Longrightarrow> containsAnyMarker s ms = containsAnyMarker t ms"
  by (simp add: containsAnyMarker_def identity_form_def)

text \<open>C36. No production server and no staging server that pass their start-up checks share a
  database name or a database user, not even up to letter case and surrounding white space,
  nor does the name or user of one occur as a part of the identity of the other; and a
  production server that passes never migrates its database on its own.\<close>

theorem production_staging_disjoint:
  assumes "Env cfg = EnvProduction" "ValidateStartupIdentity parse (Some cfg) = None"
    and "Env cfg' = EnvStaging" "ValidateStartupIdentity parse' (Some cfg') = None"
  shows "{identity_form (DBName cfg), identity_form (DBUser cfg)} \<inter>
      identity_form ` {DBName cfg', DBUser cfg', DBHost cfg'} = {} \<and>
    {identity_form (DBName cfg'), identity_form (DBUser cfg')} \<inter>
      identity_form ` {DBName cfg, DBUser cfg, DBHost cfg} = {} \<and>
    \<not> ShouldRunMigrations (Some cfg) \<and> \<not> AutoMigrate cfg"
proof -
  have p: "containsAnyMarker (DBName cfg) productionIdentityMarkers"
    "containsAnyMarker (DBUser cfg) productionIdentityMarkers" "\<not> AutoMigrate cfg"
    "\<forall>s \<in> {DBName cfg, DBUser cfg, DBHost cfg}. \<not> containsAnyMarker s nonProductionIdentityMarkers"
    using assms(1,2)
    by (auto simp: ValidateStartupIdentity_def validateProductionIdentity_def
        matchesAnyIdentityPart_def split: if_splits)
  have s: "containsAnyMarker (DBName cfg') stagingIdentityMarkers"
    "containsAnyMarker (DBUser cfg') stagingIdentityMarkers"
    "\<forall>s \<in> {DBName cfg', DBUser cfg', DBHost cfg'}. \<not> containsAnyMarker s productionIdentityMarkers"
    using assms(3,4)
    by (auto simp: ValidateStartupIdentity_def validateStagingIdentity_def go_const
        matchesAnyIdentityPart_def split: if_splits)
  have weaker: "containsAnyMarker t stagingIdentityMarkers \<Longrightarrow> containsAnyMarker t nonProductionIdentityMarkers"
    for t by (auto simp: containsAnyMarker_def stagingIdentityMarkers_def
        nonProductionIdentityMarkers_def Let_def split: if_splits)
  have "identity_form a \<noteq> identity_form b"
    if "a \<in> {DBName cfg, DBUser cfg}" "b \<in> {DBName cfg', DBUser cfg', DBHost cfg'}" for a b
    using that p(1,2) s(3) containsAnyMarker_form [of a b productionIdentityMarkers] by auto
  moreover have "identity_form a \<noteq> identity_form b"
    if "a \<in> {DBName cfg', DBUser cfg'}" "b \<in> {DBName cfg, DBUser cfg, DBHost cfg}" for a b
    using that s(1,2) weaker p(4) containsAnyMarker_form [of a b nonProductionIdentityMarkers] by auto
  ultimately show ?thesis
    using p(3) assms(1) by (auto simp: ShouldRunMigrations_def)
qed

definition demo_config :: "string \<Rightarrow> string \<Rightarrow> config" where
  "demo_config env db =
     \<lparr>Port = defaultPort, DatabaseURL = [], DBHost = ''db'', DBPort = defaultDBPort, DBUser = db,
      DBPass = ''pw'', DBName = db, JWTSecret = ''secret'', Env = env, MigrationsPath = ''/migrations'',
      AutoMigrate = False, NSEUserAgent = [], NSEAcceptHTML = [], TrustedProxies = [],
      cfgBacktestEnabled = True, BacktestMaxDays = 0, BacktestMaxCandles = 0, SyncEnabled = True,
      DBSSLRequired = True, FirebaseProjectID = [], FirebaseCredentialsFile = [],
      FirebaseWebAPIKey = [], AllowedFirebaseUIDs = []\<rparr>"

lemma production_staging_disjoint_witness:
  "identity_form ''algo_prod'' \<noteq> identity_form ''algo_stage'' \<and>
   \<not> AutoMigrate (demo_config EnvProduction ''algo_prod'')"
proof -
  have "Env (demo_config EnvProduction ''algo_prod'') = EnvProduction"
    "Env (demo_config EnvStaging ''algo_stage'') = EnvStaging"
    by (simp_all add: demo_config_def)
  moreover have "ValidateStartupIdentity demo_url (Some (demo_config EnvProduction ''algo_prod'')) = None"
    "ValidateStartupIdentity demo_url (Some (demo_config EnvStaging ''algo_stage'')) = None"
    by code_simp+
  ultimately have "identity_form ''algo_prod'' \<noteq> identity_form ''algo_stage''"
      "\<not> AutoMigrate (demo_config EnvProduction ''algo_prod'')"
    using production_staging_disjoint [of "demo_config EnvProduction ''algo_prod''" demo_url
        "demo_config EnvStaging ''algo_stage''" demo_url]
    by (auto simp: demo_config_def)
  then show ?thesis by (rule conjI)
qed

end
