(* ===== verification/Sync_Command.thy ===== *)
theory Sync_Command
  imports Sync_Service Config
begin

text \<open>
  The sync command (\<^verbatim>\<open>cmd/sync/main.go\<close>): a backfill over a range of days, one given day, or the
  daily catch-up from the last synced date to today. The model starts with a configuration that
  is loaded and a database that is connected. A sync that does not return (\<open>None\<close>) stops the
  command; the timeouts of a day are errors of the outside or the database.
\<close>

section \<open>One day\<close>

definition syncForDate :: "nse_outside \<Rightarrow> config \<Rightarrow> ztime \<Rightarrow> nse_world \<Rightarrow> (sync_result \<times> nse_world) option" where
  "syncForDate out cfg day w =
     (let opts = [WithUserAgent (NSEUserAgent cfg), WithAcceptHTML (NSEAcceptHTML cfg)] @
            (if zInstant day \<noteq> zero_time then [WithTargetDate day] else []);
          (p, cache) = NewEODProvider opts;
          registry = Registry_Register NewProviderRegistry (nse_provider out p)
      in SyncProvider registry ProviderName (w\<lparr>nwCache := cache\<rparr>))"

definition nextTradingDay :: "ztime \<Rightarrow> ztime" where
  "nextTradingDay t0 =
     (let t = AddDays t0 1
      in if Weekday t = 6 then AddDays t 2 else if Weekday t = 0 then AddDays t 1 else t)"

section \<open>A range of days\<close>

record sync_totals =
  totRecords :: goint
  totSucceeded :: goint
  totFailed :: goint
  totFailedDays :: "string list"

definition no_totals :: sync_totals where
  "no_totals = \<lparr>totRecords = 0, totSucceeded = 0, totFailed = 0, totFailedDays = []\<rparr>"

definition dateLayout :: string where "dateLayout = ''2006-01-02''"

definition count_day :: "ztime \<Rightarrow> sync_result \<Rightarrow> sync_totals \<Rightarrow> sync_totals" where
  "count_day day res tot =
     (case snd res of
        Some _ \<Rightarrow> tot\<lparr>totFailed := wrap64 (totFailed tot + 1),
                        totFailedDays := totFailedDays tot @ [time_Format dateLayout day]\<rparr>
      | None \<Rightarrow> tot\<lparr>totSucceeded := wrap64 (totSucceeded tot + 1),
                    totRecords := wrap64 (totRecords tot +
                      (case fst res of None \<Rightarrow> 0 | Some run \<Rightarrow> syRecordsProcessed run))\<rparr>)"

text \<open>The two loops differ in how they come to the next day: the backfill skips weekends, the
  catch-up does not.\<close>

definition next_day :: "bool \<Rightarrow> ztime \<Rightarrow> ztime" where
  "next_day weekdays day = (if weekdays then nextTradingDay day else AddDays day 1)"

lemma next_day_later: "zInstant day + day_length \<le> zInstant (next_day weekdays day)"
  using day_length_pos by (simp add: next_day_def nextTradingDay_def Let_def AddDays_instant)

function sync_days ::
  "bool \<Rightarrow> nse_outside \<Rightarrow> config \<Rightarrow> ztime \<Rightarrow> ztime \<Rightarrow> sync_totals \<Rightarrow> nse_world \<Rightarrow> (sync_totals \<times> nse_world) option" where
  "sync_days weekdays out cfg to day tot w =
     (if zInstant day > zInstant to then Some (tot, w)
      else case syncForDate out cfg day w of
             None \<Rightarrow> None
           | Some (res, w') \<Rightarrow>
               sync_days weekdays out cfg to (next_day weekdays day) (count_day day res tot) w')"
  by pat_completeness auto
termination
proof (relation "measure (\<lambda>(_, _, _, to, day, _, _). nat (zInstant to + 1 - zInstant day))", goal_cases)
  case (2 weekdays out cfg to day tot w)
  then show ?case using next_day_later [of day weekdays] day_length_pos by auto
qed simp

declare sync_days.simps [simp del]

section \<open>The command\<close>

record sync_flags =
  flDate :: string
  flFrom :: string
  flTo :: string

definition today_utc :: "nse_outside \<Rightarrow> nse_world \<Rightarrow> ztime \<times> nse_world" where
  "today_utc out w = (TruncateDay (utc (noClock out (nwTick w))), clock_read w)"

definition backfill :: "nse_outside \<Rightarrow> config \<Rightarrow> sync_flags \<Rightarrow> nse_world \<Rightarrow> (int \<times> nse_world) option" where
  "backfill out cfg fl w =
     (case time_Parse dateLayout (flFrom fl) of
        None \<Rightarrow> Some (1, w)
      | Some from \<Rightarrow>
          (let (today, w1) = today_utc out w
           in case (if flTo fl \<noteq> [] then map_option utc (time_Parse dateLayout (flTo fl)) else Some today) of
                None \<Rightarrow> Some (1, w1)
              | Some to \<Rightarrow>
                  (case sync_days True out cfg to (utc from) no_totals w1 of
                     None \<Rightarrow> None
                   | Some (_, w2) \<Rightarrow> Some (0, w2))))"

definition sync_one :: "nse_outside \<Rightarrow> config \<Rightarrow> sync_flags \<Rightarrow> nse_world \<Rightarrow> (int \<times> nse_world) option" where
  "sync_one out cfg fl w =
     (case time_Parse dateLayout (flDate fl) of
        None \<Rightarrow> Some (1, w)
      | Some t \<Rightarrow>
          (case syncForDate out cfg (utc t) w of
             None \<Rightarrow> None
           | Some (res, w1) \<Rightarrow> Some (if snd res \<noteq> None then 1 else 0, w1)))"

definition catch_up :: "nse_outside \<Rightarrow> config \<Rightarrow> nse_world \<Rightarrow> (int \<times> nse_world) option" where
  "catch_up out cfg w =
     (case on_nse_db (LastSyncedDate ProviderName) w of
        (Inl _, w1) \<Rightarrow> Some (1, w1)
      | (Inr lastSynced, w1) \<Rightarrow>
          (if lastSynced = zero_time then Some (1, w1)
           else let (today, w2) = today_utc out w1
                in if \<not> lastSynced < zInstant today then Some (0, w2)
                   else case sync_days False out cfg today (AddDays (utc lastSynced) 1) no_totals w2 of
                          None \<Rightarrow> None
                        | Some (_, w3) \<Rightarrow> Some (0, w3)))"

text \<open>The exit status of the command.\<close>

definition sync_main ::
  "url_parser \<Rightarrow> nse_outside \<Rightarrow> config \<Rightarrow> sync_flags \<Rightarrow> nse_world \<Rightarrow> (int \<times> nse_world) option" where
  "sync_main parse out cfg fl w =
     (if ValidateStartupIdentity parse (Some cfg) \<noteq> None then Some (1, w)
      else if \<not> SyncEnabled cfg then Some (0, w)
      else if flFrom fl \<noteq> [] then backfill out cfg fl w
      else if flDate fl \<noteq> [] then sync_one out cfg fl w
      else catch_up out cfg w)"

section \<open>The days of a run\<close>

text \<open>The same, over a list of days.\<close>

primrec sync_each ::
  "nse_outside \<Rightarrow> config \<Rightarrow> ztime list \<Rightarrow> sync_totals \<Rightarrow> nse_world \<Rightarrow> (sync_totals \<times> nse_world) option" where
  "sync_each out cfg [] tot w = Some (tot, w)"
| "sync_each out cfg (day # days) tot w =
     (case syncForDate out cfg day w of
        None \<Rightarrow> None
      | Some (res, w') \<Rightarrow> sync_each out cfg days (count_day day res tot) w')"

definition midnight :: "ztime \<Rightarrow> bool" where
  "midnight z \<longleftrightarrow> zOffset z = 0 \<and> (zInstant z - zero_time) mod day_length = 0"

lemma midnight_instant: "midnight z \<Longrightarrow> zInstant z = zero_time + local_day z * day_length"
  using div_mult_mod_eq [of "zInstant z - zero_time" day_length] by (simp add: midnight_def local_day_def)

lemma midnight_AddDays: "midnight z \<Longrightarrow> midnight (AddDays z n)"
  by (simp add: midnight_def AddDays_instant algebra_simps mod_add_left_eq)
    (metis diff_add_eq mod_mult_self2)

lemma midnight_next: "midnight z \<Longrightarrow> midnight (next_day weekdays z)"
  by (simp add: next_day_def nextTradingDay_def Let_def midnight_AddDays)

lemma midnight_less: "midnight y \<Longrightarrow> midnight z \<Longrightarrow> zInstant y > zInstant z \<longleftrightarrow> local_day y > local_day z"
  using day_length_pos by (simp add: midnight_instant)

text \<open>The next day of a loop is the first one after that qualifies.\<close>

lemma next_day_day:
  "local_day day < local_day (next_day weekdays day)"
  "weekdays \<longrightarrow> is_weekday (local_day (next_day weekdays day))"
  "local_day day < n \<Longrightarrow> n < local_day (next_day weekdays day) \<Longrightarrow> weekdays \<and> \<not> is_weekday n"
  unfolding next_day_def nextTradingDay_def Let_def Weekday_def is_weekday_def
  by (auto simp: AddDays_day split: if_splits; presburger)+

definition loop_days :: "bool \<Rightarrow> int \<Rightarrow> int \<Rightarrow> int list" where
  "loop_days weekdays a b = filter (\<lambda>n. n = a \<or> \<not> weekdays \<or> is_weekday n) [a..b]"

lemma loop_days_next:
  assumes "local_day day \<le> b"
  shows "loop_days weekdays (local_day day) b = local_day day # loop_days weekdays (local_day (next_day weekdays day)) b"
proof -
  let ?a = "local_day day" and ?n = "local_day (next_day weekdays day)"
  note n = next_day_day [where day = day and weekdays = weekdays]
  have out: "\<not> (k = ?a \<or> \<not> weekdays \<or> is_weekday k)" if "?a + 1 \<le> k" "k < ?n" for k
    using n(3) [of k] that by simp
  have "filter (\<lambda>n. n = ?a \<or> \<not> weekdays \<or> is_weekday n) [?a + 1..b] =
    filter (\<lambda>n. n = ?n \<or> \<not> weekdays \<or> is_weekday n) [?n..b]"
  proof (cases "?n \<le> b")
    case True
    then have "[?a + 1..b] = [?a + 1..?n - 1] @ [?n..b]"
      using n(1) upto_split1 [of "?a + 1" "?n" b] by (simp add: upto_split1)
    moreover have "filter (\<lambda>n. n = ?a \<or> \<not> weekdays \<or> is_weekday n) [?a + 1..?n - 1] = []"
      unfolding filter_empty_conv using out by (metis add1_zle_eq atLeastAtMost_iff le_less_linear less_le_trans set_upto zle_diff1_eq linorder_not_le)
    moreover have "filter (\<lambda>n. n = ?a \<or> \<not> weekdays \<or> is_weekday n) [?n..b] =
      filter (\<lambda>n. n = ?n \<or> \<not> weekdays \<or> is_weekday n) [?n..b]"
      using n(1,2) by (intro filter_cong) auto
    ultimately show ?thesis by simp
  next
    case False
    then have "filter (\<lambda>n. n = ?a \<or> \<not> weekdays \<or> is_weekday n) [?a + 1..b] = []"
      unfolding filter_empty_conv using out by (metis add1_zle_eq atLeastAtMost_iff le_less_linear less_le_trans set_upto zle_diff1_eq linorder_not_le)
    with False show ?thesis by simp
  qed
  then show ?thesis using assms by (simp add: loop_days_def upto_rec1)
qed

lemma sync_days_list:
  assumes "midnight day" "midnight to"
  shows "\<exists>days. sync_days weekdays out cfg to day tot w = sync_each out cfg days tot w \<and>
    map local_day days = loop_days weekdays (local_day day) (local_day to) \<and> (\<forall>d \<in> set days. midnight d)"
  using assms
proof (induction weekdays out cfg to day tot w rule: sync_days.induct)
  case (1 weekdays out cfg to day tot w)
  show ?case
  proof (cases "zInstant day > zInstant to")
    case True
    then have "local_day to < local_day day" using midnight_less [OF 1(2,3)] by simp
    with True show ?thesis by (intro exI [of _ "[]"]) (simp add: sync_days.simps loop_days_def)
  next
    case False
    then have le: "local_day day \<le> local_day to" using midnight_less [OF 1(2,3)] by simp
    have m: "midnight (next_day weekdays day)" by (rule midnight_next [OF 1(2)])
    show ?thesis
    proof (cases "syncForDate out cfg day w")
      case None
      define days where "days = map (\<lambda>n. utc (zero_time + n * day_length)) (loop_days weekdays (local_day (next_day weekdays day)) (local_day to))"
      have "map local_day days = loop_days weekdays (local_day (next_day weekdays day)) (local_day to)"
        "\<forall>d \<in> set days. midnight d"
        using day_length_pos by (simp_all add: days_def local_day_def utc_def midnight_def comp_def)
      with None False 1(2) le show ?thesis
        by (intro exI [of _ "day # days"]) (simp add: sync_days.simps [of _ _ _ to day] loop_days_next)
    next
      case (Some p)
      obtain res w' where p: "syncForDate out cfg day w = Some (res, w')" using Some by (metis prod.collapse)
      from 1(1) [OF False p refl m 1(3)] obtain days where
        "sync_days weekdays out cfg to (next_day weekdays day) (count_day day res tot) w' =
           sync_each out cfg days (count_day day res tot) w'"
        "map local_day days = loop_days weekdays (local_day (next_day weekdays day)) (local_day to)"
        "\<forall>d \<in> set days. midnight d" by blast
      with p False 1(2) le show ?thesis
        by (intro exI [of _ "day # days"]) (simp add: sync_days.simps [of _ _ _ to day] loop_days_next)
    qed
  qed
qed

section \<open>The daily catch-up\<close>

lemma date_midnight: "midnight (utc (date t))"
proof -
  have "zero_time mod day_length = 0" by code_simp
  then show ?thesis by (simp add: midnight_def utc_def date_def day_length_def [symmetric] mod_diff_eq [symmetric])
qed

lemma local_day_date: "local_day (utc (date t)) = local_day (utc t)"
proof -
  have "zero_time = zero_time div day_length * day_length" by code_simp
  then obtain k where k: "zero_time = k * day_length" by blast
  have "(t div day_length * day_length - k * day_length) div day_length = t div day_length - k"
    using day_length_pos by (metis left_diff_distrib nonzero_mult_div_cancel_right less_irrefl)
  moreover have "(t - k * day_length) div day_length = t div day_length - k"
    using day_length_pos div_mult_self1 [of day_length t "- k"] by simp
  ultimately show ?thesis by (simp add: local_day_def utc_def date_def day_length_def [symmetric] k)
qed

lemma LastSyncedDate_latest:
  assumes "LastSyncedDate p d = (Inr lastSynced, d')" "lastSynced \<noteq> zero_time"
  shows "midnight (utc lastSynced)" and "d' = d\<lparr>db_faults := tl (db_faults d)\<rparr>"
    and "r \<in> set (db_candles d) \<Longrightarrow> ecProvider r = p \<Longrightarrow> local_day (utc (ecTimestamp r)) \<le> local_day (utc lastSynced)"
proof -
  let ?rows = "filter (\<lambda>r. ecProvider r = p) (db_candles d)"
  have l: "lastSynced = date_or_zero (max_date ?rows)" "d' = d\<lparr>db_faults := tl (db_faults d)\<rparr>"
    using assms(1) by (auto simp: LastSyncedDate_def run_sql_def Let_def split: list.splits option.splits)
  then obtain t ts where ts: "map (date \<circ> ecTimestamp) ?rows = t # ts" "lastSynced = fold max ts t"
    using assms(2) by (auto simp: max_date_def date_or_zero_def split: list.splits)
  have m: "lastSynced = Max (set (t # ts))" using ts(2) by (simp only: Max.set_eq_fold)
  then have "lastSynced \<in> (date \<circ> ecTimestamp) ` set ?rows"
    using Max_in [of "set (t # ts)"] ts(1) by (metis List.finite_set list.discI list.set_map set_empty)
  then show "midnight (utc lastSynced)" using date_midnight by auto
  show "d' = d\<lparr>db_faults := tl (db_faults d)\<rparr>" by (rule l(2))
  assume "r \<in> set (db_candles d)" "ecProvider r = p"
  then have "date (ecTimestamp r) \<in> set (t # ts)"
    using arg_cong [OF ts(1), of set] by force
  then have "date (ecTimestamp r) \<le> lastSynced" unfolding m by (intro Max_ge) simp_all
  then have "local_day (utc (date (ecTimestamp r))) \<le> local_day (utc lastSynced)"
    using day_length_pos by (simp add: local_day_def utc_def zdiv_mono1)
  then show "local_day (utc (ecTimestamp r)) \<le> local_day (utc lastSynced)" by (simp add: local_day_date)
qed

lemma truncated_midnight: "midnight (TruncateDay (utc t))" "local_day (TruncateDay (utc t)) = local_day (utc t)"
proof -
  have "zInstant (TruncateDay (utc t)) - zero_time = (t - zero_time) div day_length * day_length"
    unfolding TruncateDay_def utc_def by (simp add: minus_mod_eq_div_mult [symmetric])
  moreover have "zOffset (TruncateDay (utc t)) = 0" by (simp add: TruncateDay_def utc_def)
  ultimately show "midnight (TruncateDay (utc t))" "local_day (TruncateDay (utc t)) = local_day (utc t)"
    using day_length_pos by (simp_all add: midnight_def local_day_def utc_def)
qed

text \<open>C19. The daily run without flags ends with status 0 after one sync per calendar day, in order,
  from the day after the latest stored date of the provider up to the day of the clock (or does
  not return because one of these syncs does not). Each day is after every day that has a
  candle: a day that failed is not tried again once a later one is stored.\<close>

theorem catch_up_days:
  assumes "LastSyncedDate ProviderName (nwDB w) = (Inr lastSynced, d)" and "lastSynced \<noteq> zero_time"
  shows "\<exists>days. map local_day days = [local_day (utc lastSynced) + 1..local_day (utc (noClock out (nwTick w)))] \<and>
    (\<forall>day \<in> set days. midnight day) \<and>
    (\<forall>r \<in> set (db_candles (nwDB w)). ecProvider r = ProviderName \<longrightarrow>
       (\<forall>day \<in> set days. local_day (utc (ecTimestamp r)) < local_day day)) \<and>
    catch_up out cfg w = map_option (\<lambda>(_, w'). (0, w'))
      (sync_each out cfg days no_totals (w\<lparr>nwDB := d, nwTick := Suc (nwTick w)\<rparr>))"
proof -
  let ?today = "TruncateDay (utc (noClock out (nwTick w)))" and ?w = "w\<lparr>nwDB := d, nwTick := Suc (nwTick w)\<rparr>"
  let ?first = "AddDays (utc lastSynced) 1"
  note latest = LastSyncedDate_latest [OF assms]
  note today = truncated_midnight [of "noClock out (nwTick w)"]
  have first: "midnight ?first" "local_day ?first = local_day (utc lastSynced) + 1"
    using latest(1) by (simp_all add: midnight_AddDays AddDays_day)
  obtain days where days: "sync_days False out cfg ?today ?first no_totals ?w = sync_each out cfg days no_totals ?w"
    "map local_day days = [local_day (utc lastSynced) + 1..local_day (utc (noClock out (nwTick w)))]"
    "\<forall>day \<in> set days. midnight day"
    using sync_days_list [OF first(1) today(1), of False out cfg no_totals ?w]
    by (auto simp: loop_days_def first(2) today(2))
  have "catch_up out cfg w = map_option (\<lambda>(_, w'). (0, w')) (sync_each out cfg days no_totals ?w)"
  proof (cases "lastSynced < zInstant ?today")
    case True
    with days(1) assms show ?thesis
      by (simp add: catch_up_def on_nse_db_def today_utc_def clock_read_def option.case_eq_if prod.case_eq_if
          map_option_case)
  next
    case False
    then have "local_day (utc (noClock out (nwTick w))) \<le> local_day (utc lastSynced)"
      using midnight_less [OF today(1) latest(1)] today(2) by (simp add: utc_def)
    then have "days = []" using days(2) by simp
    with False assms show ?thesis by (simp add: catch_up_def on_nse_db_def today_utc_def clock_read_def)
  qed
  moreover have "\<forall>r \<in> set (db_candles (nwDB w)). ecProvider r = ProviderName \<longrightarrow>
      (\<forall>day \<in> set days. local_day (utc (ecTimestamp r)) < local_day day)"
  proof (intro ballI impI)
    fix r day assume "r \<in> set (db_candles (nwDB w))" "ecProvider r = ProviderName" "day \<in> set days"
    moreover from this(3) have "local_day day \<in> set (map local_day days)" by simp
    then have "local_day (utc lastSynced) < local_day day" by (simp only: days(2) set_upto) simp
    ultimately show "local_day (utc (ecTimestamp r)) < local_day day" using latest(3) [of r] by simp
  qed
  ultimately show ?thesis using days(2,3) by blast
qed

text \<open>A catch-up over three days.\<close>

definition demo_candle :: candle_row where
  "demo_candle = \<lparr>ecInstrumentID = 1, ecTimestamp = time_Date 2026 4 7, ecInterval = ''1d'', ecOpen = 0,
     ecHigh = 0, ecLow = 0, ecClose = 0, ecVolume = 0, ecProvider = ProviderName\<rparr>"

definition demo_synced_world :: nse_world where
  "demo_synced_world = demo_nse_world\<lparr>nwDB := (empty_db 0)\<lparr>db_candles := [demo_candle]\<rparr>\<rparr>"

lemma demo_synced:
  "LastSyncedDate ProviderName (nwDB demo_synced_world) = (Inr (time_Date 2026 4 7), nwDB demo_synced_world)"
  "time_Date 2026 4 7 \<noteq> zero_time" "local_day (utc (time_Date 2026 4 7)) = 739712"
  "local_day (utc (noClock demo_out (nwTick demo_synced_world))) = 739715"
  by code_simp+

lemma catch_up_days_witness:
  "\<exists>days. map local_day days = [739713, 739714, 739715] \<and>
    catch_up demo_out (demo_config ''a'' ''b'') demo_synced_world = map_option (\<lambda>(_, w'). (0, w'))
      (sync_each demo_out (demo_config ''a'' ''b'') days no_totals
        (demo_synced_world\<lparr>nwDB := nwDB demo_synced_world, nwTick := Suc (nwTick demo_synced_world)\<rparr>))"
proof -
  have "[739712 + 1..739715] = [739713, 739714, 739715::int]" by (simp add: upto_rec1)
  with catch_up_days [OF demo_synced(1,2), of demo_out "demo_config ''a'' ''b''"] show ?thesis
    unfolding demo_synced(3,4) by metis
qed

end
