(* ===== verification/Strategy_Service.thy ===== *)
theory Strategy_Service
  imports Backtest_Service Config
begin

text \<open>
  The read-only services: the strategies with the last backtest of the user
  (\<^verbatim>\<open>internal/services/strategy.go\<close>) and readiness (\<^verbatim>\<open>internal/services/health.go\<close>). The
  timeouts of a probe are faults of the database.
\<close>

section \<open>Strategies\<close>

definition SectionKeyBuiltin :: string where "SectionKeyBuiltin = ''BUILTIN''"
definition SectionKeyCustom :: string where "SectionKeyCustom = ''CUSTOM''"

record strategy_list_item =
  liStrategy :: builtin_strategy
  liLastBacktest :: "backtest_run option"

record strategy_section =
  scKey :: string
  scStrategies :: "strategy_list_item list"

record strategy_detail =
  sdStrategy :: builtin_strategy
  sdMaxDate :: time
  sdLastBacktest :: "backtest_run option"

text \<open>The last completed run of the user on a strategy; there need not be one.\<close>

definition last_backtest :: "string \<Rightarrow> uuid \<Rightarrow> db \<Rightarrow> backtest_run option res \<times> db" where
  "last_backtest slug u w =
     (case LatestCompletedBySlug slug u w of
        (Inr run, w') \<Rightarrow> (Inr (Some run), w')
      | (Inl e, w') \<Rightarrow> (if errors_is e ErrNotFound then (Inr None, w') else (Inl e, w')))"

primrec list_items :: "builtin_strategy list \<Rightarrow> uuid \<Rightarrow> db \<Rightarrow> strategy_list_item list res \<times> db" where
  "list_items [] u w = (Inr [], w)"
| "list_items (b # bs) u w =
     (case last_backtest (bsID b) u w of
        (Inl e, w') \<Rightarrow> (Inl e, w')
      | (Inr run, w') \<Rightarrow>
          (case list_items bs u w' of
             (Inl e, w'') \<Rightarrow> (Inl e, w'')
           | (Inr items, w'') \<Rightarrow> (Inr (\<lparr>liStrategy = b, liLastBacktest = run\<rparr> # items), w'')))"

definition ListSections :: "builtin_strategy list \<Rightarrow> uuid \<Rightarrow> db \<Rightarrow> strategy_section list res \<times> db" where
  "ListSections all u w =
     (case list_items all u w of
        (Inl e, w') \<Rightarrow> (Inl e, w')
      | (Inr items, w') \<Rightarrow>
          (Inr [\<lparr>scKey = SectionKeyBuiltin, scStrategies = items\<rparr>,
                \<lparr>scKey = SectionKeyCustom, scStrategies = []\<rparr>], w'))"

definition GetBySlug ::
  "(string \<Rightarrow> builtin_strategy option) \<Rightarrow> string \<Rightarrow> uuid \<Rightarrow> db \<Rightarrow> strategy_detail res \<times> db" where
  "GetBySlug builtin slug u w =
     (case builtin slug of
        None \<Rightarrow> (Inl ErrNotFound, w)
      | Some b \<Rightarrow>
          (case MaxDate w of
             (Inl e, w1) \<Rightarrow> (Inl e, w1)
           | (Inr maxDate, w1) \<Rightarrow>
               (case last_backtest slug u w1 of
                  (Inl e, w2) \<Rightarrow> (Inl e, w2)
                | (Inr run, w2) \<Rightarrow>
                    (Inr \<lparr>sdStrategy = b, sdMaxDate = maxDate, sdLastBacktest = run\<rparr>, w2))))"

text \<open>The built-in strategies of the server; its registry exists (\<open>registry_spec\<close>).\<close>

definition server_builtins :: "builtin_strategy list" where
  "server_builtins =
     (case NewRegistry of Inl panic \<Rightarrow> [] | Inr r \<Rightarrow> List.map_filter id (registry_All r))"

definition server_builtin :: "string \<Rightarrow> builtin_strategy option" where
  "server_builtin slug = (case NewRegistry of Inl panic \<Rightarrow> None | Inr r \<Rightarrow> registry_Get r slug)"

section \<open>Health\<close>

definition readinessTimeout :: duration where "readinessTimeout = 2 * second"

record readiness_checks =
  rcDatabase :: string
  rcDatabaseIdentity :: string

definition CheckReadiness :: "string \<Rightarrow> db \<Rightarrow> readiness_checks res \<times> db" where
  "CheckReadiness env w =
     (case Ping w of
        (Inl _, w1) \<Rightarrow> (Inl (Plain ''database unavailable''), w1)
      | (Inr _, w1) \<Rightarrow>
          (if env = EnvProduction \<or> env = EnvStaging
           then case QueryDBIdentity w1 of
                  (Inl _, w2) \<Rightarrow> (Inl (Plain ''could not read database identity''), w2)
                | (Inr identity, w2) \<Rightarrow>
                    (if identity \<noteq> env then (Inl (Plain ''environment identity check failed''), w2)
                     else (Inr \<lparr>rcDatabase = ''ok'', rcDatabaseIdentity = ''ok''\<rparr>, w2))
           else (Inr \<lparr>rcDatabase = ''ok'', rcDatabaseIdentity = ''skipped''\<rparr>, w1)))"

definition HealthService_MigrationVersion :: "db \<Rightarrow> goint res \<times> db" where
  "HealthService_MigrationVersion = MigrationVersion"

end
