(* ===== verification/Api_Response.thy ===== *)
theory Api_Response
  imports Strategy_Service GoTime "HOL-Library.AList"
begin

text \<open>
  The bodies of the responses: \<^verbatim>\<open>backtest_response.go\<close>, \<^verbatim>\<open>strategy_response.go\<close> and
  \<^verbatim>\<open>health_response.go\<close> of \<^verbatim>\<open>internal/handlers\<close>. A struct with JSON tags is the JSON value its
  encoding gives, \<open>None\<close> where \<^verbatim>\<open>encoding/json\<close> refuses it (a \<open>NaN\<close> or an infinity). The text of
  a UUID is a parameter.
\<close>

section \<open>Values\<close>

definition dateFormat :: string where "dateFormat = ''2006-01-02''"

text \<open>\<^verbatim>\<open>t.UTC().Format(time.RFC3339)\<close>.\<close>

definition rfc3339 :: "time \<Rightarrow> string" where
  "rfc3339 t =
     (let s = local_clock (utc t) div second
      in time_Format dateFormat (utc t) @ ''T'' @ append_int (s div 3600) 2 @ '':'' @
         append_int (s div 60 mod 60) 2 @ '':'' @ append_int (s mod 60) 2 @ ''Z'')"

definition format_day :: "time \<Rightarrow> string" where
  "format_day t = time_Format dateFormat (utc t)"

definition derefFloat :: "f64 option \<Rightarrow> f64" where
  "derefFloat p = (case p of None \<Rightarrow> 0 | Some x \<Rightarrow> x)"

definition derefStr :: "string option \<Rightarrow> string" where
  "derefStr p = (case p of None \<Rightarrow> [] | Some s \<Rightarrow> s)"

definition derefInt :: "goint option \<Rightarrow> goint" where
  "derefInt p = (case p of None \<Rightarrow> 0 | Some i \<Rightarrow> i)"

definition handlers_round2 :: "f64 \<Rightarrow> f64" where
  "handlers_round2 v = fround (v * lit 100 1) / lit 100 1"

definition slippagePctPrecisionScale :: f64 where "slippagePctPrecisionScale = lit 1000 1"
definition slippagePctFloorEpsilon :: f64 where "slippagePctFloorEpsilon = lit 1 (10 ^ 9)"

definition normalizeSlippagePct :: "f64 \<Rightarrow> f64" where
  "normalizeSlippagePct v =
     ffloor (v * slippagePctPrecisionScale + slippagePctFloorEpsilon) / slippagePctPrecisionScale"

definition computeReturnPct :: "backtest_run \<Rightarrow> f64" where
  "computeReturnPct run =
     (case (bCapital run, bNetPnl run) of
        (Some capital, Some pnl) \<Rightarrow> (if feq capital 0 then 0 else pnl / capital * lit 100 1)
      | _ \<Rightarrow> 0)"

definition computeWinRatePtr :: "backtest_run \<Rightarrow> goint option" where
  "computeWinRatePtr run =
     (case (bTotalTrades run, bWinCount run) of
        (Some n, Some wins) \<Rightarrow> (if n = 0 then None else Some (wrap64 (go_div (wrap64 (wins * 100)) n)))
      | _ \<Rightarrow> None)"

definition computeWinRate :: "backtest_run \<Rightarrow> goint" where
  "computeWinRate run =
     (case (bTotalTrades run, bWinCount run) of
        (Some n, Some wins) \<Rightarrow> (if n = 0 then 0 else wrap64 (go_div (wrap64 (wins * 100)) n))
      | _ \<Rightarrow> 0)"

definition computeMaxDrawdownPctPtr :: "backtest_run \<Rightarrow> f64 option" where
  "computeMaxDrawdownPctPtr run =
     map_option (\<lambda>d. handlers_round2 (d * lit 100 1)) (bMaxDrawdown run)"

definition formatCompletedAt :: "time option \<Rightarrow> string" where
  "formatCompletedAt t = (case t of None \<Rightarrow> [] | Some t \<Rightarrow> rfc3339 t)"

definition isBlankPtr :: "string option \<Rightarrow> bool" where
  "isBlankPtr p \<longleftrightarrow> p = None \<or> p = Some []"

section \<open>Encoding\<close>

definition marshal_list :: "json option list \<Rightarrow> json option" where
  "marshal_list xs = map_option JArr (marshal_all id xs)"

definition marshal_int_ptr :: "goint option \<Rightarrow> json option" where
  "marshal_int_ptr p = (case p of None \<Rightarrow> Some JNull | Some i \<Rightarrow> marshal_int i)"

text \<open>Fields with \<^verbatim>\<open>omitempty\<close>.\<close>

definition omit_string :: "string \<Rightarrow> string \<Rightarrow> (string \<times> json option) list" where
  "omit_string name s = (if s = [] then [] else [(name, marshal_string s)])"

definition omit_none :: "string \<Rightarrow> ('a \<Rightarrow> json option) \<Rightarrow> 'a option \<Rightarrow> (string \<times> json option) list" where
  "omit_none name enc p = (case p of None \<Rightarrow> [] | Some x \<Rightarrow> [(name, enc x)])"

section \<open>Runs\<close>

type_synonym uuid_text = "uuid \<Rightarrow> string"

definition backtestStrategyResponse :: "string \<Rightarrow> string \<Rightarrow> json option" where
  "backtestStrategyResponse i name =
     marshal_struct [(''id'', marshal_string i), (''name'', marshal_string name)]"

definition toBacktestSubmitResponse :: "uuid_text \<Rightarrow> backtest_run \<Rightarrow> json option" where
  "toBacktestSubmitResponse ut run =
     marshal_struct [(''id'', marshal_string (ut (bID run))), (''status'', marshal_string (bStatus run))]"

definition toBacktestChartResponse :: "chart_data option \<Rightarrow> json option" where
  "toBacktestChartResponse cd =
     marshal_struct [(''equity'', marshal_list (case cd of
        None \<Rightarrow> []
      | Some c \<Rightarrow> map (\<lambda>pt. marshal_struct [(''ts'', marshal_string (rfc3339 (Ts pt))),
                                          (''value'', marshal_float (Value pt))]) (Equity c)))]"

definition stats_fields :: "trade_stats option \<Rightarrow> (string \<times> json option) list" where
  "stats_fields ts =
     (let get = (\<lambda>f. case ts of None \<Rightarrow> None | Some s \<Rightarrow> f s);
          num = (\<lambda>f. case ts of None \<Rightarrow> 0 | Some s \<Rightarrow> f s)
      in [(''avgWin'', marshal_float_ptr (get AvgWin)), (''avgLoss'', marshal_float_ptr (get AvgLoss)),
          (''bestTrade'', marshal_float_ptr (get BestTrade)), (''worstTrade'', marshal_float_ptr (get WorstTrade)),
          (''avgPnlPerTrade'', marshal_float_ptr (get AvgPnlPerTrade)),
          (''avgHoldingMinutes'', marshal_float_ptr (get AvgHoldingMinutes)),
          (''profitFactor'', marshal_float_ptr (get ProfitFactor)),
          (''rewardRisk'', marshal_float_ptr (get RewardRisk)),
          (''longestWinStreak'', marshal_int (num LongestWinStreak)),
          (''longestLossStreak'', marshal_int (num LongestLossStreak)),
          (''tradesPerWeek'', marshal_float (case ts of None \<Rightarrow> 0 | Some s \<Rightarrow> TradesPerWeek s))])"

definition toBacktestResultPayload :: "backtest_run \<Rightarrow> json option" where
  "toBacktestResultPayload run =
     (let capital = derefFloat (bCapital run); netPnl = derefFloat (bNetPnl run)
      in marshal_struct
       ([(''strategy'', backtestStrategyResponse (derefStr (bStrategySlug run)) (derefStr (bStrategyName run))),
         (''underlying'', marshal_string (derefStr (bUnderlying run))),
         (''interval'', marshal_string (bCandleInterval run)),
         (''from'', marshal_string (format_day (bFromTs run))),
         (''to'', marshal_string (format_day (bToTs run))),
         (''lots'', marshal_int (derefInt (bLots run))),
         (''capStart'', marshal_float capital),
         (''capEnd'', marshal_float (handlers_round2 (capital + netPnl))),
         (''netPnl'', marshal_float (handlers_round2 netPnl)),
         (''grossPnl'', marshal_float (handlers_round2 (derefFloat (bGrossPnl run)))),
         (''totalCharges'', marshal_float (handlers_round2 (derefFloat (bTotalCharges run)))),
         (''slippage'', marshal_float (handlers_round2 (derefFloat (bSlippage run)))),
         (''slippagePct'', marshal_float (bSlippagePct run)),
         (''returnPct'', marshal_float (computeReturnPct run)),
         (''tradeCount'', marshal_int (derefInt (bTotalTrades run))),
         (''winRate'', marshal_int (computeWinRate run)),
         (''maxDrawdownPct'', marshal_float (handlers_round2 (derefFloat (bMaxDrawdown run) * lit 100 1)))] @
        stats_fields (bResultStats run) @
        [(''chart'', toBacktestChartResponse (bChartData run))]))"

definition toBacktestStatusResponse :: "uuid_text \<Rightarrow> backtest_run \<Rightarrow> json option" where
  "toBacktestStatusResponse ut run =
     marshal_struct
       ([(''id'', marshal_string (ut (bID run))), (''status'', marshal_string (bStatus run))] @
        omit_none ''errorMessage'' marshal_string (bErrorMessage run) @
        (if bStatus run = BacktestCompleted then [(''result'', toBacktestResultPayload run)] else []))"

section \<open>Pages of trades\<close>

definition trade_response :: "trade \<Rightarrow> json option" where
  "trade_response tr =
     marshal_struct
       [(''entryTs'', marshal_string (rfc3339 (tEntryTimestamp tr))),
        (''exitTs'', marshal_string (rfc3339 (tExitTimestamp tr))),
        (''side'', marshal_string (tSide tr)), (''quantity'', marshal_int (tQuantity tr)),
        (''entryPrice'', marshal_float (tEntryPrice tr)), (''exitPrice'', marshal_float (tExitPrice tr)),
        (''pnl'', marshal_float (tNetPnL tr)), (''grossPnl'', marshal_float (tGrossPnL tr)),
        (''slippage'', marshal_float (tSlippage tr)), (''brokerage'', marshal_float (tBrokerage tr)),
        (''stt'', marshal_float (tSTT tr)), (''exchangeFees'', marshal_float (tExchangeFees tr)),
        (''sebiFees'', marshal_float (tSEBIFees tr)), (''gst'', marshal_float (tGST tr)),
        (''stampDuty'', marshal_float (tStampDuty tr)), (''totalCharges'', marshal_float (tTotalCharges tr)),
        (''reason'', marshal_string (tReason tr)), (''exitReason'', marshal_string (tExitReason tr))]"

text \<open>The trades a page shows. A slice expression with bounds outside the list panics.\<close>

definition trades_slice :: "'a list \<Rightarrow> goint \<Rightarrow> goint \<Rightarrow> 'a list call" where
  "trades_slice trades page limit =
     (let total = int (length trades);
          start = wrap64 (wrap64 (page - 1) * limit)
      in if start \<ge> total then Return []
         else let stop = (let e = wrap64 (start + limit) in if e > total then total else e)
              in if 0 \<le> start \<and> start \<le> stop \<and> stop \<le> total
                 then Return (take (nat (stop - start)) (drop (nat start) trades))
                 else Panic ''runtime error: slice bounds out of range'')"

definition toBacktestTradesPageResponse :: "trade list \<Rightarrow> goint \<Rightarrow> goint \<Rightarrow> json option call" where
  "toBacktestTradesPageResponse trades page limit =
     (case trades_slice trades page limit of
        Panic p \<Rightarrow> Panic p
      | Return items \<Rightarrow>
          Return (marshal_struct
            [(''trades'', marshal_list (map trade_response items)),
             (''total'', marshal_int (int (length trades))),
             (''page'', marshal_int page), (''limit'', marshal_int limit)]))"

section \<open>Lists of runs\<close>

definition errInvalidBacktestSummary :: err where
  "errInvalidBacktestSummary = Sentinel ''invalid completed backtest summary''"

definition validateBacktestSummary :: "backtest_run option \<Rightarrow> err option" where
  "validateBacktestSummary r =
     (case r of
        None \<Rightarrow> Some errInvalidBacktestSummary
      | Some run \<Rightarrow>
          (if bID run = uuid_nil \<or> bStatus run \<noteq> BacktestCompleted \<or> bCompletedAt run = None \<or>
              isBlankPtr (bStrategySlug run) \<or> isBlankPtr (bStrategyName run) \<or>
              isBlankPtr (bUnderlying run) \<or> bCandleInterval run = [] \<or>
              bFromTs run = zero_time \<or> bToTs run = zero_time \<or> bCapital run = None \<or>
              bNetPnl run = None \<or> bTotalTrades run = None
           then Some errInvalidBacktestSummary else None))"

definition summary_result :: "backtest_run \<Rightarrow> json option" where
  "summary_result run =
     marshal_struct
       [(''strategy'', backtestStrategyResponse (the (bStrategySlug run)) (the (bStrategyName run))),
        (''underlying'', marshal_string (the (bUnderlying run))),
        (''interval'', marshal_string (bCandleInterval run)),
        (''from'', marshal_string (format_day (bFromTs run))),
        (''to'', marshal_string (format_day (bToTs run))),
        (''capStart'', marshal_float (the (bCapital run))),
        (''capEnd'', marshal_float (handlers_round2 (the (bCapital run) + the (bNetPnl run)))),
        (''netPnl'', marshal_float (handlers_round2 (the (bNetPnl run)))),
        (''grossPnl'', marshal_float (handlers_round2 (derefFloat (bGrossPnl run)))),
        (''totalCharges'', marshal_float (handlers_round2 (derefFloat (bTotalCharges run)))),
        (''slippage'', marshal_float (handlers_round2 (derefFloat (bSlippage run)))),
        (''returnPct'', marshal_float (computeReturnPct run)),
        (''tradeCount'', marshal_int (the (bTotalTrades run))),
        (''winRate'', marshal_int_ptr (computeWinRatePtr run)),
        (''maxDrawdownPct'', marshal_float_ptr (computeMaxDrawdownPctPtr run))]"

text \<open>\<open>Inl\<close> is the error of the function, a \<open>None\<close> inside \<open>Inr\<close> the error of the encoder.\<close>

definition toBacktestSummaryResponse :: "uuid_text \<Rightarrow> backtest_run \<Rightarrow> json option res" where
  "toBacktestSummaryResponse ut run =
     (case validateBacktestSummary (Some run) of
        Some e \<Rightarrow> Inl e
      | None \<Rightarrow>
          Inr (marshal_struct
            [(''id'', marshal_string (ut (bID run))), (''status'', marshal_string (bStatus run)),
             (''completedAt'', marshal_string (formatCompletedAt (bCompletedAt run))),
             (''result'', summary_result run)]))"

primrec summaries :: "uuid_text \<Rightarrow> backtest_run list \<Rightarrow> json option list res" where
  "summaries ut [] = Inr []"
| "summaries ut (run # runs) =
     (case toBacktestSummaryResponse ut run of
        Inl e \<Rightarrow> Inl e
      | Inr item \<Rightarrow> (case summaries ut runs of Inl e \<Rightarrow> Inl e | Inr items \<Rightarrow> Inr (item # items)))"

definition toBacktestListResponse ::
  "uuid_text \<Rightarrow> backtest_run list \<Rightarrow> goint \<Rightarrow> goint \<Rightarrow> goint \<Rightarrow> json option res" where
  "toBacktestListResponse ut runs page limit tot =
     (case summaries ut runs of
        Inl e \<Rightarrow> Inl e
      | Inr items \<Rightarrow>
          Inr (marshal_struct [(''runs'', marshal_list items), (''page'', marshal_int page),
                 (''limit'', marshal_int limit), (''total'', marshal_int tot)]))"

section \<open>Strategies\<close>

definition constraintMaxDate :: string where "constraintMaxDate = ''maxDate''"
definition sectionLabelBuiltin :: string where "sectionLabelBuiltin = ''FEATURED''"
definition sectionLabelCustom :: string where "sectionLabelCustom = ''MY STRATEGIES''"
definition placeholderTitleCustom :: string where "placeholderTitleCustom = ''Coming soon''"
definition placeholderDescCustom :: string where
  "placeholderDescCustom = ''Your saved strategies will appear here.''"

definition sectionLabel :: "string \<Rightarrow> string" where
  "sectionLabel key =
     (if key = SectionKeyBuiltin then sectionLabelBuiltin
      else if key = SectionKeyCustom then sectionLabelCustom else key)"

definition sectionPlaceholderFor :: "string \<Rightarrow> json option" where
  "sectionPlaceholderFor key =
     (if key = SectionKeyCustom
      then marshal_struct [(''title'', marshal_string placeholderTitleCustom),
             (''description'', marshal_string placeholderDescCustom)]
      else Some JNull)"

definition last_backtest_response :: "uuid_text \<Rightarrow> backtest_run option \<Rightarrow> json option" where
  "last_backtest_response ut r =
     (case r of
        None \<Rightarrow> Some JNull
      | Some run \<Rightarrow>
          marshal_struct
            [(''id'', marshal_string (ut (bID run))), (''returnPct'', marshal_float (computeReturnPct run)),
             (''winRate'', marshal_int (computeWinRate run)),
             (''tradeCount'', marshal_int (derefInt (bTotalTrades run))),
             (''ranAt'', marshal_string (formatCompletedAt (bCompletedAt run)))])"

definition toLastBacktestSummary :: "uuid_text \<Rightarrow> backtest_run option \<Rightarrow> json option" where
  "toLastBacktestSummary ut r = last_backtest_response ut r"

definition toLastBacktestDetail :: "uuid_text \<Rightarrow> backtest_run option \<Rightarrow> json option" where
  "toLastBacktestDetail ut r = last_backtest_response ut r"

definition toStrategyListItemResponse :: "uuid_text \<Rightarrow> strategy_list_item \<Rightarrow> json option" where
  "toStrategyListItemResponse ut item =
     (let b = liStrategy item
      in marshal_struct
        [(''id'', marshal_string (bsID b)), (''name'', marshal_string (bsName b)),
         (''category'', marshal_string (bsCategory b)), (''description'', marshal_string (bsDescription b)),
         (''lastBacktest'', toLastBacktestSummary ut (liLastBacktest item))])"

definition toStrategySectionResponse :: "uuid_text \<Rightarrow> strategy_section \<Rightarrow> json option" where
  "toStrategySectionResponse ut s =
     marshal_struct
       [(''key'', marshal_string (scKey s)), (''label'', marshal_string (sectionLabel (scKey s))),
        (''placeholder'', sectionPlaceholderFor (scKey s)),
        (''strategies'', marshal_list (map (toStrategyListItemResponse ut) (scStrategies s)))]"

definition toStrategySectionsResponse :: "uuid_text \<Rightarrow> strategy_section list \<Rightarrow> json option" where
  "toStrategySectionsResponse ut ss =
     marshal_struct [(''sections'', marshal_list (map (toStrategySectionResponse ut) ss))]"

definition any_json :: "any_value \<Rightarrow> json" where
  "any_json v = (case v of AnyInt i \<Rightarrow> JInt i | AnyString s \<Rightarrow> JStr s)"

text \<open>A constraint map, in the order of insertion (the encoder sorts the keys of a map; the order
  of the members of an object does not count). \<^verbatim>\<open>copyConstraints\<close> makes the addition of the
  latest date leave the declaration alone. The date is printed in its own location, which for the
  dates the candle store returns is UTC.\<close>

definition copyConstraints :: "(string \<times> any_value) list \<Rightarrow> (string \<times> any_value) list" where
  "copyConstraints orig = orig"

definition input_constraints :: "time \<Rightarrow> strategy_input \<Rightarrow> (string \<times> any_value) list" where
  "input_constraints maxDate inp =
     (if inType inp = InputTypeDateRange \<and> maxDate \<noteq> zero_time
      then AList.update constraintMaxDate (AnyString (time_Format dateFormat (utc maxDate)))
             (copyConstraints (inConstraints inp))
      else inConstraints inp)"

definition strategy_input_response :: "time \<Rightarrow> strategy_input \<Rightarrow> json option" where
  "strategy_input_response maxDate inp =
     marshal_struct
       ([(''key'', marshal_string (inKey inp)), (''label'', marshal_string (inLabel inp)),
         (''type'', marshal_string (inType inp))] @
        (if inOptions inp = [] then []
         else [(''options'', marshal_list (map marshal_string (inOptions inp)))]) @
        (let cs = input_constraints maxDate inp
         in if cs = [] then [] else [(''constraints'', Some (JObj (map (map_prod id any_json) cs)))]) @
        omit_none ''defaultValue'' (\<lambda>v. Some (any_json v)) (inDefaultValue inp) @
        omit_string ''defaultFrom'' (inDefaultFrom inp) @ omit_string ''defaultTo'' (inDefaultTo inp) @
        omit_string ''prefix'' (inPrefix inp) @ omit_string ''suffix'' (inSuffix inp) @
        omit_string ''caption'' (inCaption inp) @ omit_string ''captionAtZero'' (inCaptionAtZero inp))"

definition toStrategyInputResponses :: "strategy_input list \<Rightarrow> time \<Rightarrow> json option" where
  "toStrategyInputResponses inputs maxDate = marshal_list (map (strategy_input_response maxDate) inputs)"

definition toStrategyDetailResponse :: "uuid_text \<Rightarrow> strategy_detail \<Rightarrow> json option" where
  "toStrategyDetailResponse ut d =
     (let b = sdStrategy d
      in marshal_struct
        [(''id'', marshal_string (bsID b)), (''name'', marshal_string (bsName b)),
         (''category'', marshal_string (bsCategory b)), (''description'', marshal_string (bsDescription b)),
         (''logic'', marshal_list (map marshal_string (bsLogic b))),
         (''lastBacktest'', toLastBacktestDetail ut (sdLastBacktest d)),
         (''inputs'', toStrategyInputResponses (bsInputs b) (sdMaxDate d))])"

section \<open>Health\<close>

definition readyResponse :: "readiness_checks \<Rightarrow> json option" where
  "readyResponse checks =
     marshal_struct [(''status'', marshal_string ''ok''),
       (''checks'', marshal_struct [(''database'', marshal_string (rcDatabase checks)),
          (''database_identity'', marshal_string (rcDatabaseIdentity checks))])]"

record build_info =
  AppVersion :: string
  CommitSHA :: string
  BuildTime :: string

definition default_build :: build_info where
  "default_build = \<lparr>AppVersion = ''0.1.0'', CommitSHA = ''unknown'', BuildTime = ''unknown''\<rparr>"

definition versionResponse :: "build_info \<Rightarrow> string \<Rightarrow> goint option \<Rightarrow> json option" where
  "versionResponse info env migration =
     marshal_struct
       ([(''app_version'', marshal_string (AppVersion info)), (''commit_sha'', marshal_string (CommitSHA info)),
         (''build_time'', marshal_string (BuildTime info)), (''environment'', marshal_string env)] @
        omit_none ''migration_version'' marshal_int migration)"

end
