(* ===== verification/Auth_Store.thy ===== *)
theory Auth_Store
  imports Stores
begin

text \<open>
  \<^verbatim>\<open>storage/users.go\<close> and \<^verbatim>\<open>storage/refresh_tokens.go\<close>: the users, keyed by their Firebase
  identity, and the refresh tokens, known to the server by their digests only.
\<close>

section \<open>Users\<close>

definition ErrIdentityConflict :: err where
  [err_const]: "ErrIdentityConflict = Sentinel ''identity conflict''"

definition constraintUsersEmailKey :: string where "constraintUsersEmailKey = ''users_email_key''"
definition pgCodeUniqueViolation :: string where "pgCodeUniqueViolation = ''23505''"

definition canonicalizeEmail :: "string \<Rightarrow> string" where
  "canonicalizeEmail s = ToLower (TrimSpace s)"

definition nilIfEmpty :: "string \<Rightarrow> string option" where
  "nilIfEmpty s = (if s = [] then None else Some s)"

definition isUniqueViolation :: "err \<Rightarrow> string list \<Rightarrow> bool" where
  "isUniqueViolation e constraints \<longleftrightarrow>
     (case as_pg_error e of
        None \<Rightarrow> False
      | Some (code, name) \<Rightarrow> code = pgCodeUniqueViolation \<and> name \<in> set constraints)"

definition toUserModel :: "user_row \<Rightarrow> user" where
  "toUserModel e =
     \<lparr>uID = euID e, uFirebaseUID = euFirebaseUID e, uEmail = euEmail e,
      uDisplayName = (case euDisplayName e of None \<Rightarrow> [] | Some s \<Rightarrow> s),
      uPhotoURL = (case euPhotoURL e of None \<Rightarrow> [] | Some s \<Rightarrow> s),
      uCreatedAt = euCreatedAt e\<rparr>"

text \<open>\<^verbatim>\<open>INSERT \<dots> ON CONFLICT (firebase_uid) DO UPDATE \<dots> RETURNING\<close>: the row of that Firebase
  identity is updated where there is one, its new email still having to be nobody else's.\<close>

definition login_row :: "user_row \<Rightarrow> user_row \<Rightarrow> user_row" where
  "login_row new r =
     r\<lparr>euEmail := euEmail new, euDisplayName := euDisplayName new, euPhotoURL := euPhotoURL new,
       euLastLoginAt := euLastLoginAt new, euUpdatedAt := euUpdatedAt new\<rparr>"

definition upsert_user :: "user_row \<Rightarrow> db \<Rightarrow> user_row res \<times> db" where
  "upsert_user new w =
     (case find (\<lambda>r. euFirebaseUID r = euFirebaseUID new) (db_users w) of
        Some r \<Rightarrow>
          (if \<exists>x \<in> set (db_users w). euFirebaseUID x \<noteq> euFirebaseUID new \<and> euEmail x = euEmail new
           then (Inl (unique_violation constraintUsersEmailKey), w)
           else (Inr (login_row new r),
                 w\<lparr>db_users := map (\<lambda>x. if euFirebaseUID x = euFirebaseUID new then login_row new x else x)
                                 (db_users w)\<rparr>))
      | None \<Rightarrow>
          (if euID new \<in> euID ` set (db_users w) then (Inl (unique_violation ''users_pkey''), w)
           else if euEmail new \<in> euEmail ` set (db_users w)
           then (Inl (unique_violation constraintUsersEmailKey), w)
           else (Inr new, w\<lparr>db_users := db_users w @ [new]\<rparr>)))"

definition user_columns :: "uuid \<Rightarrow> user \<Rightarrow> time \<Rightarrow> user_row" where
  "user_columns i u t =
     \<lparr>euID = i, euEmail = canonicalizeEmail (uEmail u), euFirebaseUID = uFirebaseUID u,
      euDisplayName = nilIfEmpty (uDisplayName u), euPhotoURL = nilIfEmpty (uPhotoURL u),
      euLastLoginAt = Some (timestamptz t), euCreatedAt = timestamptz t, euUpdatedAt = timestamptz t\<rparr>"

definition UpsertByFirebaseUID :: "user \<Rightarrow> db \<Rightarrow> user res \<times> db" where
  "UpsertByFirebaseUID u w =
     (let (i, w0) = uuid_New w
      in case run_sql (\<lambda>v. upsert_user (user_columns i u (db_now v)) v) w0 of
           (Inl e, w') \<Rightarrow>
             (if isUniqueViolation e [constraintUsersEmailKey] then (Inl ErrIdentityConflict, w')
              else (Inl (Wrap ''upsert by firebase_uid: '' e ''''), w'))
         | (Inr ent, w') \<Rightarrow> (Inr (toUserModel ent), w'))"

definition FindByID :: "uuid \<Rightarrow> db \<Rightarrow> user res \<times> db" where
  "FindByID i w =
     (case run_sql (\<lambda>v. (first_row (filter (\<lambda>r. euID r = i) (db_users v)), v)) w of
        (Inl e, w') \<Rightarrow>
          (if errors_is e pgx_ErrNoRows then (Inl ErrNotFound, w')
           else (Inl (Wrap ''find user by id: '' e ''''), w'))
      | (Inr ent, w') \<Rightarrow> (Inr (toUserModel ent), w'))"

section \<open>Refresh tokens\<close>

definition insert_token :: "refresh_token \<Rightarrow> db \<Rightarrow> unit res \<times> db" where
  "insert_token t w =
     (if rtID t \<in> rtID ` set (db_refresh_tokens w)
      then (Inl (unique_violation ''refresh_tokens_pkey''), w)
      else if rtTokenHash t \<in> rtTokenHash ` set (db_refresh_tokens w)
      then (Inl (unique_violation ''refresh_tokens_token_hash_key''), w)
      else if rtUserID t \<notin> euID ` set (db_users w)
      then (Inl (foreign_key_violation ''refresh_tokens_user_id_fkey''), w)
      else (Inr (), w\<lparr>db_refresh_tokens := db_refresh_tokens w @
              [t\<lparr>rtExpiresAt := timestamptz (rtExpiresAt t), rtRevokedAt := None,
                 rtCreatedAt := timestamptz (db_now w)\<rparr>]\<rparr>))"

definition RefreshTokenStore_Create :: "refresh_token \<Rightarrow> db \<Rightarrow> unit res \<times> db" where
  "RefreshTokenStore_Create t w =
     (case run_sql (insert_token t) w of
        (Inl e, w') \<Rightarrow> (Inl (Wrap ''create refresh token: '' e ''''), w')
      | (Inr _, w') \<Rightarrow> (Inr (), w'))"

text \<open>\<^verbatim>\<open>token_hash = $1 AND revoked_at IS NULL AND expires_at > NOW()\<close>; a column and \<^verbatim>\<open>NOW()\<close>
  are compared to the microsecond.\<close>

definition active_token :: "string \<Rightarrow> time \<Rightarrow> refresh_token \<Rightarrow> bool" where
  "active_token h t r \<longleftrightarrow>
     rtTokenHash r = h \<and> rtRevokedAt r = None \<and> timestamptz t < rtExpiresAt r"

definition LookupActiveUserID :: "string \<Rightarrow> db \<Rightarrow> uuid res \<times> db" where
  "LookupActiveUserID h w =
     (case run_sql (\<lambda>v. (first_row (map rtUserID
                (filter (active_token h (db_now v)) (db_refresh_tokens v))), v)) w of
        (Inl e, w') \<Rightarrow>
          (if errors_is e pgx_ErrNoRows then (Inl ErrNotFound, w')
           else (Inl (Wrap ''lookup active user id: '' e ''''), w'))
      | (Inr u, w') \<Rightarrow> (Inr u, w'))"

text \<open>\<^verbatim>\<open>UPDATE \<dots> SET revoked_at = NOW() WHERE p\<close>.\<close>

definition revoke_where :: "(refresh_token \<Rightarrow> bool) \<Rightarrow> db \<Rightarrow> db" where
  "revoke_where p w =
     w\<lparr>db_refresh_tokens := map (\<lambda>r. if p r then r\<lparr>rtRevokedAt := Some (timestamptz (db_now w))\<rparr> else r)
                              (db_refresh_tokens w)\<rparr>"

definition consume_token :: "string \<Rightarrow> db \<Rightarrow> uuid res \<times> db" where
  "consume_token h w =
     (first_row (map rtUserID (filter (active_token h (db_now w)) (db_refresh_tokens w))),
      revoke_where (active_token h (db_now w)) w)"

definition RotateRefreshToken :: "string \<Rightarrow> refresh_token \<Rightarrow> db \<Rightarrow> uuid res \<times> db" where
  "RotateRefreshToken oldHash newToken w =
     (case no_op w of
        (Inl e, w1) \<Rightarrow> (Inl (Wrap ''rotate refresh token begin tx: '' e ''''), w1)
      | (Inr _, w1) \<Rightarrow>
     (case run_sql (consume_token oldHash) w1 of
        (Inl e, w2) \<Rightarrow>
          (if errors_is e pgx_ErrNoRows then (Inl ErrNotFound, rollback w w2)
           else (Inl (Wrap ''rotate refresh token revoke old: '' e ''''), rollback w w2))
      | (Inr userID, w2) \<Rightarrow>
     (case run_sql (insert_token newToken) w2 of
        (Inl e, w3) \<Rightarrow> (Inl (Wrap ''rotate refresh token insert new: '' e ''''), rollback w w3)
      | (Inr _, w3) \<Rightarrow>
     (case no_op w3 of
        (Inl e, w4) \<Rightarrow> (Inl (Wrap ''rotate refresh token commit: '' e ''''), rollback w w4)
      | (Inr _, w4) \<Rightarrow> (Inr userID, w4)))))"

definition RevokeByHash :: "string \<Rightarrow> db \<Rightarrow> unit res \<times> db" where
  "RevokeByHash h w =
     (case run_sql (\<lambda>v. (Inr (), revoke_where (\<lambda>r. rtTokenHash r = h \<and> rtRevokedAt r = None) v)) w of
        (Inl e, w') \<Rightarrow> (Inl (Wrap ''revoke by hash: '' e ''''), w')
      | (Inr _, w') \<Rightarrow> (Inr (), w'))"

definition expired_token :: "time \<Rightarrow> refresh_token \<Rightarrow> bool" where
  "expired_token t r \<longleftrightarrow> rtExpiresAt r < timestamptz t"

definition DeleteExpired :: "db \<Rightarrow> goint res \<times> db" where
  "DeleteExpired w =
     (case run_sql (\<lambda>v. (Inr (int (length (filter (expired_token (db_now v)) (db_refresh_tokens v)))),
                v\<lparr>db_refresh_tokens := filter (\<lambda>r. \<not> expired_token (db_now v) r) (db_refresh_tokens v)\<rparr>)) w of
        (Inl e, w') \<Rightarrow> (Inl (Wrap ''delete expired refresh tokens: '' e ''''), w')
      | (Inr n, w') \<Rightarrow> (Inr n, w'))"

end
