(* ===== verification/Tokens.thy ===== *)
theory Tokens
  imports GoStrings
begin

text \<open>
  \<^verbatim>\<open>internal/services/auth_tokens.go\<close>: the refresh tokens. The digest is SHA-256 of
  \<^verbatim>\<open>crypto/sha256\<close> (FIPS 180-4) on 32-bit words (integers, the wrap-around written out, which
  the simplifier can evaluate), the encoding is \<^verbatim>\<open>base64.RawURLEncoding\<close>,
  both written out; only the random bytes come from outside.
\<close>

unbundle bit_operations_syntax

section \<open>SHA-256\<close>

type_synonym w32 = int

definition add32 :: "w32 \<Rightarrow> w32 \<Rightarrow> w32" where
  "add32 x y = take_bit 32 (x + y)"

definition not32 :: "w32 \<Rightarrow> w32" where
  "not32 x = 0xFFFFFFFF XOR x"

definition sha_round_constants :: "w32 list" where
  "sha_round_constants = [
     1116352408, 1899447441, 3049323471, 3921009573, 961987163, 1508970993, 2453635748, 2870763221,
     3624381080, 310598401, 607225278, 1426881987, 1925078388, 2162078206, 2614888103, 3248222580,
     3835390401, 4022224774, 264347078, 604807628, 770255983, 1249150122, 1555081692, 1996064986,
     2554220882, 2821834349, 2952996808, 3210313671, 3336571891, 3584528711, 113926993, 338241895,
     666307205, 773529912, 1294757372, 1396182291, 1695183700, 1986661051, 2177026350, 2456956037,
     2730485921, 2820302411, 3259730800, 3345764771, 3516065817, 3600352804, 4094571909, 275423344,
     430227734, 506948616, 659060556, 883997877, 958139571, 1322822218, 1537002063, 1747873779,
     1955562222, 2024104815, 2227730452, 2361852424, 2428436474, 2756734187, 3204031479, 3329325298]"

definition sha_initial :: "w32 list" where
  "sha_initial = [1779033703, 3144134277, 1013904242, 2773480762,
     1359893119, 2600822924, 528734635, 1541459225]"

definition rotr :: "nat \<Rightarrow> w32 \<Rightarrow> w32" where
  "rotr n x = drop_bit n x OR push_bit (32 - n) (take_bit n x)"

text \<open>The padded message: a one bit, zeros up to 56 modulo 64 bytes, the length in bits.\<close>

definition byte :: "int \<Rightarrow> char" where "byte n = char_of n"

definition big_endian :: "nat \<Rightarrow> int \<Rightarrow> string" where
  "big_endian k n = map (\<lambda>i. byte (n div 256 ^ (k - 1 - i) mod 256)) [0..<k]"

definition sha_pad :: "string \<Rightarrow> string" where
  "sha_pad s = s @ [byte 0x80] @ replicate (nat ((119 - int (length s) mod 64) mod 64)) (byte 0) @
     big_endian 8 (8 * int (length s))"

fun chunks :: "nat \<Rightarrow> 'a list \<Rightarrow> 'a list list" where
  "chunks n [] = []"
| "chunks n (x # xs) = take n (x # xs) # chunks n (drop (n - 1) xs)"

definition word_of_bytes :: "string \<Rightarrow> w32" where
  "word_of_bytes = foldl (\<lambda>a c. 256 * a + of_char c) 0"

text \<open>The message schedule: sixteen words of the block, then the recurrence.\<close>

definition sha_extend :: "w32 list \<Rightarrow> w32 list" where
  "sha_extend w =
     (let a = w ! (length w - 15); b = w ! (length w - 2);
          s0 = rotr 7 a XOR rotr 18 a XOR drop_bit 3 a;
          s1 = rotr 17 b XOR rotr 19 b XOR drop_bit 10 b
      in w @ [add32 (add32 (w ! (length w - 16)) s0) (add32 (w ! (length w - 7)) s1)])"

definition sha_schedule :: "string \<Rightarrow> w32 list" where
  "sha_schedule block = fold (\<lambda>_. sha_extend) [16..<64] (map word_of_bytes (chunks 4 block))"

fun sha_round :: "w32 \<times> w32 \<Rightarrow> w32 list \<Rightarrow> w32 list" where
  "sha_round (k, w) [a, b, c, d, e, f, g, h] =
     (let s1 = rotr 6 e XOR rotr 11 e XOR rotr 25 e;
          ch = (e AND f) XOR (not32 e AND g);
          t1 = add32 (add32 (add32 h s1) ch) (add32 k w);
          s0 = rotr 2 a XOR rotr 13 a XOR rotr 22 a;
          maj = (a AND b) XOR (a AND c) XOR (b AND c);
          t2 = add32 s0 maj
      in [add32 t1 t2, a, b, c, add32 d t1, e, f, g])"
| "sha_round _ s = s"

definition sha_block :: "string \<Rightarrow> w32 list \<Rightarrow> w32 list" where
  "sha_block block s =
     map2 add32 s (fold sha_round (zip sha_round_constants (sha_schedule block)) s)"

definition Sum256 :: "string \<Rightarrow> w32 list" where
  "Sum256 s = fold sha_block (chunks 64 (sha_pad s)) sha_initial"

definition hex_word :: "w32 \<Rightarrow> string" where
  "hex_word w = map (\<lambda>i. ''0123456789abcdef'' ! nat (drop_bit (28 - 4 * i) w AND 15)) [0..<8]"

definition sha256HexOf :: "string \<Rightarrow> string" where
  "sha256HexOf s = concat (map hex_word (Sum256 s))"

lemma sha256_abc:
  "sha256HexOf ''abc'' = ''ba7816bf8f01cfea414140de5dae2223b00361a396177a9cb410ff61f20015ad''"
  by code_simp

section \<open>Base64\<close>

definition base64url_alphabet :: string where
  "base64url_alphabet = ''ABCDEFGHIJKLMNOPQRSTUVWXYZabcdefghijklmnopqrstuvwxyz0123456789-_''"

definition base64_char :: "int \<Rightarrow> char" where
  "base64_char i = base64url_alphabet ! nat (i mod 64)"

fun RawURLEncoding :: "string \<Rightarrow> string" where
  "RawURLEncoding [] = []"
| "RawURLEncoding [a] =
     [base64_char (of_char a div 4), base64_char (of_char a mod 4 * 16)]"
| "RawURLEncoding [a, b] =
     [base64_char (of_char a div 4), base64_char (of_char a mod 4 * 16 + of_char b div 16),
      base64_char (of_char b mod 16 * 4)]"
| "RawURLEncoding (a # b # c # s) =
     [base64_char (of_char a div 4), base64_char (of_char a mod 4 * 16 + of_char b div 16),
      base64_char (of_char b mod 16 * 4 + of_char c div 64), base64_char (of_char c)] @
     RawURLEncoding s"

section \<open>Refresh tokens\<close>

definition refreshTTL :: duration where "refreshTTL = 30 * 24 * hour"
definition refreshTokenBytes :: nat where "refreshTokenBytes = 32"
definition refreshTokenLen :: nat where "refreshTokenLen = 43"

definition refreshTokenCharset :: "string \<Rightarrow> bool" where
  "refreshTokenCharset s \<longleftrightarrow>
     s \<noteq> [] \<and> list_all (\<lambda>c. char_between CHR ''A'' CHR ''Z'' c \<or> char_between CHR ''a'' CHR ''z'' c \<or>
       char_between CHR ''0'' CHR ''9'' c \<or> c = CHR ''_'' \<or> c = CHR ''-'') s"

text \<open>\<open>random\<close> is what \<^verbatim>\<open>rand.Read\<close> answers for \<^verbatim>\<open>refreshTokenBytes\<close> bytes; the token and its
  digest.\<close>

definition newRefreshToken :: "string res \<Rightarrow> (string \<times> string) res" where
  "newRefreshToken random =
     (case random of
        Inl e \<Rightarrow> Inl e
      | Inr buf \<Rightarrow> (let raw = RawURLEncoding buf in Inr (raw, sha256HexOf raw)))"

definition isValidRefreshTokenFormat :: "string \<Rightarrow> bool" where
  "isValidRefreshTokenFormat s \<longleftrightarrow> length s = refreshTokenLen \<and> refreshTokenCharset s"

section \<open>Lemmas\<close>

lemma base64_char_valid:
  "char_between CHR ''A'' CHR ''Z'' (base64_char i) \<or> char_between CHR ''a'' CHR ''z'' (base64_char i) \<or>
   char_between CHR ''0'' CHR ''9'' (base64_char i) \<or> base64_char i = CHR ''_'' \<or> base64_char i = CHR ''-''"
proof -
  have "list_all (\<lambda>c. char_between CHR ''A'' CHR ''Z'' c \<or> char_between CHR ''a'' CHR ''z'' c \<or>
       char_between CHR ''0'' CHR ''9'' c \<or> c = CHR ''_'' \<or> c = CHR ''-'') base64url_alphabet"
    by code_simp
  moreover have "nat (i mod 64) < length base64url_alphabet"
  proof -
    have "length base64url_alphabet = 64" by code_simp
    moreover have "i mod 64 < 64" by simp
    ultimately show ?thesis by linarith
  qed
  ultimately show ?thesis by (simp add: base64_char_def list_all_length)
qed

lemma RawURLEncoding_length: "length (RawURLEncoding s) = (4 * length s + 2) div 3"
  by (induction s rule: RawURLEncoding.induct) simp_all

lemma RawURLEncoding_charset: "s \<noteq> [] \<Longrightarrow> refreshTokenCharset (RawURLEncoding s)"
proof -
  have "list_all (\<lambda>c. \<exists>i. c = base64_char i) (RawURLEncoding s)"
    by (induction s rule: RawURLEncoding.induct) auto
  moreover assume "s \<noteq> []"
  then have "RawURLEncoding s \<noteq> []" by (cases s rule: RawURLEncoding.cases) auto
  ultimately show ?thesis
    unfolding refreshTokenCharset_def using base64_char_valid by (fastforce simp: list_all_iff)
qed

text \<open>A token the server issues is one it accepts.\<close>

lemma newRefreshToken_valid:
  assumes "newRefreshToken (Inr buf) = Inr (raw, h)" "length buf = refreshTokenBytes"
  shows "isValidRefreshTokenFormat raw \<and> h = sha256HexOf raw"
proof -
  have "raw = RawURLEncoding buf" "h = sha256HexOf raw"
    using assms(1) by (auto simp: newRefreshToken_def Let_def)
  moreover have "buf \<noteq> []" using assms(2) by (auto simp: refreshTokenBytes_def)
  ultimately show ?thesis
    using assms(2) RawURLEncoding_charset
    by (simp add: isValidRefreshTokenFormat_def RawURLEncoding_length refreshTokenBytes_def refreshTokenLen_def)
qed

end
