(* ===== verification/Auth_Service.thy ===== *)
theory Auth_Service
  imports Auth_Store Tokens Config
begin

text \<open>
  \<^verbatim>\<open>services/auth_service.go\<close>, \<^verbatim>\<open>auth_jwt.go\<close> and \<^verbatim>\<open>handlers/auth.go\<close>: sessions. A Firebase
  identity is exchanged for an access token (a JWT) and a refresh token; a refresh token is
  rotated, or revoked by a logout. The service sees its collaborators through the record
  \<open>auth_service\<close>, over a world of type \<open>'w\<close>. The JWT library, the Firebase verifier and the
  text of UUIDs are not part of the program: they are fields too.
\<close>

section \<open>Errors\<close>

definition ErrFirebaseNotConfigured :: err where
  [err_const]: "ErrFirebaseNotConfigured = Sentinel ''firebase not configured''"
definition ErrFirebaseTokenInvalid :: err where
  [err_const]: "ErrFirebaseTokenInvalid = Sentinel ''firebase token invalid''"
definition ErrFirebaseEmailUnverified :: err where
  [err_const]: "ErrFirebaseEmailUnverified = Sentinel ''firebase email unverified''"
definition ErrAuthNotAllowed :: err where
  [err_const]: "ErrAuthNotAllowed = Sentinel ''auth not allowed''"
definition ErrRefreshTokenInvalid :: err where
  [err_const]: "ErrRefreshTokenInvalid = Sentinel ''refresh token invalid''"
definition ErrInvalidRequest :: err where
  [err_const]: "ErrInvalidRequest = Sentinel ''invalid request''"

definition MaxFirebaseIDTokenLen :: nat where "MaxFirebaseIDTokenLen = 4096"

section \<open>Collaborators\<close>

record firebase_claims =
  fcUID :: string
  fcEmail :: string
  fcDisplayName :: string
  fcPhotoURL :: string
  fcEmailVerified :: bool

text \<open>\<^verbatim>\<open>github.com/golang-jwt/jwt\<close>: the claims of a token, \<open>None\<close> where they are not a map;
  the key a method is verified with; signing, and parsing at an instant, which reports whether
  the token is valid.\<close>

type_synonym map_claims = "(string \<times> json) list"

datatype signing_method = HMAC string | OtherMethod string

record jwt_token =
  jtClaims :: "map_claims option"
  jtValid :: bool

record jwt_library =
  jwtSign :: "signing_method \<Rightarrow> map_claims \<Rightarrow> string \<Rightarrow> string res"
  jwtParse :: "(signing_method \<Rightarrow> string res) \<Rightarrow> string list \<Rightarrow> time \<Rightarrow> string \<Rightarrow> jwt_token res"

record 'w auth_service =
  asUpsertByFirebaseUID :: "user \<Rightarrow> 'w \<Rightarrow> user res \<times> 'w"
  asFindByID :: "uuid \<Rightarrow> 'w \<Rightarrow> user res \<times> 'w"
  asCreate :: "refresh_token \<Rightarrow> 'w \<Rightarrow> unit res \<times> 'w"
  asLookupActiveUserID :: "string \<Rightarrow> 'w \<Rightarrow> uuid res \<times> 'w"
  asRotateRefreshToken :: "string \<Rightarrow> refresh_token \<Rightarrow> 'w \<Rightarrow> uuid res \<times> 'w"
  asRevokeByHash :: "string \<Rightarrow> 'w \<Rightarrow> unit res \<times> 'w"
  asVerifyIDToken :: "(string \<Rightarrow> 'w \<Rightarrow> firebase_claims res \<times> 'w) option"
  asJWT :: jwt_library
  asUUIDString :: "uuid \<Rightarrow> string"
  asUUIDParse :: "string \<Rightarrow> uuid res"
  asSecret :: string
  asAllowedUIDs :: "string list"
  asEnv :: string
  asNow :: "'w \<Rightarrow> time"
  asRandom :: "'w \<Rightarrow> string res \<times> 'w"
  asNewID :: "'w \<Rightarrow> uuid \<times> 'w"

section \<open>Access tokens\<close>

definition jwtSubClaim :: string where "jwtSubClaim = ''sub''"
definition jwtEnvClaim :: string where "jwtEnvClaim = ''env''"
definition jwtIssuedAtClaim :: string where "jwtIssuedAtClaim = ''iat''"
definition jwtExpiryClaim :: string where "jwtExpiryClaim = ''exp''"
definition accessTTL :: duration where "accessTTL = hour"

definition Unix :: "time \<Rightarrow> goint" where "Unix t = t div second"

definition keyfunc :: "string \<Rightarrow> signing_method \<Rightarrow> string res" where
  "keyfunc secret m =
     (case m of HMAC _ \<Rightarrow> Inr secret | OtherMethod _ \<Rightarrow> Inl (Plain ''unexpected signing method''))"

definition string_claim :: "map_claims \<Rightarrow> string \<Rightarrow> string option" where
  "string_claim claims k = (case map_of claims k of Some (JStr s) \<Rightarrow> Some s | _ \<Rightarrow> None)"

definition ValidateToken :: "'w auth_service \<Rightarrow> string \<Rightarrow> 'w \<Rightarrow> uuid res" where
  "ValidateToken sv tokenStr w =
     (case jwtParse (asJWT sv) (keyfunc (asSecret sv)) [''HS256''] (asNow sv w) tokenStr of
        Inl e \<Rightarrow> Inl (Plain ''invalid token'')
      | Inr tok \<Rightarrow>
         (if \<not> jtValid tok then Inl (Plain ''invalid token'')
          else case jtClaims tok of
            None \<Rightarrow> Inl (Plain ''invalid token claims'')
          | Some claims \<Rightarrow>
             (if (case string_claim claims jwtEnvClaim of None \<Rightarrow> [] | Some s \<Rightarrow> s) \<noteq> asEnv sv
              then Inl (Plain ''token environment mismatch'')
              else case string_claim claims jwtSubClaim of
                None \<Rightarrow> Inl (Plain ''invalid token subject'')
              | Some sub \<Rightarrow>
                 (case asUUIDParse sv sub of
                    Inl e \<Rightarrow> Inl (Wrap ''parse token subject: '' e '''')
                  | Inr i \<Rightarrow> Inr i))))"

definition access_claims :: "'w auth_service \<Rightarrow> uuid \<Rightarrow> time \<Rightarrow> map_claims" where
  "access_claims sv u now =
     [(jwtSubClaim, JStr (asUUIDString sv u)), (jwtEnvClaim, JStr (asEnv sv)),
      (jwtIssuedAtClaim, JInt (Unix now)), (jwtExpiryClaim, JInt (Unix (now + accessTTL)))]"

definition mintAccessToken :: "'w auth_service \<Rightarrow> uuid \<Rightarrow> 'w \<Rightarrow> string res" where
  "mintAccessToken sv u w =
     jwtSign (asJWT sv) (HMAC ''HS256'') (access_claims sv u (asNow sv w)) (asSecret sv)"

section \<open>Sessions\<close>

record token_pair =
  AccessToken :: string
  RefreshToken :: string

definition allowlistAllows :: "'w auth_service \<Rightarrow> string \<Rightarrow> bool" where
  "allowlistAllows sv uid \<longleftrightarrow>
     (if asAllowedUIDs sv = [] then asEnv sv = EnvDevelopment \<or> asEnv sv = EnvTest
      else uid \<in> set (asAllowedUIDs sv))"

text \<open>A refresh token to be stored: fresh bytes, a fresh identifier, thirty days from now.\<close>

definition fresh_token ::
  "'w auth_service \<Rightarrow> uuid \<Rightarrow> 'w \<Rightarrow> (string \<times> refresh_token) res \<times> 'w" where
  "fresh_token sv u w =
     (let (random, w1) = asRandom sv w
      in case newRefreshToken random of
           Inl e \<Rightarrow> (Inl e, w1)
         | Inr (raw, h) \<Rightarrow>
            (let (i, w2) = asNewID sv w1
             in (Inr (raw, \<lparr>rtID = i, rtUserID = u, rtTokenHash = h,
                       rtExpiresAt = asNow sv w2 + refreshTTL, rtRevokedAt = None,
                       rtCreatedAt = zero_time\<rparr>), w2)))"

definition mintSession :: "'w auth_service \<Rightarrow> user \<Rightarrow> 'w \<Rightarrow> (token_pair \<times> user) res \<times> 'w" where
  "mintSession sv u w =
     (case mintAccessToken sv (uID u) w of
        Inl e \<Rightarrow> (Inl (Wrap ''mint session: access token: '' e ''''), w)
      | Inr access \<Rightarrow>
     (case fresh_token sv (uID u) w of
        (Inl e, w1) \<Rightarrow> (Inl (Wrap ''mint session: refresh token entropy: '' e ''''), w1)
      | (Inr (raw, rt), w1) \<Rightarrow>
     (case asCreate sv rt w1 of
        (Inl e, w2) \<Rightarrow> (Inl (Wrap ''mint session: persist refresh token: '' e ''''), w2)
      | (Inr _, w2) \<Rightarrow> (Inr (\<lparr>AccessToken = access, RefreshToken = raw\<rparr>, u), w2))))"

definition ExchangeFirebaseToken ::
  "'w auth_service \<Rightarrow> string \<Rightarrow> 'w \<Rightarrow> (token_pair \<times> user) res \<times> 'w" where
  "ExchangeFirebaseToken sv idToken w =
     (case asVerifyIDToken sv of
        None \<Rightarrow> (Inl ErrFirebaseNotConfigured, w)
      | Some verify \<Rightarrow>
     (if length idToken > MaxFirebaseIDTokenLen then (Inl ErrInvalidRequest, w)
      else case verify idToken w of
        (Inl e, w1) \<Rightarrow> (Inl ErrFirebaseTokenInvalid, w1)
      | (Inr claims, w1) \<Rightarrow>
     (if \<not> fcEmailVerified claims then (Inl ErrFirebaseEmailUnverified, w1)
      else if \<not> allowlistAllows sv (fcUID claims) then (Inl ErrAuthNotAllowed, w1)
      else case asUpsertByFirebaseUID sv
             \<lparr>uID = uuid_nil, uFirebaseUID = fcUID claims, uEmail = fcEmail claims,
              uDisplayName = fcDisplayName claims, uPhotoURL = fcPhotoURL claims,
              uCreatedAt = zero_time\<rparr> w1 of
        (Inl e, w2) \<Rightarrow> (Inl e, w2)
      | (Inr user, w2) \<Rightarrow> mintSession sv user w2)))"

definition RefreshSession :: "'w auth_service \<Rightarrow> string \<Rightarrow> 'w \<Rightarrow> token_pair res \<times> 'w" where
  "RefreshSession sv refreshToken w =
     (if \<not> isValidRefreshTokenFormat refreshToken then (Inl ErrInvalidRequest, w)
      else let hash = sha256HexOf refreshToken
      in case asLookupActiveUserID sv hash w of
        (Inl e, w1) \<Rightarrow>
          (if errors_is e ErrNotFound then (Inl ErrRefreshTokenInvalid, w1)
           else (Inl (Wrap ''refresh: lookup active user: '' e ''''), w1))
      | (Inr userID, w1) \<Rightarrow>
     (case asFindByID sv userID w1 of
        (Inl e, w2) \<Rightarrow>
          (if errors_is e ErrNotFound then (Inl ErrRefreshTokenInvalid, w2)
           else (Inl (Wrap ''refresh: find user: '' e ''''), w2))
      | (Inr user, w2) \<Rightarrow>
     (if \<not> allowlistAllows sv (uFirebaseUID user) then (Inl ErrRefreshTokenInvalid, w2)
      else case fresh_token sv userID w2 of
        (Inl e, w3) \<Rightarrow> (Inl (Wrap ''refresh: mint refresh token: '' e ''''), w3)
      | (Inr (newRaw, rt), w3) \<Rightarrow>
     (case asRotateRefreshToken sv hash rt w3 of
        (Inl e, w4) \<Rightarrow>
          (if errors_is e ErrNotFound then (Inl ErrRefreshTokenInvalid, w4)
           else (Inl (Wrap ''refresh: rotate: '' e ''''), w4))
      | (Inr _, w4) \<Rightarrow>
     (case mintAccessToken sv userID w4 of
        Inl e \<Rightarrow> (Inl (Wrap ''refresh: mint access token: '' e ''''), w4)
      | Inr access \<Rightarrow> (Inr \<lparr>AccessToken = access, RefreshToken = newRaw\<rparr>, w4))))))"

definition Logout :: "'w auth_service \<Rightarrow> string \<Rightarrow> 'w \<Rightarrow> unit res \<times> 'w" where
  "Logout sv refreshToken w =
     (if \<not> isValidRefreshTokenFormat refreshToken then (Inl ErrInvalidRequest, w)
      else asRevokeByHash sv (sha256HexOf refreshToken) w)"

section \<open>The Firebase adapter\<close>

text \<open>\<^verbatim>\<open>internal/firebaseauth/verifier.go\<close> over the SDK's answer: the identity and the claims.\<close>

record firebase_token =
  ftUID :: string
  ftClaims :: map_claims

definition bool_claim :: "map_claims \<Rightarrow> string \<Rightarrow> bool option" where
  "bool_claim claims k = (case map_of claims k of Some (JBool b) \<Rightarrow> Some b | _ \<Rightarrow> None)"

definition VerifyIDToken ::
  "(string \<Rightarrow> 'w \<Rightarrow> firebase_token res \<times> 'w) \<Rightarrow> string \<Rightarrow> 'w \<Rightarrow> firebase_claims res \<times> 'w" where
  "VerifyIDToken sdk idToken w =
     (case sdk idToken w of
        (Inl e, w') \<Rightarrow> (Inl e, w')
      | (Inr tok, w') \<Rightarrow>
         (let text = (\<lambda>k. case string_claim (ftClaims tok) k of None \<Rightarrow> [] | Some s \<Rightarrow> s)
          in (Inr \<lparr>fcUID = ftUID tok, fcEmail = text ''email'', fcDisplayName = text ''name'',
                   fcPhotoURL = text ''picture'',
                   fcEmailVerified = (case bool_claim (ftClaims tok) ''email_verified'' of
                                        None \<Rightarrow> False | Some b \<Rightarrow> b)\<rparr>, w')))"

section \<open>The service of the server\<close>

text \<open>What \<^verbatim>\<open>cmd/server\<close> passes to \<^verbatim>\<open>NewAuthService\<close>: the stores on the database, the clock
  of the process and its source of random bytes; the libraries are the \<open>externals\<close>.\<close>

record auth_world =
  awDB :: db
  awClock :: time
  awRandom :: "string res list"

record externals =
  exJWT :: jwt_library
  exUUIDString :: "uuid \<Rightarrow> string"
  exUUIDParse :: "string \<Rightarrow> uuid res"
  exFirebase :: "(string \<Rightarrow> firebase_token res) option"

definition on_db :: "(db \<Rightarrow> 'a \<times> db) \<Rightarrow> auth_world \<Rightarrow> 'a \<times> auth_world" where
  "on_db f s = (let (r, w) = f (awDB s) in (r, s\<lparr>awDB := w\<rparr>))"

definition rand_Read :: "auth_world \<Rightarrow> string res \<times> auth_world" where
  "rand_Read s =
     (case awRandom s of
        [] \<Rightarrow> (Inl (Plain ''entropy''), s)
      | r # rs \<Rightarrow> (r, s\<lparr>awRandom := rs\<rparr>))"

definition the_auth :: "externals \<Rightarrow> config \<Rightarrow> auth_world auth_service" where
  "the_auth ex cfg =
     \<lparr>asUpsertByFirebaseUID = (\<lambda>u. on_db (UpsertByFirebaseUID u)),
      asFindByID = (\<lambda>i. on_db (FindByID i)),
      asCreate = (\<lambda>t. on_db (RefreshTokenStore_Create t)),
      asLookupActiveUserID = (\<lambda>h. on_db (LookupActiveUserID h)),
      asRotateRefreshToken = (\<lambda>h t. on_db (RotateRefreshToken h t)),
      asRevokeByHash = (\<lambda>h. on_db (RevokeByHash h)),
      asVerifyIDToken = map_option (\<lambda>sdk. VerifyIDToken (\<lambda>t s. (sdk t, s))) (exFirebase ex),
      asJWT = exJWT ex, asUUIDString = exUUIDString ex, asUUIDParse = exUUIDParse ex,
      asSecret = JWTSecret cfg, asAllowedUIDs = AllowedFirebaseUIDs cfg, asEnv = Env cfg,
      asNow = awClock, asRandom = rand_Read, asNewID = on_db uuid_New\<rparr>"

end
