(* ===== verification/Auth_Flow.thy ===== *)
theory Auth_Flow
  imports Auth_Service
begin

text \<open>
  The life of a refresh token. A stored digest is live for a user until an instant, or spent;
  every call of the token store, in whatever order concurrent requests make them, is a step of
  that life cycle. The service is verified against the contract of its repository
  (\<open>token_repository\<close>), which the store meets.
\<close>

section \<open>The abstract credential store\<close>

datatype credential = Unknown | Live uuid time | Spent time

fun credential_of :: "refresh_token \<Rightarrow> credential" where
  "credential_of r = (if rtRevokedAt r = None then Live (rtUserID r) (rtExpiresAt r) else Spent (rtExpiresAt r))"

definition rows_by_hash :: "refresh_token list \<Rightarrow> string \<rightharpoonup> refresh_token" where
  "rows_by_hash rs = map_of (map (\<lambda>r. (rtTokenHash r, r)) rs)"

definition cred :: "db \<Rightarrow> string \<Rightarrow> credential" where
  "cred w h = (case rows_by_hash (db_refresh_tokens w) h of None \<Rightarrow> Unknown | Some r \<Rightarrow> credential_of r)"

fun spend :: "credential \<Rightarrow> credential" where
  "spend (Live u e) = Spent e"
| "spend c = c"

fun purge :: "time \<Rightarrow> credential \<Rightarrow> credential" where
  "purge t Unknown = Unknown"
| "purge t (Live u e) = (if e < t then Unknown else Live u e)"
| "purge t (Spent e) = (if e < t then Unknown else Spent e)"

text \<open>A call of the store with its arguments, and what it answers. The life cycle says which change of
  the credentials goes with which answer to which call, at the time \<open>t\<close>: a call that is refused
  changes nothing, and a rotation that names an owner has, in one step, spent that owner's live and
  unexpired credential and issued an unknown one.\<close>

datatype token_call =
  CallCreate refresh_token
| CallLookup string
| CallRotate string refresh_token
| CallRevoke string
| CallDeleteExpired

datatype token_answer = Refused err | Accepted | Owner uuid | Removed goint

definition issue :: "refresh_token \<Rightarrow> (string \<Rightarrow> credential) \<Rightarrow> string \<Rightarrow> credential" where
  "issue r m = m(rtTokenHash r := Live (rtUserID r) (timestamptz (rtExpiresAt r)))"

inductive token_life ::
  "time \<Rightarrow> (string \<Rightarrow> credential) \<Rightarrow> token_call \<Rightarrow> token_answer \<Rightarrow> (string \<Rightarrow> credential) \<Rightarrow> bool" for t where
  refused: "token_life t m c (Refused e) m"
| created: "m (rtTokenHash r) = Unknown \<Longrightarrow> token_life t m (CallCreate r) Accepted (issue r m)"
| found: "m h = Live u e \<Longrightarrow> t < e \<Longrightarrow> token_life t m (CallLookup h) (Owner u) m"
| rotated: "m h = Live u e \<Longrightarrow> t < e \<Longrightarrow> m (rtTokenHash r) = Unknown \<Longrightarrow>
    token_life t m (CallRotate h r) (Owner u) (issue r (m(h := Spent e)))"
| revoked: "token_life t m (CallRevoke h) Accepted (m(h := spend (m h)))"
| removed: "n = int (card {h. m h \<noteq> Unknown \<and> purge t (m h) = Unknown}) \<Longrightarrow>
    token_life t m CallDeleteExpired (Removed n) (\<lambda>h. purge t (m h))"

text \<open>The digest a call presents as a live one, and the row it adds.\<close>

fun presents :: "token_call \<Rightarrow> string option" where
  "presents (CallLookup h) = Some h"
| "presents (CallRotate h r) = Some h"
| "presents _ = None"

fun adds :: "token_call \<Rightarrow> refresh_token option" where
  "adds (CallCreate r) = Some r"
| "adds (CallRotate h r) = Some r"
| "adds _ = None"

fun live_at :: "time \<Rightarrow> credential \<Rightarrow> bool" where
  "live_at t (Live u e) \<longleftrightarrow> t < e"
| "live_at t _ \<longleftrightarrow> False"

text \<open>The constraints of the table: its two unique keys and the owner's row.\<close>

definition insertable :: "db \<Rightarrow> refresh_token \<Rightarrow> bool" where
  "insertable w r \<longleftrightarrow> rtID r \<notin> rtID ` set (db_refresh_tokens w) \<and> cred w (rtTokenHash r) = Unknown \<and>
     rtUserID r \<in> euID ` set (db_users w)"

definition token_keys :: "db \<Rightarrow> bool" where
  "token_keys w \<longleftrightarrow> distinct (map rtTokenHash (db_refresh_tokens w))"

definition db_clock :: "db \<Rightarrow> time" where "db_clock w = timestamptz (db_now w)"

lemma rows_by_hash_Some:
  "rows_by_hash rs h = Some r \<Longrightarrow> r \<in> set rs \<and> rtTokenHash r = h"
  by (auto simp: rows_by_hash_def dest!: map_of_SomeD)

lemma rows_by_hash_None: "rows_by_hash rs h = None \<longleftrightarrow> h \<notin> rtTokenHash ` set rs"
  by (force simp: rows_by_hash_def map_of_eq_None_iff)

lemma rows_by_hash_in:
  "distinct (map rtTokenHash rs) \<Longrightarrow> r \<in> set rs \<Longrightarrow> rows_by_hash rs (rtTokenHash r) = Some r"
  unfolding rows_by_hash_def by (rule map_of_is_SomeI) (auto simp: comp_def)

lemma rows_by_hash_map:
  "(\<And>r. rtTokenHash (f r) = rtTokenHash r) \<Longrightarrow> rows_by_hash (map f rs) h = map_option f (rows_by_hash rs h)"
  by (induction rs) (simp_all add: rows_by_hash_def)

lemma rows_by_hash_append:
  "rows_by_hash (rs @ [r]) h = (case rows_by_hash rs h of
     None \<Rightarrow> if h = rtTokenHash r then Some r else None | Some x \<Rightarrow> Some x)"
  by (simp add: rows_by_hash_def map_add_def split: option.split)

lemma rows_by_hash_filter:
  "distinct (map rtTokenHash rs) \<Longrightarrow>
     rows_by_hash (filter p rs) h = (case rows_by_hash rs h of
       None \<Rightarrow> None | Some r \<Rightarrow> if p r then Some r else None)"
proof (induction rs)
  case (Cons r rs)
  have "rows_by_hash rs (rtTokenHash r) = None"
    using Cons.prems by (simp add: rows_by_hash_None)
  with Cons show ?case by (auto simp: rows_by_hash_def split: option.splits)
qed (simp add: rows_by_hash_def)

lemma credential_of_known [simp]: "credential_of r \<noteq> Unknown" by simp

declare credential_of.simps [simp del]

lemma cred_Unknown: "cred w h = Unknown \<longleftrightarrow> h \<notin> rtTokenHash ` set (db_refresh_tokens w)"
  by (auto simp: cred_def simp flip: rows_by_hash_None split: option.splits)

lemma cred_row:
  "token_keys w \<Longrightarrow> r \<in> set (db_refresh_tokens w) \<Longrightarrow> cred w (rtTokenHash r) = credential_of r"
  by (simp add: cred_def token_keys_def rows_by_hash_in)

lemma active_filter:
  assumes "token_keys w"
  shows "map rtUserID (filter (active_token h t) (db_refresh_tokens w)) =
    (case cred w h of Live u e \<Rightarrow> if timestamptz t < e then [u] else [] | _ \<Rightarrow> [])"
proof -
  have "map rtUserID (filter (active_token h t) rs) =
      (case rows_by_hash rs h of None \<Rightarrow> [] | Some r \<Rightarrow> if active_token h t r then [rtUserID r] else [])"
    if "distinct (map rtTokenHash rs)" for rs
    using that
  proof (induction rs)
    case (Cons r rs)
    show ?case
    proof (cases "rtTokenHash r = h")
      case True
      then have "filter (active_token h t) rs = []"
        using Cons.prems
        by (auto simp: active_token_def filter_empty_conv) (metis image_eqI)
      with True show ?thesis by (simp add: rows_by_hash_def)
    next
      case False
      then have "\<not> active_token h t r" by (simp add: active_token_def)
      with False Cons show ?thesis by (simp add: rows_by_hash_def)
    qed
  qed (simp add: rows_by_hash_def)
  with assms show ?thesis
    by (auto simp: cred_def token_keys_def active_token_def credential_of.simps
        split: option.splits if_splits dest: rows_by_hash_Some)
qed

section \<open>The store meets the life cycle\<close>

lemma cred_map:
  assumes "\<And>r. rtTokenHash (f r) = rtTokenHash r"
  shows "cred (w\<lparr>db_refresh_tokens := map f (db_refresh_tokens w)\<rparr>) h =
    (case rows_by_hash (db_refresh_tokens w) h of None \<Rightarrow> Unknown | Some r \<Rightarrow> credential_of (f r))"
  by (simp add: cred_def rows_by_hash_map [OF assms] split: option.split)

lemma cred_revoke:
  "cred (revoke_where (\<lambda>r. rtTokenHash r = h \<and> rtRevokedAt r = None) w) = (cred w)(h := spend (cred w h))"
proof
  fix k
  show "cred (revoke_where (\<lambda>r. rtTokenHash r = h \<and> rtRevokedAt r = None) w) k
      = ((cred w)(h := spend (cred w h))) k"
    unfolding revoke_where_def
    by (subst cred_map, simp)
      (auto simp: cred_def credential_of.simps split: option.split dest: rows_by_hash_Some)
qed

lemma cred_consume:
  "cred (revoke_where (active_token h (db_now w)) w) =
    (case cred w h of Live u e \<Rightarrow> if db_clock w < e then (cred w)(h := Spent e) else cred w | _ \<Rightarrow> cred w)"
proof
  fix k
  have "cred (revoke_where (active_token h (db_now w)) w) k =
    (case rows_by_hash (db_refresh_tokens w) k of None \<Rightarrow> Unknown
     | Some r \<Rightarrow> credential_of (if active_token h (db_now w) r
                    then r\<lparr>rtRevokedAt := Some (timestamptz (db_now w))\<rparr> else r))"
    unfolding revoke_where_def by (rule cred_map) simp
  then show "cred (revoke_where (active_token h (db_now w)) w) k =
    (case cred w h of Live u e \<Rightarrow> if db_clock w < e then (cred w)(h := Spent e) else cred w | _ \<Rightarrow> cred w) k"
    by (cases "k = h")
      (auto simp: cred_def active_token_def db_clock_def credential_of.simps
        split: option.splits if_splits dest: rows_by_hash_Some)
qed

lemma token_keys_map:
  "(\<And>r. rtTokenHash (f r) = rtTokenHash r) \<Longrightarrow>
     token_keys (w\<lparr>db_refresh_tokens := map f (db_refresh_tokens w)\<rparr>) = token_keys w"
  by (simp add: token_keys_def comp_def)

lemma token_keys_revoke [simp]: "token_keys (revoke_where p w) = token_keys w"
  unfolding revoke_where_def by (rule token_keys_map) simp

lemma insert_token_cred:
  assumes "insert_token t w = (r, w')" "token_keys w"
  shows "token_keys w' \<and> db_now w' = db_now w \<and> db_users w' = db_users w \<and>
    (case r of Inl _ \<Rightarrow> w' = w
     | Inr _ \<Rightarrow> cred w (rtTokenHash t) = Unknown \<and>
         cred w' = (cred w)(rtTokenHash t := Live (rtUserID t) (timestamptz (rtExpiresAt t))))"
proof (cases r)
  case (Inl e)
  with assms show ?thesis by (auto simp: insert_token_def split: if_splits)
next
  case (Inr x)
  let ?row = "t\<lparr>rtExpiresAt := timestamptz (rtExpiresAt t), rtRevokedAt := None,
                 rtCreatedAt := timestamptz (db_now w)\<rparr>"
  have w': "w' = w\<lparr>db_refresh_tokens := db_refresh_tokens w @ [?row]\<rparr>"
    and new: "rtTokenHash t \<notin> rtTokenHash ` set (db_refresh_tokens w)"
    using assms(1) Inr by (auto simp: insert_token_def split: if_splits)
  have "cred w' k = ((cred w)(rtTokenHash t := Live (rtUserID t) (timestamptz (rtExpiresAt t)))) k" for k
    using new unfolding w'
    by (auto simp: cred_def rows_by_hash_append credential_of.simps simp flip: rows_by_hash_None
        split: option.split)
  moreover have "token_keys w'" using assms(2) new by (simp add: w' token_keys_def)
  ultimately show ?thesis using new Inr by (auto simp: w' cred_Unknown)
qed

text \<open>What every call keeps, and the calls that leave the tokens alone.\<close>

definition quiet :: "db \<Rightarrow> db \<Rightarrow> bool" where
  "quiet w w' \<longleftrightarrow> db_refresh_tokens w' = db_refresh_tokens w \<and> db_now w' = db_now w"

lemma quiet_refl [simp]: "quiet w w" "quiet w (w\<lparr>db_faults := fs\<rparr>)" "quiet w (w\<lparr>db_next := n\<rparr>)"
    "quiet w (rollback w w')"
  by (simp_all add: quiet_def rollback_def)

lemma quiet_trans: "quiet w w' \<Longrightarrow> quiet w' w'' \<Longrightarrow> quiet w w''"
  by (simp add: quiet_def)

lemma quiet_cred:
  "quiet w w' \<Longrightarrow> cred w' = cred w \<and> token_keys w' = token_keys w \<and> db_now w' = db_now w"
  by (auto simp: quiet_def cred_def token_keys_def fun_eq_iff)

lemma cred_faults [simp]:
  "cred (w\<lparr>db_faults := fs\<rparr>) = cred w" "token_keys (w\<lparr>db_faults := fs\<rparr>) = token_keys w"
  "db_clock (w\<lparr>db_faults := fs\<rparr>) = db_clock w"
  by (auto simp: cred_def token_keys_def db_clock_def fun_eq_iff)

lemma no_op_quiet: "no_op w = (r, w') \<Longrightarrow> quiet w w'"
  by (auto dest: no_op_keeps)

lemma FindByID_quiet: "FindByID i w = (r, w') \<Longrightarrow> quiet w w'"
  by (rule run_sql_cases [of "\<lambda>v. (first_row (filter (\<lambda>r. euID r = i) (db_users v)), v)" w])
    (auto simp: FindByID_def split: sum.splits if_splits prod.splits)

lemma upsert_user_quiet: "upsert_user new w = (r, w') \<Longrightarrow> quiet w w'"
  by (auto simp: upsert_user_def quiet_def split: option.splits if_splits)

lemma UpsertByFirebaseUID_quiet:
  assumes "UpsertByFirebaseUID u w = (r, w')" shows "quiet w w'"
proof -
  obtain i w0 where w0: "uuid_New w = (i, w0)" "quiet w w0"
    by (auto simp: uuid_New_def)
  obtain r1 w1 where r1: "run_sql (\<lambda>v. upsert_user (user_columns i u (db_now v)) v) w0 = (r1, w1)"
    by (metis surj_pair)
  have "quiet w0 w1"
  proof (cases rule: run_sql_cases [of "\<lambda>v. upsert_user (user_columns i u (db_now v)) v" w0])
    case (1 e)
    with r1 show ?thesis by auto
  next
    case 2
    let ?v = "w0\<lparr>db_faults := tl (db_faults w0)\<rparr>"
    from 2 r1 have "upsert_user (user_columns i u (db_now ?v)) ?v = (r1, w1)" by (simp add: r1)
    from upsert_user_quiet [OF this] show ?thesis by (rule quiet_trans [rotated]) simp
  qed
  moreover have "w' = w1"
    using assms w0(1) r1 by (auto simp: UpsertByFirebaseUID_def split: sum.splits if_splits)
  ultimately show ?thesis using w0(2) quiet_trans by blast
qed

lemma LookupActiveUserID_cred:
  assumes "LookupActiveUserID h w = (r, w')" "token_keys w"
  shows "quiet w w' \<and> (\<forall>u. r = Inr u \<longrightarrow> (\<exists>e. cred w h = Live u e \<and> db_clock w < e))"
  using assms
  by (cases rule: run_sql_cases [of "\<lambda>v. (first_row (map rtUserID
        (filter (active_token h (db_now v)) (db_refresh_tokens v))), v)" w])
    (auto simp: LookupActiveUserID_def active_filter db_clock_def
      split: sum.splits if_splits credential.splits)

lemma RefreshTokenStore_Create_cred:
  assumes "RefreshTokenStore_Create t w = (r, w')" "token_keys w"
  shows "token_keys w' \<and> db_now w' = db_now w \<and>
    (case r of Inl _ \<Rightarrow> quiet w w'
     | Inr _ \<Rightarrow> cred w (rtTokenHash t) = Unknown \<and>
         cred w' = (cred w)(rtTokenHash t := Live (rtUserID t) (timestamptz (rtExpiresAt t))))"
proof -
  let ?v = "w\<lparr>db_faults := tl (db_faults w)\<rparr>"
  have v: "token_keys ?v" "cred ?v = cred w" using assms(2) by simp_all
  show ?thesis
  proof (cases rule: run_sql_cases [of "insert_token t" w])
    case (1 e)
    then show ?thesis using assms by (auto simp: RefreshTokenStore_Create_def)
  next
    case 2
    obtain r1 w1 where r1: "insert_token t ?v = (r1, w1)" by (metis surj_pair)
    from insert_token_cred [OF this v(1)] 2 r1 assms(1) v(2) show ?thesis
      by (auto simp: RefreshTokenStore_Create_def split: sum.splits)
  qed
qed

lemma RevokeByHash_cred:
  assumes "RevokeByHash h w = (r, w')" "token_keys w"
  shows "token_keys w' \<and> db_now w' = db_now w \<and>
    (case r of Inl _ \<Rightarrow> quiet w w' | Inr _ \<Rightarrow> cred w' = (cred w)(h := spend (cred w h)))"
  using assms
  by (cases rule: run_sql_cases [of "\<lambda>v. (Inr (), revoke_where
        (\<lambda>r. rtTokenHash r = h \<and> rtRevokedAt r = None) v) :: unit res \<times> db" w])
    (auto simp: RevokeByHash_def cred_revoke, simp add: revoke_where_def)

lemma RotateRefreshToken_cred:
  assumes "RotateRefreshToken h t w = (r, w')" "token_keys w"
  shows "token_keys w' \<and> db_now w' = db_now w \<and>
    (case r of Inl _ \<Rightarrow> quiet w w'
     | Inr u \<Rightarrow> \<exists>e. cred w h = Live u e \<and> db_clock w < e \<and> cred w (rtTokenHash t) = Unknown \<and>
         cred w' = (cred w)(h := Spent e, rtTokenHash t := Live (rtUserID t) (timestamptz (rtExpiresAt t))))"
proof (cases r)
  case (Inl e)
  have "quiet w w'"
    using assms(1) Inl unfolding RotateRefreshToken_def
    by (auto split: sum.splits prod.splits if_splits dest: no_op_quiet)
  with Inl assms(2) show ?thesis using quiet_cred by auto
next
  case (Inr u)
  from assms(1) Inr obtain x w1 w2 y w3 z where steps: "no_op w = (Inr x, w1)"
    "run_sql (consume_token h) w1 = (Inr u, w2)" "run_sql (insert_token t) w2 = (Inr y, w3)"
    "no_op w3 = (Inr z, w')"
    unfolding RotateRefreshToken_def by (auto split: sum.splits prod.splits if_splits)
  have q: "quiet w w1" "quiet w3 w'" using steps(1,4) no_op_quiet by blast+
  let ?v = "w1\<lparr>db_faults := tl (db_faults w1)\<rparr>"
  have v: "token_keys ?v" "cred ?v = cred w" "db_clock ?v = db_clock w" "db_now ?v = db_now w"
    using quiet_cred [OF q(1)] assms(2) by (simp_all add: db_clock_def)
  have c: "consume_token h ?v = (Inr u, w2)"
    using steps(2) by (cases rule: run_sql_cases [of "consume_token h" w1]) auto
  then obtain e where e: "cred w h = Live u e" "db_clock w < e"
    using v quiet_cred [OF q(1)] assms(2)
    by (auto simp: consume_token_def active_filter [of w1] db_clock_def
        split: credential.splits if_splits)
  have w2: "w2 = revoke_where (active_token h (db_now ?v)) ?v"
    using c by (simp add: consume_token_def)
  have c2: "token_keys w2" "cred w2 = (cred w)(h := Spent e)" "db_now w2 = db_now w"
  proof -
    show "token_keys w2" using v(1) by (simp only: w2 token_keys_revoke)
    show "db_now w2 = db_now w" using v(4) by (simp add: w2 revoke_where_def)
    show "cred w2 = (cred w)(h := Spent e)"
      unfolding w2 cred_consume [of h ?v] v(2,3) using e by simp
  qed
  let ?x = "w2\<lparr>db_faults := tl (db_faults w2)\<rparr>"
  have i: "insert_token t ?x = (Inr y, w3)"
    using steps(3) by (cases rule: run_sql_cases [of "insert_token t" w2]) auto
  have k: "token_keys ?x" "cred ?x = cred w2" using c2(1) by simp_all
  from insert_token_cred [OF i k(1)] c2 k(2) e q(2) Inr show ?thesis
    using quiet_cred [OF q(2)] by (auto split: if_splits)
qed

lemma DeleteExpired_cred:
  assumes "DeleteExpired w = (r, w')" "token_keys w"
  shows "token_keys w' \<and> db_now w' = db_now w \<and>
    (case r of Inl _ \<Rightarrow> quiet w w' | Inr _ \<Rightarrow> cred w' = (\<lambda>h. purge (db_clock w) (cred w h)))"
proof (cases rule: run_sql_cases [of "\<lambda>v. (Inr (int (length (filter (expired_token (db_now v)) (db_refresh_tokens v)))),
                v\<lparr>db_refresh_tokens := filter (\<lambda>r. \<not> expired_token (db_now v) r) (db_refresh_tokens v)\<rparr>) :: goint res \<times> db" w])
  case (1 e)
  then show ?thesis using assms by (auto simp: DeleteExpired_def)
next
  case 2
  have "cred w' = (\<lambda>h. purge (db_clock w) (cred w h))"
    using 2 assms
    by (auto simp: DeleteExpired_def cred_def token_keys_def rows_by_hash_filter credential_of.simps
        expired_token_def db_clock_def fun_eq_iff split: option.split)
  moreover have "token_keys w'" "db_now w' = db_now w"
    using 2 assms by (auto simp: DeleteExpired_def token_keys_def distinct_map_filter)
  ultimately show ?thesis using 2 assms(1) by (auto simp: DeleteExpired_def)
qed

section \<open>The store refines the life cycle\<close>

definition answer :: "('a \<Rightarrow> token_answer) \<Rightarrow> 'a res \<times> db \<Rightarrow> token_answer \<times> db" where
  "answer f = apfst (case_sum Refused f)"

fun token_run :: "token_call \<Rightarrow> db \<Rightarrow> token_answer \<times> db" where
  "token_run (CallCreate r) w = answer (\<lambda>_. Accepted) (RefreshTokenStore_Create r w)"
| "token_run (CallLookup h) w = answer Owner (LookupActiveUserID h w)"
| "token_run (CallRotate h r) w = answer Owner (RotateRefreshToken h r w)"
| "token_run (CallRevoke h) w = answer (\<lambda>_. Accepted) (RevokeByHash h w)"
| "token_run CallDeleteExpired w = answer Removed (DeleteExpired w)"

lemma answer_eq: "answer f x = (a, w') \<longleftrightarrow> (\<exists>r. x = (r, w') \<and> a = (case r of Inl e \<Rightarrow> Refused e | Inr y \<Rightarrow> f y))"
  by (cases x) (auto simp: answer_def split: sum.splits)

lemma removed_digests:
  assumes "token_keys w"
  shows "length (filter (expired_token (db_now w)) (db_refresh_tokens w))
    = card {h. cred w h \<noteq> Unknown \<and> purge (db_clock w) (cred w h) = Unknown}"
proof -
  let ?rs = "filter (expired_token (db_now w)) (db_refresh_tokens w)"
  have gone: "purge (db_clock w) (credential_of r) = Unknown \<longleftrightarrow> expired_token (db_now w) r" for r
    by (simp add: credential_of.simps expired_token_def db_clock_def)
  have "(cred w h \<noteq> Unknown \<and> purge (db_clock w) (cred w h) = Unknown) \<longleftrightarrow> h \<in> rtTokenHash ` set ?rs" for h
  proof (cases "rows_by_hash (db_refresh_tokens w) h")
    case None
    then have "cred w h = Unknown" "h \<notin> rtTokenHash ` set (db_refresh_tokens w)"
      by (simp_all add: cred_def flip: rows_by_hash_None)
    then show ?thesis by auto
  next
    case (Some r)
    from rows_by_hash_Some [OF Some] have r: "r \<in> set (db_refresh_tokens w)" "rtTokenHash r = h" by simp_all
    have "r' = r" if "r' \<in> set (db_refresh_tokens w)" "rtTokenHash r' = h" for r'
      using rows_by_hash_in [of "db_refresh_tokens w" r'] assms that Some by (simp add: token_keys_def)
    moreover have "h \<in> rtTokenHash ` set ?rs \<longleftrightarrow>
        (\<exists>r' \<in> set (db_refresh_tokens w). rtTokenHash r' = h \<and> expired_token (db_now w) r')" by force
    ultimately have "h \<in> rtTokenHash ` set ?rs \<longleftrightarrow> expired_token (db_now w) r" using r by blast
    then show ?thesis using gone [of r] Some by (simp add: cred_def)
  qed
  then have "{h. cred w h \<noteq> Unknown \<and> purge (db_clock w) (cred w h) = Unknown} = rtTokenHash ` set ?rs"
    by blast
  moreover have "distinct (map rtTokenHash ?rs)"
    using assms by (simp add: token_keys_def distinct_map_filter)
  ultimately show ?thesis by (metis distinct_card length_map set_map)
qed

lemma DeleteExpired_count:
  assumes "DeleteExpired w = (Inr n, w')" "token_keys w"
  shows "n = int (card {h. cred w h \<noteq> Unknown \<and> purge (db_clock w) (cred w h) = Unknown})"
  using assms(1) removed_digests [OF assms(2)]
  by (auto simp: DeleteExpired_def run_sql_def Let_def split: list.splits option.splits sum.splits)

lemma token_run_life:
  assumes "token_run c w = (a, w')" and k: "token_keys w"
  shows "token_life (db_clock w) (cred w) c a (cred w') \<and> token_keys w' \<and> db_now w' = db_now w"
proof (cases c)
  case (CallCreate t)
  with assms(1) obtain r where "RefreshTokenStore_Create t w = (r, w')"
    "a = (case r of Inl e \<Rightarrow> Refused e | Inr _ \<Rightarrow> Accepted)" by (auto simp: answer_eq)
  with RefreshTokenStore_Create_cred [OF this(1) k] CallCreate quiet_cred [of w w'] show ?thesis
    using token_life.created [of "cred w" t] token_life.refused
    by (cases r) (auto simp: issue_def)
next
  case (CallLookup h)
  with assms(1) obtain r where "LookupActiveUserID h w = (r, w')"
    "a = (case r of Inl e \<Rightarrow> Refused e | Inr u \<Rightarrow> Owner u)" by (auto simp: answer_eq)
  with LookupActiveUserID_cred [OF this(1) k] CallLookup quiet_cred [of w w'] k show ?thesis
    using token_life.found [of "cred w" h] token_life.refused by (cases r) auto
next
  case (CallRotate h t)
  with assms(1) obtain r where "RotateRefreshToken h t w = (r, w')"
    "a = (case r of Inl e \<Rightarrow> Refused e | Inr u \<Rightarrow> Owner u)" by (auto simp: answer_eq)
  with RotateRefreshToken_cred [OF this(1) k] CallRotate quiet_cred [of w w'] show ?thesis
    using token_life.rotated [of "cred w" h _ _ "db_clock w" t] token_life.refused
    by (cases r) (auto simp: issue_def)
next
  case (CallRevoke h)
  with assms(1) obtain r where "RevokeByHash h w = (r, w')"
    "a = (case r of Inl e \<Rightarrow> Refused e | Inr _ \<Rightarrow> Accepted)" by (auto simp: answer_eq)
  with RevokeByHash_cred [OF this(1) k] CallRevoke quiet_cred [of w w'] show ?thesis
    using token_life.revoked [of "db_clock w" "cred w" h] token_life.refused by (cases r) auto
next
  case CallDeleteExpired
  with assms(1) obtain r where "DeleteExpired w = (r, w')"
    "a = (case r of Inl e \<Rightarrow> Refused e | Inr n \<Rightarrow> Removed n)" by (auto simp: answer_eq)
  with DeleteExpired_cred [OF this(1) k] DeleteExpired_count [OF _ k] CallDeleteExpired quiet_cred [of w w']
  show ?thesis using token_life.removed [of _ "cred w" "db_clock w"] token_life.refused by (cases r) auto
qed

lemma first_active:
  assumes "token_keys w"
  shows "first_row (map rtUserID (filter (active_token h (db_now w)) (db_refresh_tokens w))) =
    (case cred w h of Live u e \<Rightarrow> if db_clock w < e then Inr u else Inl pgx_ErrNoRows | _ \<Rightarrow> Inl pgx_ErrNoRows)"
  unfolding active_filter [OF assms] by (simp add: db_clock_def split: credential.split)

lemma insert_token_ok:
  "(\<exists>e. fst (insert_token r w) = Inl e) \<longleftrightarrow> \<not> insertable w r"
  by (auto simp: insert_token_def insertable_def cred_Unknown)

lemma insertable_revoked [simp]: "insertable (revoke_where p w) r = insertable w r"
proof -
  have "f ` set (db_refresh_tokens (revoke_where p w)) = f ` set (db_refresh_tokens w)"
    if "\<And>x t. f (x\<lparr>rtRevokedAt := t\<rparr>) = f x" for f :: "refresh_token \<Rightarrow> 'b"
  proof -
    have "f (if p r then r\<lparr>rtRevokedAt := t\<rparr> else r) = f r" for r t by (simp add: that)
    then show ?thesis by (simp add: revoke_where_def image_image del: if_image_distrib)
  qed
  from this [of rtID] this [of rtTokenHash] show ?thesis
    by (simp add: insertable_def cred_Unknown) (simp add: revoke_where_def)
qed

lemma token_run_refused:
  assumes "db_faults w = []" "token_keys w"
  shows "fst (token_run c w) = Refused ErrNotFound \<longleftrightarrow>
      (\<exists>h. presents c = Some h \<and> \<not> live_at (db_clock w) (cred w h))"
    and "(\<exists>e. fst (token_run c w) = Refused e) \<longleftrightarrow>
      (\<exists>h. presents c = Some h \<and> \<not> live_at (db_clock w) (cred w h)) \<or>
      (\<exists>r. adds c = Some r \<and> \<not> insertable w r)"
proof -
  have no: "no_op v = (Inr (), v)" if "db_faults v = []" for v
    using that by (simp add: no_op_def run_sql_no_fault)
  have ins: "db_faults (snd (insert_token r v)) = db_faults v" for r v
    by (simp add: insert_token_def)
  have row: "\<exists>e. insert_token r v = (Inl e, v) \<and> \<not> errors_is e pgx_ErrNoRows" if "\<not> insertable v r" for r v
    using that by (auto simp: insert_token_def insertable_def cred_Unknown unique_violation_def
        foreign_key_violation_def)
  have fits: "\<exists>v'. insert_token r v = (Inr (), v') \<and> db_faults v' = db_faults v" if "insertable v r" for r v
    using that by (auto simp: insert_token_def insertable_def cred_Unknown)
  define v where "v h = revoke_where (active_token h (db_now w)) w" for h
  have v: "db_faults (v h) = []" "insertable (v h) r = insertable w r" for h r
    using assms(1) by (simp_all add: v_def) (simp add: revoke_where_def)
  have use: "consume_token h w = (case cred w h of Live u e \<Rightarrow> if db_clock w < e then Inr u else Inl pgx_ErrNoRows
      | _ \<Rightarrow> Inl pgx_ErrNoRows, v h)" for h
    by (simp add: consume_token_def first_active [OF assms(2)] v_def)
  have lookup: "LookupActiveUserID h w = (case cred w h of
      Live u e \<Rightarrow> if db_clock w < e then Inr u else Inl ErrNotFound | _ \<Rightarrow> Inl ErrNotFound, w)" for h
    using assms(1)
    by (simp add: LookupActiveUserID_def run_sql_no_fault first_active [OF assms(2)] pgx_ErrNoRows_def
        split: credential.split)
  have dead: "\<not> live_at t m \<longleftrightarrow> (case m of Live u e \<Rightarrow> \<not> t < e | _ \<Rightarrow> True)" for t m
    by (cases m) simp_all
  have rotate: "fst (RotateRefreshToken h r w) = Inl ErrNotFound" if "\<not> live_at (db_clock w) (cred w h)" for h r
    using that assms(1) unfolding dead
    by (auto simp: RotateRefreshToken_def no run_sql_no_fault use pgx_ErrNoRows_def split: credential.splits)
  have rotate': "(\<exists>e. fst (RotateRefreshToken h r w) = Inl e \<and> e \<noteq> ErrNotFound) \<and> \<not> insertable w r \<or>
      (\<exists>u. fst (RotateRefreshToken h r w) = Inr u) \<and> insertable w r"
    if "live_at (db_clock w) (cred w h)" for h r
  proof -
    have "\<exists>u e. cred w h = Live u e \<and> db_clock w < e" using that by (cases "cred w h") auto
    then obtain u e where u: "cred w h = Live u e" "db_clock w < e" by blast
    then have c: "consume_token h w = (Inr u, v h)" by (simp add: use)
    show ?thesis
    proof (cases "insertable w r")
      case True
      then obtain v' where "insert_token r (v h) = (Inr (), v')" "db_faults v' = db_faults (v h)"
        using fits [of "v h" r] v by blast
      with True show ?thesis using assms(1) v
        by (simp add: RotateRefreshToken_def no run_sql_no_fault c)
    next
      case False
      then obtain e where "insert_token r (v h) = (Inl e, v h)" using row [of "v h" r] v by blast
      with False show ?thesis using assms(1) v
        by (simp add: RotateRefreshToken_def no run_sql_no_fault c ErrNotFound_def)
    qed
  qed
  have create: "(\<exists>e. fst (RefreshTokenStore_Create r w) = Inl e \<and> e \<noteq> ErrNotFound) \<and> \<not> insertable w r \<or>
      fst (RefreshTokenStore_Create r w) = Inr () \<and> insertable w r" for r
    using row [of w r] fits [of w r] assms(1)
    by (cases "insertable w r") (auto simp: RefreshTokenStore_Create_def run_sql_no_fault ErrNotFound_def)
  have others: "\<exists>w'. RevokeByHash h w = (Inr (), w')" "\<exists>n w'. DeleteExpired w = (Inr n, w')" for h
    using assms(1) by (simp_all add: RevokeByHash_def DeleteExpired_def run_sql_no_fault)
  have a: "fst (answer g x) = (case fst x of Inl e \<Rightarrow> Refused e | Inr y \<Rightarrow> g y)"
    for g and x :: "'b res \<times> db" by (simp add: answer_def)
  have "(fst (token_run c w) = Refused ErrNotFound \<longleftrightarrow>
      (\<exists>h. presents c = Some h \<and> \<not> live_at (db_clock w) (cred w h))) \<and>
    ((\<exists>e. fst (token_run c w) = Refused e) \<longleftrightarrow>
      (\<exists>h. presents c = Some h \<and> \<not> live_at (db_clock w) (cred w h)) \<or>
      (\<exists>r. adds c = Some r \<and> \<not> insertable w r))"
  proof (cases c)
    case (CallCreate r)
    then show ?thesis using create [of r] by (auto simp: a)
  next
    case (CallLookup h)
    then show ?thesis using lookup [of h] by (cases "cred w h") (auto simp: a)
  next
    case (CallRotate h r)
    show ?thesis
    proof (cases "live_at (db_clock w) (cred w h)")
      case True
      then show ?thesis using rotate' [OF True, of r] CallRotate by (auto simp: a)
    next
      case False
      then show ?thesis using rotate [OF False, of r] CallRotate by (simp add: a)
    qed
  next
    case (CallRevoke h)
    then show ?thesis using others(1) [of h] by (auto simp: a)
  next
    case CallDeleteExpired
    then show ?thesis using others(2) by (auto simp: a)
  qed
  then show "fst (token_run c w) = Refused ErrNotFound \<longleftrightarrow>
      (\<exists>h. presents c = Some h \<and> \<not> live_at (db_clock w) (cred w h))"
    "(\<exists>e. fst (token_run c w) = Refused e) \<longleftrightarrow>
      (\<exists>h. presents c = Some h \<and> \<not> live_at (db_clock w) (cred w h)) \<or>
      (\<exists>r. adds c = Some r \<and> \<not> insertable w r)" by blast+
qed

lemma token_life_spent:
  assumes "token_life t m c a m'" "m h = Spent e" "t \<le> e"
  shows "m' h = Spent e"
  using assms by cases (auto simp: issue_def)

text \<open>C33. The token store refines the life cycle of a credential: whatever call is made in a state
  with unique digests, on any arguments and with any database fault, its answer and its effect on
  the credentials are a step of the life cycle for that call. So a call that fails changes no
  credential; a rotation that succeeds has spent the live and unexpired credential of the owner it
  names and issued an unknown one, and there is no rotation of a spent or expired one and none by
  halves. Without a fault a call is answered not-found exactly when the credential it presents is
  not live, and refused otherwise exactly when the row it adds breaks a constraint. Digests stay
  unique, and a spent credential stays spent until it has expired.\<close>

theorem token_store_refines:
  assumes "token_run c w = (a, w')" and "token_keys w"
  shows "token_life (db_clock w) (cred w) c a (cred w') \<and> token_keys w' \<and> db_now w' = db_now w \<and>
    (db_faults w = [] \<longrightarrow>
       (a = Refused ErrNotFound \<longleftrightarrow>
          (\<exists>h. presents c = Some h \<and> \<not> live_at (db_clock w) (cred w h))) \<and>
       ((\<exists>e. a = Refused e) \<longleftrightarrow>
          (\<exists>h. presents c = Some h \<and> \<not> live_at (db_clock w) (cred w h)) \<or>
          (\<exists>r. adds c = Some r \<and> \<not> insertable w r))) \<and>
    (\<forall>h e. cred w h = Spent e \<and> db_clock w \<le> e \<longrightarrow> cred w' h = Spent e)"
  using token_run_life [OF assms] token_run_refused [OF _ assms(2), of c] token_life_spent
  unfolding assms(1) fst_conv by blast

section \<open>Sequences of calls\<close>

text \<open>The calls of concurrent requests reach the store one after the other, in any order;
  between them the clock goes on and the other tables change.\<close>

inductive token_step :: "db \<Rightarrow> db \<Rightarrow> bool" where
  create: "token_step w (snd (RefreshTokenStore_Create t w))"
| rotate: "token_step w (snd (RotateRefreshToken h t w))"
| revoke: "token_step w (snd (RevokeByHash h w))"
| cleanup: "token_step w (snd (DeleteExpired w))"
| outside: "db_refresh_tokens w' = db_refresh_tokens w \<Longrightarrow> db_now w \<le> db_now w' \<Longrightarrow> token_step w w'"

lemma token_step_run:
  assumes "token_step w w'"
  shows "(\<exists>c. w' = snd (token_run c w)) \<or> (db_refresh_tokens w' = db_refresh_tokens w \<and> db_now w \<le> db_now w')"
proof -
  have a: "snd (answer f x) = snd x" for f and x :: "'b res \<times> db" by (simp add: answer_def)
  from assms show ?thesis
  proof cases
    case (create t)
    then show ?thesis by (intro disjI1 exI [of _ "CallCreate t"]) (simp add: a)
  next
    case (rotate h t)
    then show ?thesis by (intro disjI1 exI [of _ "CallRotate h t"]) (simp add: a)
  next
    case (revoke h)
    then show ?thesis by (intro disjI1 exI [of _ "CallRevoke h"]) (simp add: a)
  next
    case cleanup
    then show ?thesis by (intro disjI1 exI [of _ CallDeleteExpired]) (simp add: a)
  qed simp
qed

lemma token_step_spent:
  assumes "token_step w w'" "token_keys w"
  shows "token_keys w'" and "db_clock w \<le> db_clock w'"
    and "cred w h = Spent e \<Longrightarrow> db_clock w \<le> e \<Longrightarrow> cred w' h = Spent e"
proof -
  have "token_keys w' \<and> db_clock w \<le> db_clock w' \<and>
    (cred w h = Spent e \<and> db_clock w \<le> e \<longrightarrow> cred w' h = Spent e)"
    using token_step_run [OF assms(1)]
  proof
    assume "\<exists>c. w' = snd (token_run c w)"
    then obtain c where "w' = snd (token_run c w)" by blast
    then have "token_run c w = (fst (token_run c w), w')" by simp
    from token_run_life [OF this assms(2)] token_life_spent show ?thesis by (auto simp: db_clock_def)
  next
    assume o: "db_refresh_tokens w' = db_refresh_tokens w \<and> db_now w \<le> db_now w'"
    then have "cred w' = cred w" "token_keys w' = token_keys w"
      by (auto simp: cred_def token_keys_def fun_eq_iff)
    with o assms(2) show ?thesis by (simp add: db_clock_def timestamptz_mono)
  qed
  then show "token_keys w'" "db_clock w \<le> db_clock w'"
    "cred w h = Spent e \<Longrightarrow> db_clock w \<le> e \<Longrightarrow> cred w' h = Spent e" by blast+
qed

lemma token_steps_spent:
  assumes "token_step\<^sup>*\<^sup>* w w'" "token_keys w" "cred w h = Spent e" "db_clock w' \<le> e"
  shows "token_keys w' \<and> cred w' h = Spent e"
  using assms(1,4)
proof (induction rule: rtranclp_induct)
  case (step x y)
  have "token_keys x" using step.hyps(1) assms(2)
    by (induction rule: rtranclp_induct) (auto dest: token_step_spent(1))
  note next_step = token_step_spent [OF step.hyps(2) this]
  from next_step(2) step.prems have "db_clock x \<le> e" by simp
  with step.IH next_step(1,3) show ?case by blast
qed (use assms in simp)

section \<open>The service over its repository\<close>

text \<open>The ways through \<^verbatim>\<open>RefreshSession\<close>.\<close>

lemma RefreshSession_cases [consumes 1, case_names malformed lookup find denied mint rotate]:
  assumes "RefreshSession sv tok w = (r, w')"
  obtains "\<not> isValidRefreshTokenFormat tok" "r = Inl ErrInvalidRequest" "w' = w"
  | e where "isValidRefreshTokenFormat tok" "asLookupActiveUserID sv (sha256HexOf tok) w = (Inl e, w')"
      "r = Inl (if errors_is e ErrNotFound then ErrRefreshTokenInvalid
                else Wrap ''refresh: lookup active user: '' e '''')"
  | u w1 e where "isValidRefreshTokenFormat tok"
      "asLookupActiveUserID sv (sha256HexOf tok) w = (Inr u, w1)" "asFindByID sv u w1 = (Inl e, w')"
      "r = Inl (if errors_is e ErrNotFound then ErrRefreshTokenInvalid
                else Wrap ''refresh: find user: '' e '''')"
  | u w1 user where "isValidRefreshTokenFormat tok"
      "asLookupActiveUserID sv (sha256HexOf tok) w = (Inr u, w1)" "asFindByID sv u w1 = (Inr user, w')"
      "\<not> allowlistAllows sv (uFirebaseUID user)" "r = Inl ErrRefreshTokenInvalid"
  | u w1 user w2 e where "isValidRefreshTokenFormat tok"
      "asLookupActiveUserID sv (sha256HexOf tok) w = (Inr u, w1)" "asFindByID sv u w1 = (Inr user, w2)"
      "allowlistAllows sv (uFirebaseUID user)" "fresh_token sv u w2 = (Inl e, w')"
      "r = Inl (Wrap ''refresh: mint refresh token: '' e '''')"
  | u w1 user w2 raw rt w3 r4 where "isValidRefreshTokenFormat tok"
      "asLookupActiveUserID sv (sha256HexOf tok) w = (Inr u, w1)" "asFindByID sv u w1 = (Inr user, w2)"
      "allowlistAllows sv (uFirebaseUID user)" "fresh_token sv u w2 = (Inr (raw, rt), w3)"
      "asRotateRefreshToken sv (sha256HexOf tok) rt w3 = (r4, w')"
      "r = (case r4 of
          Inl e \<Rightarrow> Inl (if errors_is e ErrNotFound then ErrRefreshTokenInvalid
                         else Wrap ''refresh: rotate: '' e '''')
        | Inr _ \<Rightarrow> (case mintAccessToken sv u w' of
            Inl e \<Rightarrow> Inl (Wrap ''refresh: mint access token: '' e '''')
          | Inr access \<Rightarrow> Inr \<lparr>AccessToken = access, RefreshToken = raw\<rparr>))"
  using assms unfolding RefreshSession_def Let_def
  by (simp split: if_split_asm prod.split_asm sum.split_asm)

text \<open>The contract: what each call does to the credentials \<open>cr\<close>, seen at the time \<open>clock\<close>, in the
  worlds where \<open>keys\<close> holds.\<close>

locale token_repository =
  fixes sv :: "'w auth_service"
    and keys :: "'w \<Rightarrow> bool" and cr :: "'w \<Rightarrow> string \<Rightarrow> credential" and clock :: "'w \<Rightarrow> time"
  assumes lookup_law: "keys w \<Longrightarrow> asLookupActiveUserID sv h w = (r, w') \<Longrightarrow>
      keys w' \<and> cr w' = cr w \<and> clock w' = clock w \<and>
      (\<forall>u. r = Inr u \<longrightarrow> (\<exists>e. cr w h = Live u e \<and> clock w < e))"
    and find_law: "keys w \<Longrightarrow> asFindByID sv i w = (u, w') \<Longrightarrow>
      keys w' \<and> cr w' = cr w \<and> clock w' = clock w"
    and upsert_law: "keys w \<Longrightarrow> asUpsertByFirebaseUID sv x w = (u, w') \<Longrightarrow>
      keys w' \<and> cr w' = cr w \<and> clock w' = clock w"
    and verify_law: "keys w \<Longrightarrow> asVerifyIDToken sv = Some v \<Longrightarrow> v tok w = (c, w') \<Longrightarrow>
      keys w' \<and> cr w' = cr w \<and> clock w' = clock w"
    and random_law: "keys w \<Longrightarrow> asRandom sv w = (b, w') \<Longrightarrow>
      keys w' \<and> cr w' = cr w \<and> clock w' = clock w"
    and new_id_law: "keys w \<Longrightarrow> asNewID sv w = (i, w') \<Longrightarrow>
      keys w' \<and> cr w' = cr w \<and> clock w' = clock w"
    and create_law: "keys w \<Longrightarrow> asCreate sv t w = (n, w') \<Longrightarrow>
      keys w' \<and> clock w' = clock w \<and>
      (case n of Inl _ \<Rightarrow> cr w' = cr w
       | Inr _ \<Rightarrow> cr w (rtTokenHash t) = Unknown \<and>
           cr w' = (cr w)(rtTokenHash t := Live (rtUserID t) (timestamptz (rtExpiresAt t))))"
    and rotate_law: "keys w \<Longrightarrow> asRotateRefreshToken sv h t w = (r, w') \<Longrightarrow>
      keys w' \<and> clock w' = clock w \<and>
      (case r of Inl _ \<Rightarrow> cr w' = cr w
       | Inr u \<Rightarrow> \<exists>e. cr w h = Live u e \<and> clock w < e \<and> cr w (rtTokenHash t) = Unknown \<and>
           cr w' = (cr w)(h := Spent e, rtTokenHash t := Live (rtUserID t) (timestamptz (rtExpiresAt t))))"
    and revoke_law: "keys w \<Longrightarrow> asRevokeByHash sv h w = (n, w') \<Longrightarrow>
      keys w' \<and> clock w' = clock w \<and>
      (case n of Inl _ \<Rightarrow> cr w' = cr w | Inr _ \<Rightarrow> cr w' = (cr w)(h := spend (cr w h)))"
begin

lemma fresh_token_law:
  assumes "fresh_token sv u w = (r, w')" "keys w"
  shows "keys w' \<and> cr w' = cr w \<and> clock w' = clock w \<and>
    (\<forall>raw t. r = Inr (raw, t) \<longrightarrow> rtUserID t = u \<and> rtTokenHash t = sha256HexOf raw)"
proof -
  obtain b w1 where b: "asRandom sv w = (b, w1)" by (metis surj_pair)
  note l1 = random_law [OF assms(2) b]
  show ?thesis
  proof (cases "newRefreshToken b")
    case (Inl e)
    with assms(1) b l1 show ?thesis by (auto simp: fresh_token_def)
  next
    case (Inr x)
    obtain raw h where x: "x = (raw, h)" by (metis surj_pair)
    obtain i w2 where i: "asNewID sv w1 = (i, w2)" by (metis surj_pair)
    have "h = sha256HexOf raw"
      using Inr x by (auto simp: newRefreshToken_def Let_def split: sum.splits)
    moreover have "w' = w2" "r = Inr (raw, \<lparr>rtID = i, rtUserID = u, rtTokenHash = h,
        rtExpiresAt = asNow sv w2 + refreshTTL, rtRevokedAt = None, rtCreatedAt = zero_time\<rparr>)"
      using assms(1) b Inr x i by (auto simp: fresh_token_def)
    ultimately show ?thesis using l1 new_id_law [OF _ i] by auto
  qed
qed

text \<open>A refresh spends a live credential for a new one of the same user, or does nothing.\<close>

lemma RefreshSession_law:
  assumes run: "RefreshSession sv tok w = (r, w')" and k: "keys w"
  shows "keys w' \<and> clock w' = clock w \<and>
    ((cr w' = cr w \<and> (\<forall>p. r \<noteq> Inr p)) \<or>
     (\<exists>u e h e'. cr w (sha256HexOf tok) = Live u e \<and> clock w < e \<and> cr w h = Unknown \<and>
        cr w' = (cr w)(sha256HexOf tok := Spent e, h := Live u e') \<and>
        (\<forall>p. r = Inr p \<longrightarrow> h = sha256HexOf (RefreshToken p))))"
  using run
proof (cases rule: RefreshSession_cases)
  case (lookup e)
  then show ?thesis using lookup_law [OF k lookup(2)] by simp
next
  case (find u w1 e)
  then show ?thesis using lookup_law [OF k find(2)] find_law [OF _ find(3)] by simp
next
  case (denied u w1 user)
  then show ?thesis using lookup_law [OF k denied(2)] find_law [OF _ denied(3)] by simp
next
  case (mint u w1 user w2 e)
  then show ?thesis
    using lookup_law [OF k mint(2)] find_law [OF _ mint(3)] fresh_token_law [OF mint(5)] by simp
next
  case (rotate u w1 user w2 raw rt w3 r4)
  note l1 = lookup_law [OF k rotate(2)]
  note l2 = find_law [OF _ rotate(3)]
  note l3 = fresh_token_law [OF rotate(5)]
  have same: "keys w3" "cr w3 = cr w" "clock w3 = clock w" using l1 l2 l3 by auto
  have t: "rtUserID rt = u" "rtTokenHash rt = sha256HexOf raw" using l1 l2 l3 by auto
  note l4 = rotate_law [OF same(1) rotate(6)]
  show ?thesis
  proof (cases r4)
    case (Inl e)
    then show ?thesis using l4 same rotate(7) by simp
  next
    case (Inr u')
    then obtain e where e: "cr w (sha256HexOf tok) = Live u' e" "clock w < e"
      "cr w (sha256HexOf raw) = Unknown"
      "cr w' = (cr w)(sha256HexOf tok := Spent e, sha256HexOf raw := Live u (timestamptz (rtExpiresAt rt)))"
      using l4 same t by auto
    moreover have "u' = u" using e(1) l1 by auto
    moreover have "\<forall>p. r = Inr p \<longrightarrow> RefreshToken p = raw"
      using rotate(7) Inr by (auto split: sum.splits)
    ultimately show ?thesis using l4 same
      by (intro conjI disjI2 exI [of _ u] exI [of _ e] exI [of _ "sha256HexOf raw"]
          exI [of _ "timestamptz (rtExpiresAt rt)"]) auto
  qed
qed (use k in auto)

lemma Logout_law:
  assumes "Logout sv tok w = (r, w')" "keys w"
  shows "keys w' \<and> clock w' = clock w \<and>
    (r = Inr () \<longrightarrow> cr w' = (cr w)(sha256HexOf tok := spend (cr w (sha256HexOf tok))))"
  using assms revoke_law [of w "sha256HexOf tok" r w']
  by (auto simp: Logout_def split: if_splits sum.splits)

end

lemma on_db_eq: "on_db f s = (r, s') \<longleftrightarrow> (\<exists>w. f (awDB s) = (r, w) \<and> s' = s\<lparr>awDB := w\<rparr>)"
  by (auto simp: on_db_def split: prod.splits)

lemma quiet_world:
  "quiet (awDB s) w \<Longrightarrow> token_keys (awDB s) \<Longrightarrow>
     token_keys w \<and> cred w = cred (awDB s) \<and> db_clock w = db_clock (awDB s)"
  using quiet_cred by (auto simp: db_clock_def)

interpretation token_store: token_repository "the_auth ex cfg" "\<lambda>s. token_keys (awDB s)"
    "\<lambda>s. cred (awDB s)" "\<lambda>s. db_clock (awDB s)" for ex cfg
proof (unfold_locales, goal_cases)
  case (1 w h r w')
  then show ?case
    using LookupActiveUserID_cred [of h "awDB w"] by (auto simp: the_auth_def on_db_eq dest: quiet_world)
next
  case (2 w i u w')
  then show ?case
    using FindByID_quiet [of i "awDB w"] by (auto simp: the_auth_def on_db_eq dest: quiet_world)
next
  case (3 w x u w')
  then show ?case
    using UpsertByFirebaseUID_quiet [of x "awDB w"] by (auto simp: the_auth_def on_db_eq dest: quiet_world)
next
  case (4 w v tok c w')
  then show ?case by (auto simp: the_auth_def VerifyIDToken_def split: sum.splits)
next
  case (5 w b w')
  then show ?case by (auto simp: the_auth_def rand_Read_def split: list.splits)
next
  case (6 w i w')
  then show ?case
    by (auto simp: the_auth_def on_db_eq uuid_New_def cred_def token_keys_def db_clock_def)
next
  case (7 w t n w')
  obtain v where v: "RefreshTokenStore_Create t (awDB w) = (n, v)" "w' = w\<lparr>awDB := v\<rparr>"
    using 7(2) by (auto simp: the_auth_def on_db_eq)
  from RefreshTokenStore_Create_cred [OF v(1) 7(1)] quiet_cred [of "awDB w" v] v(2) show ?case
    by (cases n) (auto simp: db_clock_def)
next
  case (8 w h t r w')
  obtain v where v: "RotateRefreshToken h t (awDB w) = (r, v)" "w' = w\<lparr>awDB := v\<rparr>"
    using 8(2) by (auto simp: the_auth_def on_db_eq)
  from RotateRefreshToken_cred [OF v(1) 8(1)] quiet_cred [of "awDB w" v] v(2) show ?case
    by (cases r) (auto simp: db_clock_def)
next
  case (9 w h n w')
  obtain v where v: "RevokeByHash h (awDB w) = (n, v)" "w' = w\<lparr>awDB := v\<rparr>"
    using 9(2) by (auto simp: the_auth_def on_db_eq)
  from RevokeByHash_cred [OF v(1) 9(1)] quiet_cred [of "awDB w" v] v(2) show ?case
    by (cases n) (auto simp: db_clock_def)
qed

end
