(* ===== verification/Auth_Http.thy ===== *)
theory Auth_Http
  imports Auth_Flow
begin

text \<open>
  \<^verbatim>\<open>handlers/auth.go\<close>, \<^verbatim>\<open>handlers/auth_response.go\<close>, \<^verbatim>\<open>middleware/auth.go\<close> and
  \<^verbatim>\<open>middleware/identity.go\<close>: the authentication endpoints and the bearer-token check of the
  tenant endpoints. A body is the JSON value it parses to, if it does; gin's binding decodes it
  into the request and refuses an empty required field.
\<close>

section \<open>Responses and requests\<close>

type_synonym http_response = "int \<times> json option"

definition error_response :: "int \<Rightarrow> string \<Rightarrow> http_response" where
  "error_response status code = (status, Some (JObj [(''error'', JStr code)]))"

text \<open>\<^verbatim>\<open>ShouldBindJSON\<close> into a struct with one required string.\<close>

definition bind_required :: "string \<Rightarrow> json option \<Rightarrow> string option" where
  "bind_required name body =
     (case body of
        None \<Rightarrow> None
      | Some j \<Rightarrow>
         (case decode_struct (\<lambda>k v s. if k = name then read_string v s else Some s) [name] j [] of
            None \<Rightarrow> None
          | Some s \<Rightarrow> (if s = [] then None else Some s)))"

definition errCodeInvalidRequest :: string where "errCodeInvalidRequest = ''invalid_request''"
definition errCodeFirebaseNotConfigured :: string where
  "errCodeFirebaseNotConfigured = ''firebase_not_configured''"
definition errCodeFirebaseTokenInvalid :: string where
  "errCodeFirebaseTokenInvalid = ''firebase_token_invalid''"
definition errCodeFirebaseEmailUnverified :: string where
  "errCodeFirebaseEmailUnverified = ''firebase_email_unverified''"
definition errCodeAuthNotAllowed :: string where "errCodeAuthNotAllowed = ''auth_not_allowed''"
definition errCodeIdentityConflict :: string where "errCodeIdentityConflict = ''identity_conflict''"
definition errCodeRefreshTokenInvalid :: string where
  "errCodeRefreshTokenInvalid = ''refresh_token_invalid''"
definition errCodeInternal :: string where "errCodeInternal = ''internal''"

definition toAuthResponse :: "(uuid \<Rightarrow> string) \<Rightarrow> token_pair \<times> user \<Rightarrow> json" where
  "toAuthResponse uuid_text r =
     (let (p, u) = r
      in JObj [(''accessToken'', JStr (AccessToken p)), (''refreshToken'', JStr (RefreshToken p)),
           (''user'', JObj ([(''id'', JStr (uuid_text (uID u))), (''email'', JStr (uEmail u)),
              (''displayName'', JStr (uDisplayName u))] @
              (if uPhotoURL u = [] then [] else [(''photoUrl'', JStr (uPhotoURL u))])))])"

definition refreshResponse :: "token_pair \<Rightarrow> json" where
  "refreshResponse p =
     JObj [(''accessToken'', JStr (AccessToken p)), (''refreshToken'', JStr (RefreshToken p))]"

section \<open>Endpoints\<close>

definition session_status :: "err \<Rightarrow> http_response" where
  "session_status e =
     (if errors_is e ErrFirebaseNotConfigured then error_response 503 errCodeFirebaseNotConfigured
      else if errors_is e ErrFirebaseTokenInvalid then error_response 401 errCodeFirebaseTokenInvalid
      else if errors_is e ErrFirebaseEmailUnverified
      then error_response 403 errCodeFirebaseEmailUnverified
      else if errors_is e ErrAuthNotAllowed then error_response 403 errCodeAuthNotAllowed
      else if errors_is e ErrIdentityConflict then error_response 409 errCodeIdentityConflict
      else if errors_is e ErrInvalidRequest then error_response 400 errCodeInvalidRequest
      else error_response 500 errCodeInternal)"

definition Session :: "'w auth_service \<Rightarrow> json option \<Rightarrow> 'w \<Rightarrow> http_response \<times> 'w" where
  "Session sv body w =
     (case bind_required ''firebaseIdToken'' body of
        None \<Rightarrow> (error_response 400 errCodeInvalidRequest, w)
      | Some idToken \<Rightarrow>
         (if length idToken > MaxFirebaseIDTokenLen then (error_response 400 errCodeInvalidRequest, w)
          else case ExchangeFirebaseToken sv idToken w of
            (Inr result, w') \<Rightarrow> ((200, Some (toAuthResponse (asUUIDString sv) result)), w')
          | (Inl e, w') \<Rightarrow> (session_status e, w')))"

definition Refresh :: "'w auth_service \<Rightarrow> json option \<Rightarrow> 'w \<Rightarrow> http_response \<times> 'w" where
  "Refresh sv body w =
     (case bind_required ''refreshToken'' body of
        None \<Rightarrow> (error_response 400 errCodeInvalidRequest, w)
      | Some tok \<Rightarrow>
         (case RefreshSession sv tok w of
            (Inr pair, w') \<Rightarrow> ((200, Some (refreshResponse pair)), w')
          | (Inl e, w') \<Rightarrow>
             (if errors_is e ErrInvalidRequest then (error_response 400 errCodeInvalidRequest, w')
              else if errors_is e ErrRefreshTokenInvalid
              then (error_response 401 errCodeRefreshTokenInvalid, w')
              else (error_response 500 errCodeInternal, w'))))"

definition Logout_endpoint :: "'w auth_service \<Rightarrow> json option \<Rightarrow> 'w \<Rightarrow> http_response \<times> 'w" where
  "Logout_endpoint sv body w =
     (case bind_required ''refreshToken'' body of
        None \<Rightarrow> (error_response 400 errCodeInvalidRequest, w)
      | Some tok \<Rightarrow>
         (case Logout sv tok w of
            (Inr _, w') \<Rightarrow> ((204, None), w')
          | (Inl e, w') \<Rightarrow>
             (if errors_is e ErrInvalidRequest then (error_response 400 errCodeInvalidRequest, w')
              else (error_response 500 errCodeInternal, w'))))"

section \<open>The bearer token of a request\<close>

definition bearerPrefix :: string where "bearerPrefix = ''Bearer ''"
definition errMissingOrInvalidAuthorizationHeader :: string where
  "errMissingOrInvalidAuthorizationHeader = ''missing or invalid authorization header''"
definition errInvalidOrExpiredToken :: string where
  "errInvalidOrExpiredToken = ''invalid or expired token''"
definition errMissingUserIdentity :: string where "errMissingUserIdentity = ''missing user identity''"

text \<open>\<open>Inl\<close> aborts the request with a response; \<open>Inr\<close> is the identity put into its context.\<close>

definition Auth :: "'w auth_service \<Rightarrow> string \<Rightarrow> 'w \<Rightarrow> http_response + uuid" where
  "Auth validator header w =
     (if \<not> HasPrefix header bearerPrefix
      then Inl (error_response 401 errMissingOrInvalidAuthorizationHeader)
      else case ValidateToken validator (TrimPrefix header bearerPrefix) w of
        Inl e \<Rightarrow> Inl (error_response 401 errInvalidOrExpiredToken)
      | Inr u \<Rightarrow> (if u = uuid_nil then Inl (error_response 401 errInvalidOrExpiredToken) else Inr u))"

datatype context_value = UUIDValue uuid | OtherValue

definition RequireUserIdentity :: "context_value option \<Rightarrow> http_response + uuid" where
  "RequireUserIdentity raw =
     (case raw of
        Some (UUIDValue u) \<Rightarrow>
          (if u = uuid_nil then Inl (error_response 401 errMissingUserIdentity) else Inr u)
      | _ \<Rightarrow> Inl (error_response 401 errMissingUserIdentity))"

text \<open>The identity a tenant endpoint runs under: both checks, one after the other.\<close>

definition tenant_identity :: "'w auth_service \<Rightarrow> string \<Rightarrow> 'w \<Rightarrow> http_response + uuid" where
  "tenant_identity sv header w =
     (case Auth sv header w of Inl r \<Rightarrow> Inl r | Inr u \<Rightarrow> RequireUserIdentity (Some (UUIDValue u)))"

section \<open>An access token names its user in its own environment only\<close>

text \<open>The documented behaviour of the libraries, on what the service gives them: a token signed over
  the four claims of \<^verbatim>\<open>mintAccessToken\<close> (texts in ASCII, times no \<^verbatim>\<open>float64\<close> rounds) parses, before its
  expiry and when the key function returns the signing key, to claims with the same subject and
  environment. Other claims, such as the \<^verbatim>\<open>nbf\<close> the parser also validates, are not spoken of. A UUID
  is printed in ASCII and its text parses to it.\<close>

definition ascii :: "string \<Rightarrow> bool" where
  "ascii s \<longleftrightarrow> list_all (\<lambda>c. (of_char c :: nat) < 128) s"

definition jwt_law :: "jwt_library \<Rightarrow> bool" where
  "jwt_law lib \<longleftrightarrow>
     (\<forall>subj env iat exp secret tok now kf.
        jwtSign lib (HMAC ''HS256'') [(jwtSubClaim, JStr subj), (jwtEnvClaim, JStr env),
          (jwtIssuedAtClaim, JInt iat), (jwtExpiryClaim, JInt exp)] secret = Inr tok \<and>
        ascii subj \<and> ascii env \<and> \<bar>iat\<bar> \<le> 2 ^ 53 \<and> \<bar>exp\<bar> \<le> 2 ^ 53 \<and>
        now < exp * second \<and> kf (HMAC ''HS256'') = Inr secret \<longrightarrow>
        (\<exists>claims. jwtParse lib kf [''HS256''] now tok = Inr \<lparr>jtClaims = Some claims, jtValid = True\<rparr> \<and>
           map_of claims jwtSubClaim = Some (JStr subj) \<and> map_of claims jwtEnvClaim = Some (JStr env)))"

definition uuid_law :: "externals \<Rightarrow> bool" where
  "uuid_law ex \<longleftrightarrow> (\<forall>u. ascii (exUUIDString ex u) \<and> exUUIDParse ex (exUUIDString ex u) = Inr u)"

lemma claim_names [simp]:
  "distinct [jwtSubClaim, jwtEnvClaim, jwtIssuedAtClaim, jwtExpiryClaim]"
  "jwtSubClaim \<noteq> jwtEnvClaim" "jwtExpiryClaim \<noteq> jwtSubClaim" "jwtExpiryClaim \<noteq> jwtEnvClaim"
  "jwtEnvClaim \<noteq> jwtSubClaim" "jwtExpiryClaim \<noteq> jwtIssuedAtClaim"
  by (simp_all add: jwtSubClaim_def jwtEnvClaim_def jwtExpiryClaim_def jwtIssuedAtClaim_def)

text \<open>C34. A token minted for a user and sent back as a bearer token within its hour passes both
  checks and gives the tenant endpoints that user; a server of another environment refuses it
  even if it shares the signing secret.\<close>

theorem minted_token_accepted:
  assumes "jwt_law (exJWT ex)" and "uuid_law ex" and "ascii (Env cfg)"
    and "mintAccessToken (the_auth ex cfg) u s = Inr tok" and "u \<noteq> uuid_nil"
    and "0 \<le> Unix (awClock s)" and "Unix (awClock s + accessTTL) \<le> 2 ^ 53"
    and "awClock s' < Unix (awClock s + accessTTL) * second"
  shows "tenant_identity (the_auth ex cfg) (bearerPrefix @ tok) s' = Inr u \<and>
    (JWTSecret cfg' = JWTSecret cfg \<and> Env cfg' \<noteq> Env cfg \<longrightarrow>
       tenant_identity (the_auth ex cfg') (bearerPrefix @ tok) s'
         = Inl (error_response 401 errInvalidOrExpiredToken))"
proof -
  let ?exp = "Unix (awClock s + accessTTL)"
  have sign: "jwtSign (exJWT ex) (HMAC ''HS256'') [(jwtSubClaim, JStr (exUUIDString ex u)),
      (jwtEnvClaim, JStr (Env cfg)), (jwtIssuedAtClaim, JInt (Unix (awClock s))), (jwtExpiryClaim, JInt ?exp)]
      (JWTSecret cfg) = Inr tok"
    using assms(4) by (simp add: mintAccessToken_def access_claims_def the_auth_def)
  have "Unix (awClock s) \<le> ?exp"
    by (simp add: Unix_def zdiv_mono1 accessTTL_def hour_def minute_def second_def)
  with assms(6,7) have range: "\<bar>Unix (awClock s)\<bar> \<le> 2 ^ 53" "\<bar>?exp\<bar> \<le> 2 ^ 53" by simp_all
  have key: "keyfunc (JWTSecret cfg) (HMAC ''HS256'') = Inr (JWTSecret cfg)"
    by (simp add: keyfunc_def)
  have uuid: "ascii (exUUIDString ex u)" "exUUIDParse ex (exUUIDString ex u) = Inr u"
    using assms(2) by (simp_all add: uuid_law_def)
  obtain claims where parse: "jwtParse (exJWT ex) (keyfunc (JWTSecret cfg)) [''HS256''] (awClock s') tok
      = Inr \<lparr>jtClaims = Some claims, jtValid = True\<rparr>"
    and "map_of claims jwtSubClaim = Some (JStr (exUUIDString ex u))"
    and "map_of claims jwtEnvClaim = Some (JStr (Env cfg))"
    using assms(1) sign uuid(1) assms(3) range assms(8) key unfolding jwt_law_def by blast
  then have env: "string_claim claims jwtEnvClaim = Some (Env cfg)"
    and sub: "string_claim claims jwtSubClaim = Some (exUUIDString ex u)"
    by (simp_all add: string_claim_def)
  have "ValidateToken (the_auth ex cfg) tok s' = Inr u"
    using parse env sub uuid(2) by (simp add: ValidateToken_def the_auth_def)
  moreover have "ValidateToken (the_auth ex cfg') tok s' = Inl (Plain ''token environment mismatch'')"
    if "JWTSecret cfg' = JWTSecret cfg" "Env cfg' \<noteq> Env cfg"
    using parse env that by (simp add: ValidateToken_def the_auth_def)
  ultimately show ?thesis using assms(5)
    by (simp add: tenant_identity_def Auth_def RequireUserIdentity_def HasPrefix_def TrimPrefix_def)
qed

section \<open>Which refreshes are answered how\<close>

text \<open>An error of the driver or of a library is none of the program's sentinels.\<close>

primrec foreign_error :: "err \<Rightarrow> bool" where
  "foreign_error (Sentinel s) = False"
| "foreign_error (Plain s) = True"
| "foreign_error (PgError c n) = True"
| "foreign_error (Wrap p e s) = foreign_error e"

definition foreign_errors :: "externals \<Rightarrow> auth_world \<Rightarrow> bool" where
  "foreign_errors ex s \<longleftrightarrow>
     list_all (pred_option foreign_error) (db_faults (awDB s)) \<and>
     list_all (pred_sum foreign_error (\<lambda>_. True)) (awRandom s) \<and>
     (\<forall>m c k. pred_sum foreign_error (\<lambda>_. True) (jwtSign (exJWT ex) m c k))"

lemma foreign_not_sentinel [simp]: "foreign_error e \<Longrightarrow> \<not> errors_is e (Sentinel t)"
  by (induction e) auto

text \<open>The user an active token stands for.\<close>

definition holder :: "db \<Rightarrow> string \<Rightarrow> uuid option" where
  "holder w h = (case cred w h of Live u e \<Rightarrow> if db_clock w < e then Some u else None | _ \<Rightarrow> None)"

definition usable_credential :: "'w auth_service \<Rightarrow> string \<Rightarrow> db \<Rightarrow> bool" where
  "usable_credential sv tok w \<longleftrightarrow>
     (\<exists>r \<in> set (db_refresh_tokens w). active_token (sha256HexOf tok) (db_now w) r \<and>
        (\<exists>x \<in> set (db_users w). euID x = rtUserID r \<and> allowlistAllows sv (euFirebaseUID x)))"

abbreviation turn :: "db \<Rightarrow> db" where "turn w \<equiv> w\<lparr>db_faults := tl (db_faults w)\<rparr>"

lemma holder_turn [simp]: "holder (w\<lparr>db_faults := fs\<rparr>) h = holder w h"
  by (simp add: holder_def split: credential.split)

lemma holder_active:
  assumes "token_keys w"
  shows "holder w h = Some u \<longleftrightarrow>
    (\<exists>r \<in> set (db_refresh_tokens w). active_token h (db_now w) r \<and> rtUserID r = u)"
proof
  assume "holder w h = Some u"
  then obtain e where "cred w h = Live u e" "db_clock w < e"
    by (auto simp: holder_def split: credential.splits if_splits)
  then show "\<exists>r \<in> set (db_refresh_tokens w). active_token h (db_now w) r \<and> rtUserID r = u"
    by (auto simp: cred_def active_token_def db_clock_def credential_of.simps
        split: option.splits if_splits dest!: rows_by_hash_Some)
next
  assume "\<exists>r \<in> set (db_refresh_tokens w). active_token h (db_now w) r \<and> rtUserID r = u"
  then show "holder w h = Some u"
    using cred_row [OF assms] by (auto simp: holder_def active_token_def db_clock_def credential_of.simps)
qed

lemma run_sql_foreign:
  assumes "list_all (pred_option foreign_error) (db_faults w)"
  obtains e where "foreign_error e" "db_faults w \<noteq> []" "run_sql f w = (Inl e, turn w)"
  | "run_sql f w = f (turn w)"
  using assms
  by (cases "\<exists>e fs. db_faults w = Some e # fs")
    (auto simp: run_sql_def Let_def split: list.splits option.splits)

lemma list_all_tl: "list_all P xs \<Longrightarrow> list_all P (tl xs)"
  by (cases xs) auto

lemma Lookup_outcome:
  assumes "list_all (pred_option foreign_error) (db_faults w)" "token_keys w"
  shows "\<exists>r. LookupActiveUserID h w = (r, turn w) \<and>
    (r = (case holder w h of None \<Rightarrow> Inl ErrNotFound | Some u \<Rightarrow> Inr u) \<or>
     (db_faults w \<noteq> [] \<and> (\<exists>e. r = Inl e \<and> foreign_error e)))"
  using assms(1)
proof (cases rule: run_sql_foreign [of w "\<lambda>v. (first_row (map rtUserID
        (filter (active_token h (db_now v)) (db_refresh_tokens v))), v)"])
  case (1 e)
  then show ?thesis by (simp add: LookupActiveUserID_def pgx_ErrNoRows_def)
next
  case 2
  then show ?thesis
    by (auto simp: LookupActiveUserID_def active_filter [OF assms(2)] holder_def db_clock_def pgx_ErrNoRows_def
        split: credential.split)
qed

lemma Find_outcome:
  assumes "list_all (pred_option foreign_error) (db_faults w)"
  shows "\<exists>r. FindByID i w = (r, turn w) \<and>
    (r = (case find (\<lambda>x. euID x = i) (db_users w) of None \<Rightarrow> Inl ErrNotFound | Some x \<Rightarrow> Inr (toUserModel x)) \<or>
     (db_faults w \<noteq> [] \<and> (\<exists>e. r = Inl e \<and> foreign_error e)))"
  using assms
proof (cases rule: run_sql_foreign [of w "\<lambda>v. (first_row (filter (\<lambda>r. euID r = i) (db_users v)), v)"])
  case (1 e)
  then show ?thesis by (simp add: FindByID_def pgx_ErrNoRows_def)
next
  case 2
  have "filter P xs = [] \<longleftrightarrow> find P xs = None" "\<And>y ys. filter P xs = y # ys \<Longrightarrow> find P xs = Some y"
    for P and xs :: "user_row list" by (induction xs) auto
  with 2 show ?thesis
    by (cases "filter (\<lambda>r. euID r = i) (db_users w)") (auto simp: FindByID_def pgx_ErrNoRows_def)
qed

lemma insert_token_foreign: "insert_token t w = (Inl e, w') \<Longrightarrow> foreign_error e"
  by (auto simp: insert_token_def unique_violation_def foreign_key_violation_def split: if_splits)

lemma Rotate_foreign:
  assumes "list_all (pred_option foreign_error) (db_faults w)" "token_keys w" "holder w h = Some u"
    and "RotateRefreshToken h t w = (Inl e, w')"
  shows "foreign_error e"
proof (cases rule: run_sql_foreign [OF assms(1), of "\<lambda>w. (Inr (), w) :: unit res \<times> db"])
  case (1 e1)
  with assms(4) show ?thesis by (auto simp: RotateRefreshToken_def no_op_def)
next
  case 2
  have f1: "list_all (pred_option foreign_error) (db_faults (turn w))" using assms(1) by (simp add: list_all_tl)
  have h: "holder (turn w) h = Some u" "token_keys (turn w)" using assms(2,3) by simp_all
  have c: "consume_token h (turn (turn w)) = (Inr u, revoke_where (active_token h (db_now w)) (turn (turn w)))"
    using h active_filter [of w h "db_now w"] assms(2,3)
    by (auto simp: consume_token_def holder_def db_clock_def split: credential.splits if_splits)
  show ?thesis
  proof (cases rule: run_sql_foreign [OF f1, of "consume_token h"])
    case (1 e1)
    with 2 assms(4) show ?thesis by (auto simp: RotateRefreshToken_def no_op_def pgx_ErrNoRows_def)
  next
    case two: 2
    define v where "v = revoke_where (active_token h (db_now w)) (turn (turn w))"
    have f2: "list_all (pred_option foreign_error) (db_faults v)"
      using f1 by (simp add: v_def revoke_where_def list_all_tl)
    have eq: "RotateRefreshToken h t w =
       (case run_sql (insert_token t) v of
          (Inl e, w3) \<Rightarrow> (Inl (Wrap ''rotate refresh token insert new: '' e ''''), rollback w w3)
        | (Inr _, w3) \<Rightarrow>
       (case no_op w3 of
          (Inl e, w4) \<Rightarrow> (Inl (Wrap ''rotate refresh token commit: '' e ''''), rollback w w4)
        | (Inr _, w4) \<Rightarrow> (Inr u, w4)))"
      using 2 two c by (simp add: RotateRefreshToken_def no_op_def v_def)
    show ?thesis
    proof (cases rule: run_sql_foreign [OF f2, of "insert_token t"])
      case (1 e1)
      with assms(4) show ?thesis unfolding eq by auto
    next
      case 3: 2
      obtain r3 w3 where i: "insert_token t (turn v) = (r3, w3)" by (metis surj_pair)
      show ?thesis
      proof (cases r3)
        case (Inl e1)
        with 3 i insert_token_foreign [of t "turn v" e1 w3] assms(4) show ?thesis
          unfolding eq by auto
      next
        case (Inr x)
        have "db_faults w3 = db_faults (turn v)" using i by (auto simp: insert_token_def split: if_splits)
        then have f3: "list_all (pred_option foreign_error) (db_faults w3)" using f2 by (simp add: list_all_tl)
        show ?thesis
        proof (cases rule: run_sql_foreign [OF f3, of "\<lambda>w. (Inr (), w) :: unit res \<times> db"])
          case (1 e1)
          with 3 i Inr assms(4) show ?thesis unfolding eq by (auto simp: no_op_def)
        next
          case 4: 2
          with 3 i Inr assms(4) show ?thesis unfolding eq by (auto simp: no_op_def)
        qed
      qed
    qed
  qed
qed

lemma the_auth_fields [simp]:
  "asUpsertByFirebaseUID (the_auth ex cfg) x = on_db (UpsertByFirebaseUID x)"
  "asFindByID (the_auth ex cfg) i = on_db (FindByID i)"
  "asCreate (the_auth ex cfg) t = on_db (RefreshTokenStore_Create t)"
  "asLookupActiveUserID (the_auth ex cfg) h = on_db (LookupActiveUserID h)"
  "asRotateRefreshToken (the_auth ex cfg) h t = on_db (RotateRefreshToken h t)"
  "asRevokeByHash (the_auth ex cfg) h = on_db (RevokeByHash h)"
  "asVerifyIDToken (the_auth ex cfg) = map_option (\<lambda>sdk. VerifyIDToken (\<lambda>t s. (sdk t, s))) (exFirebase ex)"
  "asJWT (the_auth ex cfg) = exJWT ex" "asUUIDString (the_auth ex cfg) = exUUIDString ex"
  "asUUIDParse (the_auth ex cfg) = exUUIDParse ex" "asSecret (the_auth ex cfg) = JWTSecret cfg"
  "asAllowedUIDs (the_auth ex cfg) = AllowedFirebaseUIDs cfg" "asEnv (the_auth ex cfg) = Env cfg"
  "asNow (the_auth ex cfg) = awClock" "asRandom (the_auth ex cfg) = rand_Read"
  "asNewID (the_auth ex cfg) = on_db uuid_New"
  by (simp_all add: the_auth_def)

lemma find_user:
  assumes "distinct (map euID us)"
  shows "find (\<lambda>x. euID x = i) us = Some x \<longleftrightarrow> x \<in> set us \<and> euID x = i"
  using assms by (induction us) (auto simp: image_iff)

lemma usable_iff:
  assumes "token_keys w" "distinct (map euID (db_users w))"
  shows "usable_credential sv tok w \<longleftrightarrow>
    (\<exists>u x. holder w (sha256HexOf tok) = Some u \<and> find (\<lambda>x. euID x = u) (db_users w) = Some x \<and>
       allowlistAllows sv (euFirebaseUID x))"
  using holder_active [OF assms(1)] find_user [OF assms(2)] by (fastforce simp: usable_credential_def)

lemma fresh_token_foreign:
  assumes "foreign_errors ex s" "fresh_token (the_auth ex cfg) u s = (r, s')"
  shows "db_faults (awDB s') = db_faults (awDB s) \<and> token_keys (awDB s') = token_keys (awDB s) \<and>
    holder (awDB s') h = holder (awDB s) h \<and> (\<forall>e. r = Inl e \<longrightarrow> foreign_error e)"
proof -
  obtain b s1 where b: "rand_Read s = (b, s1)" by (metis surj_pair)
  have s1: "awDB s1 = awDB s" "\<And>e. b = Inl e \<Longrightarrow> foreign_error e"
    using b assms(1) by (auto simp: rand_Read_def foreign_errors_def split: list.splits)
  have q: "holder (w\<lparr>db_next := n\<rparr>) h = holder w h" "token_keys (w\<lparr>db_next := n\<rparr>) = token_keys w" for w :: db and n
    by (auto simp: holder_def cred_def token_keys_def db_clock_def split: credential.split)
  show ?thesis
    using assms(2) b s1
    by (auto simp: fresh_token_def newRefreshToken_def Let_def on_db_def uuid_New_def q
        split: sum.splits)
qed

lemma RefreshSession_outcome:
  assumes "foreign_errors ex s" "token_keys (awDB s)" "distinct (map euID (db_users (awDB s)))"
    and valid: "isValidRefreshTokenFormat tok"
    and run: "RefreshSession (the_auth ex cfg) tok s = (r, s')"
  shows "(\<not> usable_credential (the_auth ex cfg) tok (awDB s) \<and> r = Inl ErrRefreshTokenInvalid) \<or>
    (usable_credential (the_auth ex cfg) tok (awDB s) \<and> (\<exists>p. r = Inr p)) \<or>
    (\<exists>e. r = Inl e \<and> foreign_error e \<and>
       (db_faults (awDB s) \<noteq> [] \<or> usable_credential (the_auth ex cfg) tok (awDB s)))"
proof -
  let ?w = "awDB s" and ?h = "sha256HexOf tok"
  note us = usable_iff [OF assms(2,3), of "the_auth ex cfg" tok]
  have f0: "list_all (pred_option foreign_error) (db_faults ?w)" using assms(1) by (simp add: foreign_errors_def)
  have f1: "list_all (pred_option foreign_error) (db_faults (turn ?w))" using f0 by (simp add: list_all_tl)
  have l1: "s1 = s\<lparr>awDB := turn ?w\<rparr> \<and>
      (r1 = (case holder ?w ?h of None \<Rightarrow> Inl ErrNotFound | Some u \<Rightarrow> Inr u) \<or>
       (db_faults ?w \<noteq> [] \<and> (\<exists>e. r1 = Inl e \<and> foreign_error e)))"
    if "asLookupActiveUserID (the_auth ex cfg) ?h s = (r1, s1)" for r1 s1
    using Lookup_outcome [OF f0 assms(2), of ?h] that by (auto simp: on_db_def)
  have l2: "s2 = s\<lparr>awDB := turn (turn ?w)\<rparr> \<and>
      (r2 = (case find (\<lambda>x. euID x = u) (db_users ?w) of None \<Rightarrow> Inl ErrNotFound | Some x \<Rightarrow> Inr (toUserModel x)) \<or>
       (db_faults ?w \<noteq> [] \<and> (\<exists>e. r2 = Inl e \<and> foreign_error e)))"
    if "asFindByID (the_auth ex cfg) u (s\<lparr>awDB := turn ?w\<rparr>) = (r2, s2)" for u r2 s2
    using Find_outcome [OF f1, of u] that by (auto simp: on_db_def)
  have held: "holder ?w ?h = Some u \<and> s1 = s\<lparr>awDB := turn ?w\<rparr>"
    if "asLookupActiveUserID (the_auth ex cfg) ?h s = (Inr u, s1)" for u s1
    using l1 [OF that] by (auto split: option.splits)
  have found: "\<exists>x. find (\<lambda>x. euID x = u) (db_users ?w) = Some x \<and> uFirebaseUID user = euFirebaseUID x \<and>
      s2 = s\<lparr>awDB := turn (turn ?w)\<rparr>"
    if "asFindByID (the_auth ex cfg) u (s\<lparr>awDB := turn ?w\<rparr>) = (Inr user, s2)" for u user s2
    using l2 [OF that] by (auto simp: toUserModel_def split: option.splits)
  have fe: "foreign_errors ex (s\<lparr>awDB := turn (turn ?w)\<rparr>)"
    using assms(1) by (simp add: foreign_errors_def list_all_tl)
  from run show ?thesis
  proof (cases rule: RefreshSession_cases)
    case malformed
    with valid show ?thesis by simp
  next
    case (lookup e)
    with l1 [OF lookup(2)] us show ?thesis by (auto simp: ErrNotFound_def split: option.splits)
  next
    case (find u s1 e)
    with held [OF find(2)] l2 [of u "Inl e" s'] us show ?thesis
      by (auto simp: ErrNotFound_def split: option.splits)
  next
    case (denied u s1 user)
    with held [OF denied(2)] found [of u user s'] us show ?thesis by auto
  next
    case (mint u s1 user s2 e)
    with held [OF mint(2)] found [of u user s2] us fresh_token_foreign [OF fe, of cfg u "Inl e" s']
    show ?thesis by auto
  next
    case (rotate u s1 user s2 raw rt s3 r4)
    have hold: "holder ?w ?h = Some u" "s1 = s\<lparr>awDB := turn ?w\<rparr>" using held [OF rotate(2)] by simp_all
    obtain x where x: "find (\<lambda>x. euID x = u) (db_users ?w) = Some x" "uFirebaseUID user = euFirebaseUID x"
      and s2: "s2 = s\<lparr>awDB := turn (turn ?w)\<rparr>" using found rotate(3) hold(2) by blast
    then have usable: "usable_credential (the_auth ex cfg) tok ?w" using us hold(1) rotate(4) by auto
    note l3 = fresh_token_foreign [OF fe rotate(5) [unfolded s2], of ?h]
    have f3: "list_all (pred_option foreign_error) (db_faults (awDB s3))"
      using l3 f0 by (simp add: list_all_tl)
    have k3: "token_keys (awDB s3)" "holder (awDB s3) ?h = Some u" using l3 assms(2) hold(1) by simp_all
    have "foreign_error e" if "r4 = Inl e" for e
      using Rotate_foreign [OF f3 k3] rotate(6) that by (auto simp: on_db_def split: prod.splits)
    moreover have "pred_sum foreign_error (\<lambda>_. True) (mintAccessToken (the_auth ex cfg) u s')"
      using assms(1) by (simp add: mintAccessToken_def foreign_errors_def)
    ultimately show ?thesis using rotate(7) usable by (auto simp: ErrNotFound_def split: sum.splits)
  qed
qed

text \<open>With no fault and a token nobody has, a usable credential is exchanged.\<close>

definition can_issue :: "externals \<Rightarrow> config \<Rightarrow> auth_world \<Rightarrow> bool" where
  "can_issue ex cfg s \<longleftrightarrow>
     db_faults (awDB s) = [] \<and> (\<forall>r \<in> set (db_refresh_tokens (awDB s)). rtID r \<le> db_next (awDB s)) \<and>
     (\<exists>buf rs. awRandom s = Inr buf # rs \<and>
        sha256HexOf (RawURLEncoding buf) \<notin> rtTokenHash ` set (db_refresh_tokens (awDB s))) \<and>
     (\<forall>c. \<exists>t. jwtSign (exJWT ex) (HMAC ''HS256'') c (JWTSecret cfg) = Inr t)"

lemma revoke_where_maps:
  "map rtTokenHash (db_refresh_tokens (revoke_where p w)) = map rtTokenHash (db_refresh_tokens w)"
  "map rtID (db_refresh_tokens (revoke_where p w)) = map rtID (db_refresh_tokens w)"
  by (simp_all add: revoke_where_def)

lemma revoke_where_columns [simp]:
  "rtTokenHash ` set (db_refresh_tokens (revoke_where p w)) = rtTokenHash ` set (db_refresh_tokens w)"
  "rtID ` set (db_refresh_tokens (revoke_where p w)) = rtID ` set (db_refresh_tokens w)"
  "db_users (revoke_where p w) = db_users w" "db_faults (revoke_where p w) = db_faults w"
  by (simp_all only: set_map [symmetric] revoke_where_maps) (simp_all add: revoke_where_def)

lemma RefreshSession_available:
  assumes "token_keys (awDB s)" "distinct (map euID (db_users (awDB s)))" "isValidRefreshTokenFormat tok"
    and "usable_credential (the_auth ex cfg) tok (awDB s)" "can_issue ex cfg s"
  shows "\<exists>p. fst (RefreshSession (the_auth ex cfg) tok s) = Inr p"
proof -
  let ?w = "awDB s" and ?h = "sha256HexOf tok" and ?sv = "the_auth ex cfg"
  obtain u x where hold: "holder ?w ?h = Some u"
    and x: "find (\<lambda>x. euID x = u) (db_users ?w) = Some x" "allowlistAllows ?sv (euFirebaseUID x)"
    using assms(4) usable_iff [OF assms(1,2)] by blast
  from assms(5) obtain buf rs where f: "db_faults ?w = []" "\<forall>r \<in> set (db_refresh_tokens ?w). rtID r \<le> db_next ?w"
    and rnd: "awRandom s = Inr buf # rs"
      "sha256HexOf (RawURLEncoding buf) \<notin> rtTokenHash ` set (db_refresh_tokens ?w)"
    and sign: "\<forall>c. \<exists>t. jwtSign (exJWT ex) (HMAC ''HS256'') c (JWTSecret cfg) = Inr t"
    unfolding can_issue_def by blast
  have ok: "list_all (pred_option foreign_error) (db_faults ?w)" using f(1) by simp
  have turn: "turn ?w = ?w" using f(1) by (cases ?w) simp
  have l1: "LookupActiveUserID ?h ?w = (Inr u, ?w)"
    using Lookup_outcome [OF ok assms(1), of ?h] hold f(1) turn by simp
  have l2: "FindByID u ?w = (Inr (toUserModel x), ?w)"
    using Find_outcome [OF ok, of u] x f(1) turn by simp
  let ?rt = "\<lparr>rtID = Suc (db_next ?w), rtUserID = u, rtTokenHash = sha256HexOf (RawURLEncoding buf),
      rtExpiresAt = awClock s + refreshTTL, rtRevokedAt = None, rtCreatedAt = zero_time\<rparr>"
  let ?w3 = "?w\<lparr>db_next := Suc (db_next ?w)\<rparr>"
  have c3: "fresh_token ?sv u s = (Inr (RawURLEncoding buf, ?rt), s\<lparr>awRandom := rs, awDB := ?w3\<rparr>)"
    using rnd(1) by (simp add: fresh_token_def rand_Read_def newRefreshToken_def Let_def on_db_def uuid_New_def)
  have cons: "consume_token ?h ?w3 = (Inr u, revoke_where (active_token ?h (db_now ?w)) ?w3)"
    using active_filter [OF assms(1), of ?h "db_now ?w"] hold
    by (auto simp: consume_token_def holder_def db_clock_def split: credential.splits if_splits)
  have "u \<in> euID ` set (db_users ?w)" using x(1) find_user [OF assms(2)] by auto
  moreover have "Suc (db_next ?w) \<notin> rtID ` set (db_refresh_tokens ?w)" using f(2) by force
  ultimately obtain w4 where ins: "insert_token ?rt (revoke_where (active_token ?h (db_now ?w)) ?w3) = (Inr (), w4)"
      "db_faults w4 = []"
    using rnd(2) f(1) by (simp add: insert_token_def)
  have rot: "RotateRefreshToken ?h ?rt ?w3 = (Inr u, w4)"
    using f(1) cons ins by (simp add: RotateRefreshToken_def no_op_def run_sql_no_fault)
  obtain t where "jwtSign (exJWT ex) (HMAC ''HS256'') (access_claims ?sv u (awClock s)) (JWTSecret cfg) = Inr t"
    using sign by blast
  with assms(3) l1 l2 x(2) c3 rot show ?thesis
    by (simp add: RefreshSession_def Let_def on_db_def mintAccessToken_def toUserModel_def)
qed

definition refresh_body :: "string \<Rightarrow> json option" where
  "refresh_body tok = Some (JObj [(''refreshToken'', JStr tok)])"

lemma bind_refresh_body:
  "bind_required ''refreshToken'' (refresh_body tok) = (if tok = [] then None else Some tok)"
  by (simp add: bind_required_def refresh_body_def decode_struct_def read_string_def)

text \<open>C12. How \<^verbatim>\<open>/auth/refresh\<close> answers: 400 exactly for a malformed token; 401 only if the token is
  not a usable credential (not active, its user gone, or the user no longer allowed), and always
  then unless a statement failed; 200 only for a usable one, and always if nothing fails. A
  failure of the database or of a library is 500, never 400 or 401.\<close>

theorem refresh_status:
  assumes "foreign_errors ex s" and "token_keys (awDB s)" and "distinct (map euID (db_users (awDB s)))"
  shows "case Refresh (the_auth ex cfg) (refresh_body tok) s of ((status, body), s') \<Rightarrow>
    status \<in> {200, 400, 401, 500} \<and> (status = 400 \<longleftrightarrow> \<not> isValidRefreshTokenFormat tok) \<and>
    (status = 401 \<longrightarrow> \<not> usable_credential (the_auth ex cfg) tok (awDB s)) \<and>
    (status = 200 \<longrightarrow> usable_credential (the_auth ex cfg) tok (awDB s)) \<and>
    (isValidRefreshTokenFormat tok \<and> \<not> usable_credential (the_auth ex cfg) tok (awDB s) \<and>
       db_faults (awDB s) = [] \<longrightarrow> status = 401) \<and>
    (isValidRefreshTokenFormat tok \<and> usable_credential (the_auth ex cfg) tok (awDB s) \<and>
       can_issue ex cfg s \<longrightarrow> status = 200)"
proof (cases "isValidRefreshTokenFormat tok")
  case False
  then show ?thesis
    by (simp add: Refresh_def bind_refresh_body RefreshSession_def error_response_def err_const)
next
  case valid: True
  then have "tok \<noteq> []" by (auto simp: isValidRefreshTokenFormat_def refreshTokenLen_def)
  obtain r s' where run: "RefreshSession (the_auth ex cfg) tok s = (r, s')" by (metis surj_pair)
  have avail: "\<exists>p. r = Inr p" if "usable_credential (the_auth ex cfg) tok (awDB s)" "can_issue ex cfg s"
    using RefreshSession_available [OF assms(2,3) valid that] run by simp
  have eq: "Refresh (the_auth ex cfg) (refresh_body tok) s =
      (case r of Inr pair \<Rightarrow> ((200, Some (refreshResponse pair)), s')
       | Inl e \<Rightarrow>
         (if errors_is e ErrInvalidRequest then (error_response 400 errCodeInvalidRequest, s')
          else if errors_is e ErrRefreshTokenInvalid
          then (error_response 401 errCodeRefreshTokenInvalid, s')
          else (error_response 500 errCodeInternal, s')))"
    using run \<open>tok \<noteq> []\<close> by (simp add: Refresh_def bind_refresh_body split: sum.split)
  from RefreshSession_outcome [OF assms valid run] show ?thesis
  proof (elim disjE conjE exE)
    assume "\<not> usable_credential (the_auth ex cfg) tok (awDB s)" "r = Inl ErrRefreshTokenInvalid"
    with valid show ?thesis unfolding eq by (simp add: error_response_def err_const)
  next
    fix p assume "usable_credential (the_auth ex cfg) tok (awDB s)" "r = Inr p"
    with valid show ?thesis unfolding eq by simp
  next
    fix e assume "r = Inl e" "foreign_error e" "db_faults (awDB s) \<noteq> []"
    with valid avail show ?thesis unfolding eq by (auto simp: error_response_def err_const)
  next
    fix e assume "r = Inl e" "foreign_error e" "usable_credential (the_auth ex cfg) tok (awDB s)"
    with valid avail show ?thesis unfolding eq by (auto simp: error_response_def err_const)
  qed
qed

section \<open>What a session rests on\<close>

lemma upsert_user_Inr:
  assumes "upsert_user new w = (Inr r, w')"
  shows "euFirebaseUID r = euFirebaseUID new \<and> euEmail r = euEmail new \<and> r \<in> set (db_users w')"
proof (cases "find (\<lambda>r. euFirebaseUID r = euFirebaseUID new) (db_users w)")
  case None
  with assms show ?thesis by (auto simp: upsert_user_def split: if_splits)
next
  case (Some r0)
  then have r0: "r0 \<in> set (db_users w)" "euFirebaseUID r0 = euFirebaseUID new"
    by (auto simp: find_Some_iff)
  have eq: "r = login_row new r0" "db_users w' =
      map (\<lambda>x. if euFirebaseUID x = euFirebaseUID new then login_row new x else x) (db_users w)"
    using assms Some by (auto simp: upsert_user_def split: if_splits)
  have "r \<in> set (db_users w')"
    unfolding eq using r0 by (simp add: rev_image_eqI [OF r0(1)])
  with r0 show ?thesis by (simp add: eq(1) login_row_def)
qed

lemma UpsertByFirebaseUID_Inr:
  assumes "UpsertByFirebaseUID u w = (Inr v, w')"
  shows "uFirebaseUID v = uFirebaseUID u \<and> uEmail v = canonicalizeEmail (uEmail u) \<and>
    (\<exists>x \<in> set (db_users w'). euID x = uID v \<and> euFirebaseUID x = uFirebaseUID u)"
proof -
  obtain i w0 where w0: "uuid_New w = (i, w0)" by (metis surj_pair)
  obtain ent where ent: "run_sql (\<lambda>v. upsert_user (user_columns i u (db_now v)) v) w0 = (Inr ent, w')"
    "v = toUserModel ent"
    using assms w0 by (auto simp: UpsertByFirebaseUID_def split: sum.splits prod.splits if_splits)
  have "upsert_user (user_columns i u (db_now (turn w0))) (turn w0) = (Inr ent, w')"
    using ent(1) by (cases rule: run_sql_cases [of "\<lambda>v. upsert_user (user_columns i u (db_now v)) v" w0]) auto
  from upsert_user_Inr [OF this] ent(2) show ?thesis
    by (auto simp: user_columns_def toUserModel_def)
qed

lemma insert_token_users: "insert_token t w = (r, w') \<Longrightarrow> db_users w' = db_users w"
  by (auto simp: insert_token_def split: if_splits)

lemma Create_users: "RefreshTokenStore_Create t w = (r, w') \<Longrightarrow> db_users w' = db_users w"
  by (cases rule: run_sql_cases [of "insert_token t" w])
    (auto simp: RefreshTokenStore_Create_def dest!: insert_token_users split: sum.splits prod.splits)

lemma mintSession_issued:
  assumes mint: "mintSession (the_auth ex cfg) user s = (Inr (p, u), s')"
    and "token_keys (awDB s)" "awRandom s = Inr buf # rs" "length buf = refreshTokenBytes"
  shows "u = user" and "mintAccessToken (the_auth ex cfg) (uID user) s = Inr (AccessToken p)"
    and "isValidRefreshTokenFormat (RefreshToken p)"
    and "cred (awDB s) (sha256HexOf (RefreshToken p)) = Unknown"
    and "cred (awDB s') (sha256HexOf (RefreshToken p)) = Live (uID user) (timestamptz (awClock s + refreshTTL))"
    and "db_users (awDB s') = db_users (awDB s)"
proof -
  let ?raw = "RawURLEncoding buf" and ?w = "(awDB s)\<lparr>db_next := Suc (db_next (awDB s))\<rparr>"
  let ?rt = "\<lparr>rtID = Suc (db_next (awDB s)), rtUserID = uID user, rtTokenHash = sha256HexOf ?raw,
      rtExpiresAt = awClock s + refreshTTL, rtRevokedAt = None, rtCreatedAt = zero_time\<rparr>"
  have fresh: "fresh_token (the_auth ex cfg) (uID user) s = (Inr (?raw, ?rt), s\<lparr>awRandom := rs, awDB := ?w\<rparr>)"
    using assms(3)
    by (simp add: fresh_token_def rand_Read_def newRefreshToken_def Let_def on_db_def uuid_New_def)
  obtain access where sign: "mintAccessToken (the_auth ex cfg) (uID user) s = Inr access"
    using mint by (cases "mintAccessToken (the_auth ex cfg) (uID user) s") (simp_all add: mintSession_def)
  obtain n w' where n: "RefreshTokenStore_Create ?rt ?w = (n, w')" by (metis surj_pair)
  have "(case n of
        Inl e \<Rightarrow> (Inl (Wrap ''mint session: persist refresh token: '' e ''''), s\<lparr>awRandom := rs, awDB := w'\<rparr>)
      | Inr _ \<Rightarrow> (Inr (\<lparr>AccessToken = access, RefreshToken = ?raw\<rparr>, user), s\<lparr>awRandom := rs, awDB := w'\<rparr>))
      = (Inr (p, u), s')"
    using mint unfolding mintSession_def sign fresh by (simp add: on_db_def n)
  then have create: "RefreshTokenStore_Create ?rt ?w = (Inr (), w')"
    and res: "p = \<lparr>AccessToken = access, RefreshToken = ?raw\<rparr>" "u = user" "awDB s' = w'"
    using n by (cases n; force)+
  have "quiet (awDB s) ?w" by (simp add: quiet_def)
  note q = quiet_cred [OF this]
  show "u = user" "mintAccessToken (the_auth ex cfg) (uID user) s = Inr (AccessToken p)"
    by (simp_all add: res sign)
  show "isValidRefreshTokenFormat (RefreshToken p)"
    using newRefreshToken_valid [of buf ?raw] assms(4) by (simp add: newRefreshToken_def Let_def res)
  have k: "token_keys ?w" "cred ?w = cred (awDB s)" using q assms(2) by auto
  from RefreshTokenStore_Create_cred [OF create k(1)] k(2)
  show "cred (awDB s) (sha256HexOf (RefreshToken p)) = Unknown"
    "cred (awDB s') (sha256HexOf (RefreshToken p)) = Live (uID user) (timestamptz (awClock s + refreshTTL))"
    by (auto simp: res)
  show "db_users (awDB s') = db_users (awDB s)" using Create_users [OF create] by (simp add: res)
qed

text \<open>C11. A session is issued only to somebody Firebase vouches for: the token verifies, its email is
  verified and its identity is allowed; the user of the session is stored with that identity and
  the canonical form of that email; the access token is signed for that user in this environment;
  and the refresh token, of the format the server accepts, is a new live credential of that user
  for thirty days.\<close>

theorem session_issued:
  assumes "ExchangeFirebaseToken (the_auth ex cfg) idToken s = (Inr (p, u), s')"
    and "token_keys (awDB s)" and "awRandom s = Inr buf # rs" and "length buf = refreshTokenBytes"
  shows "\<exists>sdk ft x. exFirebase ex = Some sdk \<and> sdk idToken = Inr ft \<and>
    bool_claim (ftClaims ft) ''email_verified'' = Some True \<and>
    allowlistAllows (the_auth ex cfg) (ftUID ft) \<and> uFirebaseUID u = ftUID ft \<and>
    uEmail u = canonicalizeEmail (case string_claim (ftClaims ft) ''email'' of None \<Rightarrow> [] | Some e \<Rightarrow> e) \<and>
    x \<in> set (db_users (awDB s')) \<and> euID x = uID u \<and> euFirebaseUID x = ftUID ft \<and>
    jwtSign (exJWT ex) (HMAC ''HS256'') (access_claims (the_auth ex cfg) (uID u) (awClock s)) (JWTSecret cfg)
      = Inr (AccessToken p) \<and>
    isValidRefreshTokenFormat (RefreshToken p) \<and>
    cred (awDB s) (sha256HexOf (RefreshToken p)) = Unknown \<and>
    cred (awDB s') (sha256HexOf (RefreshToken p)) = Live (uID u) (timestamptz (awClock s + refreshTTL))"
proof -
  obtain sdk where sdk: "exFirebase ex = Some sdk"
    using assms(1) by (auto simp: ExchangeFirebaseToken_def split: option.splits)
  obtain ft where ft: "sdk idToken = Inr ft"
    using assms(1) sdk
    by (cases "sdk idToken") (auto simp: ExchangeFirebaseToken_def VerifyIDToken_def split: if_splits)
  let ?text = "\<lambda>k. case string_claim (ftClaims ft) k of None \<Rightarrow> [] | Some s \<Rightarrow> s"
  let ?user = "\<lparr>uID = uuid_nil, uFirebaseUID = ftUID ft, uEmail = ?text ''email'',
      uDisplayName = ?text ''name'', uPhotoURL = ?text ''picture'', uCreatedAt = zero_time\<rparr>"
  have eq: "ExchangeFirebaseToken (the_auth ex cfg) idToken s =
    (if length idToken > MaxFirebaseIDTokenLen then (Inl ErrInvalidRequest, s)
     else if \<not> (case bool_claim (ftClaims ft) ''email_verified'' of None \<Rightarrow> False | Some b \<Rightarrow> b)
     then (Inl ErrFirebaseEmailUnverified, s)
     else if \<not> allowlistAllows (the_auth ex cfg) (ftUID ft) then (Inl ErrAuthNotAllowed, s)
     else case on_db (UpsertByFirebaseUID ?user) s of
        (Inl e, w2) \<Rightarrow> (Inl e, w2)
      | (Inr user, w2) \<Rightarrow> mintSession (the_auth ex cfg) user w2)"
    by (simp add: ExchangeFirebaseToken_def sdk VerifyIDToken_def ft Let_def)
  have ok: "bool_claim (ftClaims ft) ''email_verified'' = Some True"
    "allowlistAllows (the_auth ex cfg) (ftUID ft)"
    using assms(1) unfolding eq by (auto split: if_splits option.splits)
  obtain user w where up: "UpsertByFirebaseUID ?user (awDB s) = (Inr user, w)"
    and mint: "mintSession (the_auth ex cfg) user (s\<lparr>awDB := w\<rparr>) = (Inr (p, u), s')"
    using assms(1) ok unfolding eq
    by (auto simp: on_db_def split: if_splits sum.splits prod.splits)
  note k = quiet_cred [OF UpsertByFirebaseUID_quiet [OF up]]
  have r: "token_keys (awDB (s\<lparr>awDB := w\<rparr>))" "awRandom (s\<lparr>awDB := w\<rparr>) = Inr buf # rs"
    using assms(2,3) k by simp_all
  note m = mintSession_issued [OF mint r assms(4)]
  from UpsertByFirebaseUID_Inr [OF up] obtain x where "x \<in> set (db_users w)" "euID x = uID user"
    "euFirebaseUID x = ftUID ft" "uFirebaseUID user = ftUID ft"
    "uEmail user = canonicalizeEmail (?text ''email'')" by auto
  with sdk ft ok m k show ?thesis
    by (intro exI [of _ sdk] exI [of _ ft] exI [of _ x]) (simp add: mintAccessToken_def)
qed

section \<open>A spent token is refused\<close>

text \<open>C10. A refresh token works once. After a refresh or a logout with it succeeded, no refresh with it
  succeeds again before the old token's own expiry, on any instance of the service whatever its
  configuration, and however many calls of the token store, by this request's rivals or later
  ones, come in between; and the refresh had handed out a different token for the same user.\<close>

theorem spent_token_refused:
  assumes "token_keys (awDB s)"
    and "old \<in> set (db_refresh_tokens (awDB s))" and "rtTokenHash old = sha256HexOf tok"
    and "(\<exists>p. RefreshSession (the_auth ex cfg) tok s = (Inr p, s')) \<or> Logout (the_auth ex cfg) tok s = (Inr (), s')"
    and "token_step\<^sup>*\<^sup>* (awDB s') (awDB s'')" and "db_clock (awDB s'') \<le> rtExpiresAt old"
  shows "(\<forall>p. fst (RefreshSession (the_auth ex' cfg') tok s'') \<noteq> Inr p) \<and>
    (\<forall>p. RefreshSession (the_auth ex cfg) tok s = (Inr p, s') \<longrightarrow>
       RefreshToken p \<noteq> tok \<and>
       (\<exists>e. cred (awDB s') (sha256HexOf (RefreshToken p)) = Live (rtUserID old) e))"
proof -
  have old: "cred (awDB s) (sha256HexOf tok) = credential_of old"
    using cred_row [OF assms(1,2)] assms(3) by simp
  have spent: "cred (awDB s') (sha256HexOf tok) = Spent (rtExpiresAt old) \<and> token_keys (awDB s') \<and>
    (\<forall>p. RefreshSession (the_auth ex cfg) tok s = (Inr p, s') \<longrightarrow>
       RefreshToken p \<noteq> tok \<and>
       (\<exists>e. cred (awDB s') (sha256HexOf (RefreshToken p)) = Live (rtUserID old) e))"
    using assms(4)
  proof (elim disjE exE)
    fix p assume "RefreshSession (the_auth ex cfg) tok s = (Inr p, s')"
    from token_store.RefreshSession_law [OF this assms(1)] this old show ?thesis
      by (auto simp: credential_of.simps split: if_splits)
  next
    assume l: "Logout (the_auth ex cfg) tok s = (Inr (), s')"
    from token_store.Logout_law [OF l assms(1)] old
    have s: "cred (awDB s') (sha256HexOf tok) = Spent (rtExpiresAt old)" "token_keys (awDB s')"
      by (auto simp: credential_of.simps split: if_splits)
    moreover have "RefreshSession (the_auth ex cfg) tok s \<noteq> (Inr p, s')" for p
    proof
      assume "RefreshSession (the_auth ex cfg) tok s = (Inr p, s')"
      from token_store.RefreshSession_law [OF this assms(1)] obtain u e h e' where
        "cred (awDB s) h = Unknown" "cred (awDB s) (sha256HexOf tok) = Live u e"
        "cred (awDB s') = (cred (awDB s))(sha256HexOf tok := Spent e, h := Live u e')" by auto
      moreover have "cred (awDB s') = (cred (awDB s))(sha256HexOf tok := spend (cred (awDB s) (sha256HexOf tok)))"
        using token_store.Logout_law [OF l assms(1)] by simp
      ultimately show False by (metis credential.distinct(1) fun_upd_apply)
    qed
    ultimately show ?thesis by blast
  qed
  have "cred (awDB s'') (sha256HexOf tok) = Spent (rtExpiresAt old)" "token_keys (awDB s'')"
    using token_steps_spent [OF assms(5)] spent assms(6) by blast+
  then have "fst (RefreshSession (the_auth ex' cfg') tok s'') \<noteq> Inr p" for p
    using token_store.RefreshSession_law [of ex' cfg' tok s''] by (metis credential.distinct(5) prod.collapse)
  with spent show ?thesis by blast
qed

section \<open>The theorems at work\<close>

definition demo_old :: string where "demo_old = RawURLEncoding (replicate 32 CHR ''a'')"
definition demo_bytes :: string where "demo_bytes = replicate 32 CHR ''b''"

definition demo_auth_cfg :: config where
  "demo_auth_cfg = (demo_config EnvProduction ''algo_prod'')\<lparr>AllowedFirebaseUIDs := [''alice'']\<rparr>"

definition demo_externals :: externals where
  "demo_externals =
     \<lparr>exJWT = \<lparr>jwtSign = (\<lambda>m c k. Inr ''jwt''), jwtParse = (\<lambda>kf ms t s. Inl (Plain ''no''))\<rparr>,
      exUUIDString = nat_text,
      exUUIDParse = (\<lambda>s. case natural s of None \<Rightarrow> Inl (Plain ''no'') | Some n \<Rightarrow> Inr n),
      exFirebase = Some (\<lambda>t. if t = ''id'' then
          Inr \<lparr>ftUID = ''alice'', ftClaims = [(''email'', JStr ''Alice@x.in''), (''email_verified'', JBool True)]\<rparr>
        else Inl (Plain ''no''))\<rparr>"

definition demo_auth_db :: db where
  "demo_auth_db = (empty_db 0)\<lparr>db_next := 5,
     db_users := [\<lparr>euID = 1, euEmail = ''alice@x.in'', euFirebaseUID = ''alice'', euDisplayName = None,
       euPhotoURL = None, euLastLoginAt = None, euCreatedAt = 0, euUpdatedAt = 0\<rparr>],
     db_refresh_tokens := [\<lparr>rtID = 2, rtUserID = 1, rtTokenHash = sha256HexOf demo_old,
       rtExpiresAt = 1000000, rtRevokedAt = None, rtCreatedAt = 0\<rparr>]\<rparr>"

definition demo_world :: auth_world where
  "demo_world = \<lparr>awDB = demo_auth_db, awClock = 0, awRandom = [Inr demo_bytes]\<rparr>"

lemma demo_valid: "isValidRefreshTokenFormat demo_old"
  using newRefreshToken_valid [of "replicate 32 CHR ''a''" demo_old]
  by (simp add: newRefreshToken_def Let_def demo_old_def refreshTokenBytes_def)

lemma demo_hashes: "sha256HexOf (RawURLEncoding demo_bytes) \<noteq> sha256HexOf demo_old"
  by code_simp

lemma demo_keys: "token_keys (awDB demo_world)" "distinct (map euID (db_users (awDB demo_world)))"
  by (simp_all add: demo_world_def demo_auth_db_def token_keys_def)

lemma demo_foreign: "foreign_errors demo_externals demo_world"
  by (simp add: foreign_errors_def demo_world_def demo_auth_db_def demo_externals_def empty_db_def)

lemma demo_usable: "usable_credential (the_auth demo_externals demo_auth_cfg) demo_old (awDB demo_world)"
  by (simp add: usable_credential_def demo_world_def demo_auth_db_def active_token_def timestamptz_def
      empty_db_def allowlistAllows_def demo_auth_cfg_def)

lemma demo_can_issue: "can_issue demo_externals demo_auth_cfg demo_world"
  using demo_hashes
  by (simp add: can_issue_def demo_world_def demo_auth_db_def demo_externals_def empty_db_def)

lemma refresh_status_witness:
  "fst (fst (Refresh (the_auth demo_externals demo_auth_cfg) (refresh_body demo_old) demo_world)) = 200"
  using refresh_status [OF demo_foreign demo_keys, where cfg = demo_auth_cfg and tok = demo_old]
    demo_valid demo_usable demo_can_issue
  by (simp split: prod.splits)

lemma spent_token_refused_witness:
  "\<exists>p s'. RefreshSession (the_auth demo_externals demo_auth_cfg) demo_old demo_world = (Inr p, s') \<and>
     RefreshToken p \<noteq> demo_old \<and>
     (\<forall>p'. fst (RefreshSession (the_auth demo_externals demo_auth_cfg) demo_old s') \<noteq> Inr p')"
proof -
  obtain p s' where run: "RefreshSession (the_auth demo_externals demo_auth_cfg) demo_old demo_world = (Inr p, s')"
    using RefreshSession_available [OF demo_keys demo_valid demo_usable demo_can_issue]
    by (metis prod.collapse)
  have old: "hd (db_refresh_tokens demo_auth_db) \<in> set (db_refresh_tokens (awDB demo_world))"
    "rtTokenHash (hd (db_refresh_tokens demo_auth_db)) = sha256HexOf demo_old"
    by (simp_all add: demo_world_def demo_auth_db_def)
  have "db_clock (awDB s') = db_clock (awDB demo_world)"
    using token_store.RefreshSession_law [OF run demo_keys(1)] by blast
  then have clock: "db_clock (awDB s') \<le> rtExpiresAt (hd (db_refresh_tokens demo_auth_db))"
    by (simp add: demo_world_def demo_auth_db_def db_clock_def timestamptz_def empty_db_def)
  have success: "(\<exists>p. RefreshSession (the_auth demo_externals demo_auth_cfg) demo_old demo_world = (Inr p, s')) \<or>
      Logout (the_auth demo_externals demo_auth_cfg) demo_old demo_world = (Inr (), s')"
    using run by blast
  from spent_token_refused [OF demo_keys(1) old success rtranclp.rtrancl_refl clock] run
  show ?thesis by blast
qed

definition demo_successor :: refresh_token where
  "demo_successor = \<lparr>rtID = 50, rtUserID = 1, rtTokenHash = sha256HexOf (RawURLEncoding demo_bytes),
     rtExpiresAt = 2000000, rtRevokedAt = None, rtCreatedAt = 0\<rparr>"

text \<open>The demo credential is rotated once for its user; presented again it is refused.\<close>

lemma token_store_refines_witness:
  "\<exists>w1 e. token_run (CallRotate (sha256HexOf demo_old) demo_successor) demo_auth_db = (Owner 1, w1) \<and>
     cred w1 (sha256HexOf demo_old) = Spent 1000000 \<and>
     fst (token_run (CallLookup (sha256HexOf demo_old)) w1) = Refused e"
proof -
  let ?h = "sha256HexOf demo_old"
  obtain a w1 where run: "token_run (CallRotate ?h demo_successor) demo_auth_db = (a, w1)" by (metis surj_pair)
  have k: "token_keys demo_auth_db" using demo_keys(1) by (simp add: demo_world_def)
  have c: "cred demo_auth_db ?h = Live 1 1000000" "db_clock demo_auth_db = 0" "db_faults demo_auth_db = []"
    by (simp_all add: cred_def rows_by_hash_def demo_auth_db_def credential_of.simps db_clock_def
        timestamptz_def empty_db_def)
  have "insertable demo_auth_db demo_successor" using demo_hashes
    by (simp add: insertable_def cred_Unknown demo_auth_db_def demo_successor_def)
  with token_store_refines [OF run k] c have "\<nexists>e. a = Refused e" by simp
  with token_store_refines [OF run k] c have a: "a = Owner 1" "cred w1 ?h = Spent 1000000" "token_keys w1"
    using demo_hashes by (auto elim!: token_life.cases simp: issue_def demo_successor_def)
  obtain a' w2 where run': "token_run (CallLookup ?h) w1 = (a', w2)" by (metis surj_pair)
  from token_store_refines [OF run' a(3)] a(2) obtain e where "a' = Refused e"
    by (auto elim: token_life.cases)
  with run a run' show ?thesis by auto
qed

lemma session_issued_witness:
  "\<exists>p u s'. ExchangeFirebaseToken (the_auth demo_externals demo_auth_cfg) ''id''
      (demo_world\<lparr>awDB := empty_db 0\<rparr>) = (Inr (p, u), s') \<and> uEmail u = ''alice@x.in'' \<and>
    (\<exists>e. cred (awDB s') (sha256HexOf (RefreshToken p)) = Live (uID u) e)"
proof -
  let ?s = "demo_world\<lparr>awDB := empty_db 0\<rparr>"
  have "case ExchangeFirebaseToken (the_auth demo_externals demo_auth_cfg) ''id'' ?s of
      (Inr (p, u), s') \<Rightarrow> uEmail u = ''alice@x.in'' | _ \<Rightarrow> False"
    by code_simp
  then obtain p u s' where run: "ExchangeFirebaseToken (the_auth demo_externals demo_auth_cfg) ''id'' ?s = (Inr (p, u), s')"
    and e: "uEmail u = ''alice@x.in''"
    by (auto split: prod.splits sum.splits)
  have k: "token_keys (awDB ?s)" by (simp add: token_keys_def empty_db_def)
  have r: "awRandom ?s = Inr demo_bytes # []" by (simp add: demo_world_def)
  have l: "length demo_bytes = refreshTokenBytes" by (simp add: demo_bytes_def refreshTokenBytes_def)
  from session_issued [OF run k r l] run e show ?thesis by blast
qed

text \<open>A library that signs every list of the four claims, with the key as the signature: the token
  carries the claims and the key between separators that are not ASCII.\<close>

definition separator :: char where "separator = char_of (255::nat)"

definition signing_jwt :: jwt_library where
  "signing_jwt =
     \<lparr>jwtSign = (\<lambda>m c k.
        case c of [(a, JStr s), (b, JStr e), (_, JInt i), (d, JInt x)] \<Rightarrow>
          if [a, b, d] = [jwtSubClaim, jwtEnvClaim, jwtExpiryClaim] \<and> ascii s \<and> ascii e \<and> 0 \<le> x
          then Inr (s @ separator # e @ separator # nat_text (nat x) @ separator # k)
          else Inl (Plain ''no'')
        | _ \<Rightarrow> Inl (Plain ''no'')),
      jwtParse = (\<lambda>kf ms t tok.
        let field = takeWhile (\<lambda>c. c \<noteq> separator); rest = (\<lambda>s. tl (dropWhile (\<lambda>c. c \<noteq> separator) s));
            r1 = rest tok; r2 = rest r1
        in if kf (HMAC ''HS256'') = Inr (rest r2) \<and> (case digits_value (field r2) 0 of None \<Rightarrow> False
              | Some x \<Rightarrow> t < int x * second)
           then Inr \<lparr>jtClaims = Some [(jwtSubClaim, JStr (field tok)), (jwtEnvClaim, JStr (field r1))],
                     jtValid = True\<rparr>
           else Inl (Plain ''no''))\<rparr>"

lemma ascii_nat_text: "ascii (nat_text n)"
proof (induction n rule: nat_text.induct)
  case (1 n)
  have "ascii [digit_char d]" if "d < 10" for d
    using that by (simp add: ascii_def digit_char_def)
  with 1 show ?case by (subst nat_text.simps) (simp add: ascii_def)
qed

lemma fields:
  assumes "ascii s"
  shows "takeWhile (\<lambda>c. c \<noteq> separator) (s @ separator # r) = s"
    and "tl (dropWhile (\<lambda>c. c \<noteq> separator) (s @ separator # r)) = r"
proof -
  have "c \<noteq> separator" if "c \<in> set s" for c
    using assms that by (auto simp: ascii_def list_all_iff separator_def)
  then show "takeWhile (\<lambda>c. c \<noteq> separator) (s @ separator # r) = s"
    "tl (dropWhile (\<lambda>c. c \<noteq> separator) (s @ separator # r)) = r" by simp_all
qed

lemma signing_jwt_law: "jwt_law signing_jwt"
  unfolding jwt_law_def
proof (intro allI impI, elim conjE)
  fix subj env iat exp secret tok now and kf :: "signing_method \<Rightarrow> string res"
  assume s: "jwtSign signing_jwt (HMAC ''HS256'') [(jwtSubClaim, JStr subj), (jwtEnvClaim, JStr env),
      (jwtIssuedAtClaim, JInt iat), (jwtExpiryClaim, JInt exp)] secret = Inr tok"
    and now: "now < exp * second" and kf: "kf (HMAC ''HS256'') = Inr secret"
  from s have a: "ascii subj" "ascii env" "0 \<le> exp"
    and tok: "tok = subj @ separator # env @ separator # nat_text (nat exp) @ separator # secret"
    by (simp_all add: signing_jwt_def split: if_splits)
  show "\<exists>claims. jwtParse signing_jwt kf [''HS256''] now tok = Inr \<lparr>jtClaims = Some claims, jtValid = True\<rparr> \<and>
      map_of claims jwtSubClaim = Some (JStr subj) \<and> map_of claims jwtEnvClaim = Some (JStr env)"
    using now kf a by (simp add: signing_jwt_def tok fields ascii_nat_text digits_value_nat_text)
qed

lemma minted_token_accepted_witness:
  "\<exists>tok. mintAccessToken (the_auth (demo_externals\<lparr>exJWT := signing_jwt\<rparr>) demo_auth_cfg) 7 demo_world = Inr tok \<and>
     tenant_identity (the_auth (demo_externals\<lparr>exJWT := signing_jwt\<rparr>) demo_auth_cfg)
       (bearerPrefix @ tok) demo_world = Inr 7"
proof -
  let ?ex = "demo_externals\<lparr>exJWT := signing_jwt\<rparr>"
  have "jwt_law (exJWT ?ex)" using signing_jwt_law by simp
  moreover have "uuid_law ?ex"
    by (simp add: uuid_law_def demo_externals_def natural_def nat_text_nonempty digits_value_nat_text ascii_nat_text)
  moreover have e: "ascii (Env demo_auth_cfg)"
    by (simp add: demo_auth_cfg_def demo_config_def ascii_def EnvProduction_def)
  moreover obtain tok where "mintAccessToken (the_auth ?ex demo_auth_cfg) 7 demo_world = Inr tok"
    using e by (simp add: mintAccessToken_def access_claims_def signing_jwt_def demo_externals_def ascii_nat_text
        demo_world_def Unix_def accessTTL_def hour_def minute_def second_def)
  moreover have "7 \<noteq> uuid_nil" by (simp add: uuid_nil_def)
  moreover have "0 \<le> Unix (awClock demo_world)" "Unix (awClock demo_world + accessTTL) \<le> 2 ^ 53"
    "awClock demo_world < Unix (awClock demo_world + accessTTL) * second"
    by (simp_all add: demo_world_def Unix_def accessTTL_def hour_def minute_def second_def)
  ultimately show ?thesis using minted_token_accepted by blast
qed

text \<open>A library for one token, which stands for user 7.\<close>

definition demo_claims :: map_claims where
  "demo_claims = access_claims (the_auth demo_externals demo_auth_cfg) 7 0"

definition demo_jwt :: jwt_library where
  "demo_jwt =
     \<lparr>jwtSign = (\<lambda>m c k. if c = demo_claims \<and> k = ''secret'' then Inr ''jwt'' else Inl (Plain ''no'')),
      jwtParse = (\<lambda>kf ms t s.
        if s = ''jwt'' \<and> t < 3600 * second \<and> kf (HMAC ''HS256'') = Inr ''secret''
        then Inr \<lparr>jtClaims = Some demo_claims, jtValid = True\<rparr> else Inl (Plain ''no''))\<rparr>"

end
