(* ===== verification/Api_Handlers.thy ===== *)
theory Api_Handlers
  imports Api_Response Auth_Http
begin

text \<open>
  The handlers of the tenant, health and configuration endpoints (\<^verbatim>\<open>backtest.go\<close>, \<^verbatim>\<open>strategy.go\<close>,
  \<^verbatim>\<open>health.go\<close>, \<^verbatim>\<open>config.go\<close> of \<^verbatim>\<open>internal/handlers\<close>): binding and checks of the request, the call
  of the service, the status of every error. A handler that panics is a \<open>Panic\<close> here; the
  recovery middleware turns it into a 500 without a body. A body that cannot be encoded leaves
  the status with an empty body.
\<close>

section \<open>Requests\<close>

type_synonym query = "string \<Rightarrow> string"

definition defaultBacktestsPage :: goint where "defaultBacktestsPage = 1"
definition defaultBacktestsLimit :: goint where "defaultBacktestsLimit = 20"
definition maxBacktestsLimit :: goint where "maxBacktestsLimit = 100"
definition defaultTradesPage :: goint where "defaultTradesPage = 1"
definition defaultTradesLimit :: goint where "defaultTradesLimit = 50"
definition maxTradesLimit :: goint where "maxTradesLimit = 200"

definition parsePagination :: "query \<Rightarrow> goint \<Rightarrow> goint \<Rightarrow> goint \<Rightarrow> goint \<times> goint" where
  "parsePagination q defaultPage defaultLimit maxLimit =
     ((case Atoi (q ''page'') of Some v \<Rightarrow> (if v > 0 then v else defaultPage) | None \<Rightarrow> defaultPage),
      (case Atoi (q ''limit'') of
         Some v \<Rightarrow> (if v > 0 then (if v > maxLimit then maxLimit else v) else defaultLimit)
       | None \<Rightarrow> defaultLimit))"

definition parseBacktestListPagination :: "query \<Rightarrow> goint \<times> goint" where
  "parseBacktestListPagination q =
     parsePagination q defaultBacktestsPage defaultBacktestsLimit maxBacktestsLimit"

definition parseTradesPagination :: "query \<Rightarrow> goint \<times> goint" where
  "parseTradesPagination q = parsePagination q defaultTradesPage defaultTradesLimit maxTradesLimit"

record backtest_inputs =
  biUnderlying :: string
  biFrom :: string
  biTo :: string
  biLots :: goint
  biCapital :: f64
  biSlippagePct :: f64

record backtest_submit_request =
  bqStrategyID :: string
  bqInputs :: backtest_inputs

text \<open>\<^verbatim>\<open>encoding/json\<close> into the three structs of the request.\<close>

definition decode_date_range :: "json \<Rightarrow> backtest_inputs \<Rightarrow> backtest_inputs option" where
  "decode_date_range =
     decode_struct (\<lambda>k v r.
        if k = ''from'' then map_option (\<lambda>s. r\<lparr>biFrom := s\<rparr>) (read_string v (biFrom r))
        else if k = ''to'' then map_option (\<lambda>s. r\<lparr>biTo := s\<rparr>) (read_string v (biTo r))
        else Some r) [''from'', ''to'']"

definition decode_inputs :: "json \<Rightarrow> backtest_inputs \<Rightarrow> backtest_inputs option" where
  "decode_inputs =
     decode_struct (\<lambda>k v r.
        if k = ''underlying'' then map_option (\<lambda>s. r\<lparr>biUnderlying := s\<rparr>) (read_string v (biUnderlying r))
        else if k = ''dateRange'' then decode_date_range v r
        else if k = ''lots'' then map_option (\<lambda>n. r\<lparr>biLots := n\<rparr>) (read_int v (biLots r))
        else if k = ''capital'' then map_option (\<lambda>x. r\<lparr>biCapital := x\<rparr>) (Json.read_float v (biCapital r))
        else if k = ''slippagePct'' then map_option (\<lambda>x. r\<lparr>biSlippagePct := x\<rparr>) (Json.read_float v (biSlippagePct r))
        else Some r) [''underlying'', ''dateRange'', ''lots'', ''capital'', ''slippagePct'']"

definition blank_submit :: backtest_submit_request where
  "blank_submit = \<lparr>bqStrategyID = [], bqInputs = \<lparr>biUnderlying = [], biFrom = [], biTo = [],
     biLots = 0, biCapital = 0, biSlippagePct = 0\<rparr>\<rparr>"

definition decode_submit :: "json \<Rightarrow> backtest_submit_request option" where
  "decode_submit j =
     decode_struct (\<lambda>k v r.
        if k = ''strategyId'' then map_option (\<lambda>s. r\<lparr>bqStrategyID := s\<rparr>) (read_string v (bqStrategyID r))
        else if k = ''inputs'' then map_option (\<lambda>i. r\<lparr>bqInputs := i\<rparr>) (decode_inputs v (bqInputs r))
        else Some r) [''strategyId'', ''inputs''] j blank_submit"

text \<open>The binding tags.\<close>

definition submit_valid :: "backtest_submit_request \<Rightarrow> bool" where
  "submit_valid r \<longleftrightarrow>
     (let i = bqInputs r
      in bqStrategyID r \<noteq> [] \<and> biUnderlying i \<noteq> [] \<and> biFrom i \<noteq> [] \<and> biTo i \<noteq> [] \<and>
         biLots i \<noteq> 0 \<and> 1 \<le> biLots i \<and> biLots i \<le> 50 \<and>
         \<not> feq (biCapital i) 0 \<and> 0 < biCapital i \<and> biCapital i \<le> lit 10000000 1 \<and>
         0 \<le> biSlippagePct i \<and> biSlippagePct i \<le> 1)"

definition bind_submit :: "json option \<Rightarrow> backtest_submit_request option" where
  "bind_submit body =
     (case body of
        None \<Rightarrow> None
      | Some j \<Rightarrow> (case decode_submit j of
                    None \<Rightarrow> None | Some r \<Rightarrow> (if submit_valid r then Some r else None)))"

section \<open>Backtests\<close>

definition submit_error :: "err \<Rightarrow> http_response" where
  "submit_error e =
     (if errors_is e ErrBacktestDisabled then error_response 503 ''backtests are disabled''
      else if errors_is e ErrBacktestDateRangeExceeded
      then error_response 422 ''date range exceeds maximum allowed''
      else if errors_is e ErrBacktestCandleCountExceeded
      then error_response 422 ''candle count exceeds maximum allowed''
      else if errors_is e ErrStrategyNotFound then error_response 404 ''strategy not found''
      else if errors_is e ErrInvalidUnderlying
      then error_response 400 ''invalid underlying for strategy''
      else if errors_is e ErrNoInstrument then error_response 404 ''no instrument found for underlying''
      else if errors_is e ErrNoCandleData then error_response 400 ''no candle data available''
      else if errors_is e ErrInvalidSlippagePct
      then error_response 400 ''slippage percent must be between 0 and 1''
      else error_response 500 ''backtest failed'')"

text \<open>The request of the service behind a bound body, or the response to a bad date range.\<close>

definition service_request :: "backtest_submit_request \<Rightarrow> http_response + backtest_request" where
  "service_request r =
     (let i = bqInputs r
      in case time_Parse dateFormat (biFrom i) of
           None \<Rightarrow> Inl (error_response 400 ''invalid from date format, expected YYYY-MM-DD'')
         | Some from \<Rightarrow>
      (case time_Parse dateFormat (biTo i) of
           None \<Rightarrow> Inl (error_response 400 ''invalid to date format, expected YYYY-MM-DD'')
         | Some to \<Rightarrow>
             (if \<not> from < to then Inl (error_response 400 ''from date must be before to date'')
              else Inr \<lparr>rqStrategySlug = bqStrategyID r, rqUnderlying = biUnderlying i,
                     rqFrom = from, rqTo = to,
                     rqCfg = \<lparr>Lots = biLots i, InitialCapital = biCapital i,
                        SlippagePct = normalizeSlippagePct (biSlippagePct i)\<rparr>\<rparr>)))"

text \<open>The job is what the service leaves running in the background.\<close>

definition BacktestHandler_Submit ::
  "uuid_text \<Rightarrow> 'w backtest_service \<Rightarrow> uuid \<Rightarrow> json option \<Rightarrow> 'w \<Rightarrow> (http_response \<times> job option) \<times> 'w" where
  "BacktestHandler_Submit ut sv u body w =
     (case bind_submit body of
        None \<Rightarrow> ((error_response 400 ''invalid request body'', None), w)
      | Some r \<Rightarrow>
     (case service_request r of
        Inl resp \<Rightarrow> ((resp, None), w)
      | Inr req \<Rightarrow>
     (case Submit sv u req w of
        (Inl e, w') \<Rightarrow> ((submit_error e, None), w')
      | (Inr (run, j), w') \<Rightarrow> (((202, toBacktestSubmitResponse ut run), Some j), w'))))"

definition BacktestHandler_List ::
  "uuid_text \<Rightarrow> 'w backtest_service \<Rightarrow> uuid \<Rightarrow> query \<Rightarrow> 'w \<Rightarrow> http_response \<times> 'w" where
  "BacktestHandler_List ut sv u q w =
     (let (page, limit) = parseBacktestListPagination q
      in case BacktestService_ListCompleted sv u page limit w of
           (Inl _, w') \<Rightarrow> (error_response 500 ''failed to list backtests'', w')
         | (Inr (runs, tot), w') \<Rightarrow>
             (case toBacktestListResponse ut runs page limit tot of
                Inl _ \<Rightarrow> (error_response 500 ''failed to shape backtests list'', w')
              | Inr body \<Rightarrow> ((200, body), w')))"

definition get_error :: "err \<Rightarrow> http_response" where
  "get_error e =
     (if errors_is e ErrNotFound then error_response 404 ''backtest not found''
      else error_response 500 ''failed to get backtest'')"

definition BacktestHandler_GetByID ::
  "uuid_text \<Rightarrow> (string \<Rightarrow> uuid res) \<Rightarrow> 'w backtest_service \<Rightarrow> uuid \<Rightarrow> string \<Rightarrow> 'w \<Rightarrow> http_response \<times> 'w" where
  "BacktestHandler_GetByID ut parse sv u param w =
     (case parse param of
        Inl _ \<Rightarrow> (error_response 400 ''invalid backtest ID'', w)
      | Inr i \<Rightarrow>
     (case BacktestService_GetByID sv i u w of
        (Inl e, w') \<Rightarrow> (get_error e, w')
      | (Inr run, w') \<Rightarrow> ((200, toBacktestStatusResponse ut run), w')))"

definition BacktestHandler_GetTrades ::
  "(string \<Rightarrow> uuid res) \<Rightarrow> 'w backtest_service \<Rightarrow> uuid \<Rightarrow> string \<Rightarrow> query \<Rightarrow> 'w \<Rightarrow> http_response call \<times> 'w" where
  "BacktestHandler_GetTrades parse sv u param q w =
     (case parse param of
        Inl _ \<Rightarrow> (Return (error_response 400 ''invalid backtest ID''), w)
      | Inr i \<Rightarrow>
     (case BacktestService_GetByIDWithTrades sv i u w of
        (Inl e, w') \<Rightarrow> (Return (get_error e), w')
      | (Inr run, w') \<Rightarrow>
         (if bStatus run \<noteq> BacktestCompleted
          then (Return (error_response 409 ''backtest not completed''), w')
          else let (page, limit) = parseTradesPagination q
               in case toBacktestTradesPageResponse (bTrades run) page limit of
                    Panic p \<Rightarrow> (Panic p, w')
                  | Return body \<Rightarrow> (Return (200, body), w'))))"

section \<open>Strategies\<close>

definition StrategyHandler_List :: "uuid_text \<Rightarrow> uuid \<Rightarrow> db \<Rightarrow> http_response \<times> db" where
  "StrategyHandler_List ut u w =
     (case ListSections server_builtins u w of
        (Inl _, w') \<Rightarrow> (error_response 500 ''failed to list strategies'', w')
      | (Inr sections, w') \<Rightarrow> ((200, toStrategySectionsResponse ut sections), w'))"

definition StrategyHandler_GetByID :: "uuid_text \<Rightarrow> uuid \<Rightarrow> string \<Rightarrow> db \<Rightarrow> http_response \<times> db" where
  "StrategyHandler_GetByID ut u slug w =
     (case GetBySlug server_builtin slug u w of
        (Inl e, w') \<Rightarrow>
          ((if errors_is e ErrNotFound then error_response 404 ''strategy not found''
            else error_response 500 ''failed to get strategy''), w')
      | (Inr detail, w') \<Rightarrow> ((200, toStrategyDetailResponse ut detail), w'))"

section \<open>Health and configuration\<close>

definition HealthHandler_Live :: http_response where
  "HealthHandler_Live = (200, Some (JObj [(''status'', JStr ''ok'')]))"

definition HealthHandler_Ready :: "string \<Rightarrow> db \<Rightarrow> http_response \<times> db" where
  "HealthHandler_Ready env w =
     (case CheckReadiness env w of
        (Inl e, w') \<Rightarrow> (error_response 503 (err_msg e), w')
      | (Inr checks, w') \<Rightarrow> ((200, readyResponse checks), w'))"

definition HealthHandler_Version :: "build_info \<Rightarrow> string \<Rightarrow> db \<Rightarrow> http_response \<times> db" where
  "HealthHandler_Version info env w =
     (let (v, w') = HealthService_MigrationVersion w
      in ((200, versionResponse info env (case v of Inl _ \<Rightarrow> None | Inr n \<Rightarrow> Some n)), w'))"

record nav_tab =
  ntRoute :: string
  ntIconKey :: string

definition AppConfig :: http_response where
  "AppConfig =
     (let tabs = [\<lparr>ntRoute = ''strategies'', ntIconKey = ''strategies''\<rparr>,
                  \<lparr>ntRoute = ''backtest'', ntIconKey = ''backtest''\<rparr>]
      in (200, Some (JObj [(''navTabs'', JArr (map (\<lambda>t. JObj [(''route'', JStr (ntRoute t)),
                        (''iconKey'', JStr (ntIconKey t))]) tabs))])))"

end
