(* ===== verification/Rate_Limit.thy ===== *)
theory Rate_Limit
  imports Models
begin

text \<open>
  The rate limiter of the sign-in endpoints (\<^verbatim>\<open>internal/middleware/rate_limit.go\<close>): a counter per
  route and client address in a fixed window of a minute, and the sweep that forgets idle
  counters. A limiter is the map of its counters; every operation takes the reading of the
  clock it makes. The mutex serialises the operations, so a history of a limiter is the list of
  its operations. It is compared with \<open>budget\<close>, which knows nothing of counters or sweeps.
\<close>

section \<open>The limiter\<close>

definition rateLimitWindow :: duration where "rateLimitWindow = minute"
definition rateLimitIdleTTL :: duration where "rateLimitIdleTTL = 10 * minute"
definition rateLimitEvictInterval :: duration where "rateLimitEvictInterval = 5 * minute"
definition errRateLimitExceeded :: string where "errRateLimitExceeded = ''rate_limit_exceeded''"

record rateLimitKey =
  rkRoute :: string
  rkIP :: string

record rateLimitEntry =
  reWindowStart :: time
  reCount :: goint
  reLastSeen :: time

type_synonym ipRateLimiter = "rateLimitKey \<rightharpoonup> rateLimitEntry"

definition newIPRateLimiterWithClock :: ipRateLimiter where
  "newIPRateLimiterWithClock = Map.empty"

definition evictStale :: "duration \<Rightarrow> time \<Rightarrow> ipRateLimiter \<Rightarrow> ipRateLimiter" where
  "evictStale ttl now l =
     (\<lambda>k. case l k of
        None \<Rightarrow> None
      | Some e \<Rightarrow> (if time_sub now (reLastSeen e) > ttl then None else Some e))"

text \<open>A counter whose window is over starts a new one; a refused request changes nothing but
  that.\<close>

definition rolled :: "time \<Rightarrow> rateLimitEntry \<Rightarrow> rateLimitEntry" where
  "rolled now e =
     (if time_sub now (reWindowStart e) \<ge> rateLimitWindow
      then e\<lparr>reWindowStart := now, reCount := 0\<rparr> else e)"

definition allow :: "string \<Rightarrow> string \<Rightarrow> goint \<Rightarrow> time \<Rightarrow> ipRateLimiter \<Rightarrow> bool \<times> ipRateLimiter" where
  "allow route ip rpm now l =
     (let key = \<lparr>rkRoute = route, rkIP = ip\<rparr>
      in case l key of
           None \<Rightarrow> (True, l(key \<mapsto> \<lparr>reWindowStart = now, reCount = 1, reLastSeen = now\<rparr>))
         | Some e0 \<Rightarrow>
            (let e = rolled now e0
             in if reCount e \<ge> rpm then (False, l(key \<mapsto> e))
                else (True, l(key \<mapsto> e\<lparr>reCount := wrap64 (reCount e + 1), reLastSeen := now\<rparr>))))"

section \<open>Histories\<close>

text \<open>A history is what happened to the limiter in the order of its lock: requests, and sweeps of
  the background task. The log has an entry for every request, in order: its key, the clock
  and whether it was let through. \<open>rpm\<close> is the budget each route was registered with.\<close>

datatype limiter_event = Arrival string string time | Sweep time

primrec event_time :: "limiter_event \<Rightarrow> time" where
  "event_time (Arrival _ _ t) = t"
| "event_time (Sweep t) = t"

fun serve :: "(string \<Rightarrow> goint) \<Rightarrow> limiter_event list \<Rightarrow> ipRateLimiter \<Rightarrow>
  (rateLimitKey \<times> time \<times> bool) list" where
  "serve rpm [] l = []"
| "serve rpm (Arrival route ip t # evs) l =
     (let (ok, l') = allow route ip (rpm route) t l
      in (\<lparr>rkRoute = route, rkIP = ip\<rparr>, t, ok) # serve rpm evs l')"
| "serve rpm (Sweep t # evs) l = serve rpm evs (evictStale rateLimitIdleTTL t l)"

text \<open>What the limiter is for: cut the requests of one client on one route into windows, each
  opened by the first request that comes a minute or more after the last opening, and let the
  first \<open>rpm\<close> requests of every window through.\<close>

function budget :: "int \<Rightarrow> time list \<Rightarrow> bool list" where
  "budget rpm [] = []"
| "budget rpm (t # ts) =
     map (\<lambda>i. int i < rpm) [0..<Suc (length (takeWhile (\<lambda>u. u < t + rateLimitWindow) ts))] @
     budget rpm (dropWhile (\<lambda>u. u < t + rateLimitWindow) ts)"
  by pat_completeness auto
termination by (relation "measure (\<lambda>(_, ts). length ts)") (auto simp: le_imp_less_Suc length_dropWhile_le)

fun arrivals :: "rateLimitKey \<Rightarrow> limiter_event list \<Rightarrow> time list" where
  "arrivals k [] = []"
| "arrivals k (Arrival route ip t # evs) =
     (if k = \<lparr>rkRoute = route, rkIP = ip\<rparr> then t # arrivals k evs else arrivals k evs)"
| "arrivals k (Sweep t # evs) = arrivals k evs"

definition of_key :: "rateLimitKey \<Rightarrow> (rateLimitKey \<times> time \<times> bool) list \<Rightarrow> (time \<times> bool) list" where
  "of_key k es = map snd (filter (\<lambda>e. fst e = k) es)"


section \<open>Windows without counters\<close>

text \<open>The state of a counter, as the opening of its window and the requests let through in it.\<close>

fun windowed :: "int \<Rightarrow> (time \<times> int) option \<Rightarrow> time list \<Rightarrow> bool list" where
  "windowed rpm s [] = []"
| "windowed rpm None (t # ts) = True # windowed rpm (Some (t, 1)) ts"
| "windowed rpm (Some (b, c)) (t # ts) =
     (if b + rateLimitWindow \<le> t then True # windowed rpm (Some (t, 1)) ts
      else if c < rpm then True # windowed rpm (Some (b, c + 1)) ts
      else False # windowed rpm (Some (b, c)) ts)"

lemma map_upt_shift: "map f [0..<Suc n] = f 0 # map (\<lambda>i. f (Suc i)) [0..<n]"
  by (rule map_upt_Suc)

lemma windowed_budget:
  assumes "1 \<le> rpm"
  shows "windowed rpm None ts = budget rpm ts \<and>
    windowed rpm (Some (b, c)) ts =
      map (\<lambda>i. c + int i < rpm) [0..<length (takeWhile (\<lambda>u. u < b + rateLimitWindow) ts)] @
      budget rpm (dropWhile (\<lambda>u. u < b + rateLimitWindow) ts)"
proof (induction ts arbitrary: b c)
  case (Cons t ts)
  have opened: "windowed rpm (Some (t, 1)) ts =
    map (\<lambda>i. int (Suc i) < rpm) [0..<length (takeWhile (\<lambda>u. u < t + rateLimitWindow) ts)] @
    budget rpm (dropWhile (\<lambda>u. u < t + rateLimitWindow) ts)"
    using Cons.IH [of t 1] by simp
  have full: "map (\<lambda>i. c + int (Suc i) < rpm) xs = map (\<lambda>i. c + int i < rpm) xs"
    if "\<not> c < rpm" for c and xs :: "nat list" using that by simp
  show ?case
    using assms opened Cons.IH [of b "c + 1"] Cons.IH [of b c]
    by (auto simp: map_upt_shift full algebra_simps simp del: upt_Suc)
qed simp

lemma length_budget [simp]: "length (budget rpm ts) = length ts"
proof (induction rpm ts rule: budget.induct)
  case (2 rpm t ts)
  have "length ts = length (takeWhile (\<lambda>u. u < t + rateLimitWindow) ts) +
    length (dropWhile (\<lambda>u. u < t + rateLimitWindow) ts)"
    by (metis length_append takeWhile_dropWhile_id)
  with 2 show ?case by (simp del: upt_Suc)
qed simp

section \<open>The limiter keeps to its windows\<close>

text \<open>What a counter, or its absence, says of the window of its key at a time: a missing counter
  stands for no window or one that is over.\<close>

definition tracks :: "rateLimitEntry option \<Rightarrow> (time \<times> int) option \<Rightarrow> time \<Rightarrow> bool" where
  "tracks e s now =
     (case e of
        None \<Rightarrow> (case s of None \<Rightarrow> True | Some (b, c) \<Rightarrow> b + rateLimitWindow \<le> now)
      | Some e \<Rightarrow> s = Some (reWindowStart e, reCount e) \<and> reWindowStart e \<le> reLastSeen e \<and>
          reLastSeen e \<le> now \<and> 0 \<le> reCount e)"

lemma window_over: "time_sub t u \<ge> rateLimitWindow \<longleftrightarrow> u + rateLimitWindow \<le> t"
  by (auto simp: time_sub_def rateLimitWindow_def minute_def second_def)

lemma idle: "time_sub t u > rateLimitIdleTTL \<longleftrightarrow> u + rateLimitIdleTTL < t"
  by (auto simp: time_sub_def rateLimitIdleTTL_def minute_def second_def)

lemma windows_shorter: "rateLimitWindow \<le> rateLimitIdleTTL" "0 < rateLimitWindow"
  by (simp_all add: rateLimitIdleTTL_def rateLimitWindow_def minute_def second_def)

lemma tracks_later: "tracks e s now \<Longrightarrow> now \<le> t \<Longrightarrow> tracks e s t"
  by (auto simp: tracks_def split: option.splits)

lemma tracks_sweep:
  "tracks (l k) s now \<Longrightarrow> now \<le> t \<Longrightarrow> tracks (evictStale rateLimitIdleTTL t l k) s t"
  using windows_shorter
  by (auto simp: tracks_def evictStale_def idle split: option.splits)

lemma allow_other_key:
  "k \<noteq> \<lparr>rkRoute = route, rkIP = ip\<rparr> \<Longrightarrow> snd (allow route ip rpm t l) k = l k"
  by (simp add: allow_def Let_def split: option.split)

lemma tracks_allow:
  assumes "tracks (l \<lparr>rkRoute = route, rkIP = ip\<rparr>) s now" "now \<le> t" "1 \<le> rpm" "in64 rpm"
  shows "\<exists>s'. windowed rpm s (t # ts) = fst (allow route ip rpm t l) # windowed rpm s' ts \<and>
    tracks (snd (allow route ip rpm t l) \<lparr>rkRoute = route, rkIP = ip\<rparr>) s' t"
proof (cases "l \<lparr>rkRoute = route, rkIP = ip\<rparr>")
  case None
  then have "windowed rpm s (t # ts) = True # windowed rpm (Some (t, 1)) ts"
    using assms by (auto simp: tracks_def split: option.splits)
  with None show ?thesis
    by (intro exI [of _ "Some (t, 1)"]) (simp add: allow_def Let_def tracks_def)
next
  case (Some e)
  have s: "s = Some (reWindowStart e, reCount e)" "reWindowStart e \<le> reLastSeen e"
    "reLastSeen e \<le> now" "0 \<le> reCount e"
    using assms(1) Some by (simp_all add: tracks_def)
  have w: "wrap64 (reCount e + 1) = reCount e + 1" if "reCount e < rpm"
    using that s(4) assms(4) by (simp add: in64_def)
  have w1: "wrap64 1 = 1" by (simp add: in64_def)
  show ?thesis
    using s w w1 assms(2,3) Some
    by (auto simp: allow_def Let_def tracks_def rolled_def window_over)
qed

lemma of_key_simps [simp]:
  "of_key k [] = []" "of_key k (e # es) = (if fst e = k then snd e # of_key k es else of_key k es)"
  by (simp_all add: of_key_def)

lemma serve_windowed:
  assumes "sorted (now # map event_time evs)" "tracks (l k) s now"
    and "1 \<le> rpm (rkRoute k)" "in64 (rpm (rkRoute k))"
  shows "of_key k (serve rpm evs l) = zip (arrivals k evs) (windowed (rpm (rkRoute k)) s (arrivals k evs))"
  using assms(1,2)
proof (induction evs arbitrary: l s now)
  case (Cons ev evs)
  show ?case
  proof (cases ev)
    case (Arrival route ip t)
    have t: "now \<le> t" "sorted (t # map event_time evs)" using Cons.prems(1) Arrival by auto
    obtain ok l' where a: "allow route ip (rpm route) t l = (ok, l')" by fastforce
    show ?thesis
    proof (cases "k = \<lparr>rkRoute = route, rkIP = ip\<rparr>")
      case True
      then obtain s' where "windowed (rpm route) s (t # arrivals k evs) = ok # windowed (rpm route) s' (arrivals k evs)"
        "tracks (l' k) s' t"
        using tracks_allow [of l route ip s now t "rpm route" "arrivals k evs"] Cons.prems(2) t(1) assms(3,4) a
        by auto
      with True Cons.IH [OF t(2)] show ?thesis by (simp add: Arrival a)
    next
      case False
      then have "tracks (l' k) s t"
        using allow_other_key [OF False, of "rpm route" t l] a tracks_later [OF Cons.prems(2) t(1)] by simp
      with False Cons.IH [OF t(2)] show ?thesis by (auto simp: Arrival a)
    qed
  next
    case (Sweep t)
    with Cons.prems Cons.IH [of t "evictStale rateLimitIdleTTL t l" s] tracks_sweep show ?thesis by simp
  qed
qed simp

lemma serve_from_start:
  assumes "sorted (map event_time evs)" "1 \<le> rpm (rkRoute k)" "in64 (rpm (rkRoute k))"
  shows "of_key k (serve rpm evs newIPRateLimiterWithClock) =
    zip (arrivals k evs) (budget (rpm (rkRoute k)) (arrivals k evs))"
proof (cases evs)
  case (Cons ev es)
  then have "sorted (event_time ev # map event_time evs)" using assms(1) by auto
  from serve_windowed [OF this, of newIPRateLimiterWithClock k None rpm] assms(2,3)
    windowed_budget [of "rpm (rkRoute k)"] show ?thesis
    by (simp add: tracks_def newIPRateLimiterWithClock_def)
qed simp

section \<open>What the windows promise\<close>

definition admitted :: "(time \<times> bool) list \<Rightarrow> time \<Rightarrow> time \<Rightarrow> nat" where
  "admitted es a b = length (filter (\<lambda>(t, ok). ok \<and> a \<le> t \<and> t < b) es)"

lemma admitted_append: "admitted (xs @ ys) a b = admitted xs a b + admitted ys a b"
  by (simp add: admitted_def)

lemma admitted_none: "(\<And>t ok. (t, ok) \<in> set es \<Longrightarrow> t < a \<or> b \<le> t) \<Longrightarrow> admitted es a b = 0"
  by (force simp: admitted_def filter_empty_conv)

text \<open>The first window and the rest of a list of requests.\<close>

definition first_window :: "time list \<Rightarrow> time list" where
  "first_window ts = (case ts of [] \<Rightarrow> [] | t # us \<Rightarrow> t # takeWhile (\<lambda>u. u < t + rateLimitWindow) us)"

definition later_windows :: "time list \<Rightarrow> time list" where
  "later_windows ts = (case ts of [] \<Rightarrow> [] | t # us \<Rightarrow> dropWhile (\<lambda>u. u < t + rateLimitWindow) us)"

lemma budget_split:
  "ts \<noteq> [] \<Longrightarrow> zip ts (budget rpm ts) =
     zip (first_window ts) (map (\<lambda>i. int i < rpm) [0..<length (first_window ts)]) @
     zip (later_windows ts) (budget rpm (later_windows ts))"
proof (cases ts)
  case (Cons t us)
  have "ts = first_window ts @ later_windows ts"
    by (simp add: Cons first_window_def later_windows_def)
  moreover have "budget rpm ts = map (\<lambda>i. int i < rpm) [0..<length (first_window ts)] @ budget rpm (later_windows ts)"
    by (simp add: Cons first_window_def later_windows_def)
  ultimately show ?thesis by (metis (no_types, lifting) length_map length_upt minus_nat.diff_0 zip_append)
qed simp

lemma first_window_range:
  assumes "sorted (t # us)"
  shows "u \<in> set (first_window (t # us)) \<Longrightarrow> t \<le> u \<and> u < t + rateLimitWindow"
    and "u \<in> set (later_windows (t # us)) \<Longrightarrow> t + rateLimitWindow \<le> u"
proof -
  assume "u \<in> set (first_window (t # us))"
  then show "t \<le> u \<and> u < t + rateLimitWindow"
    using assms windows_shorter by (auto simp: first_window_def dest: set_takeWhileD)
next
  assume u: "u \<in> set (later_windows (t # us))"
  let ?d = "dropWhile (\<lambda>u. u < t + rateLimitWindow) us"
  have "sorted ?d" using assms by (simp add: sorted_dropWhile)
  moreover have "t + rateLimitWindow \<le> hd ?d" if "?d \<noteq> []" using hd_dropWhile [OF that] by simp
  moreover have "u \<in> set ?d" using u by (simp add: later_windows_def)
  ultimately show "t + rateLimitWindow \<le> u" by (cases ?d) auto
qed

lemma sorted_later: "sorted ts \<Longrightarrow> sorted (later_windows ts)"
  by (cases ts) (simp_all add: later_windows_def sorted_dropWhile)

lemma length_later: "ts \<noteq> [] \<Longrightarrow> length (later_windows ts) < length ts"
  by (cases ts) (simp_all add: later_windows_def less_Suc_eq_le length_dropWhile_le)

lemma admitted_window: "admitted (zip ts (map (\<lambda>i. int i < rpm) [0..<length ts])) a b \<le> nat rpm"
proof -
  have "admitted (zip ts (map (\<lambda>i. int i < rpm) [0..<length ts])) a b \<le>
    length (filter (\<lambda>(t, ok). ok) (zip ts (map (\<lambda>i. int i < rpm) [0..<length ts])))"
    unfolding admitted_def by (induction ts rule: rev_induct) (auto simp: zip_append1)
  also have "\<dots> = length (filter (\<lambda>i. int i < rpm) [0..<length ts])"
    by (induction ts rule: rev_induct) simp_all
  also have "\<dots> = card {i. i < length ts \<and> int i < rpm}"
    by (simp add: length_filter_conv_card cong: conj_cong)
  also have "\<dots> \<le> card {..<nat rpm}" by (rule card_mono) auto
  finally show ?thesis by simp
qed

text \<open>No more than \<open>rpm\<close> per minute from the opening of a window on, and \<open>rpm\<close> more in an
  interval that begins inside one.\<close>

lemma admitted_from_opening:
  assumes "sorted ts" "\<And>t. t \<in> set ts \<Longrightarrow> a \<le> t"
  shows "admitted (zip ts (budget rpm ts)) a (a + int n * rateLimitWindow) \<le> n * nat rpm"
  using assms
proof (induction "length ts" arbitrary: ts a n rule: less_induct)
  case less
  show ?case
  proof (cases ts)
    case (Cons t us)
    have a: "a \<le> t" and sd: "sorted (t # us)" using less.prems Cons by auto
    let ?b = "a + int n * rateLimitWindow" and ?l = "later_windows ts"
    show ?thesis
    proof (cases n)
      case 0
      then show ?thesis using less.prems(2) by (auto intro!: admitted_none dest: set_zip_leftD)
    next
      case (Suc m)
      have later: "t + rateLimitWindow \<le> u" if "u \<in> set ?l" for u
        using first_window_range(2) [OF sd] that Cons by simp
      have "admitted (zip ?l (budget rpm ?l)) a ?b =
        admitted (zip ?l (budget rpm ?l)) (a + rateLimitWindow) (a + rateLimitWindow + int m * rateLimitWindow)"
        unfolding admitted_def using later a windows_shorter(2)
        by (intro arg_cong [where f = length] filter_cong) (fastforce simp: Suc algebra_simps dest: set_zip_leftD)+
      also have "\<dots> \<le> m * nat rpm"
      proof (intro less.hyps)
        show "length ?l < length ts" using length_later [of ts] Cons by simp
        show "sorted ?l" by (rule sorted_later [OF less.prems(1)])
        show "a + rateLimitWindow \<le> u" if "u \<in> set ?l" for u using later [OF that] a by linarith
      qed
      finally have "admitted (zip ?l (budget rpm ?l)) a ?b \<le> m * nat rpm" .
      then show ?thesis
        using admitted_window [of "first_window ts" rpm a ?b] budget_split [of ts rpm] Cons
        by (simp add: admitted_append Suc)
    qed
  qed (simp add: admitted_def)
qed

lemma admitted_anywhere:
  "sorted ts \<Longrightarrow> admitted (zip ts (budget rpm ts)) a (a + int n * rateLimitWindow) \<le> (n + 1) * nat rpm"
proof (induction "length ts" arbitrary: ts rule: less_induct)
  case less
  show ?case
  proof (cases ts)
    case (Cons t us)
    have sd: "sorted (t # us)" using less.prems Cons by simp
    let ?b = "a + int n * rateLimitWindow" and ?l = "later_windows ts"
    let ?w = "zip (first_window ts) (map (\<lambda>i. int i < rpm) [0..<length (first_window ts)])"
    have split: "admitted (zip ts (budget rpm ts)) a ?b = admitted ?w a ?b + admitted (zip ?l (budget rpm ?l)) a ?b"
      using budget_split [of ts rpm] Cons by (simp add: admitted_append)
    show ?thesis
    proof (cases "t + rateLimitWindow \<le> a")
      case True
      have "admitted ?w a ?b = 0"
        using first_window_range(1) [OF sd] True Cons
        by (intro admitted_none) (force dest: set_zip_leftD)
      with split less.hyps [OF length_later sorted_later [OF less.prems]] Cons show ?thesis by simp
    next
      case False
      have "admitted (zip ?l (budget rpm ?l)) a ?b \<le> n * nat rpm"
        using first_window_range(2) [OF sd] False Cons
        by (intro admitted_from_opening sorted_later [OF less.prems]) fastforce
      with split admitted_window [of "first_window ts" rpm a ?b] show ?thesis by simp
    qed
  qed (simp add: admitted_def)
qed

text \<open>A refusal has a reason: the budget was spent within the minute before it.\<close>

lemma refused_in_window:
  assumes "int i \<ge> rpm" "i < length ts" "\<And>u. u \<in> set (take i ts) \<Longrightarrow> a \<le> u \<and> u < b"
  shows "nat rpm \<le> admitted (take i (zip ts (map (\<lambda>i. int i < rpm) [0..<length ts]))) a b"
proof -
  let ?es = "take (nat rpm) (zip ts (map (\<lambda>i. int i < rpm) [0..<length ts]))"
  have le: "nat rpm \<le> i" using assms(1) by linarith
  have "ok \<and> a \<le> t \<and> t < b" if "(t, ok) \<in> set ?es" for t ok
  proof -
    from that obtain j where "j < length ?es" "?es ! j = (t, ok)" by (metis in_set_conv_nth)
    moreover from this le assms(2) have "ts ! j \<in> set (take i ts)" by (auto simp: in_set_conv_nth intro!: exI [of _ j])
    ultimately show ?thesis using assms(3) [of "ts ! j"] by auto
  qed
  then have "filter (\<lambda>(t, ok). ok \<and> a \<le> t \<and> t < b) ?es = ?es"
    by (intro filter_True) fastforce
  then have "admitted ?es a b = nat rpm" using le assms(2) by (simp add: admitted_def)
  moreover have "take i xs = take (nat rpm) xs @ drop (nat rpm) (take i xs)" for xs :: "(time \<times> bool) list"
    by (metis append_take_drop_id le min.absorb1 take_take)
  ultimately show ?thesis by (metis admitted_append le_add1)
qed

lemma refused_budget:
  assumes "sorted ts" "i < length ts" "\<not> budget rpm ts ! i"
  shows "nat rpm \<le> admitted (take i (zip ts (budget rpm ts))) (ts ! i - rateLimitWindow + 1) (ts ! i + 1)"
  using assms
proof (induction "length ts" arbitrary: ts i rule: less_induct)
  case less
  then obtain t us where Cons: "ts = t # us" by (cases ts) auto
  have sd: "sorted (t # us)" using less.prems Cons by simp
  let ?f = "first_window ts" and ?l = "later_windows ts"
  let ?w = "zip ?f (map (\<lambda>i. int i < rpm) [0..<length ?f])"
  have ts: "ts = ?f @ ?l" by (simp add: Cons first_window_def later_windows_def)
  have b: "budget rpm ts = map (\<lambda>i. int i < rpm) [0..<length ?f] @ budget rpm ?l"
    by (simp add: Cons first_window_def later_windows_def)
  have z: "zip ts (budget rpm ts) = ?w @ zip ?l (budget rpm ?l)" using Cons by (intro budget_split) simp
  show ?case
  proof (cases "i < length ?f")
    case True
    have nth: "ts ! i = ?f ! i" using True ts by (metis nth_append)
    have "ts ! i - rateLimitWindow + 1 \<le> u \<and> u < ts ! i + 1" if u: "u \<in> set (take i ?f)" for u
    proof -
      have "sorted ?f" using less.prems(1) ts by (metis sorted_append)
      moreover obtain j where "j < i" "u = ?f ! j" using u by (auto simp: in_set_conv_nth)
      ultimately have "u \<le> ?f ! i" using True by (simp add: sorted_nth_mono)
      moreover have "t \<le> u" "?f ! i < t + rateLimitWindow"
        using first_window_range(1) [OF sd] True u Cons by (auto dest: in_set_takeD)
      ultimately show ?thesis using nth by simp
    qed
    moreover have "int i \<ge> rpm" using less.prems(3) b True by (simp add: nth_append)
    ultimately show ?thesis using refused_in_window [of rpm i ?f] True by (simp add: z)
  next
    case False
    let ?i = "i - length ?f"
    have nth: "ts ! i = ?l ! ?i" using False ts by (metis nth_append)
    have "nat rpm \<le> admitted (take ?i (zip ?l (budget rpm ?l))) (?l ! ?i - rateLimitWindow + 1) (?l ! ?i + 1)"
    proof (rule less.hyps)
      show "length ?l < length ts" using length_later [of ts] Cons by simp
      show "sorted ?l" by (rule sorted_later [OF less.prems(1)])
      show "?i < length ?l" using less.prems(2) False ts by (metis length_append less_diff_conv2 linorder_not_less add.commute)
      show "\<not> budget rpm ?l ! ?i" using less.prems(3) b False by (simp add: nth_append)
    qed
    then show ?thesis using False by (simp add: z nth admitted_append)
  qed
qed

lemma sorted_arrivals: "sorted (map event_time evs) \<Longrightarrow> sorted (arrivals k evs)"
proof (induction evs)
  case (Cons ev evs)
  have "set (arrivals k evs) \<subseteq> set (map event_time evs)" for evs
    by (induction k evs rule: arrivals.induct) auto
  with Cons show ?case by (cases ev) auto
qed simp

text \<open>Whatever requests of other routes and clients come in between, and wherever the sweeps
  of the background task fall, the requests of one client on one route are let through exactly
  as if they were cut into windows and the first \<open>rpm\<close> of every window admitted: forgetting an
  idle counter never changes an answer. The clock must not run backwards between requests.\<close>

lemma limiter_windows:
  assumes "sorted (map event_time evs)" "1 \<le> rpm (rkRoute k)" "in64 (rpm (rkRoute k))"
  shows "of_key k (serve rpm evs newIPRateLimiterWithClock) =
    zip (arrivals k evs) (budget (rpm (rkRoute k)) (arrivals k evs))"
  using assms by (rule serve_from_start)

text \<open>C27. The budget. A client is let through on a route at most \<open>(n + 1) \<cdot> rpm\<close> times in any \<open>n\<close>
  minutes (so at most twice the budget in a single minute, and hardly more than the budget per
  minute in the long run), and a request is refused only when \<open>rpm\<close> requests of the same
  client on the same route were let through within the minute before it.\<close>

theorem rate_budget:
  fixes k :: rateLimitKey
  assumes "sorted (map event_time evs)" "1 \<le> rpm (rkRoute k)" "in64 (rpm (rkRoute k))"
  defines "es \<equiv> of_key k (serve rpm evs newIPRateLimiterWithClock)"
  shows "admitted es a (a + int n * rateLimitWindow) \<le> (n + 1) * nat (rpm (rkRoute k)) \<and>
    (\<forall>i < length es. \<not> snd (es ! i) \<longrightarrow>
       nat (rpm (rkRoute k)) \<le>
         admitted (take i es) (fst (es ! i) - rateLimitWindow + 1) (fst (es ! i) + 1))"
proof -
  have es: "es = zip (arrivals k evs) (budget (rpm (rkRoute k)) (arrivals k evs))"
    unfolding es_def using assms(1-3) by (rule serve_from_start)
  note sorted = sorted_arrivals [OF assms(1), of k]
  show ?thesis using admitted_anywhere [OF sorted] refused_budget [OF sorted] by (simp add: es)
qed

section \<open>A short history\<close>

text \<open>Two requests a minute: the third is refused, and after the minute, or a long pause with a
  sweep in it, requests pass again.\<close>

definition demo_history :: "limiter_event list" where
  "demo_history = [Arrival ''r'' ''a'' 0, Arrival ''r'' ''a'' second, Arrival ''r'' ''b'' second,
     Arrival ''r'' ''a'' (59 * second), Arrival ''r'' ''a'' minute, Sweep (12 * minute),
     Arrival ''r'' ''a'' (12 * minute)]"

definition demo_client :: rateLimitKey where "demo_client = \<lparr>rkRoute = ''r'', rkIP = ''a''\<rparr>"

lemma demo_history_facts:
  "sorted (map event_time demo_history)"
  "arrivals demo_client demo_history = [0, second, 59 * second, minute, 12 * minute]"
  "budget 2 [0, second, 59 * second, minute, 12 * minute] = [True, True, False, True, True]"
  by code_simp+

lemma limiter_windows_witness:
  "map snd (of_key demo_client (serve (\<lambda>_. 2) demo_history newIPRateLimiterWithClock)) =
     [True, True, False, True, True]"
  using limiter_windows [of demo_history "\<lambda>_. 2" demo_client]
  by (simp add: demo_history_facts in64_def del: budget.simps)

lemma rate_budget_witness:
  "admitted (of_key demo_client (serve (\<lambda>_. 2) demo_history newIPRateLimiterWithClock)) 0 (0 + int 1 * rateLimitWindow) \<le> 4"
  using rate_budget [of demo_history "\<lambda>_. 2" demo_client 0 1]
  by (simp add: demo_history_facts in64_def del: budget.simps)

end
