(* ===== verification/Routes.thy ===== *)
theory Routes
  imports Api_Handlers Rate_Limit Csv
begin

text \<open>
  The routes of the server (\<^verbatim>\<open>internal/routes/routes.go\<close>) and the middleware around the handlers
  (\<^verbatim>\<open>internal/middleware\<close>): request identifiers, the cap of a body, the rate limit, the bearer
  check and the recovery of a panic, in the order \<^verbatim>\<open>cmd/server\<close> and \<open>Register\<close> chain them. A
  request comes with its method, the segments of its path and the bytes of its body; \<open>appDecode\<close> is
  the JSON decoder, which reads the first value of a stream of bytes. The log record of a request is left
  out.
\<close>

section \<open>Requests and the server\<close>

record http_request =
  hqMethod :: string
  hqPath :: "string list"
  hqQuery :: query
  hqHeader :: "string \<Rightarrow> string"
  hqClientIP :: string
  hqBody :: byte_stream

record application =
  appExternals :: externals
  appConfig :: config
  appBuild :: build_info
  appDecode :: "byte_stream \<Rightarrow> json option"

record server_state =
  ssAuth :: auth_world
  ssLimiter :: ipRateLimiter

text \<open>A handler may panic, and a submission leaves a job running.\<close>

type_synonym handled = "http_response call \<times> job option"

section \<open>Middleware\<close>

definition RequestIDHeader :: string where "RequestIDHeader = ''X-Request-ID''"

definition RequestID :: "externals \<Rightarrow> http_request \<Rightarrow> auth_world \<Rightarrow> string \<times> auth_world" where
  "RequestID ex rq s =
     (case exUUIDParse ex (hqHeader rq RequestIDHeader) of
        Inr i \<Rightarrow> (exUUIDString ex i, s)
      | Inl _ \<Rightarrow> (let (i, s') = on_db uuid_New s in (exUUIDString ex i, s')))"

text \<open>\<^verbatim>\<open>http.MaxBytesReader\<close>: the bytes up to the limit, then an error.\<close>

definition MaxBytesError :: err where
  [err_const]: "MaxBytesError = Plain ''http: request body too large''"

definition RequestBodyLimit :: "nat \<Rightarrow> byte_stream \<Rightarrow> byte_stream" where
  "RequestBodyLimit maxBytes b =
     (if length (bsRest b) \<le> maxBytes then b
      else \<lparr>bsRest = take maxBytes (bsRest b), bsEnd = MaxBytesError\<rparr>)"

definition rateLimitWithLimiter ::
  "string \<Rightarrow> goint \<Rightarrow> string \<Rightarrow> time \<Rightarrow> ipRateLimiter \<Rightarrow> http_response option \<times> ipRateLimiter" where
  "rateLimitWithLimiter route rpm ip now l =
     (let (ok, l') = allow route ip rpm now l
      in (if ok then None else Some (error_response 429 errRateLimitExceeded), l'))"

text \<open>\<^verbatim>\<open>gin.Recovery\<close>: the status without a body.\<close>

primrec Recovery :: "http_response call \<Rightarrow> http_response" where
  "Recovery (Panic p) = (500, None)"
| "Recovery (Return r) = r"

section \<open>The route table\<close>

definition routeAuthSession :: string where "routeAuthSession = ''/api/v1/auth/session''"
definition routeAuthRefresh :: string where "routeAuthRefresh = ''/api/v1/auth/refresh''"
definition routeAuthLogout :: string where "routeAuthLogout = ''/api/v1/auth/logout''"
definition bodyCapSession :: nat where "bodyCapSession = 8 * 1024"
definition bodyCapRefreshLogout :: nat where "bodyCapRefreshLogout = 512"
definition rpmSession :: goint where "rpmSession = 10"
definition rpmRefresh :: goint where "rpmRefresh = 60"
definition rpmLogout :: goint where "rpmLogout = 30"

datatype tenant_endpoint =
    StrategiesList
  | StrategiesGet string
  | BacktestsList
  | BacktestsSubmit
  | BacktestsGet string
  | BacktestsTrades string

datatype endpoint =
    HealthLive
  | HealthReady
  | HealthVersion
  | AuthSession
  | AuthRefresh
  | AuthLogout
  | ConfigApp
  | Tenant tenant_endpoint

text \<open>A pattern is a list of segments; one that begins with a colon stands for any segment that is
  not empty, and its value is the parameter.\<close>

fun match_path :: "string list \<Rightarrow> string list \<Rightarrow> string list option" where
  "match_path [] [] = Some []"
| "match_path (p # ps) (s # ss) =
     (if HasPrefix p '':'' then (if s = [] then None else map_option ((#) s) (match_path ps ss))
      else if p = s then match_path ps ss else None)"
| "match_path _ _ = None"

definition route_table :: "(string \<times> string list \<times> (string list \<Rightarrow> endpoint)) list" where
  "route_table =
     [(''GET'', [''health''], \<lambda>_. HealthLive),
      (''GET'', [''ready''], \<lambda>_. HealthReady),
      (''GET'', [''version''], \<lambda>_. HealthVersion),
      (''POST'', [''api'', ''v1'', ''auth'', ''session''], \<lambda>_. AuthSession),
      (''POST'', [''api'', ''v1'', ''auth'', ''refresh''], \<lambda>_. AuthRefresh),
      (''POST'', [''api'', ''v1'', ''auth'', ''logout''], \<lambda>_. AuthLogout),
      (''GET'', [''api'', ''v1'', ''config'', ''app''], \<lambda>_. ConfigApp),
      (''GET'', [''api'', ''v1'', ''strategies''], \<lambda>_. Tenant StrategiesList),
      (''GET'', [''api'', ''v1'', ''strategies'', '':id''], \<lambda>ps. Tenant (StrategiesGet (hd ps))),
      (''GET'', [''api'', ''v1'', ''backtests''], \<lambda>_. Tenant BacktestsList),
      (''POST'', [''api'', ''v1'', ''backtests''], \<lambda>_. Tenant BacktestsSubmit),
      (''GET'', [''api'', ''v1'', ''backtests'', '':id''], \<lambda>ps. Tenant (BacktestsGet (hd ps))),
      (''GET'', [''api'', ''v1'', ''backtests'', '':id'', ''trades''], \<lambda>ps. Tenant (BacktestsTrades (hd ps)))]"

fun lookup_route ::
  "(string \<times> string list \<times> (string list \<Rightarrow> endpoint)) list \<Rightarrow> string \<Rightarrow> string list \<Rightarrow> endpoint option" where
  "lookup_route [] m path = None"
| "lookup_route ((m', pat, mk) # rest) m path =
     (case (if m = m' then match_path pat path else None) of
        Some ps \<Rightarrow> Some (mk ps)
      | None \<Rightarrow> lookup_route rest m path)"

section \<open>Endpoints behind their middleware\<close>

definition app_limits :: "config \<Rightarrow> backtest_limits" where
  "app_limits cfg = \<lparr>BacktestsEnabled = cfgBacktestEnabled cfg, MaxDays = BacktestMaxDays cfg,
     MaxCandles = BacktestMaxCandles cfg\<rparr>"

definition app_auth :: "application \<Rightarrow> auth_world auth_service" where
  "app_auth app = the_auth (appExternals app) (appConfig app)"

definition plain_handler :: "(db \<Rightarrow> http_response \<times> db) \<Rightarrow> auth_world \<Rightarrow> handled \<times> auth_world" where
  "plain_handler h s = (let (r, s') = on_db h s in ((Return r, None), s'))"

definition tenant_handler ::
  "application \<Rightarrow> tenant_endpoint \<Rightarrow> http_request \<Rightarrow> uuid \<Rightarrow> auth_world \<Rightarrow> handled \<times> auth_world" where
  "tenant_handler app ep rq u =
     (let ut = exUUIDString (appExternals app);
          parse = exUUIDParse (appExternals app);
          sv = the_service (app_limits (appConfig app))
      in case ep of
           StrategiesList \<Rightarrow> plain_handler (StrategyHandler_List ut u)
         | StrategiesGet slug \<Rightarrow> plain_handler (StrategyHandler_GetByID ut u slug)
         | BacktestsList \<Rightarrow> plain_handler (BacktestHandler_List ut sv u (hqQuery rq))
         | BacktestsSubmit \<Rightarrow>
             (\<lambda>s. let ((r, j), s') = on_db (BacktestHandler_Submit ut sv u (appDecode app (hqBody rq))) s
                  in ((Return r, j), s'))
         | BacktestsGet i \<Rightarrow> plain_handler (BacktestHandler_GetByID ut parse sv u i)
         | BacktestsTrades i \<Rightarrow>
             (\<lambda>s. let (r, s') = on_db (BacktestHandler_GetTrades parse sv u i (hqQuery rq)) s
                  in ((r, None), s')))"

text \<open>\<^verbatim>\<open>middleware.Auth\<close> and \<^verbatim>\<open>RequireUserIdentity\<close> before a tenant handler.\<close>

definition guarded ::
  "application \<Rightarrow> http_request \<Rightarrow> (uuid \<Rightarrow> auth_world \<Rightarrow> handled \<times> auth_world) \<Rightarrow> auth_world \<Rightarrow>
     handled \<times> auth_world" where
  "guarded app rq h s =
     (case tenant_identity (app_auth app) (hqHeader rq ''Authorization'') s of
        Inl r \<Rightarrow> ((Return r, None), s)
      | Inr u \<Rightarrow> h u s)"

text \<open>The cap of the body and the rate limit before an authentication handler.\<close>

definition limited ::
  "application \<Rightarrow> nat \<Rightarrow> string \<Rightarrow> goint \<Rightarrow> (json option \<Rightarrow> auth_world \<Rightarrow> http_response \<times> auth_world) \<Rightarrow>
     http_request \<Rightarrow> server_state \<Rightarrow> handled \<times> server_state" where
  "limited app maxBytes route rpm h rq ss =
     (let body = RequestBodyLimit maxBytes (hqBody rq)
      in case rateLimitWithLimiter route rpm (hqClientIP rq) (awClock (ssAuth ss)) (ssLimiter ss) of
           (Some r, l) \<Rightarrow> ((Return r, None), ss\<lparr>ssLimiter := l\<rparr>)
         | (None, l) \<Rightarrow>
             (let (r, s) = h (appDecode app body) (ssAuth ss)
              in ((Return r, None), ss\<lparr>ssAuth := s, ssLimiter := l\<rparr>)))"

definition on_auth :: "(auth_world \<Rightarrow> 'a \<times> auth_world) \<Rightarrow> server_state \<Rightarrow> 'a \<times> server_state" where
  "on_auth f ss = (let (r, s) = f (ssAuth ss) in (r, ss\<lparr>ssAuth := s\<rparr>))"

definition serve_endpoint ::
  "application \<Rightarrow> endpoint \<Rightarrow> http_request \<Rightarrow> server_state \<Rightarrow> handled \<times> server_state" where
  "serve_endpoint app ep rq =
     (case ep of
        HealthLive \<Rightarrow> (\<lambda>ss. ((Return HealthHandler_Live, None), ss))
      | HealthReady \<Rightarrow> on_auth (plain_handler (HealthHandler_Ready (Env (appConfig app))))
      | HealthVersion \<Rightarrow> on_auth (plain_handler (HealthHandler_Version (appBuild app) (Env (appConfig app))))
      | AuthSession \<Rightarrow> limited app bodyCapSession routeAuthSession rpmSession (Session (app_auth app)) rq
      | AuthRefresh \<Rightarrow> limited app bodyCapRefreshLogout routeAuthRefresh rpmRefresh (Refresh (app_auth app)) rq
      | AuthLogout \<Rightarrow> limited app bodyCapRefreshLogout routeAuthLogout rpmLogout (Logout_endpoint (app_auth app)) rq
      | ConfigApp \<Rightarrow> (\<lambda>ss. ((Return AppConfig, None), ss))
      | Tenant t \<Rightarrow> on_auth (guarded app rq (tenant_handler app t rq)))"

record http_reply =
  rpResponse :: http_response
  rpRequestID :: string
  rpJob :: "job option"

text \<open>A path that is not registered is a 404, behind the same middleware.\<close>

definition handle_request :: "application \<Rightarrow> http_request \<Rightarrow> server_state \<Rightarrow> http_reply \<times> server_state" where
  "handle_request app rq ss0 =
     (let (rid, ss) = on_auth (RequestID (appExternals app) rq) ss0;
          (h, ss') = (case lookup_route route_table (hqMethod rq) (hqPath rq) of
                        None \<Rightarrow> ((Return (404, None), None), ss)
                      | Some ep \<Rightarrow> serve_endpoint app ep rq ss)
      in (\<lparr>rpResponse = Recovery (fst h), rpRequestID = rid, rpJob = snd h\<rparr>, ss'))"

end
