(* ===== verification/Api_Properties.thy ===== *)
theory Api_Properties
  imports Api_Handlers Backtest_Flow
begin

text \<open>
  What the endpoints promise: pages of trades, the requests the backtest service gets to see,
  readiness, and that a tenant cannot learn anything of another tenant's runs.
\<close>

section \<open>Pages\<close>

text \<open>The page asked for, without machine arithmetic.\<close>

definition page_at :: "'a list \<Rightarrow> nat \<Rightarrow> nat \<Rightarrow> 'a list" where
  "page_at xs p n = take n (drop ((p - 1) * n) xs)"

lemma concat_page_at: "length xs \<le> k * n \<Longrightarrow> concat (map (\<lambda>p. page_at xs p n) [1..<Suc k]) = xs"
proof -
  have "concat (map (\<lambda>p. page_at xs p n) [1..<Suc k]) = take (k * n) xs" for k
  proof (induction k)
    case (Suc k)
    have "concat (map (\<lambda>p. page_at xs p n) [1..<Suc (Suc k)]) = take (k * n) xs @ page_at xs (Suc k) n"
      using Suc by simp
    then show ?case by (simp add: page_at_def take_add add.commute [of n])
  qed simp
  then show "length xs \<le> k * n \<Longrightarrow> ?thesis" by simp
qed

lemma trades_slice_page:
  assumes "1 \<le> page" "1 \<le> limit" "limit \<le> maxTradesLimit" "(page - 1) * limit < 2 ^ 63"
    and "length xs < 2 ^ 62"
  shows "trades_slice xs page limit = Return (page_at xs (nat page) (nat limit))"
proof -
  have l: "limit \<le> 200" using assms(3) by (simp add: maxTradesLimit_def)
  define s where "s = (page - 1) * limit"
  have s0: "0 \<le> s" using assms(1,2) by (simp add: s_def)
  have "(page - 1) * 1 \<le> s" unfolding s_def using assms(1,2) by (intro mult_left_mono) simp_all
  then have "in64 (page - 1)" using assms(1,4) by (simp add: in64_def s_def)
  then have start: "wrap64 (wrap64 (page - 1) * limit) = s"
    using s0 assms(4) by (simp add: s_def in64_def)
  have n: "(nat page - 1) * nat limit = nat s"
    using assms(1,2) by (simp add: s_def nat_mult_distrib nat_diff_distrib)
  show ?thesis
  proof (cases "s \<ge> int (length xs)")
    case True
    then show ?thesis using n by (simp add: trades_slice_def Let_def start page_at_def)
  next
    case False
    then have "wrap64 (s + limit) = s + limit" using s0 assms(2,5) l by (simp add: in64_def)
    moreover have "nat (s + limit) = nat s + nat limit" using s0 assms(2) by (simp add: nat_add_distrib)
    moreover have "take (nat limit) (drop (nat s) xs) = drop (nat s) xs" if "int (length xs) < s + limit"
      using that s0 assms(2) by simp
    ultimately show ?thesis using False s0 assms(2) n
      by (auto simp: trades_slice_def Let_def start page_at_def nat_diff_distrib min_def)
  qed
qed

text \<open>The pages of trades. As long as the product \<^verbatim>\<open>(page-1)*limit\<close> fits in 64 bits, a page holds
  exactly the trades of its range (an empty list past the end), and the pages together hold
  every trade once, in order.\<close>

lemma trades_pages:
  assumes "1 \<le> limit" "limit \<le> maxTradesLimit" "length xs < 2 ^ 62"
  shows "(1 \<le> page \<and> (page - 1) * limit < 2 ^ 63 \<longrightarrow>
      trades_slice xs page limit = Return (page_at xs (nat page) (nat limit))) \<and>
    (length xs \<le> k * nat limit \<longrightarrow> concat (map (\<lambda>p. page_at xs p (nat limit)) [1..<Suc k]) = xs)"
  using assms trades_slice_page concat_page_at by blast

lemma digit_chars:
  "digit CHR ''0'' = Some 0" "digit CHR ''1'' = Some 1" "digit CHR ''2'' = Some 2" "digit CHR ''3'' = Some 3"
  "digit CHR ''4'' = Some 4" "digit CHR ''5'' = Some 5" "digit CHR ''6'' = Some 6" "digit CHR ''7'' = Some 7"
  "digit CHR ''8'' = Some 8" "digit CHR ''9'' = Some 9"
  by code_simp+

text \<open>C40. A page number is not bounded: past 64 bits the product wraps around. For page
  4611686018427387905 and two trades a page the slice begins below zero, so the request for the
  trades of any completed run that has one panics; with four a page the first page is returned
  under that number.\<close>

theorem far_page_panics:
  assumes "BacktestService_GetByIDWithTrades sv i u w = (Inr run, w')" "parse param = Inr i"
    and "bStatus run = BacktestCompleted" "bTrades run \<noteq> []" "length (bTrades run) < 2 ^ 62"
    and "q ''page'' = ''4611686018427387905''"
  shows "(q ''limit'' = ''2'' \<longrightarrow> (\<exists>p. BacktestHandler_GetTrades parse sv u param q w = (Panic p, w'))) \<and>
    (q ''limit'' = ''4'' \<longrightarrow> BacktestHandler_GetTrades parse sv u param q w =
       (Return (200, marshal_struct
          [(''trades'', marshal_list (map trade_response (take 4 (bTrades run)))),
           (''total'', marshal_int (int (length (bTrades run)))),
           (''page'', marshal_int 4611686018427387905), (''limit'', marshal_int 4)]), w'))"
proof -
  have page: "Atoi ''4611686018427387905'' = Some 4611686018427387905"
    by (simp add: Atoi_def split_sign_def natural_def digit_chars in64_def)
  have lim: "Atoi ''2'' = Some 2" "Atoi ''4'' = Some 4"
    by (simp_all add: Atoi_def split_sign_def natural_def digit_chars in64_def)
  have p: "fst (parseTradesPagination q) = 4611686018427387905"
    using assms(6) by (simp add: parseTradesPagination_def parsePagination_def page)
  have w: "wrap64 (4611686018427387905 - 1) = 4611686018427387904"
    "wrap64 (4611686018427387904 * 2) = - 9223372036854775808"
    "wrap64 (- 9223372036854775808 + 2) = - 9223372036854775806"
    "wrap64 (4611686018427387904 * 4) = 0" "wrap64 4 = 4"
    by (simp_all add: wrap64_def)
  have len: "0 < length (bTrades run)" using assms(4) by simp
  have "\<exists>p. BacktestHandler_GetTrades parse sv u param q w = (Panic p, w')" if "q ''limit'' = ''2''"
  proof -
    have "snd (parseTradesPagination q) = 2"
      using that by (simp add: parseTradesPagination_def parsePagination_def lim maxTradesLimit_def)
    with p have pl: "parseTradesPagination q = (4611686018427387905, 2)" by (metis prod.collapse)
    have "trades_slice (bTrades run) 4611686018427387905 2 = Panic ''runtime error: slice bounds out of range''"
      unfolding trades_slice_def Let_def w using len by simp
    then show ?thesis
      using assms(1-3) by (simp add: BacktestHandler_GetTrades_def pl toBacktestTradesPageResponse_def)
  qed
  moreover have "toBacktestTradesPageResponse (bTrades run) 4611686018427387905 4 = Return (marshal_struct
      [(''trades'', marshal_list (map trade_response (take 4 (bTrades run)))),
       (''total'', marshal_int (int (length (bTrades run)))),
       (''page'', marshal_int 4611686018427387905), (''limit'', marshal_int 4)])"
    unfolding toBacktestTradesPageResponse_def trades_slice_def Let_def w using len
    by (auto simp: w min_def)
  moreover have "parseTradesPagination q = (4611686018427387905, 4)" if "q ''limit'' = ''4''"
  proof -
    have "snd (parseTradesPagination q) = 4"
      using that by (simp add: parseTradesPagination_def parsePagination_def lim maxTradesLimit_def)
    with p show ?thesis by (metis prod.collapse)
  qed
  ultimately show ?thesis
    using assms(1-3) by (simp add: BacktestHandler_GetTrades_def)
qed


section \<open>Submitted requests\<close>

text \<open>What is floored: positive, at most a half above the thousandths, and at least the
  thousandths of a value given with three decimals.\<close>

lemma floored_bounds:
  assumes "wf64 v" "0 \<le> v" "v \<le> 1"
  defines "b \<equiv> v * slippagePctPrecisionScale + slippagePctFloorEpsilon"
  shows "is_fin b" "wf64 b" "0 < xval b" "xval b \<le> 2001 / 2"
    and "0 \<le> k \<Longrightarrow> k \<le> 1000 \<Longrightarrow> v = lit k 1000 \<Longrightarrow> \<lfloor>xval b\<rfloor> = k"
proof -
  have v: "0 \<le> xval v" "xval v \<le> 1" "\<not> is_nan v" using assms(1-3) by (simp_all add: f64_le_iff)
  then have vf: "is_fin v" by (intro fin_if_bounded) simp_all
  have sc: "xval (lit 1000 1) = 1000" "is_fin (lit 1000 1)" "wf64 (lit 1000 1)"
    using rd_of_int [of 1000] by (simp_all add: xval_lit fin_if_bounded)
  define a where "a = v * lit 1000 1"
  have a: "xval a = rd (xval v * 1000)" "\<not> is_nan a" "wf64 a"
    unfolding a_def using times_fin [OF vf sc(2) assms(1) sc(3)] sc(1,3) assms(1) by (simp_all add: wf64_times)
  have a01: "0 \<le> xval a" "xval a \<le> 1000"
    using v rd_mono [of "xval v * 1000" 1000] rd_of_int [of 1000] by (simp_all add: a(1) rd_nonneg)
  then have af: "is_fin a" using a(2) by (intro fin_if_bounded) simp_all
  define e where "e = lit 1 (10 ^ 9)"
  have ev: "xval e = rd (1 / 10 ^ 9)" by (simp add: e_def xval_lit)
  have "rd (1 * 2 powi (- 30)) \<le> xval e" unfolding ev by (intro rd_mono) (simp add: power_int_minus)
  then have e1: "1 / 2 ^ 30 \<le> xval e"
    using rd_exact [of 1 "- 30"] by (simp add: emin_def emax_def power_int_minus field_simps)
  have "xval e \<le> rd (1 * 2 powi (- 2))" unfolding ev by (intro rd_mono) (simp add: power_int_minus)
  then have e2': "xval e \<le> 1 / 4"
    using rd_exact [of 1 "- 2"] by (simp add: emin_def emax_def power_int_minus)
  then have e2: "xval e \<le> 1 / 2" by simp
  have ef: "is_fin e" using e1 e2 by (intro fin_if_bounded) (simp_all add: e_def)
  have b: "b = a + e" by (simp add: b_def a_def e_def slippagePctPrecisionScale_def slippagePctFloorEpsilon_def)
  have bv: "xval b = rd (xval a + xval e)" "\<not> is_nan b" using plus_fin [OF af ef] by (simp_all add: b)
  have half: "rd (of_int j + 1 / 2) = of_int j + 1 / 2" if "0 \<le> j" "j \<le> 1000" for j :: int
    using rd_exact [of "2 * j + 1" "- 1"] that by (simp add: emin_def emax_def power_int_minus field_simps)
  have "rd (1 * 2 powi (- 30)) \<le> xval b"
    unfolding bv using a01(1) e1 by (intro rd_mono) (simp add: power_int_minus)
  then show "0 < xval b"
    using rd_exact [of 1 "- 30"] by (simp add: emin_def emax_def power_int_minus field_simps)
  have "xval b \<le> rd (of_int 1000 + 1 / 2)"
    unfolding bv using a01(2) e2 by (intro rd_mono) simp
  also have "\<dots> = 2001 / 2" by (subst half) simp_all
  finally show le: "xval b \<le> 2001 / 2" .
  show "is_fin b" using \<open>0 < xval b\<close> le bv(2) by (intro fin_if_bounded) simp_all
  show "wf64 b" by (simp add: b)
  show "\<lfloor>xval b\<rfloor> = k" if k: "0 \<le> k" "k \<le> 1000" "v = lit k 1000"
  proof -
    have vk: "xval v = rd (of_int k / 1000)" by (simp add: k(3) xval_lit)
    have kr: "0 \<le> real_of_int k" "real_of_int k \<le> 1000" using k(1,2) by simp_all
    have av: "\<bar>xval v - of_int k / 1000\<bar> \<le> 1 / 2 ^ 52"
      unfolding vk using kr by (intro rd_near) simp_all
    have "\<bar>xval a - xval v * 1000\<bar> \<le> 1 / 2 ^ 43"
      unfolding a(1) using v by (intro rd_near) simp_all
    with av have close: "\<bar>xval a - of_int k\<bar> \<le> 1 / 2 ^ 40"
      unfolding abs_le_iff by (simp add: field_simps)
    have "rd (of_int k) \<le> xval b" unfolding bv using close e1 unfolding abs_le_iff by (intro rd_mono) (simp add: field_simps)
    moreover have "xval b \<le> rd (of_int k + 1 / 2)"
      unfolding bv using close e2' unfolding abs_le_iff by (intro rd_mono) (simp add: field_simps)
    ultimately show ?thesis using rd_of_int [of k] half [OF k(1,2)] k(1,2) by (simp add: floor_eq_iff)
  qed
qed

lemma lit_thousandths:
  assumes "0 \<le> k" "k \<le> 1000"
  shows "wf64 (lit k 1000)" "0 \<le> lit k 1000" "lit k 1000 \<le> 1"
proof -
  have "0 \<le> xval (lit k 1000)" "xval (lit k 1000) \<le> 1"
    using assms rd_mono [of "of_int k / 1000" 1] rd_of_int [of 1]
    by (simp_all add: xval_lit rd_nonneg)
  moreover have "\<not> is_nan (1 :: f64)" by (simp add: one_f64_def)
  ultimately show "wf64 (lit k 1000)" "0 \<le> lit k 1000" "lit k 1000 \<le> 1"
    by (simp_all add: zero_le_iff f64_le_iff)
qed

lemma normalizeSlippagePct_thousandths:
  assumes "wf64 v" "0 \<le> v" "v \<le> 1"
  shows "\<exists>k. 0 \<le> k \<and> k \<le> 1000 \<and> normalizeSlippagePct v = lit k 1000"
    and "0 \<le> k \<Longrightarrow> k \<le> 1000 \<Longrightarrow> v = lit k 1000 \<Longrightarrow> normalizeSlippagePct v = lit k 1000"
proof -
  let ?b = "v * slippagePctPrecisionScale + slippagePctFloorEpsilon"
  note b = floored_bounds(1-4) [OF assms]
  define j where "j = \<lfloor>xval ?b\<rfloor>"
  have j: "0 \<le> j" "j \<le> 1000" using b(3,4) by (simp_all add: j_def floor_le_iff)
  have f: "is_fin (ffloor ?b)" "wf64 (ffloor ?b)" "xval (ffloor ?b) = of_int j"
    using ffloor_correct [of ?b] b by (simp_all add: j_def)
  have "\<not> signbit (ffloor ?b)"
  proof -
    obtain m e where "?b = FNum False m e"
      using b(1,2,3) by (cases ?b) (auto simp: smant_def mult_less_0_iff zero_less_mult_iff split: if_splits)
    then show ?thesis using b(2) by (auto simp: round64_correct(4) pos_imp_zdiv_nonneg_iff)
  qed
  then have eq: "ffloor ?b = f_of_int j"
    using f j is_fin_not_nan [OF f(1)] rd_of_int [of j]
    by (intro f64_eqI) (simp_all add: xval_f_of_int signbit_f_of_int)
  have n: "normalizeSlippagePct v = lit j 1000"
  proof (rule f64_eqI)
    have sc: "xval (lit 1000 1) = 1000" "is_fin (lit 1000 1)" "wf64 (lit 1000 1)"
      using rd_of_int [of 1000] by (simp_all add: xval_lit fin_if_bounded)
    note d = divide_fin [OF f(1) sc(2) f(2) sc(3)]
    show "wf64 (normalizeSlippagePct v)" "wf64 (lit j 1000)"
      using f(2) by (simp_all add: normalizeSlippagePct_def slippagePctPrecisionScale_def wf64_divide)
    show "\<not> is_nan (normalizeSlippagePct v)" "\<not> is_nan (lit j 1000)"
      using d(2) sc by (simp_all add: normalizeSlippagePct_def slippagePctPrecisionScale_def)
    show "xval (normalizeSlippagePct v) = xval (lit j 1000)"
      using d(1) sc f(3) by (simp add: normalizeSlippagePct_def slippagePctPrecisionScale_def xval_lit)
    show "signbit (normalizeSlippagePct v) = signbit (lit j 1000)"
      using signbit_divide [OF f(1) sc(2) f(2) sc(3)] sc(1) j(1) \<open>\<not> signbit (ffloor ?b)\<close>
      by (simp add: normalizeSlippagePct_def slippagePctPrecisionScale_def lit_def round64_correct(4))
  qed
  show "\<exists>k. 0 \<le> k \<and> k \<le> 1000 \<and> normalizeSlippagePct v = lit k 1000" using n j by blast
  show "normalizeSlippagePct v = lit k 1000" if "0 \<le> k" "k \<le> 1000" "v = lit k 1000"
    using n floored_bounds(5) [OF assms that] by (simp add: j_def)
qed

text \<open>The slippage that reaches the engine. A percentage in the range the binding accepts
  becomes the double nearest to a whole number of thousandths, between none and one; a
  percentage given to three decimals is kept as it is, so normalizing again changes nothing.\<close>

lemma normalizeSlippagePct_spec:
  assumes "wf64 v" "0 \<le> v" "v \<le> 1"
  shows "(\<exists>k. 0 \<le> k \<and> k \<le> 1000 \<and> normalizeSlippagePct v = lit k 1000) \<and>
    (\<forall>k. 0 \<le> k \<and> k \<le> 1000 \<and> v = lit k 1000 \<longrightarrow> normalizeSlippagePct v = v) \<and>
    normalizeSlippagePct (normalizeSlippagePct v) = normalizeSlippagePct v"
  using normalizeSlippagePct_thousandths [OF assms] normalizeSlippagePct_thousandths(2) lit_thousandths
  by (metis (no_types, lifting))


text \<open>C7. What the service is asked to run. Whatever body a client sends, the request behind an
  accepted one has between 1 and 50 lots, a capital above zero and at most ten million, a range
  of dates that is not empty and a slippage of whole thousandths between none and one; so of
  the checks of the service the one of the slippage never fails for it.\<close>

theorem submitted_request_checked:
  assumes "bind_submit body = Some r" "service_request r = Inr req"
    and "wf64 (biSlippagePct (bqInputs r))"
  shows "1 \<le> Lots (rqCfg req) \<and> Lots (rqCfg req) \<le> 50 \<and>
    0 < InitialCapital (rqCfg req) \<and> InitialCapital (rqCfg req) \<le> lit 10000000 1 \<and>
    rqFrom req < rqTo req \<and>
    (\<exists>k. 0 \<le> k \<and> k \<le> 1000 \<and> SlippagePct (rqCfg req) = lit k 1000) \<and>
    check_request sv req \<noteq> Inl ErrInvalidSlippagePct"
proof -
  let ?i = "bqInputs r"
  have v: "submit_valid r" using assms(1) by (auto simp: bind_submit_def split: option.splits if_splits)
  have req: "rqFrom req < rqTo req" "rqCfg req = \<lparr>Lots = biLots ?i, InitialCapital = biCapital ?i,
      SlippagePct = normalizeSlippagePct (biSlippagePct ?i)\<rparr>"
    using assms(2) by (auto simp: service_request_def Let_def split: option.splits if_splits)
  obtain k where k: "0 \<le> k" "k \<le> 1000" "SlippagePct (rqCfg req) = lit k 1000"
    using normalizeSlippagePct_thousandths(1) [OF assms(3)] v req(2)
    by (auto simp: submit_valid_def Let_def)
  have "\<not> lit k 1000 < 0" "\<not> 1 < lit k 1000"
    using lit_thousandths [OF k(1,2)] f64_le_not_less by blast+
  then have "check_request sv req \<noteq> Inl ErrInvalidSlippagePct"
    by (auto simp: check_request_def k(3) err_const Let_def split: option.splits)
  with v req k show ?thesis by (auto simp: submit_valid_def Let_def)
qed

text \<open>C3. From the submission to the trades, over HTTP. Once a submission was answered 202, and the
  job it left behind has run without a failure of the database, the owner gets the page asked
  for of exactly the engine's trades (up to the sign of a zero), in the engine's order. As in
  the service, no trade may hold a figure that JSON cannot.\<close>

theorem submitted_trades_served:
  assumes "BacktestHandler_Submit ut (the_service limits) u body w = (((202, b), Some j), w\<^sub>1)"
    and "run_row w\<^sub>2 (bID (jRun j)) = Some x" "erUserID x = Some u" "db_faults w\<^sub>2 = []"
    and "\<And>r. RunBacktest Compute (jStrategy j) (jInputs j) (jCfg j) = Inr r \<Longrightarrow>
           list_all writable_trade (rTrades r) \<and> length (rTrades r) < 2 ^ 31"
    and "parse param = Inr (bID (jRun j))" "parseTradesPagination q = (page, limit)"
    and "(page - 1) * limit < 2 ^ 63"
  shows "\<exists>r. RunBacktest Compute (jStrategy j) (jInputs j) (jCfg j) = Inr r \<and>
    fst (BacktestHandler_GetTrades parse (the_service limits) u param q
           (executeRun (the_service limits) j w\<^sub>2)) =
      Return (200, marshal_struct
        [(''trades'', marshal_list (map trade_response
            (page_at (map stored_trade (rTrades r)) (nat page) (nat limit)))),
         (''total'', marshal_int (int (length (rTrades r)))),
         (''page'', marshal_int page), (''limit'', marshal_int limit)])"
proof -
  obtain req run where sub: "Submit (the_service limits) u req w = (Inr (run, j), w\<^sub>1)"
    using assms(1)
    by (auto simp: BacktestHandler_Submit_def submit_error_def error_response_def
        split: option.splits sum.splits prod.splits if_splits)
  then have run: "jRun j = run" using accepted_job by blast
  obtain r run' where r: "RunBacktest Compute (jStrategy j) (jInputs j) (jCfg j) = Inr r"
    "fst (BacktestService_GetByIDWithTrades (the_service limits) (bID run) u
       (executeRun (the_service limits) j w\<^sub>2)) = Inr run'"
    "bStatus run' = BacktestCompleted" "bTrades run' = map stored_trade (rTrades r)"
    using accepted_run_completes [OF sub assms(2) [unfolded run] assms(3,4,5)] by blast
  have lim: "1 \<le> limit" "limit \<le> maxTradesLimit" "1 \<le> page"
    using assms(7) by (auto simp: parseTradesPagination_def parsePagination_def defaultTradesLimit_def
        maxTradesLimit_def defaultTradesPage_def split: option.splits if_splits)
  have "length (bTrades run') < 2 ^ 62" using assms(5) [OF r(1)] by (simp add: r(4))
  note page = trades_slice_page [OF lim(3,1,2) assms(8) this]
  show ?thesis
    using r assms(6,7) page
    by (auto simp: BacktestHandler_GetTrades_def toBacktestTradesPageResponse_def run split: prod.splits)
qed

section \<open>Tenants\<close>

text \<open>A computation is blind to what a relation of states leaves open if related states give it
  the same result and stay related; blindness composes.\<close>

definition blind :: "('w \<Rightarrow> 'w \<Rightarrow> bool) \<Rightarrow> ('w \<Rightarrow> 'a \<times> 'w) \<Rightarrow> bool" where
  "blind R f \<longleftrightarrow> (\<forall>w w'. R w w' \<longrightarrow> fst (f w) = fst (f w') \<and> R (snd (f w)) (snd (f w')))"

lemma blind_return: "blind R (\<lambda>w. (x, w))"
  by (simp add: blind_def)

lemma blind_bind:
  assumes "blind R f" "\<And>x. blind R (g x)" shows "blind R (\<lambda>w. case f w of (x, w') \<Rightarrow> g x w')"
  using assms unfolding blind_def by (simp add: case_prod_unfold)

lemma blind_sum:
  assumes "blind R f" "\<And>e. blind R (g e)" "\<And>x. blind R (h x)"
  shows "blind R (\<lambda>w. case f w of (Inl e, w') \<Rightarrow> g e w' | (Inr x, w') \<Rightarrow> h x w')"
proof -
  have "blind R (\<lambda>w. case f w of (r, w') \<Rightarrow> (case r of Inl e \<Rightarrow> g e | Inr x \<Rightarrow> h x) w')"
    using assms by (intro blind_bind) (auto split: sum.splits)
  moreover have "(\<lambda>w. case f w of (r, w') \<Rightarrow> (case r of Inl e \<Rightarrow> g e | Inr x \<Rightarrow> h x) w') =
      (\<lambda>w. case f w of (Inl e, w') \<Rightarrow> g e w' | (Inr x, w') \<Rightarrow> h x w')"
    by (auto simp: fun_eq_iff split: prod.splits sum.splits)
  ultimately show ?thesis by simp
qed

lemma blind_if: "blind R f \<Longrightarrow> blind R g \<Longrightarrow> blind R (\<lambda>w. if b then f w else g w)"
  by (cases b) simp_all

lemma blind_option:
  "blind R f \<Longrightarrow> (\<And>x. blind R (g x)) \<Longrightarrow> blind R (\<lambda>w. case o' of None \<Rightarrow> f w | Some x \<Rightarrow> g x w)"
  by (cases o') simp_all

lemma blind_either:
  "(\<And>e. blind R (f e)) \<Longrightarrow> (\<And>x. blind R (g x)) \<Longrightarrow>
   blind R (\<lambda>w. case s of Inl e \<Rightarrow> f e w | Inr x \<Rightarrow> g x w)"
  by (cases s) simp_all

lemma blind_pair: "(\<And>x y. blind R (g x y)) \<Longrightarrow> blind R (\<lambda>w. case p of (x, y) \<Rightarrow> g x y w)"
  by (cases p) simp

lemma blind_call:
  "(\<And>p. blind R (f p)) \<Longrightarrow> (\<And>x. blind R (g x)) \<Longrightarrow>
   blind R (\<lambda>w. case c of Panic p \<Rightarrow> f p w | Return x \<Rightarrow> g x w)"
  by (cases c) simp_all

lemmas blind_intros =
  blind_return blind_sum blind_if blind_option blind_either blind_pair blind_call

text \<open>Two databases a user cannot tell apart: the same runs of the user and the same tables
  without an owner, the same identifiers and failures to come.\<close>

definition same_view :: "uuid \<Rightarrow> db \<Rightarrow> db \<Rightarrow> bool" where
  "same_view u w w' \<longleftrightarrow>
     visible u w = visible u w' \<and> db_candles w = db_candles w' \<and> db_identity w = db_identity w' \<and>
     db_migrations w = db_migrations w' \<and> db_next w = db_next w' \<and> db_faults w = db_faults w'"

lemma blind_read:
  assumes "\<And>w w'. same_view u w w' \<Longrightarrow> g w = g w'"
  shows "blind (same_view u) (run_sql (\<lambda>v. (g v, v)))"
proof -
  have faults: "same_view u (w\<lparr>db_faults := fs\<rparr>) (w'\<lparr>db_faults := fs\<rparr>)" if "same_view u w w'" for w w' fs
    using that by (simp add: same_view_def)
  show ?thesis
    unfolding blind_def
  proof (intro allI impI conjI)
    fix w w' assume v: "same_view u w w'"
    then have fs: "db_faults w = db_faults w'" by (simp add: same_view_def)
    show "fst (run_sql (\<lambda>v. (g v, v)) w) = fst (run_sql (\<lambda>v. (g v, v)) w')"
      unfolding run_sql_read fst_conv fs assms [OF faults [OF v]] by (rule refl)
    show "same_view u (snd (run_sql (\<lambda>v. (g v, v)) w)) (snd (run_sql (\<lambda>v. (g v, v)) w'))"
      unfolding run_sql_read snd_conv fs by (rule faults [OF v])
  qed
qed

lemma blind_store:
  "blind (same_view u) (Backtest_Store.GetByID i u)" "blind (same_view u) (GetByIDWithTrades i u)"
  "blind (same_view u) (ListCompleted u page limit)" "blind (same_view u) (LatestCompletedBySlug slug u)" "blind (same_view u) MaxDate"
proof -
  note reads = blind_read blind_return blind_sum
  show "blind (same_view u) (Backtest_Store.GetByID i u)"
    unfolding GetByID_def [abs_def]
    by (intro reads) (simp add: same_view_def filter_own_run)
  show "blind (same_view u) (GetByIDWithTrades i u)"
    unfolding GetByIDWithTrades_def [abs_def]
    by (intro reads) (simp add: same_view_def filter_own_run)
  show "blind (same_view u) (LatestCompletedBySlug slug u)"
    unfolding LatestCompletedBySlug_def [abs_def]
    by (intro reads) (simp add: same_view_def filter_slug)
  show "blind (same_view u) (ListCompleted u page limit)"
    unfolding ListCompleted_def [abs_def] Let_def
    by (intro reads) (simp_all add: same_view_def filter_listed)
  show "blind (same_view u) MaxDate"
    unfolding MaxDate_def by (intro reads) (simp add: same_view_def)
qed

lemma blind_strategies:
  "blind (same_view u) (last_backtest slug u)" "blind (same_view u) (list_items bs u)" "blind (same_view u) (ListSections bs u)"
  "blind (same_view u) (GetBySlug builtin slug u)"
proof -
  show last: "blind (same_view u) (last_backtest slug u)" for slug
    unfolding last_backtest_def [abs_def] by (intro blind_intros blind_store)
  show items: "blind (same_view u) (list_items bs u)" for bs
  proof (induction bs)
    case Nil
    then show ?case using blind_return [of "same_view u" "Inr []"] by (simp add: blind_def)
  next
    case (Cons b bs)
    then show ?case unfolding list_items.simps [abs_def] by (intro blind_intros last) 
  qed
  show "blind (same_view u) (ListSections bs u)"
    unfolding ListSections_def [abs_def] by (intro blind_intros items)
  show "blind (same_view u) (GetBySlug builtin slug u)"
    unfolding GetBySlug_def [abs_def] by (intro blind_intros last blind_store)
qed

lemma blind_handlers:
  "blind (same_view u) (StrategyHandler_List ut u)" "blind (same_view u) (StrategyHandler_GetByID ut u slug)"
  "blind (same_view u) (BacktestHandler_List ut (the_service limits) u q)"
  "blind (same_view u) (BacktestHandler_GetByID ut parse (the_service limits) u i)"
  "blind (same_view u) (BacktestHandler_GetTrades parse (the_service limits) u i q)"
proof -
  show "blind (same_view u) (StrategyHandler_List ut u)"
    unfolding StrategyHandler_List_def [abs_def] by (intro blind_intros blind_strategies)
  show "blind (same_view u) (StrategyHandler_GetByID ut u slug)"
    unfolding StrategyHandler_GetByID_def [abs_def] by (intro blind_intros blind_strategies)
  have sv: "svGetByID (the_service limits) = Backtest_Store.GetByID"
    "svGetByIDWithTrades (the_service limits) = GetByIDWithTrades"
    "svListCompleted (the_service limits) = ListCompleted"
    by (simp_all add: the_service_def)
  have svc: "blind (same_view u) (BacktestService_ListCompleted (the_service limits) u page limit)"
    "blind (same_view u) (BacktestService_GetByID (the_service limits) x u)"
    "blind (same_view u) (BacktestService_GetByIDWithTrades (the_service limits) x u)" for page limit x
    unfolding BacktestService_ListCompleted_def [abs_def] BacktestService_GetByID_def [abs_def]
      BacktestService_GetByIDWithTrades_def sv
    by (intro blind_intros blind_store)+
  show "blind (same_view u) (BacktestHandler_List ut (the_service limits) u q)"
    unfolding BacktestHandler_List_def [abs_def] Let_def by (intro blind_intros svc)
  show "blind (same_view u) (BacktestHandler_GetByID ut parse (the_service limits) u i)"
    unfolding BacktestHandler_GetByID_def [abs_def] by (intro blind_intros svc)
  show "blind (same_view u) (BacktestHandler_GetTrades parse (the_service limits) u i q)"
    unfolding BacktestHandler_GetTrades_def [abs_def] Let_def by (intro blind_intros svc)
qed

section \<open>Readiness\<close>

text \<open>Whether the statement of that number is going to succeed.\<close>

definition statement_ok :: "nat \<Rightarrow> db \<Rightarrow> bool" where
  "statement_ok n w \<longleftrightarrow> (n < length (db_faults w) \<longrightarrow> db_faults w ! n = None)"

text \<open>C25. Ready means the right database. The readiness endpoint answers 200 or 503. In production
  and staging it answers 200 exactly when the database answers both probes and its identity row
  is the name of the environment the server was started for; elsewhere when the database
  answers. A probe changes nothing.\<close>

theorem ready_spec:
  "fst (fst (HealthHandler_Ready env w)) \<in> {200, 503} \<and>
   (fst (fst (HealthHandler_Ready env w)) = 200 \<longleftrightarrow>
      statement_ok 0 w \<and>
      (env \<in> {EnvProduction, EnvStaging} \<longrightarrow>
         statement_ok 1 w \<and> (\<exists>rest. db_identity w = env # rest))) \<and>
   (\<exists>fs. snd (HealthHandler_Ready env w) = w\<lparr>db_faults := fs\<rparr>)"
proof -
  have sql: "run_sql (\<lambda>v. (g v, v)) v =
      (if statement_ok 0 v then g (v\<lparr>db_faults := tl (db_faults v)\<rparr>) else Inl (the (hd (db_faults v))),
       v\<lparr>db_faults := tl (db_faults v)\<rparr>)" for g :: "db \<Rightarrow> 'b res" and v
    by (auto simp: run_sql_read statement_ok_def split: list.splits option.splits)
  have nxt: "statement_ok 0 (v\<lparr>db_faults := tl (db_faults v)\<rparr>) = statement_ok 1 v" for v
    by (cases "db_faults v") (auto simp: statement_ok_def)
  show ?thesis
    by (cases "db_identity w")
      (auto simp: HealthHandler_Ready_def CheckReadiness_def Ping_def no_op_def QueryDBIdentity_def sql nxt error_response_def)
qed

section \<open>Concrete instances\<close>

lemma ready_spec_witness:
  "fst (fst (HealthHandler_Ready EnvStaging ((empty_db 0)\<lparr>db_identity := [EnvStaging]\<rparr>))) = 200 \<and>
   fst (fst (HealthHandler_Ready EnvStaging ((empty_db 0)\<lparr>db_identity := [EnvProduction]\<rparr>))) = 503"
  using ready_spec [of EnvStaging "(empty_db 0)\<lparr>db_identity := [EnvStaging]\<rparr>"]
    ready_spec [of EnvStaging "(empty_db 0)\<lparr>db_identity := [EnvProduction]\<rparr>"]
  by (auto simp: statement_ok_def empty_db_def go_const)

lemma trades_pages_witness: "trades_slice [7, 8, 9 :: int] 2 2 = Return [9]"
  using trades_pages [of 2 "[7, 8, 9 :: int]" 2 2] by (simp add: maxTradesLimit_def page_at_def)


definition demo_trade :: trade where
  "demo_trade =
     \<lparr>tEntryTimestamp = 0, tExitTimestamp = minute, tSide = ''LONG'', tQuantity = 75,
      tEntryPrice = lit 100 1, tExitPrice = lit 101 1, tGrossPnL = lit 75 1, tSlippage = 0,
      tBrokerage = 0, tSTT = 0, tExchangeFees = 0, tSEBIFees = 0, tGST = 0, tStampDuty = 0,
      tTotalCharges = 0, tNetPnL = lit 75 1, tReason = ''r'', tExitReason = ''target''\<rparr>"

definition demo_completed_run :: backtest_run where
  "demo_completed_run = blank_run\<lparr>bStatus := BacktestCompleted, bTrades := [demo_trade]\<rparr>"

lemma far_page_panics_witness:
  "\<exists>p. BacktestHandler_GetTrades (\<lambda>_. Inr 7)
     ((the_service demo_limits)\<lparr>svGetByIDWithTrades := \<lambda>_ _ w. (Inr demo_completed_run, w)\<rparr>) 1 ''7''
     (\<lambda>k. if k = ''page'' then ''4611686018427387905'' else ''2'') demo_db = (Panic p, demo_db)"
  using far_page_panics [of
    "(the_service demo_limits)\<lparr>svGetByIDWithTrades := \<lambda>_ _ w. (Inr demo_completed_run, w)\<rparr>"
    7 1 demo_db demo_completed_run demo_db "\<lambda>_. Inr 7" "''7''"
    "\<lambda>k. if k = ''page'' then ''4611686018427387905'' else ''2''"]
  by (simp add: BacktestService_GetByIDWithTrades_def demo_completed_run_def)

lemma normalizeSlippagePct_spec_witness:
  "normalizeSlippagePct (lit 5 1000) = lit 5 1000"
  using normalizeSlippagePct_spec [of "lit 5 1000"] lit_thousandths [of 5] by simp

definition demo_body :: json where
  "demo_body = JObj [(''strategyId'', JStr ''ma_crossover''),
     (''inputs'', JObj [(''underlying'', JStr ''NIFTY''),
        (''dateRange'', JObj [(''from'', JStr ''2024-01-01''), (''to'', JStr ''2024-03-01'')]),
        (''lots'', JInt 2), (''capital'', JInt 200000), (''slippagePct'', JNum (lit 1 8))])]"

definition demo_bound :: backtest_submit_request where
  "demo_bound = the (bind_submit (Some demo_body))"

lemma demo_body_bound:
  "bind_submit (Some demo_body) \<noteq> None" "\<not> isl (service_request demo_bound)"
  "wf64 (biSlippagePct (bqInputs demo_bound))"
  by code_simp+

lemma submitted_request_checked_witness:
  "rqFrom (projr (service_request demo_bound)) < rqTo (projr (service_request demo_bound)) \<and>
   check_request (the_service demo_limits) (projr (service_request demo_bound)) \<noteq> Inl ErrInvalidSlippagePct"
proof -
  obtain r where "bind_submit (Some demo_body) = Some r" using demo_body_bound(1) by blast
  then have "bind_submit (Some demo_body) = Some demo_bound" by (simp add: demo_bound_def)
  moreover have "service_request demo_bound = Inr (projr (service_request demo_bound))"
    using demo_body_bound(2) by (cases "service_request demo_bound") simp_all
  ultimately show ?thesis using submitted_request_checked [OF _ _ demo_body_bound(3)] by blast
qed

definition demo_accepted_response :: "(http_response \<times> job option) \<times> db" where
  "demo_accepted_response = BacktestHandler_Submit (\<lambda>_. ''id'') (the_service demo_limits) 1
     (Some (JObj [(''strategyId'', JStr slugMACrossover),
        (''inputs'', JObj [(''underlying'', JStr UnderlyingNifty),
           (''dateRange'', JObj [(''from'', JStr ''1970-01-01''), (''to'', JStr ''1970-01-02'')]),
           (''lots'', JInt 1), (''capital'', JInt 200000), (''slippagePct'', JInt 0)])])) demo_db"

definition demo_http_job :: job where "demo_http_job = the (snd (fst demo_accepted_response))"

lemma demo_http_submit:
  "fst (fst (fst demo_accepted_response)) = 202" "snd (fst demo_accepted_response) \<noteq> None"
  "map_option erUserID (run_row (snd demo_accepted_response) (bID (jRun demo_http_job))) = Some (Some 1)"
  "db_faults (snd demo_accepted_response) = []"
  "(case RunBacktest Compute (jStrategy demo_http_job) (jInputs demo_http_job) (jCfg demo_http_job) of
      Inl e \<Rightarrow> True | Inr r \<Rightarrow> rTrades r = [])"
  by code_simp+


lemma submitted_trades_served_witness:
  "fst (BacktestHandler_GetTrades (\<lambda>_. Inr (bID (jRun demo_http_job))) (the_service demo_limits) 1
      ''id'' (\<lambda>_. '''') (executeRun (the_service demo_limits) demo_http_job (snd demo_accepted_response))) =
   Return (200, marshal_struct [(''trades'', marshal_list []), (''total'', marshal_int 0),
     (''page'', marshal_int 1), (''limit'', marshal_int 50)])"
proof -
  obtain b where a: "BacktestHandler_Submit (\<lambda>_. ''id'') (the_service demo_limits) 1
     (Some (JObj [(''strategyId'', JStr slugMACrossover),
        (''inputs'', JObj [(''underlying'', JStr UnderlyingNifty),
           (''dateRange'', JObj [(''from'', JStr ''1970-01-01''), (''to'', JStr ''1970-01-02'')]),
           (''lots'', JInt 1), (''capital'', JInt 200000), (''slippagePct'', JInt 0)])])) demo_db =
      (((202, b), Some demo_http_job), snd demo_accepted_response)"
    using demo_http_submit(1,2) unfolding demo_http_job_def demo_accepted_response_def
    by (metis option.collapse prod.collapse)
  obtain x where x: "run_row (snd demo_accepted_response) (bID (jRun demo_http_job)) = Some x" "erUserID x = Some 1"
    using demo_http_submit(3) by (auto simp del: One_nat_def)
  have none: "rTrades r = []"
    if "RunBacktest Compute (jStrategy demo_http_job) (jInputs demo_http_job) (jCfg demo_http_job) = Inr r" for r
    using demo_http_submit(5) that by simp
  have q: "parseTradesPagination (\<lambda>_. '''') = (1, 50)" by code_simp
  obtain r where "RunBacktest Compute (jStrategy demo_http_job) (jInputs demo_http_job) (jCfg demo_http_job) = Inr r"
    "fst (BacktestHandler_GetTrades (\<lambda>_. Inr (bID (jRun demo_http_job))) (the_service demo_limits) 1
      ''id'' (\<lambda>_. '''') (executeRun (the_service demo_limits) demo_http_job (snd demo_accepted_response))) =
     Return (200, marshal_struct
        [(''trades'', marshal_list (map trade_response
            (page_at (map stored_trade (rTrades r)) (nat 1) (nat 50)))),
         (''total'', marshal_int (int (length (rTrades r)))),
         (''page'', marshal_int 1), (''limit'', marshal_int 50)])"
    using submitted_trades_served [OF a x demo_http_submit(4) _ _ q, of "\<lambda>_. Inr (bID (jRun demo_http_job))" "''id''"]
      none by auto
  with none show ?thesis by (simp add: page_at_def)
qed

end
