(* ===== verification/Route_Properties.thy ===== *)
theory Route_Properties
  imports Routes Api_Properties
begin

text \<open>
  What the server promises whatever requests come: the tenant routes answer nobody without a
  token, a tenant sees nothing of another one, the sign-in routes keep to their budgets and read no
  more than their caps.
\<close>

section \<open>Which route is which\<close>

lemma prefix_colon [simp]: "HasPrefix (c # p) '':'' \<longleftrightarrow> c = CHR '':''"
  by (auto simp: HasPrefix_def)

lemma lookup_in_table:
  "lookup_route T m path = Some ep \<Longrightarrow>
     \<exists>(m', pat, mk) \<in> set T. m = m' \<and> (\<exists>ps. match_path pat path = Some ps \<and> ep = mk ps)"
  by (induction T m path rule: lookup_route.induct) (auto split: option.splits if_splits)

lemma lookup_tenant:
  assumes "lookup_route route_table m (''api'' # ''v1'' # seg # rest) = Some ep"
    and "seg \<notin> {''auth'', ''config''}"
  shows "\<exists>t. ep = Tenant t"
  using lookup_in_table [OF assms(1)] assms(2) by (auto simp: route_table_def)

lemma lookup_get:
  assumes "lookup_route route_table ''GET'' path = Some ep"
  shows "ep \<notin> {AuthSession, AuthRefresh, AuthLogout, Tenant BacktestsSubmit}"
  using lookup_in_table [OF assms] by (auto simp: route_table_def)

section \<open>The bearer check depends on the clock only\<close>

lemma identity_clock:
  "awClock s = awClock s' \<Longrightarrow> tenant_identity (app_auth app) h s = tenant_identity (app_auth app) h s'"
  by (simp add: tenant_identity_def Auth_def ValidateToken_def app_auth_def the_auth_def)

lemma identity_refused:
  "tenant_identity sv h s = Inl r \<Longrightarrow> fst r = 401"
  by (auto simp: tenant_identity_def Auth_def RequireUserIdentity_def error_response_def
      split: if_splits sum.splits)

lemma on_db_clock [simp]: "awClock (snd (on_db f s)) = awClock s" "awRandom (snd (on_db f s)) = awRandom s"
  "awDB (snd (on_db f s)) = snd (f (awDB s))" "fst (on_db f s) = fst (f (awDB s))"
  by (simp_all add: on_db_def case_prod_unfold Let_def)

lemma on_auth_simps [simp]: "ssLimiter (snd (on_auth f ss)) = ssLimiter ss"
  "ssAuth (snd (on_auth f ss)) = snd (f (ssAuth ss))" "fst (on_auth f ss) = fst (f (ssAuth ss))"
  by (simp_all add: on_auth_def case_prod_unfold Let_def)

lemma RequestID_keeps:
  "\<exists>n. snd (RequestID ex rq s) = s\<lparr>awDB := (awDB s)\<lparr>db_next := n\<rparr>\<rparr>"
  by (auto simp: RequestID_def on_db_def uuid_New_def Let_def split: sum.splits)
    (rule exI [of _ "db_next (awDB s)"], simp)+

text \<open>C5. No tenant data without a token. A request to anything under \<^verbatim>\<open>/api/v1\<close> but the sign-in and
  configuration routes, with a missing, malformed, expired, foreign or ownerless token, is
  answered 401 if the route exists and 404 if not; no job is started and the state of the
  server is as before, but for the counter of identifiers.\<close>

theorem tenant_routes_guarded:
  assumes "hqPath rq = ''api'' # ''v1'' # seg # rest" "seg \<notin> {''auth'', ''config''}"
    and "tenant_identity (app_auth app) (hqHeader rq ''Authorization'') (ssAuth ss) = Inl r"
  shows "\<exists>reply n. handle_request app rq ss =
      (reply, ss\<lparr>ssAuth := (ssAuth ss)\<lparr>awDB := (awDB (ssAuth ss))\<lparr>db_next := n\<rparr>\<rparr>\<rparr>) \<and>
    rpJob reply = None \<and>
    rpResponse reply = (if lookup_route route_table (hqMethod rq) (hqPath rq) = None then (404, None) else r) \<and>
    fst r = 401"
proof -
  obtain n where n: "snd (RequestID (appExternals app) rq (ssAuth ss)) =
      (ssAuth ss)\<lparr>awDB := (awDB (ssAuth ss))\<lparr>db_next := n\<rparr>\<rparr>"
    using RequestID_keeps by blast
  let ?ss = "ss\<lparr>ssAuth := (ssAuth ss)\<lparr>awDB := (awDB (ssAuth ss))\<lparr>db_next := n\<rparr>\<rparr>\<rparr>"
  have id: "on_auth (RequestID (appExternals app) rq) ss = (fst (RequestID (appExternals app) rq (ssAuth ss)), ?ss)"
    by (simp add: on_auth_def case_prod_unfold n Let_def)
  have ident: "tenant_identity (app_auth app) (hqHeader rq ''Authorization'') (ssAuth ?ss) = Inl r"
    using assms(3) identity_clock [of "ssAuth ?ss" "ssAuth ss"] by simp
  show ?thesis
  proof (cases "lookup_route route_table (hqMethod rq) (hqPath rq)")
    case None
    then show ?thesis using identity_refused [OF assms(3)]
      by (intro exI [of _ "fst (handle_request app rq ss)"] exI [of _ n]) (simp add: handle_request_def id)
  next
    case (Some ep)
    then obtain t where "ep = Tenant t" using lookup_tenant assms(1,2) by metis
    then have "serve_endpoint app ep rq ?ss = ((Return r, None), ?ss)"
      using ident by (simp add: serve_endpoint_def on_auth_def guarded_def)
    with Some show ?thesis using identity_refused [OF assms(3)]
      by (intro exI [of _ "fst (handle_request app rq ss)"] exI [of _ n]) (simp add: handle_request_def id)
  qed
qed

section \<open>Tenants do not see each other\<close>

definition same_world :: "uuid \<Rightarrow> auth_world \<Rightarrow> auth_world \<Rightarrow> bool" where
  "same_world u s s' \<longleftrightarrow> same_view u (awDB s) (awDB s') \<and> awClock s = awClock s'"

definition same_server :: "uuid \<Rightarrow> server_state \<Rightarrow> server_state \<Rightarrow> bool" where
  "same_server u ss ss' \<longleftrightarrow> same_world u (ssAuth ss) (ssAuth ss')"

lemma blind_on_db: "blind (same_view u) f \<Longrightarrow> blind (same_world u) (on_db f)"
  by (simp add: blind_def same_world_def)

lemma blind_on_auth: "blind (same_world u) f \<Longrightarrow> blind (same_server u) (on_auth f)"
  by (simp add: blind_def same_server_def)

lemma blind_plain: "blind (same_view u) h \<Longrightarrow> blind (same_world u) (plain_handler h)"
  by (simp add: blind_def same_world_def plain_handler_def case_prod_unfold Let_def)

lemma blind_RequestID: "blind (same_world u) (RequestID ex rq)"
  by (auto simp: blind_def same_world_def same_view_def visible_def RequestID_def on_db_def uuid_New_def
      Let_def split: sum.splits)

lemma blind_health:
  "blind (same_view u) (HealthHandler_Ready env)" "blind (same_view u) (HealthHandler_Version info env)"
proof -
  have probes: "blind (same_view u) Ping" "blind (same_view u) QueryDBIdentity"
    "blind (same_view u) HealthService_MigrationVersion"
    unfolding Ping_def no_op_def QueryDBIdentity_def HealthService_MigrationVersion_def MigrationVersion_def
    by (intro blind_read; simp add: same_view_def)+
  have "blind (same_view u) (CheckReadiness env)"
    unfolding CheckReadiness_def [abs_def] by (intro blind_intros probes)
  then show "blind (same_view u) (HealthHandler_Ready env)"
    unfolding HealthHandler_Ready_def [abs_def] by (intro blind_intros)
  show "blind (same_view u) (HealthHandler_Version info env)"
    unfolding HealthHandler_Version_def [abs_def] Let_def by (intro blind_bind blind_return probes)
qed

lemma blind_tenant:
  assumes "ep \<noteq> BacktestsSubmit" shows "blind (same_world u) (tenant_handler app ep rq u)"
proof (cases ep)
  case (BacktestsTrades i)
  let ?h = "BacktestHandler_GetTrades (exUUIDParse (appExternals app)) (the_service (app_limits (appConfig app))) u i (hqQuery rq)"
  have "blind (same_world u) (\<lambda>s. case on_db ?h s of (r, s') \<Rightarrow> ((r, None :: job option), s'))"
    by (intro blind_bind blind_on_db blind_handlers blind_return)
  then show ?thesis by (simp add: BacktestsTrades tenant_handler_def Let_def)
qed (use assms in \<open>auto simp: tenant_handler_def Let_def intro!: blind_plain blind_handlers\<close>)

lemma blind_guarded:
  assumes "ep \<noteq> BacktestsSubmit" "same_world u s s'"
    and "case tenant_identity (app_auth app) (hqHeader rq ''Authorization'') s of Inl _ \<Rightarrow> True | Inr v \<Rightarrow> v = u"
  shows "fst (guarded app rq (tenant_handler app ep rq) s) = fst (guarded app rq (tenant_handler app ep rq) s') \<and>
    same_world u (snd (guarded app rq (tenant_handler app ep rq) s)) (snd (guarded app rq (tenant_handler app ep rq) s'))"
proof -
  have "tenant_identity (app_auth app) (hqHeader rq ''Authorization'') s =
      tenant_identity (app_auth app) (hqHeader rq ''Authorization'') s'"
    using assms(2) by (intro identity_clock) (simp add: same_world_def)
  then show ?thesis
    using assms(3) blind_tenant [OF assms(1), of u app rq] assms(2)
    by (auto simp: guarded_def blind_def split: sum.splits)
qed

text \<open>What a sequence of requests is answered.\<close>

primrec replies :: "application \<Rightarrow> http_request list \<Rightarrow> server_state \<Rightarrow> http_reply list" where
  "replies app [] ss = []"
| "replies app (rq # rqs) ss =
     (let (r, ss') = handle_request app rq ss in r # replies app rqs ss')"

definition names_only :: "application \<Rightarrow> uuid \<Rightarrow> auth_world \<Rightarrow> http_request \<Rightarrow> bool" where
  "names_only app u s rq \<longleftrightarrow>
     (case tenant_identity (app_auth app) (hqHeader rq ''Authorization'') s of Inl _ \<Rightarrow> True | Inr v \<Rightarrow> v = u)"

lemma names_only_clock: "awClock s = awClock s' \<Longrightarrow> names_only app u s rq = names_only app u s' rq"
  unfolding names_only_def by (subst identity_clock [of s s']) simp_all

lemma endpoint_blind:
  assumes "ep \<notin> {AuthSession, AuthRefresh, AuthLogout, Tenant BacktestsSubmit}"
    and "same_server u ss ss'" "names_only app u (ssAuth ss) rq"
  shows "fst (serve_endpoint app ep rq ss) = fst (serve_endpoint app ep rq ss') \<and>
    same_server u (snd (serve_endpoint app ep rq ss)) (snd (serve_endpoint app ep rq ss'))"
proof (cases ep)
  case (Tenant t)
  with assms show ?thesis
    using blind_guarded [of t u "ssAuth ss" "ssAuth ss'" app rq]
    by (simp add: serve_endpoint_def same_server_def names_only_def)
next
  case HealthReady
  with assms(2) show ?thesis
    using blind_on_auth [OF blind_plain [OF blind_health(1)], of u "Env (appConfig app)"]
    by (simp add: serve_endpoint_def blind_def)
next
  case HealthVersion
  with assms(2) show ?thesis
    using blind_on_auth [OF blind_plain [OF blind_health(2)], of u "appBuild app" "Env (appConfig app)"]
    by (simp add: serve_endpoint_def blind_def)
qed (use assms in \<open>simp_all add: serve_endpoint_def\<close>)

lemma tenant_handler_clock: "awClock (snd (tenant_handler app ep rq u s)) = awClock s"
  by (cases ep) (simp_all add: tenant_handler_def plain_handler_def Let_def case_prod_unfold)

lemma endpoint_clock:
  assumes "ep \<notin> {AuthSession, AuthRefresh, AuthLogout, Tenant BacktestsSubmit}"
  shows "awClock (ssAuth (snd (serve_endpoint app ep rq ss))) = awClock (ssAuth ss)"
  using assms
  by (cases ep) (auto simp: serve_endpoint_def plain_handler_def guarded_def tenant_handler_clock Let_def
      case_prod_unfold split: sum.split)

lemma handle_request_eq:
  "handle_request app rq ss =
     (let rid = on_auth (RequestID (appExternals app) rq) ss;
          h = (case lookup_route route_table (hqMethod rq) (hqPath rq) of
                 None \<Rightarrow> ((Return (404, None), None), snd rid)
               | Some ep \<Rightarrow> serve_endpoint app ep rq (snd rid))
      in (\<lparr>rpResponse = Recovery (fst (fst h)), rpRequestID = fst rid, rpJob = snd (fst h)\<rparr>, snd h))"
  by (simp add: handle_request_def Let_def case_prod_unfold)

lemma RequestID_clock [simp]: "awClock (snd (RequestID ex rq s)) = awClock s"
  by (auto simp: RequestID_def Let_def case_prod_unfold split: sum.splits)

lemma get_blind:
  assumes "hqMethod rq = ''GET''" "same_server u ss ss'" "names_only app u (ssAuth ss) rq"
  shows "fst (handle_request app rq ss) = fst (handle_request app rq ss') \<and>
    same_server u (snd (handle_request app rq ss)) (snd (handle_request app rq ss')) \<and>
    awClock (ssAuth (snd (handle_request app rq ss))) = awClock (ssAuth ss)"
proof -
  let ?id = "on_auth (RequestID (appExternals app) rq)"
  have id: "fst (?id ss) = fst (?id ss')" "same_server u (snd (?id ss)) (snd (?id ss'))"
    using blind_on_auth [OF blind_RequestID [of u "appExternals app" rq]] assms(2)
    unfolding blind_def by blast+
  have names: "names_only app u (ssAuth (snd (?id ss))) rq"
    using assms(3) by (subst names_only_clock [of _ "ssAuth ss"]) simp_all
  show ?thesis
  proof (cases "lookup_route route_table (hqMethod rq) (hqPath rq)")
    case None
    then show ?thesis using id by (simp add: handle_request_eq Let_def del: on_auth_simps)
      (simp add: on_auth_simps)
  next
    case (Some ep)
    then have ep: "ep \<notin> {AuthSession, AuthRefresh, AuthLogout, Tenant BacktestsSubmit}"
      using lookup_get assms(1) by simp
    show ?thesis
      using endpoint_blind [OF ep id(2) names] endpoint_clock [OF ep, of app rq "snd (?id ss)"] id(1) Some
      by (simp add: handle_request_eq Let_def)
  qed
qed

text \<open>C2. A tenant learns nothing of the others. Take two servers whose databases hold the same runs
  of a user and the same tables without owners. Every sequence of \<^verbatim>\<open>GET\<close> requests whose tokens,
  if any is accepted, are that user's is answered alike by both, whatever runs, users and
  tokens else they hold.\<close>

theorem tenant_noninterference:
  assumes "same_server u ss ss'"
    and "list_all (\<lambda>rq. hqMethod rq = ''GET'' \<and> names_only app u (ssAuth ss) rq) rqs"
  shows "replies app rqs ss = replies app rqs ss'"
  using assms
proof (induction rqs arbitrary: ss ss')
  case (Cons rq rqs)
  then have g: "fst (handle_request app rq ss) = fst (handle_request app rq ss')"
    "same_server u (snd (handle_request app rq ss)) (snd (handle_request app rq ss'))"
    "awClock (ssAuth (snd (handle_request app rq ss))) = awClock (ssAuth ss)"
    using get_blind [of rq u ss ss' app] by simp_all
  have "names_only app u (ssAuth (snd (handle_request app rq ss))) = names_only app u (ssAuth ss)"
    using names_only_clock [OF g(3)] by (simp add: fun_eq_iff)
  with Cons.IH [OF g(2)] Cons.prems(2) g(1) show ?case by (simp add: Let_def case_prod_unfold)
qed simp


section \<open>The sign-in routes keep to their budgets\<close>

text \<open>A history of the server: requests with the time they arrive at, and the sweeps of the limiter.\<close>

datatype server_event = Request time http_request | Evict time

primrec server_time :: "server_event \<Rightarrow> time" where
  "server_time (Request t _) = t"
| "server_time (Evict t) = t"

fun run_server :: "application \<Rightarrow> server_event list \<Rightarrow> server_state \<Rightarrow> (time \<times> http_request \<times> http_reply) list" where
  "run_server app [] ss = []"
| "run_server app (Request t rq # evs) ss =
     (let (r, ss') = handle_request app rq (ss\<lparr>ssAuth := (ssAuth ss)\<lparr>awClock := t\<rparr>\<rparr>)
      in (t, rq, r) # run_server app evs ss')"
| "run_server app (Evict t # evs) ss =
     run_server app evs (ss\<lparr>ssLimiter := evictStale rateLimitIdleTTL t (ssLimiter ss)\<rparr>)"

text \<open>The routes with a budget, under the names the limiter knows them by.\<close>

definition limited_route :: "http_request \<Rightarrow> string option" where
  "limited_route rq =
     (case lookup_route route_table (hqMethod rq) (hqPath rq) of
        Some AuthSession \<Rightarrow> Some routeAuthSession
      | Some AuthRefresh \<Rightarrow> Some routeAuthRefresh
      | Some AuthLogout \<Rightarrow> Some routeAuthLogout
      | _ \<Rightarrow> None)"

definition route_rpm :: "string \<Rightarrow> goint" where
  "route_rpm route =
     (if route = routeAuthSession then rpmSession else if route = routeAuthRefresh then rpmRefresh else rpmLogout)"

definition route_cap :: "string \<Rightarrow> nat" where
  "route_cap route = (if route = routeAuthSession then bodyCapSession else bodyCapRefreshLogout)"

fun limiter_events :: "server_event list \<Rightarrow> limiter_event list" where
  "limiter_events [] = []"
| "limiter_events (Request t rq # evs) =
     (case limited_route rq of
        None \<Rightarrow> limiter_events evs
      | Some route \<Rightarrow> Arrival route (hqClientIP rq) t # limiter_events evs)"
| "limiter_events (Evict t # evs) = Sweep t # limiter_events evs"

lemmas route_names = routeAuthSession_def routeAuthRefresh_def routeAuthLogout_def

lemma not_429: "fst (fst (Session sv b s)) \<noteq> 429" "fst (fst (Refresh sv b s)) \<noteq> 429"
  "fst (fst (Logout_endpoint sv b s)) \<noteq> 429"
  by (auto simp: Session_def Refresh_def Logout_endpoint_def session_status_def error_response_def
      split: option.split sum.split prod.split)

lemma limited_step:
  assumes "\<And>b s. fst (fst (h b s)) \<noteq> 429"
    and "allow route (hqClientIP rq) rpm (awClock (ssAuth ss)) (ssLimiter ss) = (ok, l)"
  shows "(fst (Recovery (fst (fst (limited app cap route rpm h rq ss)))) = 429 \<longleftrightarrow> \<not> ok) \<and>
    ssLimiter (snd (limited app cap route rpm h rq ss)) = l"
  using assms
  by (auto simp: limited_def rateLimitWithLimiter_def error_response_def Let_def case_prod_unfold)

lemma limited_request:
  assumes "limited_route rq = Some route"
    and "allow route (hqClientIP rq) (route_rpm route) (awClock (ssAuth ss)) (ssLimiter ss) = (ok, l)"
  shows "(fst (rpResponse (fst (handle_request app rq ss))) = 429 \<longleftrightarrow> \<not> ok) \<and>
    ssLimiter (snd (handle_request app rq ss)) = l"
  using assms
  by (auto simp: limited_route_def handle_request_eq Let_def serve_endpoint_def route_rpm_def route_names not_429
      limited_step split: option.splits endpoint.splits)

lemma unlimited_request:
  assumes "limited_route rq = None"
  shows "ssLimiter (snd (handle_request app rq ss)) = ssLimiter ss"
  using assms
  by (auto simp: limited_route_def handle_request_eq Let_def serve_endpoint_def
      split: option.splits endpoint.splits)

definition for_key :: "rateLimitKey \<Rightarrow> http_request \<Rightarrow> bool" where
  "for_key k rq \<longleftrightarrow> limited_route rq = Some (rkRoute k) \<and> hqClientIP rq = rkIP k"

lemma run_server_limiter:
  "map (\<lambda>(t, rq, r). (t, fst (rpResponse r) \<noteq> 429)) (filter (\<lambda>(t, rq, r). for_key k rq) (run_server app evs ss)) =
   of_key k (serve route_rpm (limiter_events evs) (ssLimiter ss))"
proof (induction evs arbitrary: ss)
  case (Cons ev evs)
  show ?case
  proof (cases ev)
    case (Request t rq)
    let ?ss = "ss\<lparr>ssAuth := (ssAuth ss)\<lparr>awClock := t\<rparr>\<rparr>"
    show ?thesis
    proof (cases "limited_route rq")
      case None
      then show ?thesis
        using Cons.IH [of "snd (handle_request app rq ?ss)"] unlimited_request [OF None, of app ?ss]
        by (simp add: Request for_key_def Let_def case_prod_unfold)
    next
      case (Some route)
      obtain ok l where a: "allow route (hqClientIP rq) (route_rpm route) t (ssLimiter ss) = (ok, l)"
        by fastforce
      then show ?thesis
        using Cons.IH [of "snd (handle_request app rq ?ss)"] limited_request [OF Some, of ?ss ok l app] Some
        by (cases k) (auto simp: Request for_key_def Let_def case_prod_unfold)
    qed
  qed (use Cons.IH in simp)
qed simp

text \<open>C13. The sign-in routes keep to their budgets, whatever the requests contain and the handlers
  answer. On a server that starts with an empty limiter, cut the requests of one client to
  one sign-in route into windows of a minute: the first 10 (session), 60 (refresh) or 30
  (logout) of every window reach the handler, all others are answered 429.\<close>

theorem sign_in_budget:
  assumes "sorted (map server_time evs)" "ssLimiter ss = newIPRateLimiterWithClock"
    and "k = \<lparr>rkRoute = route, rkIP = ip\<rparr>"
    and "es = filter (\<lambda>(t, rq, r). for_key k rq) (run_server app evs ss)"
  shows "map (\<lambda>(t, rq, r). fst (rpResponse r) \<noteq> 429) es = budget (route_rpm route) (map fst es)"
proof -
  have sub: "set (map event_time (limiter_events evs)) \<subseteq> set (map server_time evs)" for evs
    by (induction evs rule: limiter_events.induct) (auto split: option.splits)
  have "sorted (map event_time (limiter_events evs))"
    using assms(1)
  proof (induction evs rule: limiter_events.induct)
    case (2 t rq evs)
    then show ?case using sub [of evs] by (auto split: option.splits)
  next
    case (3 t evs)
    then show ?case using sub [of evs] by auto
  qed simp
  moreover have "1 \<le> route_rpm route" "in64 (route_rpm route)"
    by (simp_all add: route_rpm_def rpmSession_def rpmRefresh_def rpmLogout_def in64_def)
  ultimately have "map (\<lambda>(t, rq, r). (t, fst (rpResponse r) \<noteq> 429)) es =
      zip (arrivals k (limiter_events evs)) (budget (route_rpm route) (arrivals k (limiter_events evs)))"
    unfolding assms(4) run_server_limiter assms(2) using assms(3) by (simp add: serve_from_start)
  from arg_cong [OF this, of "map fst"] arg_cong [OF this, of "map snd"] show ?thesis
    by (simp add: comp_def case_prod_unfold)
qed

lemma limited_capped:
  "RequestBodyLimit cap (hqBody rq) = RequestBodyLimit cap b \<Longrightarrow>
   limited app cap route rpm h (rq\<lparr>hqBody := b\<rparr>) = limited app cap route rpm h rq"
  by (simp add: limited_def fun_eq_iff)

text \<open>No more of a body is read than its cap. Two requests to a sign-in route that differ only in
  what follows the first 8192 (session) or 512 bytes (refresh, logout) of bodies longer than
  that get the same answer and leave the server in the same state.\<close>

lemma body_beyond_cap_ignored:
  assumes "limited_route rq = Some route" "rq' = rq\<lparr>hqBody := b\<rparr>"
    and "route_cap route < length (bsRest (hqBody rq))" "route_cap route < length (bsRest b)"
    and "take (route_cap route) (bsRest (hqBody rq)) = take (route_cap route) (bsRest b)"
  shows "handle_request app rq ss = handle_request app rq' ss"
proof -
  have capped: "RequestBodyLimit (route_cap route) (hqBody rq) = RequestBodyLimit (route_cap route) b"
    using assms(3,4,5) by (simp add: RequestBodyLimit_def)
  have "serve_endpoint app ep rq s = serve_endpoint app ep rq' s"
    if "lookup_route route_table (hqMethod rq) (hqPath rq) = Some ep" for ep s
    using assms(1) that capped
    by (cases ep) (auto simp: limited_route_def serve_endpoint_def assms(2) route_cap_def route_names limited_capped)
  moreover have "RequestID ex rq' = RequestID ex rq" for ex by (simp add: assms(2) RequestID_def [abs_def])
  ultimately show ?thesis
    by (auto simp: handle_request_eq Let_def assms(2) split: option.split)
qed


section \<open>Concrete instances\<close>

definition demo_app :: application where
  "demo_app =
     \<lparr>appExternals = demo_externals, appConfig = demo_auth_cfg, appBuild = default_build,
      appDecode = (\<lambda>b. if bsRest b = [] then None else Some (JObj [(''refreshToken'', JStr (bsRest b))]))\<rparr>"

definition demo_server :: server_state where
  "demo_server = \<lparr>ssAuth = demo_world, ssLimiter = newIPRateLimiterWithClock\<rparr>"

definition demo_http :: "string \<Rightarrow> string list \<Rightarrow> string \<Rightarrow> http_request" where
  "demo_http m path body =
     \<lparr>hqMethod = m, hqPath = path, hqQuery = (\<lambda>_. ''''), hqHeader = (\<lambda>_. ''''), hqClientIP = ''10.0.0.1'',
      hqBody = bytes_reader body\<rparr>"

lemma demo_no_token: "tenant_identity (app_auth demo_app) '''' s
    = Inl (error_response 401 errMissingOrInvalidAuthorizationHeader)"
  by (simp add: tenant_identity_def Auth_def HasPrefix_def bearerPrefix_def)

lemma tenant_routes_guarded_witness:
  "fst (rpResponse (fst (handle_request demo_app (demo_http ''GET'' [''api'', ''v1'', ''backtests''] '''') demo_server)))
     = 401"
proof -
  have l: "lookup_route route_table ''GET'' [''api'', ''v1'', ''backtests''] = Some (Tenant BacktestsList)"
    by code_simp
  show ?thesis
    using tenant_routes_guarded [of "demo_http ''GET'' [''api'', ''v1'', ''backtests''] ''''" "''backtests''" "[]"
        demo_app demo_server "error_response 401 errMissingOrInvalidAuthorizationHeader"]
    by (auto simp: demo_http_def demo_no_token l)
qed

definition other_server :: server_state where
  "other_server = demo_server\<lparr>ssAuth := demo_world\<lparr>awDB := demo_auth_db\<lparr>db_backtest_runs :=
     [toBacktestEntity (blank_run\<lparr>bUserID := Some 9\<rparr>)]\<rparr>\<rparr>\<rparr>"

definition user_app :: application where
  "user_app = demo_app\<lparr>appExternals := demo_externals\<lparr>exJWT := demo_jwt\<rparr>\<rparr>"

definition user_get :: "string list \<Rightarrow> http_request" where
  "user_get path = (demo_http ''GET'' path [])\<lparr>hqHeader := \<lambda>_. ''Bearer jwt''\<rparr>"

lemma user_identity: "tenant_identity (app_auth user_app) ''Bearer jwt'' demo_world = Inr 7"
  by code_simp

lemma tenant_noninterference_witness:
  "replies user_app [user_get [''api'', ''v1'', ''backtests''], user_get [''ready'']] demo_server =
   replies user_app [user_get [''api'', ''v1'', ''backtests''], user_get [''ready'']] other_server"
proof (rule tenant_noninterference [of 7])
  show "same_server 7 demo_server other_server"
    by (simp add: same_server_def same_world_def same_view_def other_server_def demo_server_def demo_world_def
        demo_auth_db_def empty_db_def visible_def toBacktestEntity_def)
  have "names_only user_app 7 demo_world (user_get path)" for path
    by (simp add: names_only_def user_get_def demo_http_def user_identity)
  then show "list_all (\<lambda>rq. hqMethod rq = ''GET'' \<and> names_only user_app 7 (ssAuth demo_server) rq)
      [user_get [''api'', ''v1'', ''backtests''], user_get [''ready'']]"
    by (simp add: demo_server_def) (simp add: user_get_def demo_http_def)
qed

definition demo_history :: "server_event list" where
  "demo_history = map (\<lambda>i. Request (int i) (demo_http ''POST'' [''api'', ''v1'', ''auth'', ''session''] '''')) [0..<12]"

lemma demo_history_key:
  "for_key \<lparr>rkRoute = routeAuthSession, rkIP = ''10.0.0.1''\<rparr>
     (demo_http ''POST'' [''api'', ''v1'', ''auth'', ''session''] '''')"
  by code_simp

text \<open>Twelve requests in one minute: the last two are refused.\<close>

lemma run_server_arrivals:
  "map (\<lambda>(t, rq, r). (t, rq)) (run_server app (map (\<lambda>(t, rq). Request t rq) trs) ss) = trs"
  by (induction trs arbitrary: ss) (auto simp: Let_def case_prod_unfold)

lemma sign_in_budget_witness:
  "map (\<lambda>(t, rq, r). fst (rpResponse r) \<noteq> 429) (run_server demo_app demo_history demo_server)
     = replicate 10 True @ replicate 2 False"
proof -
  define k where "k = \<lparr>rkRoute = routeAuthSession, rkIP = ''10.0.0.1''\<rparr>"
  let ?rq = "demo_http ''POST'' [''api'', ''v1'', ''auth'', ''session''] ''''"
  let ?run = "run_server demo_app demo_history demo_server"
  have h: "demo_history = map (\<lambda>(t, rq). Request t rq) (map (\<lambda>i. (int i, ?rq)) [0..<12])"
    by (simp add: demo_history_def)
  have pairs: "map (\<lambda>(t, rq, r). (t, rq)) ?run = map (\<lambda>i. (int i, ?rq)) [0..<12]"
    unfolding h by (rule run_server_arrivals)
  have "for_key k rq" if "(t, rq, r) \<in> set ?run" for t rq r
  proof -
    have "(t, rq) \<in> set (map (\<lambda>(t, rq, r). (t, rq)) ?run)" using that by force
    then show ?thesis using demo_history_key unfolding pairs k_def by auto
  qed
  then have all: "filter (\<lambda>(t, rq, r). for_key k rq) ?run = ?run" by (auto simp: filter_id_conv)
  have ts: "map fst ?run = map int [0..<12]"
    using arg_cong [OF pairs, of "map fst"] by (simp add: comp_def case_prod_unfold)
  have "sorted (map server_time demo_history)"
    by (simp add: demo_history_def comp_def sorted_wrt_map)
  from sign_in_budget [OF this _ k_def all [symmetric]] show ?thesis
    unfolding ts by (simp add: demo_server_def route_rpm_def rpmSession_def upt_rec rateLimitWindow_def
        minute_def second_def numeral_nat)
qed

lemma body_beyond_cap_ignored_witness:
  "handle_request demo_app (demo_http ''POST'' [''api'', ''v1'', ''auth'', ''refresh''] (replicate 513 CHR ''a'')) demo_server =
   handle_request demo_app (demo_http ''POST'' [''api'', ''v1'', ''auth'', ''refresh''] (replicate 600 CHR ''a'')) demo_server"
proof -
  have r: "limited_route (demo_http ''POST'' [''api'', ''v1'', ''auth'', ''refresh''] b) = Some routeAuthRefresh" for b
  proof -
    have "lookup_route route_table ''POST'' [''api'', ''v1'', ''auth'', ''refresh''] = Some AuthRefresh" by code_simp
    then show ?thesis by (simp add: limited_route_def demo_http_def)
  qed
  show ?thesis
    by (rule body_beyond_cap_ignored [where b = "bytes_reader (replicate 600 CHR ''a'')", OF r])
      (simp_all add: demo_http_def bytes_reader_def route_cap_def route_names bodyCapRefreshLogout_def take_replicate)
qed

end
