(* ===== verification/Startup.thy ===== *)
theory Startup
  imports Routes
begin

text \<open>
  What happens before the server serves: the connection to the database with its migrations
  (\<^verbatim>\<open>internal/database/database.go\<close>), the redaction of log attributes (\<^verbatim>\<open>internal/logging\<close>), the
  main function of the server with its \<^verbatim>\<open>cleanup-expired-refresh-tokens\<close> subcommand
  (\<^verbatim>\<open>cmd/server/main.go\<close>), and the probe of the container (\<^verbatim>\<open>cmd/healthcheck/main.go\<close>). The
  driver, the migration library, the Firebase SDK and the HTTP client are parameters; what is
  logged is left out, except for the message a fatal error ends the process with.
\<close>

section \<open>Replacing\<close>

text \<open>\<^verbatim>\<open>strings.ReplaceAll\<close>; an empty string to replace is found before every byte and at the end.\<close>

function replace_from :: "string \<Rightarrow> string \<Rightarrow> string \<Rightarrow> string" where
  "replace_from old new [] = []"
| "replace_from old new (c # s) =
     (if old \<noteq> [] \<and> prefix old (c # s) then new @ replace_from old new (drop (length old) (c # s))
      else c # replace_from old new s)"
  by pat_completeness auto
termination
  by (relation "measure (\<lambda>(old, new, s). length s)") (auto simp: neq_Nil_conv)

definition ReplaceAll :: "string \<Rightarrow> string \<Rightarrow> string \<Rightarrow> string" where
  "ReplaceAll s old new =
     (if old = [] then concat (map (\<lambda>c. new @ [c]) s) @ new else replace_from old new s)"

section \<open>Logging\<close>

definition RedactedLogValue :: string where "RedactedLogValue = ''[redacted]''"

definition sensitiveKeyParts :: "string list" where
  "sensitiveKeyParts =
     [''password'', ''passwd'', ''secret'', ''token'', ''jwt'',
      ''dsn'', ''database_url'', ''credential'', ''authorization'']"

definition redactSensitiveKeys :: "string \<times> string \<Rightarrow> string \<times> string" where
  "redactSensitiveKeys a =
     (let key = ToLower (fst a)
      in if list_ex (\<lambda>part. Contains key part) sensitiveKeyParts then (fst a, RedactedLogValue) else a)"

datatype log_format = JSONHandler | TextHandler

text \<open>The format of the handler, and the hook it runs every attribute through.\<close>

definition NewHandler :: "string \<Rightarrow> log_format \<times> (string \<times> string \<Rightarrow> string \<times> string)" where
  "NewHandler env =
     (if env = EnvProduction \<or> env = EnvStaging then JSONHandler else TextHandler, redactSensitiveKeys)"

section \<open>Connecting\<close>

definition sslModeRequire :: string where "sslModeRequire = ''require''"
definition sslModeDisable :: string where "sslModeDisable = ''disable''"

definition databaseDSN :: "config \<Rightarrow> string \<Rightarrow> string" where
  "databaseDSN cfg sslMode =
     (if DatabaseURL cfg \<noteq> [] then DatabaseURL cfg
      else ''postgres://'' @ DBUser cfg @ '':'' @ DBPass cfg @ ''@'' @ DBHost cfg @ '':'' @ DBPort cfg @
           ''/'' @ DBName cfg @ ''?sslmode='' @ sslMode)"

definition redact_secret :: "string \<Rightarrow> string \<Rightarrow> string" where
  "redact_secret secret msg = (if secret \<noteq> [] then ReplaceAll msg secret ''[redacted]'' else msg)"

definition sanitizeDatabaseError :: "err \<Rightarrow> config option \<Rightarrow> string \<Rightarrow> string" where
  "sanitizeDatabaseError e c dsn =
     (let msg = redact_secret dsn (err_msg e)
      in case c of
           None \<Rightarrow> msg
         | Some cfg \<Rightarrow> fold redact_secret [DBPass cfg, DatabaseURL cfg, JWTSecret cfg] msg)"

text \<open>The driver and the migration library: whether a pool can be made, a ping, opening and running
  the migrations.\<close>

definition migrate_ErrNoChange :: err where
  [err_const]: "migrate_ErrNoChange = Sentinel ''no change''"

record 'w postgres =
  pgNew :: "string \<Rightarrow> err option"
  pgPing :: "string \<Rightarrow> 'w \<Rightarrow> err option"
  pgMigrateNew :: "string \<Rightarrow> string \<Rightarrow> err option"
  pgMigrateUp :: "string \<Rightarrow> string \<Rightarrow> 'w \<Rightarrow> err option \<times> 'w"

text \<open>\<open>Inl\<close> is the message of \<^verbatim>\<open>log.Fatalf\<close>, which ends the process.\<close>

definition runMigrations :: "'w postgres \<Rightarrow> string \<Rightarrow> string \<Rightarrow> config \<Rightarrow> 'w \<Rightarrow> (string + unit) \<times> 'w" where
  "runMigrations pg path dsn cfg w =
     (case pgMigrateNew pg path dsn of
        Some e \<Rightarrow> (Inl (''failed to create migrate instance: '' @ sanitizeDatabaseError e (Some cfg) dsn), w)
      | None \<Rightarrow>
          (case pgMigrateUp pg path dsn w of
             (Some e, w') \<Rightarrow>
               (if e = migrate_ErrNoChange then (Inr (), w')
                else (Inl (''failed to run migrations: '' @ sanitizeDatabaseError e (Some cfg) dsn), w'))
           | (None, w') \<Rightarrow> (Inr (), w')))"

definition Connect :: "'w postgres \<Rightarrow> config \<Rightarrow> 'w \<Rightarrow> (string + unit) \<times> 'w" where
  "Connect pg cfg w =
     (let sslMode = (if \<not> DBSSLRequired cfg then sslModeDisable else sslModeRequire);
          dsn = databaseDSN cfg sslMode
      in case pgNew pg dsn of
           Some e \<Rightarrow>
             (Inl (''failed to create database connection pool: '' @ sanitizeDatabaseError e (Some cfg) dsn), w)
         | None \<Rightarrow>
             (case pgPing pg dsn w of
                Some e \<Rightarrow>
                  (Inl (''failed to ping database (env='' @ Env cfg @ '' db_host='' @ DBHost cfg @
                     '' db_name='' @ DBName cfg @ ''): '' @ sanitizeDatabaseError e (Some cfg) dsn), w)
              | None \<Rightarrow>
                  (if ShouldRunMigrations (Some cfg) then runMigrations pg (MigrationsPath cfg) dsn cfg w
                   else (Inr (), w))))"

section \<open>The main function of the server\<close>

text \<open>What \<^verbatim>\<open>main\<close> finds outside: the URL parser and the readability of a file, the driver, the
  Firebase SDK and the trusted proxies gin accepts.\<close>

record server_outside =
  soParseURL :: url_parser
  soReadable :: "string \<Rightarrow> err option"
  soPostgres :: "db postgres"
  soFirebaseInit :: "config \<Rightarrow> err option"
  soVerify :: "string \<Rightarrow> firebase_token res"
  soTrustedProxies :: "string list \<Rightarrow> err option"
  soExternals :: externals
  soDecode :: "byte_stream \<Rightarrow> json option"

definition cleanupCommand :: string where "cleanupCommand = ''cleanup-expired-refresh-tokens''"

text \<open>The process ends with a status, or serves the application.\<close>

datatype server_start = Exit int | Serve application

definition cleanup_main :: "server_outside \<Rightarrow> config \<Rightarrow> db \<Rightarrow> server_start \<times> db" where
  "cleanup_main out cfg w =
     (case Connect (soPostgres out) cfg w of
        (Inl _, w1) \<Rightarrow> (Exit 1, w1)
      | (Inr _, w1) \<Rightarrow>
          (case DeleteExpired w1 of
             (Inl _, w2) \<Rightarrow> (Exit 1, w2)
           | (Inr _, w2) \<Rightarrow> (Exit 0, w2)))"

text \<open>With credentials there is a Firebase verifier over the SDK client, without them there is none.\<close>

definition server_application :: "server_outside \<Rightarrow> config \<Rightarrow> application" where
  "server_application out cfg =
     \<lparr>appExternals = (soExternals out)\<lparr>exFirebase :=
        (if FirebaseCredentialsFile cfg \<noteq> [] then Some (soVerify out) else None)\<rparr>,
      appConfig = cfg, appBuild = default_build, appDecode = soDecode out\<rparr>"

definition server_main :: "server_outside \<Rightarrow> string list \<Rightarrow> config \<Rightarrow> db \<Rightarrow> server_start \<times> db" where
  "server_main out args cfg w =
     (if ValidateStartupIdentity (soParseURL out) (Some cfg) \<noteq> None then (Exit 1, w)
      else if ValidateFirebaseAuthConfig (soReadable out) (Some cfg) \<noteq> None then (Exit 1, w)
      else if length args > 1 \<and> args ! 1 = cleanupCommand then cleanup_main out cfg w
      else if FirebaseCredentialsFile cfg \<noteq> [] \<and> soFirebaseInit out cfg \<noteq> None then (Exit 1, w)
      else case Connect (soPostgres out) cfg w of
        (Inl _, w1) \<Rightarrow> (Exit 1, w1)
      | (Inr _, w1) \<Rightarrow>
          (if soTrustedProxies out (TrustedProxies cfg) \<noteq> None then (Exit 1, w1)
           else (Serve (server_application out cfg), w1)))"

section \<open>The probe\<close>

definition probeEnvVarPort :: string where "probeEnvVarPort = ''PORT''"
definition probeDefaultPort :: string where "probeDefaultPort = ''8080''"
definition loopbackHost :: string where "loopbackHost = ''127.0.0.1''"
definition readyPath :: string where "readyPath = ''/ready''"
definition minPort :: goint where "minPort = 1"
definition maxPort :: goint where "maxPort = 65535"

text \<open>\<open>get\<close> is the client: the status of a response, or none.\<close>

definition healthcheck :: "(string \<Rightarrow> string) \<Rightarrow> (string \<Rightarrow> int option) \<Rightarrow> int" where
  "healthcheck getenv get =
     (let port = (if getenv probeEnvVarPort = [] then probeDefaultPort else getenv probeEnvVarPort)
      in case Atoi port of
           None \<Rightarrow> 1
         | Some portNum \<Rightarrow>
             (if portNum < minPort \<or> portNum > maxPort then 1
              else case get (''http://'' @ loopbackHost @ '':'' @ port @ readyPath) of
                None \<Rightarrow> 1
              | Some status \<Rightarrow> (if status \<noteq> 200 then 1 else 0)))"

section \<open>Secrets do not survive the sanitizer\<close>

text \<open>A secret without brackets that is no part of the word \<^verbatim>\<open>redacted\<close> cannot be put together from
  what a replacement leaves.\<close>

definition hideable :: "string \<Rightarrow> bool" where
  "hideable t \<longleftrightarrow> t \<noteq> [] \<and> CHR ''['' \<notin> set t \<and> CHR '']'' \<notin> set t \<and> \<not> Contains ''redacted'' t"

lemma sublist_separated:
  assumes "c \<notin> set t" "sublist t (xs @ c # ys)" shows "sublist t xs \<or> sublist t ys"
proof -
  obtain p q where e: "xs @ c # ys = p @ t @ q" using assms(2) by (auto simp: sublist_def)
  then consider us where "p = xs @ us" "c # ys = us @ t @ q" | us where "xs = p @ us" "us @ c # ys = t @ q"
    by (auto simp: append_eq_append_conv2)
  then show ?thesis
  proof cases
    case (1 us)
    show ?thesis
    proof (cases us)
      case Nil
      then show ?thesis using 1(2) assms(1) by (cases t) auto
    next
      case (Cons u vs)
      then have "ys = vs @ t @ q" using 1(2) by simp
      then show ?thesis by (metis sublist_appendI)
    qed
  next
    case (2 us)
    then obtain vs where "(us = t @ vs \<and> vs @ c # ys = q) \<or> (us @ vs = t \<and> c # ys = vs @ q)"
      by (auto simp: append_eq_append_conv2)
    then show ?thesis
    proof
      assume "us = t @ vs \<and> vs @ c # ys = q"
      then have "xs = p @ t @ vs" using 2(1) by simp
      then show ?thesis by (metis sublist_appendI)
    next
      assume v: "us @ vs = t \<and> c # ys = vs @ q"
      then have "vs = []" using assms(1) by (cases vs) auto
      with v 2(1) have "xs = p @ t" by simp
      then show ?thesis by (metis append_Nil2 sublist_appendI)
    qed
  qed
qed

lemma redacted_gap:
  assumes "hideable t" "sublist t (xs @ ''[redacted]'' @ ys)" shows "sublist t xs \<or> sublist t ys"
proof -
  have "sublist t xs \<or> sublist t (''redacted'' @ CHR '']'' # ys)"
    using assms sublist_separated [of "CHR ''[''" t xs "''redacted'' @ CHR '']'' # ys"] by (simp add: hideable_def)
  moreover have "sublist t (''redacted'' @ CHR '']'' # ys) \<Longrightarrow> sublist t ys"
    using assms(1) sublist_separated [of "CHR '']''" t "''redacted''" ys] by (auto simp: hideable_def Contains_sublist)
  ultimately show ?thesis by blast
qed

text \<open>What is not there does not appear, whatever is replaced.\<close>

lemma replace_from_absent:
  assumes "hideable t"
  shows "\<not> sublist t (pre @ s) \<Longrightarrow> \<not> sublist t (pre @ replace_from old ''[redacted]'' s)"
proof (induction "length s" arbitrary: pre s rule: less_induct)
  case less
  show ?case
  proof (cases s)
    case (Cons c u)
    show ?thesis
    proof (cases "old \<noteq> [] \<and> prefix old (c # u)")
      case True
      let ?rest = "drop (length old) (c # u)"
      have "\<not> sublist t pre" "\<not> sublist t ?rest"
        using less.prems Cons sublist_append [of t pre s]
          sublist_append [of t "pre @ take (length old) (c # u)" ?rest] by auto
      moreover have "length ?rest < length s" using True Cons by (cases old) auto
      ultimately have "\<not> sublist t (replace_from old ''[redacted]'' ?rest)"
        using less.hyps [of ?rest "[]"] by simp
      with \<open>\<not> sublist t pre\<close> True Cons show ?thesis
        using redacted_gap [OF assms, of pre] by auto
    next
      case False
      then show ?thesis using less.hyps [of u "pre @ [c]"] less.prems Cons by auto
    qed
  qed (use less.prems in simp)
qed

text \<open>What is replaced is gone. No occurrence may start in what was passed over.\<close>

lemma replace_from_gone:
  assumes "hideable t"
  shows "(\<And>i. i < length pre \<Longrightarrow> \<not> prefix t (drop i (pre @ s))) \<Longrightarrow>
    \<not> sublist t (pre @ replace_from t ''[redacted]'' s)"
proof (induction "length s" arbitrary: pre s rule: less_induct)
  case less
  have starts: "\<not> sublist t pre"
  proof
    assume "sublist t pre"
    then obtain p q where pq: "pre = p @ t @ q" by (auto simp: sublist_def)
    then have "length p < length pre" using assms by (simp add: hideable_def)
    with less.prems [of "length p"] pq show False by simp
  qed
  show ?case
  proof (cases s)
    case Nil
    with starts show ?thesis by simp
  next
    case (Cons c u)
    show ?thesis
    proof (cases "prefix t (c # u)")
      case True
      let ?rest = "drop (length t) (c # u)"
      have t: "t \<noteq> []" using assms by (simp add: hideable_def)
      then have "length ?rest < length s" using Cons by (cases t) auto
      then have "\<not> sublist t (replace_from t ''[redacted]'' ?rest)"
        using less.hyps [of ?rest "[]"] by simp
      with starts True t Cons show ?thesis using redacted_gap [OF assms, of pre] by auto
    next
      case False
      have "\<not> prefix t (drop i ((pre @ [c]) @ u))" if "i < length (pre @ [c])" for i
        using that less.prems [of i] False Cons by (cases "i = length pre") simp_all
      then show ?thesis using less.hyps [of u "pre @ [c]"] False Cons by simp
    qed
  qed
qed

lemma redact_secret_absent: "hideable t \<Longrightarrow> \<not> sublist t msg \<Longrightarrow> \<not> sublist t (redact_secret old msg)"
  using replace_from_absent [of t "[]" msg old] by (simp add: redact_secret_def ReplaceAll_def)

lemma redact_secret_gone: "hideable t \<Longrightarrow> \<not> sublist t (redact_secret t msg)"
  using replace_from_gone [of t "[]" msg] by (simp add: redact_secret_def ReplaceAll_def hideable_def)


text \<open>C26. A fatal database error does not print a secret. Whatever the driver or the migration library
  reports, the sanitized message contains neither the connection string nor the database
  password, the database URL or the signing secret, provided the secret holds no square
  bracket and is no part of the word \<^verbatim>\<open>redacted\<close>.\<close>

theorem sanitized_hides_secrets:
  assumes "t \<in> {dsn, DBPass cfg, DatabaseURL cfg, JWTSecret cfg}" "hideable t"
  shows "\<not> Contains (sanitizeDatabaseError e (Some cfg) dsn) t"
  using assms(1) redact_secret_absent [OF assms(2)] redact_secret_gone [OF assms(2)]
  by (auto simp: sanitizeDatabaseError_def Contains_sublist)

section \<open>Only a checked configuration serves\<close>

lemma Connect_keeps:
  assumes "\<not> ShouldRunMigrations (Some cfg)" shows "snd (Connect pg cfg w) = w"
  using assms by (auto simp: Connect_def Let_def split: option.split)

text \<open>C14. The server serves only what its checks let pass. If it comes to serving, the configuration
  passed the identity checks of its environment and those of the Firebase settings, and the
  database answered; in production the allow-list of users is not empty, there is a
  Firebase verifier and the database is exactly as it was, so no migration ran.
  If a check fails the process ends with status 1 before it touches the database.\<close>

theorem server_start_checked:
  "(fst (server_main out args cfg w) = Serve app \<longrightarrow>
      ValidateStartupIdentity (soParseURL out) (Some cfg) = None \<and>
      ValidateFirebaseAuthConfig (soReadable out) (Some cfg) = None \<and>
      appConfig app = cfg \<and> fst (Connect (soPostgres out) cfg w) = Inr () \<and>
      (Env cfg = EnvProduction \<longrightarrow>
         AllowedFirebaseUIDs cfg \<noteq> [] \<and> exFirebase (appExternals app) = Some (soVerify out) \<and>
         snd (server_main out args cfg w) = w)) \<and>
   (ValidateStartupIdentity (soParseURL out) (Some cfg) \<noteq> None \<or>
    ValidateFirebaseAuthConfig (soReadable out) (Some cfg) \<noteq> None \<longrightarrow>
      server_main out args cfg w = (Exit 1, w))"
proof (rule conjI)
  show "fst (server_main out args cfg w) = Serve app \<longrightarrow>
      ValidateStartupIdentity (soParseURL out) (Some cfg) = None \<and>
      ValidateFirebaseAuthConfig (soReadable out) (Some cfg) = None \<and>
      appConfig app = cfg \<and> fst (Connect (soPostgres out) cfg w) = Inr () \<and>
      (Env cfg = EnvProduction \<longrightarrow>
         AllowedFirebaseUIDs cfg \<noteq> [] \<and> exFirebase (appExternals app) = Some (soVerify out) \<and>
         snd (server_main out args cfg w) = w)"
  proof
    assume serve: "fst (server_main out args cfg w) = Serve app"
    then have v: "ValidateStartupIdentity (soParseURL out) (Some cfg) = None"
      "ValidateFirebaseAuthConfig (soReadable out) (Some cfg) = None"
      by (auto simp: server_main_def split: if_splits)
    have noclean: "fst (cleanup_main out cfg w) \<noteq> Serve app"
      by (auto simp: cleanup_main_def split: prod.splits sum.splits)
    obtain w1 where c: "Connect (soPostgres out) cfg w = (Inr (), w1)" "app = server_application out cfg"
      "snd (server_main out args cfg w) = w1"
      using serve noclean by (auto simp: server_main_def split: if_splits prod.splits sum.splits)
    have "AllowedFirebaseUIDs cfg \<noteq> [] \<and> FirebaseCredentialsFile cfg \<noteq> [] \<and> w1 = w" if "Env cfg = EnvProduction"
      using that v(2) Connect_keeps [of cfg "soPostgres out" w] c(1)
      by (auto simp: ValidateFirebaseAuthConfig_def ShouldRunMigrations_def split: if_splits option.splits)
    then show "ValidateStartupIdentity (soParseURL out) (Some cfg) = None \<and>
      ValidateFirebaseAuthConfig (soReadable out) (Some cfg) = None \<and>
      appConfig app = cfg \<and> fst (Connect (soPostgres out) cfg w) = Inr () \<and>
      (Env cfg = EnvProduction \<longrightarrow>
         AllowedFirebaseUIDs cfg \<noteq> [] \<and> exFirebase (appExternals app) = Some (soVerify out) \<and>
         snd (server_main out args cfg w) = w)"
      using v c by (simp add: server_application_def)
  qed
qed (auto simp: server_main_def)

lemma sanitized_hides_secrets_witness:
  "\<not> Contains (sanitizeDatabaseError (Plain ''bad secret in dsn'') (Some (demo_config EnvTest ''algo'')) ''x'') ''secret''"
  by (rule sanitized_hides_secrets) (simp_all add: demo_config_def hideable_def)

definition demo_outside :: server_outside where
  "demo_outside =
     \<lparr>soParseURL = demo_url, soReadable = (\<lambda>_. None),
      soPostgres = \<lparr>pgNew = (\<lambda>_. None), pgPing = (\<lambda>_ _. None), pgMigrateNew = (\<lambda>_ _. None),
        pgMigrateUp = (\<lambda>_ _ w. (None, w))\<rparr>,
      soFirebaseInit = (\<lambda>_. None), soVerify = (\<lambda>_. Inl (Plain ''no'')),
      soTrustedProxies = (\<lambda>_. None), soExternals = demo_externals,
      soDecode = (\<lambda>_. None)\<rparr>"

definition demo_production :: config where
  "demo_production = (demo_config EnvProduction ''algo_prod'')\<lparr>FirebaseProjectID := ''p'',
     FirebaseCredentialsFile := ''/c'', FirebaseWebAPIKey := ''k'', AllowedFirebaseUIDs := [''alice'']\<rparr>"

lemma demo_serves: "(case fst (server_main demo_outside [''server''] demo_production demo_auth_db) of
    Serve app \<Rightarrow> True | Exit n \<Rightarrow> False)"
  by code_simp

lemma server_start_checked_witness:
  "snd (server_main demo_outside [''server''] demo_production demo_auth_db) = demo_auth_db \<and>
   server_main demo_outside [''server''] (demo_config EnvProduction ''algo'') demo_auth_db = (Exit 1, demo_auth_db)"
proof -
  obtain app where "fst (server_main demo_outside [''server''] demo_production demo_auth_db) = Serve app"
    using demo_serves by (auto split: server_start.splits)
  moreover have "Env demo_production = EnvProduction" by (simp add: demo_production_def demo_config_def)
  moreover have "ValidateStartupIdentity (soParseURL demo_outside) (Some (demo_config EnvProduction ''algo'')) \<noteq> None"
    by code_simp
  ultimately show ?thesis
    using server_start_checked [of demo_outside "[''server'']" demo_production demo_auth_db app]
      server_start_checked [of demo_outside "[''server'']" "demo_config EnvProduction ''algo''" demo_auth_db app]
    by blast
qed

end
