(* ===== verification/Fixture_Commands.thy ===== *)
theory Fixture_Commands
  imports Config Csv Json
begin

text \<open>
  The operator's commands around Firebase: the guards of \<^verbatim>\<open>internal/firebasefixture\<close>, the provisioning
  and deletion of the test users (\<^verbatim>\<open>cmd/setup-firebase-test-users\<close>,
  \<^verbatim>\<open>cmd/teardown-firebase-test-users\<close>), the verification of the production smoke user
  (\<^verbatim>\<open>cmd/verify-prod-smoke-user\<close>) and the minting of an ID token (\<^verbatim>\<open>cmd/firebase-token\<close>). The
  Firebase Admin SDK and the HTTP client are parameters, with what the theorems take from the
  SDK in \<open>directory_law\<close>. Parsed flags are an input; what goes to standard error is left out.
\<close>

section \<open>Guards\<close>

definition markerProd :: string where "markerProd = ''prod''"
definition markerProduction :: string where "markerProduction = ''production''"
definition markerLive :: string where "markerLive = ''live''"

primrec RequireEnv :: "(string \<Rightarrow> string) \<Rightarrow> string list \<Rightarrow> (string \<times> string) list res" where
  "RequireEnv getenv [] = Inr []"
| "RequireEnv getenv (k # ks) =
     (let v = TrimSpace (getenv k)
      in if v = [] then Inl (Plain (''missing env: '' @ k))
         else map_sum id (\<lambda>rest. (k, v) # rest) (RequireEnv getenv ks))"

text \<open>A value of the map, empty where it has none.\<close>

definition env_value :: "(string \<times> string) list \<Rightarrow> string \<Rightarrow> string" where
  "env_value vals k = (case map_of vals k of None \<Rightarrow> [] | Some v \<Rightarrow> v)"

text \<open>\<^verbatim>\<open>bufio.Scanner\<close> over lines: the lines without their ends, and an error when a line does not
  fit the buffer of 64 KiB or the file cannot be read to its end.\<close>

definition MaxScanTokenSize :: nat where "MaxScanTokenSize = 64 * 1024"
definition bufio_ErrTooLong :: err where
  [err_const]: "bufio_ErrTooLong = Plain ''bufio.Scanner: token too long''"

definition scan_lines :: "byte_stream \<Rightarrow> string list \<times> err option" where
  "scan_lines b =
     (let raw = Split newline (bsRest b);
          ls = (if last raw = [] then butlast raw else raw)
      in (map drop_cr (takeWhile (\<lambda>l. length l < MaxScanTokenSize) ls),
          if list_all (\<lambda>l. length l < MaxScanTokenSize) ls
          then (if bsEnd b = io_EOF then None else Some (bsEnd b)) else Some bufio_ErrTooLong))"

definition CheckAllowProjectIDFile :: "byte_stream res \<Rightarrow> string \<Rightarrow> err option" where
  "CheckAllowProjectIDFile content expectedProjectID =
     (case content of
        Inl e \<Rightarrow> Some (Wrap ''cannot read allow-project-id-file: '' e '''')
      | Inr f \<Rightarrow>
          (let (scanned, err) = scan_lines f; nonblank = filter (\<lambda>l. l \<noteq> []) (map TrimSpace scanned)
           in case err of
                Some e \<Rightarrow> Some (Wrap ''cannot read allow-project-id-file: '' e '''')
              | None \<Rightarrow>
                  (if nonblank = [] then Some (Plain ''allow-project-id-file is empty'')
                   else if length nonblank > 1
                   then Some (Plain (''allow-project-id-file must contain exactly one line, found '' @
                          Itoa (int (length nonblank))))
                   else if nonblank ! 0 \<noteq> expectedProjectID
                   then Some (Plain ''allow-project-id-file project ID does not match FIREBASE_PROJECT_ID'')
                   else None)))"

text \<open>The dash of the message, in UTF-8.\<close>

definition em_dash :: string where "em_dash = [CHR 0xE2, CHR 0x80, CHR 0x94]"

definition RejectProductionMarker :: "string \<Rightarrow> err option" where
  "RejectProductionMarker projectID =
     map_option (\<lambda>marker. Plain (''FIREBASE_PROJECT_ID contains production marker '' @ quoted marker @
         '' '' @ em_dash @ '' fixture binaries must not run against production''))
       (find (\<lambda>marker. Contains (ToLower projectID) marker) [markerProd, markerProduction, markerLive])"

section \<open>The SDK\<close>

text \<open>\<open>faInit\<close> is \<^verbatim>\<open>firebase.NewApp\<close> and its \<^verbatim>\<open>Auth\<close> client, with the error of the one that fails.\<close>

record 'f firebase_admin =
  faInit :: "string \<Rightarrow> string \<Rightarrow> err option"
  faCreateUser :: "string \<Rightarrow> string \<Rightarrow> bool \<Rightarrow> 'f \<Rightarrow> err option \<times> 'f"
  faUpdateUser :: "string \<Rightarrow> string option \<Rightarrow> bool \<Rightarrow> 'f \<Rightarrow> err option \<times> 'f"
  faDeleteUser :: "string \<Rightarrow> 'f \<Rightarrow> err option \<times> 'f"
  faIsUserNotFound :: "err \<Rightarrow> bool"
  faCustomToken :: "string \<Rightarrow> 'f \<Rightarrow> string res"

definition CreateOrUpdateUser :: "'f firebase_admin \<Rightarrow> string \<Rightarrow> string \<Rightarrow> 'f \<Rightarrow> err option \<times> 'f" where
  "CreateOrUpdateUser fa uid email f =
     (case faCreateUser fa uid email True f of
        (None, f1) \<Rightarrow> (None, f1)
      | (Some e, f1) \<Rightarrow>
          (if faIsUserNotFound fa e then (Some e, f1)
           else case faUpdateUser fa uid (Some email) True f1 of
             (None, f2) \<Rightarrow> (None, f2)
           | (Some e', f2) \<Rightarrow> (Some (Wrap (''create: '' @ err_msg e @ ''; update: '') e' ''''), f2)))"

definition DeleteUser :: "'f firebase_admin \<Rightarrow> string \<Rightarrow> 'f \<Rightarrow> err option \<times> 'f" where
  "DeleteUser fa uid f =
     (case faDeleteUser fa uid f of
        (None, f1) \<Rightarrow> (None, f1)
      | (Some e, f1) \<Rightarrow> (if faIsUserNotFound fa e then (None, f1) else (Some e, f1)))"

definition MarkEmailVerified :: "'f firebase_admin \<Rightarrow> string \<Rightarrow> 'f \<Rightarrow> err option \<times> 'f" where
  "MarkEmailVerified fa uid = faUpdateUser fa uid None True"

section \<open>Setup and teardown\<close>

definition envFirebaseProjectID :: string where "envFirebaseProjectID = ''FIREBASE_PROJECT_ID''"
definition envFirebaseCredentialsFile :: string where
  "envFirebaseCredentialsFile = ''FIREBASE_CREDENTIALS_FILE''"
definition envTestUIDA :: string where "envTestUIDA = ''TEST_UID_A''"
definition envTestUIDB :: string where "envTestUIDB = ''TEST_UID_B''"
definition envTestUIDDenied :: string where "envTestUIDDenied = ''TEST_UID_DENIED''"
definition envTestUIDConflict :: string where "envTestUIDConflict = ''TEST_UID_CONFLICT''"
definition syntheticEmailDomain :: string where "syntheticEmailDomain = ''@test.algoedge.local''"
definition exitCodeGuardFailed :: int where "exitCodeGuardFailed = 2"

definition allKeys :: "string list" where
  "allKeys = [envFirebaseProjectID, envFirebaseCredentialsFile, envTestUIDA, envTestUIDB,
     envTestUIDDenied, envTestUIDConflict]"

text \<open>The guards both commands run in the same order: the environment, the file named by the flag, the
  marker. \<open>Inr\<close> is the environment.\<close>

definition fixture_guards ::
  "err + string \<Rightarrow> (string \<Rightarrow> string) \<Rightarrow> (string \<Rightarrow> byte_stream res) \<Rightarrow> (string \<times> string) list res" where
  "fixture_guards flags getenv open_file =
     (case flags of
        Inl e \<Rightarrow> Inl e
      | Inr allowFile \<Rightarrow>
     (case RequireEnv getenv allKeys of
        Inl e \<Rightarrow> Inl e
      | Inr vals \<Rightarrow>
         (let projectID = env_value vals envFirebaseProjectID
          in if TrimSpace allowFile = [] then Inl (Plain ''error: --allow-project-id-file is required'')
             else case CheckAllowProjectIDFile (open_file allowFile) projectID of
               Some e \<Rightarrow> Inl e
             | None \<Rightarrow>
                 (case RejectProductionMarker projectID of Some e \<Rightarrow> Inl e | None \<Rightarrow> Inr vals))))"

definition setup_users :: "(string \<times> string) list" where
  "setup_users = [(envTestUIDA, ''a''), (envTestUIDB, ''b''), (envTestUIDDenied, ''denied''),
     (envTestUIDConflict, ''conflict'')]"

primrec provision_users ::
  "'f firebase_admin \<Rightarrow> (string \<times> string) list \<Rightarrow> (string \<times> string) list \<Rightarrow> 'f \<Rightarrow> int \<times> 'f" where
  "provision_users fa vals [] f = (0, f)"
| "provision_users fa vals (u # us) f =
     (case CreateOrUpdateUser fa (env_value vals (fst u)) (snd u @ syntheticEmailDomain) f of
        (Some e, f1) \<Rightarrow> (1, f1)
      | (None, f1) \<Rightarrow> provision_users fa vals us f1)"

primrec delete_users :: "'f firebase_admin \<Rightarrow> (string \<times> string) list \<Rightarrow> string list \<Rightarrow> 'f \<Rightarrow> int \<times> 'f" where
  "delete_users fa vals [] f = (0, f)"
| "delete_users fa vals (k # ks) f =
     (case DeleteUser fa (env_value vals k) f of
        (Some e, f1) \<Rightarrow> (1, f1)
      | (None, f1) \<Rightarrow> delete_users fa vals ks f1)"

definition setup_run ::
  "'f firebase_admin \<Rightarrow> err + string \<Rightarrow> (string \<Rightarrow> string) \<Rightarrow> (string \<Rightarrow> byte_stream res) \<Rightarrow> 'f \<Rightarrow> int \<times> 'f" where
  "setup_run fa flags getenv open_file f =
     (case fixture_guards flags getenv open_file of
        Inl e \<Rightarrow> (exitCodeGuardFailed, f)
      | Inr vals \<Rightarrow>
          (case faInit fa (env_value vals envFirebaseCredentialsFile) (env_value vals envFirebaseProjectID) of
             Some e \<Rightarrow> (1, f)
           | None \<Rightarrow> provision_users fa vals setup_users f))"

definition teardown_run ::
  "'f firebase_admin \<Rightarrow> err + string \<Rightarrow> (string \<Rightarrow> string) \<Rightarrow> (string \<Rightarrow> byte_stream res) \<Rightarrow> 'f \<Rightarrow> int \<times> 'f" where
  "teardown_run fa flags getenv open_file f =
     (case fixture_guards flags getenv open_file of
        Inl e \<Rightarrow> (exitCodeGuardFailed, f)
      | Inr vals \<Rightarrow>
          (case faInit fa (env_value vals envFirebaseCredentialsFile) (env_value vals envFirebaseProjectID) of
             Some e \<Rightarrow> (1, f)
           | None \<Rightarrow> delete_users fa vals [envTestUIDA, envTestUIDB, envTestUIDDenied, envTestUIDConflict] f))"

section \<open>The smoke user of production\<close>

definition envProdSmokeUID :: string where "envProdSmokeUID = ''PROD_SMOKE_UID''"
definition knownProdFirebaseProject :: string where "knownProdFirebaseProject = ''algoedgefno''"

definition requireProductionProject :: "string \<Rightarrow> err option" where
  "requireProductionProject projectID =
     (if projectID = knownProdFirebaseProject then None
      else Some (Plain (''FIREBASE_PROJECT_ID must be the production project '' @ quoted knownProdFirebaseProject)))"

definition validateFirebaseUID :: "string \<Rightarrow> err option" where
  "validateFirebaseUID uid =
     (if length uid < 6 \<or> length uid > 128 then Some (Plain ''PROD_SMOKE_UID must be 6-128 characters'')
      else if list_all (\<lambda>c. char_between CHR ''a'' CHR ''z'' c \<or> char_between CHR ''A'' CHR ''Z'' c \<or>
                char_between CHR ''0'' CHR ''9'' c \<or> c = CHR ''-'' \<or> c = CHR ''_'') uid
      then None else Some (Plain ''PROD_SMOKE_UID contains invalid character''))"

text \<open>The flags are the number of positional arguments left.\<close>

definition verify_run :: "'f firebase_admin \<Rightarrow> err + nat \<Rightarrow> (string \<Rightarrow> string) \<Rightarrow> 'f \<Rightarrow> int \<times> 'f" where
  "verify_run fa flags getenv f =
     (case flags of
        Inl e \<Rightarrow> (exitCodeGuardFailed, f)
      | Inr nargs \<Rightarrow>
         (if nargs \<noteq> 0 then (exitCodeGuardFailed, f)
          else case RequireEnv getenv [envFirebaseProjectID, envFirebaseCredentialsFile, envProdSmokeUID] of
            Inl e \<Rightarrow> (exitCodeGuardFailed, f)
          | Inr vals \<Rightarrow>
              (let projectID = env_value vals envFirebaseProjectID;
                   credsFile = env_value vals envFirebaseCredentialsFile;
                   uid = env_value vals envProdSmokeUID
               in if requireProductionProject projectID \<noteq> None then (exitCodeGuardFailed, f)
                  else if validateFirebaseUID uid \<noteq> None then (exitCodeGuardFailed, f)
                  else case faInit fa credsFile projectID of
                    Some e \<Rightarrow> (1, f)
                  | None \<Rightarrow>
                      (case MarkEmailVerified fa uid f of
                         (Some e, f1) \<Rightarrow> (1, f1) | (None, f1) \<Rightarrow> (0, f1)))))"

section \<open>An ID token\<close>

definition identitytoolkitSignInURL :: string where
  "identitytoolkitSignInURL = ''https://identitytoolkit.googleapis.com/v1/accounts:signInWithCustomToken''"
definition jsonFieldToken :: string where "jsonFieldToken = ''token''"
definition jsonFieldReturnSecureToken :: string where "jsonFieldReturnSecureToken = ''returnSecureToken''"
definition jsonFieldIDToken :: string where "jsonFieldIDToken = ''idToken''"

text \<open>\<open>post\<close> is the HTTP client: the status and the value the body decodes to, if it does.\<close>

definition exchangeCustomToken ::
  "(string \<Rightarrow> json \<Rightarrow> (int \<times> json option) res) \<Rightarrow> string \<Rightarrow> string \<Rightarrow> string res" where
  "exchangeCustomToken post apiKey customToken =
     (case post (identitytoolkitSignInURL @ ''?key='' @ apiKey)
             (JObj [(jsonFieldToken, JStr customToken), (jsonFieldReturnSecureToken, JBool True)]) of
        Inl e \<Rightarrow> Inl (Wrap ''HTTP POST: '' e '''')
      | Inr (status, body) \<Rightarrow>
         (case (case body of Some (JObj kvs) \<Rightarrow> Some kvs | Some JNull \<Rightarrow> Some [] | _ \<Rightarrow> None) of
            None \<Rightarrow> Inl (Wrap ''decode response: '' json_error '''')
          | Some result \<Rightarrow>
             (if status \<noteq> 200 then Inl (Plain (''identitytoolkit returned HTTP '' @ Itoa status))
              else case map_of (rev result) jsonFieldIDToken of
                None \<Rightarrow> Inl (Plain (''response missing '' @ quoted jsonFieldIDToken @ '' field''))
              | Some v \<Rightarrow>
                  (case v of
                     JStr idToken \<Rightarrow>
                       (if idToken = []
                        then Inl (Plain (''response '' @ quoted jsonFieldIDToken @ '' field is not a non-empty string''))
                        else Inr idToken)
                   | _ \<Rightarrow> Inl (Plain (''response '' @ quoted jsonFieldIDToken @ '' field is not a non-empty string''))))))"

definition mintIDToken ::
  "'f firebase_admin \<Rightarrow> (string \<Rightarrow> json \<Rightarrow> (int \<times> json option) res) \<Rightarrow> string \<Rightarrow> string \<Rightarrow> string \<Rightarrow> string \<Rightarrow>
     'f \<Rightarrow> string res" where
  "mintIDToken fa post credsFile projectID apiKey uid f =
     (case faInit fa credsFile projectID of
        Some e \<Rightarrow> Inl e
      | None \<Rightarrow>
     (case faCustomToken fa uid f of
        Inl e \<Rightarrow> Inl (Wrap ''CustomToken: '' e '''')
      | Inr customToken \<Rightarrow>
         map_sum (\<lambda>e. Wrap ''signInWithCustomToken: '' e '''') id (exchangeCustomToken post apiKey customToken)))"

definition envFirebaseWebAPIKey :: string where "envFirebaseWebAPIKey = ''FIREBASE_WEB_API_KEY''"

text \<open>The exit status and what is printed to standard output.\<close>

definition token_run ::
  "'f firebase_admin \<Rightarrow> (string \<Rightarrow> json \<Rightarrow> (int \<times> json option) res) \<Rightarrow> err + string \<Rightarrow> (string \<Rightarrow> string) \<Rightarrow> 'f \<Rightarrow>
     int \<times> string" where
  "token_run fa post flags getenv f =
     (case flags of
        Inl e \<Rightarrow> (1, [])
      | Inr uid \<Rightarrow>
         (if TrimSpace uid = [] then (1, [])
          else let credsFile = TrimSpace (getenv envFirebaseCredentialsFile);
                   projectID = TrimSpace (getenv envFirebaseProjectID);
                   apiKey = TrimSpace (getenv envFirebaseWebAPIKey)
               in if credsFile = [] \<or> projectID = [] \<or> apiKey = [] then (1, [])
                  else case mintIDToken fa post credsFile projectID apiKey (TrimSpace uid) f of
                    Inl e \<Rightarrow> (1, []) | Inr idToken \<Rightarrow> (0, idToken)))"


section \<open>What the guards let through\<close>

text \<open>The guards in words: every variable has a value, the one line of the file that is not blank is
  the project, and its name holds none of the markers.\<close>

definition guarded_project :: "(string \<Rightarrow> string) \<Rightarrow> byte_stream res \<Rightarrow> string \<Rightarrow> bool" where
  "guarded_project getenv content p \<longleftrightarrow>
     (\<forall>k \<in> set allKeys. TrimSpace (getenv k) \<noteq> []) \<and> p = TrimSpace (getenv envFirebaseProjectID) \<and>
     (\<exists>f. content = Inr f \<and> snd (scan_lines f) = None \<and>
        filter (\<lambda>l. l \<noteq> []) (map TrimSpace (fst (scan_lines f))) = [p]) \<and>
     (\<forall>m \<in> {markerProd, markerProduction, markerLive}. \<not> Contains (ToLower p) m)"

lemma RequireEnv_Inr:
  "RequireEnv getenv ks = Inr vals \<Longrightarrow>
     (\<forall>k \<in> set ks. TrimSpace (getenv k) \<noteq> [] \<and> env_value vals k = TrimSpace (getenv k))"
proof (induction ks arbitrary: vals)
  case (Cons k ks)
  then obtain rest where "RequireEnv getenv ks = Inr rest" "vals = (k, TrimSpace (getenv k)) # rest"
    "TrimSpace (getenv k) \<noteq> []"
    by (cases "RequireEnv getenv ks") (auto simp: Let_def split: if_splits)
  with Cons.IH [of rest] show ?case by (auto simp: env_value_def)
qed simp

lemma CheckAllow_None:
  "CheckAllowProjectIDFile content p = None \<longleftrightarrow>
     (\<exists>f. content = Inr f \<and> snd (scan_lines f) = None \<and>
        filter (\<lambda>l. l \<noteq> []) (map TrimSpace (fst (scan_lines f))) = [p])"
proof (cases content)
  case (Inr f)
  obtain ls e where s: "scan_lines f = (ls, e)" by fastforce
  show ?thesis
    by (cases "filter (\<lambda>l. l \<noteq> []) (map TrimSpace ls)")
      (auto simp: Inr s CheckAllowProjectIDFile_def Let_def split: option.splits)
qed (simp add: CheckAllowProjectIDFile_def)

lemma RejectProductionMarker_None:
  "RejectProductionMarker p = None \<longleftrightarrow>
     (\<forall>m \<in> {markerProd, markerProduction, markerLive}. \<not> Contains (ToLower p) m)"
  by (auto simp: RejectProductionMarker_def find_None_iff)

lemma fixture_guards_Inr:
  assumes "fixture_guards flags getenv open_file = Inr vals"
  shows "\<exists>allowFile. flags = Inr allowFile \<and> TrimSpace allowFile \<noteq> [] \<and>
    guarded_project getenv (open_file allowFile) (env_value vals envFirebaseProjectID) \<and>
    (\<forall>k \<in> set allKeys. env_value vals k = TrimSpace (getenv k))"
proof -
  obtain allowFile where g: "flags = Inr allowFile" "RequireEnv getenv allKeys = Inr vals"
    "TrimSpace allowFile \<noteq> []"
    "CheckAllowProjectIDFile (open_file allowFile) (env_value vals envFirebaseProjectID) = None"
    "RejectProductionMarker (env_value vals envFirebaseProjectID) = None"
    using assms by (auto simp: fixture_guards_def Let_def split: sum.splits if_splits option.splits)
  note env = RequireEnv_Inr [OF g(2)]
  have "envFirebaseProjectID \<in> set allKeys" by (simp add: allKeys_def)
  with g env show ?thesis
    unfolding guarded_project_def CheckAllow_None RejectProductionMarker_None by blast
qed

section \<open>The users of the project\<close>

text \<open>The documented behaviour of the SDK, on what the project holds: the email and its verification by
  user. A call that succeeds has done what it says; one that fails may have done it or not (creation
  posts the user and then reads it back) but has touched nobody else; and not found means that the
  user is not there and nothing was changed.\<close>

type_synonym directory = "string \<rightharpoonup> string \<times> bool"

definition directory_law :: "'f firebase_admin \<Rightarrow> ('f \<Rightarrow> directory) \<Rightarrow> bool" where
  "directory_law fa users \<longleftrightarrow>
     (\<forall>uid email v f f'. faCreateUser fa uid email v f = (None, f') \<longrightarrow> users f' = (users f)(uid \<mapsto> (email, v))) \<and>
     (\<forall>uid email v f e f'. faCreateUser fa uid email v f = (Some e, f') \<longrightarrow>
        (users f')(uid := None) = (users f)(uid := None)) \<and>
     (\<forall>uid email v f f'. faUpdateUser fa uid (Some email) v f = (None, f') \<longrightarrow> users f' = (users f)(uid \<mapsto> (email, v))) \<and>
     (\<forall>uid v f f'. faUpdateUser fa uid None v f = (None, f') \<longrightarrow>
        (\<exists>email w. users f uid = Some (email, w) \<and> users f' = (users f)(uid \<mapsto> (email, v)))) \<and>
     (\<forall>uid email v f e f'. faUpdateUser fa uid email v f = (Some e, f') \<longrightarrow>
        (users f')(uid := None) = (users f)(uid := None)) \<and>
     (\<forall>uid f f'. faDeleteUser fa uid f = (None, f') \<longrightarrow> users f' = (users f)(uid := None)) \<and>
     (\<forall>uid f e f'. faDeleteUser fa uid f = (Some e, f') \<longrightarrow>
        (users f')(uid := None) = (users f)(uid := None) \<and>
        (faIsUserNotFound fa e \<longrightarrow> users f' = users f \<and> users f uid = None))"

lemma directory_lawD:
  assumes "directory_law fa users"
  shows "faCreateUser fa uid email v f = (None, f') \<Longrightarrow> users f' = (users f)(uid \<mapsto> (email, v))"
    and "faCreateUser fa uid email v f = (Some e, f') \<Longrightarrow> (users f')(uid := None) = (users f)(uid := None)"
    and "faUpdateUser fa uid (Some email) v f = (None, f') \<Longrightarrow> users f' = (users f)(uid \<mapsto> (email, v))"
    and "faDeleteUser fa uid f = (None, f') \<Longrightarrow> users f' = (users f)(uid := None)"
    and "faDeleteUser fa uid f = (Some e, f') \<Longrightarrow> faIsUserNotFound fa e \<Longrightarrow> users f' = users f \<and> users f uid = None"
  using assms unfolding directory_law_def by metis+

lemma CreateOrUpdateUser_users:
  assumes "directory_law fa users" "CreateOrUpdateUser fa uid email f = (None, f')"
  shows "users f' = (users f)(uid \<mapsto> (email, True))"
proof -
  obtain r f1 where c: "faCreateUser fa uid email True f = (r, f1)" by fastforce
  show ?thesis
  proof (cases r)
    case None
    with assms(2) c have "faCreateUser fa uid email True f = (None, f')" by (simp add: CreateOrUpdateUser_def)
    then show ?thesis by (rule directory_lawD(1) [OF assms(1)])
  next
    case (Some e)
    then have "faUpdateUser fa uid (Some email) True f1 = (None, f')"
      using assms(2) c by (auto simp: CreateOrUpdateUser_def split: if_splits prod.splits option.splits)
    then have "users f' = ((users f1)(uid := None))(uid \<mapsto> (email, True))"
      using directory_lawD(3) [OF assms(1)] by simp
    with directory_lawD(2) [OF assms(1) c [unfolded Some]] show ?thesis by simp
  qed
qed

lemma DeleteUser_users:
  assumes "directory_law fa users" "DeleteUser fa uid f = (None, f')"
  shows "users f' = (users f)(uid := None)"
proof -
  obtain r f1 where d: "faDeleteUser fa uid f = (r, f1)" by fastforce
  show ?thesis
  proof (cases r)
    case None
    with assms(2) d have "faDeleteUser fa uid f = (None, f')" by (simp add: DeleteUser_def)
    then show ?thesis by (rule directory_lawD(4) [OF assms(1)])
  next
    case (Some e)
    then have "f1 = f'" "faIsUserNotFound fa e"
      using assms(2) d by (auto simp: DeleteUser_def split: if_splits)
    then have "users f' = users f" "users f uid = None"
      using directory_lawD(5) [OF assms(1) d [unfolded Some]] by blast+
    then show ?thesis by (simp add: fun_upd_idem)
  qed
qed

lemma fold_updates: "fold (\<lambda>u m. m(k u \<mapsto> v u)) us m = m ++ map_of (rev (map (\<lambda>u. (k u, v u)) us))"
  by (induction us arbitrary: m) (simp_all add: map_add_upd_left map_add_def fun_eq_iff split: option.split)

lemma provision_users_all:
  assumes "directory_law fa users"
  shows "provision_users fa vals us f = (0, f') \<Longrightarrow>
    users f' = users f ++ map_of (rev (map (\<lambda>u. (env_value vals (fst u), (snd u @ syntheticEmailDomain, True))) us))"
  unfolding fold_updates [symmetric]
proof (induction us arbitrary: f)
  case (Cons u us)
  then obtain f1 where "CreateOrUpdateUser fa (env_value vals (fst u)) (snd u @ syntheticEmailDomain) f = (None, f1)"
    "provision_users fa vals us f1 = (0, f')"
    by (auto split: prod.splits option.splits)
  with Cons.IH CreateOrUpdateUser_users [OF assms] show ?case by simp
qed simp

lemma fold_deletes: "fold (\<lambda>k m. m(g k := None)) ks m = m |` (- g ` set ks)"
  by (induction ks arbitrary: m) (auto simp: restrict_map_def fun_eq_iff)

lemma delete_users_all:
  assumes "directory_law fa users"
  shows "delete_users fa vals ks f = (0, f') \<Longrightarrow> users f' = users f |` (- env_value vals ` set ks)"
  unfolding fold_deletes [symmetric]
proof (induction ks arbitrary: f)
  case (Cons k ks)
  then obtain f1 where "DeleteUser fa (env_value vals k) f = (None, f1)" "delete_users fa vals ks f1 = (0, f')"
    by (auto split: prod.splits option.splits)
  with Cons.IH DeleteUser_users [OF assms] show ?case by simp
qed simp

text \<open>C16. Setup and teardown of the test users. A setup that exits 0 leaves each of the four users with its
  synthetic address, verified, and every other user as it was (if two variables name one user the
  later role wins), so a second setup changes nothing more; a teardown that exits 0 leaves
  none of the four and every other user as it was.\<close>

theorem setup_and_teardown:
  assumes "directory_law fa users"
  shows "(setup_run fa flags getenv open_file f = (0, f\<^sub>1) \<longrightarrow>
      users f\<^sub>1 = users f ++ map_of (rev (map (\<lambda>u.
        (TrimSpace (getenv (fst u)), (snd u @ syntheticEmailDomain, True))) setup_users)) \<and>
      (setup_run fa flags getenv open_file f\<^sub>1 = (0, f\<^sub>2) \<longrightarrow> users f\<^sub>2 = users f\<^sub>1)) \<and>
    (teardown_run fa flags getenv open_file f = (0, f\<^sub>1) \<longrightarrow>
      users f\<^sub>1 = users f |` (- (\<lambda>u. TrimSpace (getenv (fst u))) ` set setup_users))"
proof (intro conjI impI)
  let ?new = "map_of (rev (map (\<lambda>u. (TrimSpace (getenv (fst u)), (snd u @ syntheticEmailDomain, True))) setup_users))"
  have prov: "users f' = users f ++ ?new" if run: "setup_run fa flags getenv open_file f = (0, f')" for f f'
  proof -
    obtain vals where v: "fixture_guards flags getenv open_file = Inr vals" "provision_users fa vals setup_users f = (0, f')"
      using run by (auto simp: setup_run_def exitCodeGuardFailed_def split: sum.splits option.splits)
    from provision_users_all [OF assms v(2)] fixture_guards_Inr [OF v(1)] show ?thesis
      by (auto simp: setup_users_def allKeys_def)
  qed
  assume run: "setup_run fa flags getenv open_file f = (0, f\<^sub>1)"
  show "users f\<^sub>1 = users f ++ ?new"
    by (rule prov [OF run])
  assume "setup_run fa flags getenv open_file f\<^sub>1 = (0, f\<^sub>2)"
  from prov [OF this] prov [OF run] show "users f\<^sub>2 = users f\<^sub>1"
    by (simp add: map_add_assoc [symmetric] map_add_subsumed1)
next
  assume run: "teardown_run fa flags getenv open_file f = (0, f\<^sub>1)"
  obtain vals where v: "fixture_guards flags getenv open_file = Inr vals"
    "delete_users fa vals [envTestUIDA, envTestUIDB, envTestUIDDenied, envTestUIDConflict] f = (0, f\<^sub>1)"
    using run by (auto simp: teardown_run_def exitCodeGuardFailed_def split: sum.splits option.splits)
  from delete_users_all [OF assms v(2)] fixture_guards_Inr [OF v(1)]
  show "users f\<^sub>1 = users f |` (- (\<lambda>u. TrimSpace (getenv (fst u))) ` set setup_users)"
    by (auto simp: setup_users_def allKeys_def)
qed

text \<open>C15. No fixture command changes a project that was not allowed. Whatever the Firebase SDK
  does, setup and teardown leave the project as it is unless every variable is set, the one line
  of the allow-file is the project and its name holds none of the markers \<^verbatim>\<open>prod\<close>,
  \<^verbatim>\<open>production\<close> and \<^verbatim>\<open>live\<close>; the smoke command touches only the production project. Yet the
  markers do not recognise that one: its name holds none of them.\<close>

theorem fixtures_guarded:
  "(snd (setup_run fa flags getenv open_file f) \<noteq> f \<or> snd (teardown_run fa flags getenv open_file f) \<noteq> f \<longrightarrow>
      (\<exists>allowFile p. flags = Inr allowFile \<and> guarded_project getenv (open_file allowFile) p)) \<and>
   (snd (verify_run fa vflags getenv f) \<noteq> f \<longrightarrow>
      TrimSpace (getenv envFirebaseProjectID) = knownProdFirebaseProject) \<and>
   RejectProductionMarker knownProdFirebaseProject = None"
proof (intro conjI impI)
  assume "snd (setup_run fa flags getenv open_file f) \<noteq> f \<or> snd (teardown_run fa flags getenv open_file f) \<noteq> f"
  then obtain vals where "fixture_guards flags getenv open_file = Inr vals"
    by (auto simp: setup_run_def teardown_run_def split: sum.splits)
  from fixture_guards_Inr [OF this]
  show "\<exists>allowFile p. flags = Inr allowFile \<and> guarded_project getenv (open_file allowFile) p" by blast
next
  assume "snd (verify_run fa vflags getenv f) \<noteq> f"
  then obtain vals where
    "RequireEnv getenv [envFirebaseProjectID, envFirebaseCredentialsFile, envProdSmokeUID] = Inr vals"
    "requireProductionProject (env_value vals envFirebaseProjectID) = None"
    by (auto simp: verify_run_def Let_def split: sum.splits if_splits option.splits)
  with RequireEnv_Inr [of getenv "[envFirebaseProjectID, envFirebaseCredentialsFile, envProdSmokeUID]" vals]
  show "TrimSpace (getenv envFirebaseProjectID) = knownProdFirebaseProject"
    by (simp add: requireProductionProject_def split: if_splits)
next
  show "RejectProductionMarker knownProdFirebaseProject = None" by code_simp
qed


section \<open>Concrete instances\<close>

definition demo_admin :: "directory firebase_admin" where
  "demo_admin =
     \<lparr>faInit = (\<lambda>_ _. None),
      faCreateUser = (\<lambda>uid email v f. if f uid = None then (None, f(uid \<mapsto> (email, v))) else (Some (Plain ''exists''), f)),
      faUpdateUser = (\<lambda>uid email v f. case f uid of
          None \<Rightarrow> (Some (Plain ''missing''), f)
        | Some (old, _) \<Rightarrow> (None, f(uid \<mapsto> (case email of None \<Rightarrow> old | Some em \<Rightarrow> em, v)))),
      faDeleteUser = (\<lambda>uid f. if f uid = None then (Some (Plain ''missing''), f) else (None, f(uid := None))),
      faIsUserNotFound = (\<lambda>e. e = Plain ''missing''), faCustomToken = (\<lambda>uid f. Inr uid)\<rparr>"

lemma demo_admin_law: "directory_law demo_admin id"
  by (auto simp: directory_law_def demo_admin_def split: if_splits option.splits)

definition demo_getenv :: "string \<Rightarrow> string" where
  "demo_getenv k = (if k = envFirebaseProjectID then ''algoedge-test'' else '' '' @ k)"

definition demo_file :: "string \<Rightarrow> byte_stream res" where
  "demo_file path = Inr (bytes_reader (newline # ''algoedge-test'' @ [carriage_return, newline]))"

definition demo_values :: "(string \<times> string) list" where
  "demo_values = (envFirebaseProjectID, ''algoedge-test'') # map (\<lambda>k. (k, k)) (tl allKeys)"

lemma demo_guards: "fixture_guards (Inr ''/allow'') demo_getenv demo_file = Inr demo_values"
proof -
  have env: "RequireEnv demo_getenv allKeys = Inr demo_values"
    "RejectProductionMarker (env_value demo_values envFirebaseProjectID) = None"
    "TrimSpace ''/allow'' \<noteq> []" "env_value demo_values envFirebaseProjectID = ''algoedge-test''"
    by code_simp+
  have split: "Split newline (newline # ''algoedge-test'' @ [carriage_return, newline]) =
      [[], ''algoedge-test'' @ [carriage_return], []]"
    "drop_cr [] = []" "drop_cr (''algoedge-test'' @ [carriage_return]) = ''algoedge-test''"
    by code_simp+
  have "scan_lines (bytes_reader (newline # ''algoedge-test'' @ [carriage_return, newline])) = ([[], ''algoedge-test''], None)"
    unfolding scan_lines_def bytes_reader_def byte_stream.simps split Let_def
    using split(2,3) by (simp add: MaxScanTokenSize_def)
  moreover have "TrimSpace ''algoedge-test'' = ''algoedge-test''" "TrimSpace [] = []" by code_simp+
  ultimately have "CheckAllowProjectIDFile (demo_file ''/allow'') ''algoedge-test'' = None"
    unfolding CheckAllow_None demo_file_def by simp
  with env show ?thesis by (simp add: fixture_guards_def Let_def)
qed

lemma demo_setup:
  "fst (setup_run demo_admin (Inr ''/allow'') demo_getenv demo_file Map.empty) = 0"
  "fst (teardown_run demo_admin (Inr ''/allow'') demo_getenv demo_file Map.empty) = 0"
  unfolding setup_run_def teardown_run_def demo_guards sum.case by code_simp+

lemma setup_and_teardown_witness:
  "snd (setup_run demo_admin (Inr ''/allow'') demo_getenv demo_file Map.empty) ''TEST_UID_A''
     = Some (''a@test.algoedge.local'', True) \<and>
   snd (teardown_run demo_admin (Inr ''/allow'') demo_getenv demo_file Map.empty) = Map.empty"
proof -
  have trim: "TrimSpace (demo_getenv envTestUIDA) = ''TEST_UID_A''" "TrimSpace (demo_getenv envTestUIDB) = ''TEST_UID_B''"
    "TrimSpace (demo_getenv envTestUIDDenied) = ''TEST_UID_DENIED''"
    "TrimSpace (demo_getenv envTestUIDConflict) = ''TEST_UID_CONFLICT''"
    by code_simp+
  obtain f g where run: "setup_run demo_admin (Inr ''/allow'') demo_getenv demo_file Map.empty = (0, f)"
    "teardown_run demo_admin (Inr ''/allow'') demo_getenv demo_file Map.empty = (0, g)"
    using demo_setup by (metis prod.collapse)
  have "f = Map.empty ++ map_of (rev (map (\<lambda>u.
      (TrimSpace (demo_getenv (fst u)), (snd u @ syntheticEmailDomain, True))) setup_users))"
    using setup_and_teardown [OF demo_admin_law, of "Inr ''/allow''" demo_getenv demo_file Map.empty f] run(1)
    by simp
  moreover have "g = Map.empty"
    using setup_and_teardown [OF demo_admin_law, of "Inr ''/allow''" demo_getenv demo_file Map.empty g] run(2)
    by simp
  ultimately show ?thesis using run by (simp add: setup_users_def syntheticEmailDomain_def trim)
qed

lemma fixtures_guarded_witness:
  "guarded_project demo_getenv (demo_file ''/allow'') (TrimSpace (demo_getenv envFirebaseProjectID))"
proof -
  have "snd (setup_run demo_admin (Inr ''/allow'') demo_getenv demo_file Map.empty) ''TEST_UID_A'' \<noteq> None"
    unfolding setup_run_def demo_guards sum.case by code_simp
  then have "snd (setup_run demo_admin (Inr ''/allow'') demo_getenv demo_file Map.empty) \<noteq> Map.empty" by auto
  then obtain p where "guarded_project demo_getenv (demo_file ''/allow'') p"
    using fixtures_guarded [of demo_admin "Inr ''/allow''" demo_getenv demo_file Map.empty "Inr 0"] by auto
  then show ?thesis unfolding guarded_project_def by auto
qed

end
