(* ===== verification/Spec2Isabelle.thy ===== *)
theory Spec2Isabelle
  imports Stats Backtest_Flow Sync_Command Route_Properties Startup Fixture_Commands
begin

text \<open>
  \<^bold>\<open>AlgoEdge F&O backend: a verification development of the Go server under \<^verbatim>\<open>src/\<close>.\<close>

  The server lets a user backtest one of its built-in trading strategies on historical bars. A
  request passes the middleware of \<^verbatim>\<open>internal/routes\<close> and reaches a handler; a submission goes to
  \<^verbatim>\<open>services.BacktestService.Submit\<close>, which checks limits, resolves the strategy's instruments,
  fetches their bars, stores a run and hands it to a background goroutine; that goroutine runs
  the engine (\<^verbatim>\<open>internal/engine\<close>) and stores the result, which the user then polls. Users sign in
  with a Firebase token and get an access token and a rotating refresh token. A second command,
  \<^verbatim>\<open>cmd/sync\<close>, fills the instruments and bars from the files of the exchange
  (\<^verbatim>\<open>internal/providers/nse\<close>). Everything is kept in PostgreSQL through \<^verbatim>\<open>internal/storage\<close>.

  \<^bold>\<open>Theories, from the bottom up\<close>

  \<^item> \<open>Prelude\<close>: 64-bit Go integers, durations and times as \<open>int\<close> with the wrap-around written
    out, and generic lemmas. \<open>F64\<close>: IEEE binary64 numbers as an executable data type, with the
    correctly rounded operations the program uses; \<open>F64_Order\<close>: their order, monotonicity and
    exactness lemmas and the type class instances.
  \<^item> \<open>Models\<close>: the engine's types (\<^verbatim>\<open>models/candle.go\<close>, \<^verbatim>\<open>backtest.go\<close>, \<^verbatim>\<open>strategy.go\<close>).
    \<open>Charges\<close>: \<^verbatim>\<open>engine/charges.go\<close>. \<open>Indicators\<close>: \<^verbatim>\<open>engine/indicators.go\<close>. \<open>Evaluator\<close>:
    \<^verbatim>\<open>engine/evaluator.go\<close>. \<open>Backtester\<close>: \<^verbatim>\<open>engine/backtest.go\<close>. \<open>Stats\<close>:
    \<^verbatim>\<open>engine/stats.go\<close>. Loops over bars are folds or recursions over indices; slices are lists.
  \<^item> \<open>Errors\<close>: Go errors with their wrapping chains, \<^verbatim>\<open>errors.Is\<close>, and the functions on text
    that need no more. \<open>GoStrings\<close>: the rest of \<^verbatim>\<open>strings\<close> and \<^verbatim>\<open>strconv\<close> the program uses.
    \<open>Json\<close>: JSON documents as values, with the decoding rules of \<^verbatim>\<open>encoding/json\<close> for
    structs. \<open>Strconv\<close>: parsing numbers. \<open>Csv\<close>: streams of bytes and \<^verbatim>\<open>encoding/csv\<close>. \<open>GoTime\<close>:
    the calendar, layouts, parsing and printing of times.
    \<open>Float8_Numeric\<close>: PostgreSQL's cast of a double to \<^verbatim>\<open>NUMERIC\<close>.
  \<^item> \<open>Database\<close>: rows (\<^verbatim>\<open>internal/entities\<close>), domain types (\<^verbatim>\<open>internal/models\<close>), and the database
    as a record of tables. \<open>Backtest_Rows\<close>: \<^verbatim>\<open>storage/backtests_mapper.go\<close>,
    \<^verbatim>\<open>backtests_trades_dto.go\<close>. \<open>Backtest_Store\<close>: \<^verbatim>\<open>storage/backtests.go\<close>. \<open>Stores\<close>: the
    stores of candles, instruments, strategies, sync runs and health. \<open>Strategies\<close>: the sources
    of \<^verbatim>\<open>models/strategy_sources.go\<close>, the built-ins and the registry of \<^verbatim>\<open>internal/strategies\<close>.
  \<^item> \<open>Backtest_Service\<close>: \<^verbatim>\<open>services/backtest.go\<close>, over a record of its collaborators;
    \<open>the_service\<close> fills it as \<^verbatim>\<open>cmd/server\<close> does. \<open>Backtest_Lifecycle\<close>: the server as a
    transition system over stored rows and waiting jobs. \<open>Backtest_Flow\<close>: one submission
    followed to its result. \<open>Strategy_Service\<close>: \<^verbatim>\<open>services/strategy.go\<close> and \<^verbatim>\<open>health.go\<close>.
  \<^item> \<open>Auth_Store\<close>: \<^verbatim>\<open>storage/users.go\<close> and \<^verbatim>\<open>refresh_tokens.go\<close>. \<open>Tokens\<close>: SHA-256, base64 and
    hexadecimal text as the refresh tokens use them. \<open>Auth_Service\<close>: \<^verbatim>\<open>services/auth_*.go\<close> and
    \<^verbatim>\<open>firebaseauth/verifier.go\<close>. \<open>Auth_Flow\<close>: the store against a map of credentials. \<open>Auth_Http\<close>:
    \<^verbatim>\<open>handlers/auth*.go\<close>, \<^verbatim>\<open>middleware/auth.go\<close> and \<^verbatim>\<open>identity.go\<close>.
  \<^item> \<open>Nse_Files\<close>: the parsers of the exchange's files (\<^verbatim>\<open>providers/nse\<close>, \<^verbatim>\<open>csvutil\<close>). \<open>Nse_Dates\<close>:
    their dates. \<open>Nse_Provider\<close>, \<open>Nse_Sync\<close>, \<open>Nse_Cycle\<close>: downloads, the choice of instruments and
    bars, and a whole synchronisation. \<open>Sync_Service\<close>: \<^verbatim>\<open>services/sync.go\<close> and \<^verbatim>\<open>market.go\<close>.
    \<open>Sync_Command\<close>: \<^verbatim>\<open>cmd/sync\<close>.
  \<^item> \<open>Api_Response\<close>: the response builders of \<^verbatim>\<open>internal/handlers\<close>. \<open>Api_Handlers\<close>: the handlers of
    backtests, strategies, health and configuration. \<open>Rate_Limit\<close>: \<^verbatim>\<open>middleware/rate_limit.go\<close>.
    \<open>Routes\<close>: \<^verbatim>\<open>routes/routes.go\<close> with the middleware around every handler; \<open>handle_request\<close> is
    the server as a function of a request and its state. \<open>Api_Properties\<close> and
    \<open>Route_Properties\<close>: what these promise.
  \<^item> \<open>Config\<close>: \<^verbatim>\<open>internal/config/config.go\<close>. \<open>Startup\<close>: \<^verbatim>\<open>database/database.go\<close>,
    \<^verbatim>\<open>logging/logging.go\<close>, \<^verbatim>\<open>cmd/server\<close>, \<^verbatim>\<open>cmd/healthcheck\<close>. \<open>Fixture_Commands\<close>:
    \<^verbatim>\<open>internal/firebasefixture\<close> and the four commands that use Firebase.

  \<^bold>\<open>Correspondence\<close>

  A Go struct is a record (field names get a one- or two-letter prefix, because selectors share
  one name space), a pointer or nullable column an option, a method that can fail a function to
  \<open>err + 'a\<close> (\<open>'a res\<close>), a method of a store a function on the database \<open>db\<close> that returns its
  result and the new database. Definitions keep the names of the functions they translate; where
  one Go function is split, the parts are named in the manifest with the lines they translate.
  Panics are values as well (\<open>call\<close> of the engine, the service and the handlers, \<open>Inl\<close> in the
  registry), and so are the exit statuses of the commands. What a component keeps in memory is
  part of the state it is given: the counters of the rate limiter, the cache of the NSE provider,
  the source of random bytes.

  \<^bold>\<open>Lemma groups\<close>

  The engine: exactness of the rolling sums on whole numbers, warm-up and range of the indicators,
  no look-ahead of the evaluators (locale \<open>bar_evaluator\<close>), scheduling as a join of signals and
  bars, the invariants of the run (each trade justified, in order, totals, drawdown), charges
  and their bounds (locale \<open>charge_calculator\<close>), statistics and charts against list
  specifications. Storage: round trips of rows and documents, tenant isolation, pagination,
  idempotent and atomic batches (locale \<open>batch_step\<close>). The service: what a submission does,
  proved once against the contract of the repository (locale \<open>run_repository\<close>, which the
  store's model interprets), and the invariant and refinement of the transition system.
  Authentication: the token store, call by call and answer by answer, as a refinement of a map from
  digests to credentials, who gets a session, which refreshes succeed, and that a spent token never does. Synchronisation: the parsers
  return and do not depend on the order of columns, printed dates are read back, a sync is
  recorded, a day is synchronised once. The interface: pages of trades, the requests that pass the
  binding, readiness, and, for the server as a whole, that nothing is answered without a token,
  that tenants do not see each other (by composition of \<open>blind\<close> computations) and that the
  sign-in routes keep to their budgets. Start-up: only a checked configuration serves, errors
  do not print secrets, and the fixture commands change only the project they are allowed to.

  \<^bold>\<open>Assumptions and bounds\<close>

  \<^item> Database: a statement either fails as a whole, changing nothing, or does what its SQL says;
    which ones fail is an input (\<open>db_faults\<close>), so theorems cover every pattern of failures unless
    they say otherwise. Rows an \<^verbatim>\<open>ORDER BY\<close> leaves tied come in insertion order, which PostgreSQL
    does not promise: the theorem on pages asks that there be no ties. Text is ordered by bytes,
    the session is in UTC. \<^verbatim>\<open>NUMERIC\<close> and \<^verbatim>\<open>jsonb\<close> lose the sign of a zero; a parameter the driver
    sends as \<^verbatim>\<open>NUMERIC\<close> is the shortest decimal of the double and reads back as it, while the bulk
    insert of candles casts a \<^verbatim>\<open>DOUBLE PRECISION\<close> column, which keeps fifteen digits.
  \<^item> Concurrency: one submission and one execution are single steps of the transition system. The
    goroutines share no memory but the database, each execution works on a row of its own, and
    a statement is atomic, so finer interleavings reach the same rows. Requests are handled
    one after the other; the limiter's mutex makes its operations a sequence.
  \<^item> Parameters: the JWT library, the Firebase SDK, the text of a UUID, the HTTP exchange, the
    archive format of a downloaded file, the order in which Go visits a map, the JSON decoder of
    a body, the driver and the migration library. Where a theorem needs more of one than its
    type, a named law says so (\<open>jwt_law\<close>, \<open>uuid_law\<close>, \<open>directory_law\<close>, \<open>foreign_errors\<close>), with an
    instance beside its witness.
  \<^item> Text is a list of bytes; white space and letter case are those of ASCII.
  \<^item> JSON is modelled at the level of values: numbers are exact and duplicate keys are resolved
    as the decoder does. The option leg of a user strategy is an opaque document.
  \<^item> No fuel is used. Recursions over data are total; a loop that may run forever is a
    \<^theory_text>\<open>partial_function\<close> into an option: the reading of a CSV stream (\<open>parsers_return\<close> says when
    it returns), and with it the days of the sync command.

  \<^bold>\<open>Not modelled\<close>

  The text of log records, the output of the commands, flag parsing, the loading of a \<^verbatim>\<open>.env\<close>
  file, the handling of a connection by gin (redirects of a trailing slash, the text of a 404,
  trusted proxies), the timers and goroutines themselves, and the third-party libraries named
  above. Of \<^verbatim>\<open>internal/providers/nse\<close> the decompression of an archive is a parameter.
\<close>

end
